(* ===== verification/Prelude.thy ===== *)
theory Prelude
  imports Main "HOL-Library.Word" "HOL-Library.AList" "HOL-Library.Monad_Syntax"
begin

text \<open>
  Shared vocabulary of the development.

  \<^item> A Go \<^verbatim>\<open>map[K]V\<close> is an association list with distinct keys. The order of the list
    stands for the iteration order of \<^verbatim>\<open>range\<close>, which Go leaves open: where a result does
    not depend on it, the development proves so. \<^verbatim>\<open>m[k] = v\<close> is \<^const>\<open>AList.update\<close>,
    \<^verbatim>\<open>delete(m, k)\<close> is \<^const>\<open>AList.delete\<close>, \<^verbatim>\<open>v, ok := m[k]\<close> is \<^const>\<open>map_of\<close>.
  \<^item> A nilable pointer is an \<open>option\<close>; a call that can end in a run-time panic (a nil
    dereference, an index out of range) returns an \<open>option\<close> whose value \<^const>\<open>None\<close> is
    the panic.
  \<^item> An \<^verbatim>\<open>error\<close> result is a sum, \<^const>\<open>Inl\<close> carrying the error.
  \<^item> \<^verbatim>\<open>uint64\<close> is \<open>64 word\<close>; signed 64-bit arithmetic that may wrap is written out by
    \<open>int64\<close> below.
\<close>

section \<open>Types and collections of facts\<close>

type_synonym u64 = "64 word"
type_synonym ('k, 'v) gomap = "('k \<times> 'v) list"
type_synonym 'a panics = "'a option"

named_theorems go_map "lookups after updates of association-list maps"
named_theorems go_defs "definitions unfolded by symbolic execution of the models"
named_theorems keeps "preservation of well-formedness by the operations"

section \<open>Go maps\<close>

definition wf_map :: "('k, 'v) gomap \<Rightarrow> bool" where
  "wf_map m = distinct (map fst m)"

definition gokeys :: "('k, 'v) gomap \<Rightarrow> 'k set" where
  "gokeys m = fst ` set m"

lemma wf_map_Nil [simp]: "wf_map []"
  by (simp add: wf_map_def)

lemma wf_map_update [keeps, simp]: "wf_map m \<Longrightarrow> wf_map (AList.update k v m)"
  by (simp add: wf_map_def distinct_update)

lemma wf_map_delete [keeps, simp]: "wf_map m \<Longrightarrow> wf_map (AList.delete k m)"
  by (simp add: wf_map_def distinct_delete)

lemma map_of_update [go_map, simp]:
  "map_of (AList.update k v m) = (map_of m)(k \<mapsto> v)"
  by (rule update_conv')

lemma map_of_delete [go_map, simp]:
  "map_of (AList.delete k m) = (map_of m)(k := None)"
  by (rule delete_conv')

lemma keys_delete: "fst ` set (AList.delete k m) = fst ` set m - {k}"
  by (auto simp: AList.delete_eq)

lemma gokeys_dom [simp]: "gokeys m = dom (map_of m)"
  by (simp add: gokeys_def dom_map_of_conv_image_fst)

lemma wf_map_in_set:
  "wf_map m \<Longrightarrow> (k, v) \<in> set m \<longleftrightarrow> map_of m k = Some v"
  unfolding wf_map_def by (auto intro: map_of_is_SomeI dest: map_of_SomeD)

lemma wf_map_perm:
  assumes "wf_map m" "wf_map m'" "set m = set m'"
  shows "map_of m = map_of m'"
proof
  fix k
  show "map_of m k = map_of m' k"
    using assms wf_map_in_set [of m k] wf_map_in_set [of m' k]
    by (cases "map_of m k"; cases "map_of m' k") auto
qed

lemma set_update_subset: "set (AList.update k v m) \<subseteq> insert (k, v) (set m)"
  by (induction m) auto

section \<open>Slices\<close>

text \<open>Indexing a slice: out of range is a panic.\<close>

definition go_nth :: "'a list \<Rightarrow> nat \<Rightarrow> 'a panics" where
  "go_nth xs i = (if i < length xs then Some (xs ! i) else None)"

lemma go_nth_Some [simp]: "i < length xs \<Longrightarrow> go_nth xs i = Some (xs ! i)"
  by (simp add: go_nth_def)

lemma go_nth_eq_Some: "go_nth xs i = Some x \<longleftrightarrow> i < length xs \<and> xs ! i = x"
  by (auto simp: go_nth_def)

lemma go_nth_None: "go_nth xs i = None \<longleftrightarrow> length xs \<le> i"
  by (auto simp: go_nth_def)

lemma go_nth_update:
  "go_nth (xs[i := x]) j = (if j = i \<and> i < length xs then Some x else go_nth xs j)"
  by (auto simp: go_nth_def)

section \<open>Unsigned 64-bit integers\<close>

lemma unat_u64: "unat (w :: u64) < 2 ^ 64"
  by (rule order_less_le_trans [OF unsigned_less]) simp

lemma u64_succ_greater: "w < w + 1 \<longleftrightarrow> w \<noteq> - 1"
  for w :: u64
proof (cases "w = - 1")
  case True
  then show ?thesis by simp
next
  case False
  then have "1 + w \<noteq> 0" by (metis add.commute eq_neg_iff_add_eq_0)
  then have "unat (1 + w) = Suc (unat w)" by (rule unatSuc)
  with False show ?thesis by (simp add: word_less_nat_alt add.commute)
qed

section \<open>Signed 64-bit integers\<close>

definition int64 :: "int \<Rightarrow> int" where
  "int64 x = (x + 2 ^ 63) mod 2 ^ 64 - 2 ^ 63"

definition in_int64 :: "int \<Rightarrow> bool" where
  "in_int64 x = (- (2 ^ 63) \<le> x \<and> x < 2 ^ 63)"

lemma int64_id [simp]: "in_int64 x \<Longrightarrow> int64 x = x"
  by (simp add: in_int64_def int64_def)

lemma int64_range: "in_int64 (int64 x)"
proof -
  have "0 \<le> (x + 2 ^ 63) mod 2 ^ 64" "(x + 2 ^ 63) mod 2 ^ 64 < (2 ^ 64 :: int)"
    by (rule pos_mod_sign pos_mod_bound, simp)+
  then show ?thesis unfolding in_int64_def int64_def by simp
qed

text \<open>Go's integer division truncates towards zero; by zero it panics.\<close>

definition go_div :: "int \<Rightarrow> int \<Rightarrow> int panics" where
  "go_div a b = (if b = 0 then None else Some (sgn a * sgn b * (\<bar>a\<bar> div \<bar>b\<bar>)))"

section \<open>Folding a step that may fail\<close>

text \<open>A \<^verbatim>\<open>for ... range\<close> loop whose body may return early with an error.\<close>

fun fold_err :: "('a \<Rightarrow> 's \<Rightarrow> 'e + 's) \<Rightarrow> 'a list \<Rightarrow> 's \<Rightarrow> 'e + 's" where
  "fold_err f [] s = Inr s"
| "fold_err f (x # xs) s = (case f x s of Inl e \<Rightarrow> Inl e | Inr s' \<Rightarrow> fold_err f xs s')"

lemma fold_err_append:
  "fold_err f (xs @ ys) s = (case fold_err f xs s of Inl e \<Rightarrow> Inl e | Inr s' \<Rightarrow> fold_err f ys s')"
  by (induction xs arbitrary: s) (auto split: sum.splits)

lemma fold_err_invariant:
  assumes "fold_err f xs s = Inr s'" and "I s"
    and "\<And>x s s'. x \<in> set xs \<Longrightarrow> I s \<Longrightarrow> f x s = Inr s' \<Longrightarrow> I s'"
  shows "I s'"
  using assms
proof (induction xs arbitrary: s)
  case Nil
  then show ?case by simp
next
  case (Cons x xs)
  from Cons.prems(1) obtain t where t: "f x s = Inr t" "fold_err f xs t = Inr s'"
    by (auto split: sum.splits)
  have "I t" by (rule Cons.prems(3) [OF _ Cons.prems(2) t(1)]) simp
  then show ?case by (rule Cons.IH [OF t(2)]) (rule Cons.prems(3), auto)
qed

end
