(* ===== verification/GoStrings.thy ===== *)
theory GoStrings
  imports Prelude
begin

text \<open>
  The parts of Go's \<^verbatim>\<open>strings\<close>, \<^verbatim>\<open>strconv\<close> and \<^verbatim>\<open>fmt\<close> packages that the program uses on
  versions, offsets and map keys: \<^verbatim>\<open>strings.Split\<close> with a one-byte separator, base-10
  \<^verbatim>\<open>strconv.ParseUint\<close> and \<^verbatim>\<open>strconv.ParseInt\<close> with a 64-bit size, and the \<^verbatim>\<open>%d\<close> verb.
\<close>

section \<open>Splitting\<close>

fun split_on :: "char \<Rightarrow> string \<Rightarrow> string list" where
  "split_on c [] = [[]]"
| "split_on c (x # xs) =
     (if x = c then [] # split_on c xs
      else (case split_on c xs of [] \<Rightarrow> [[x]] | w # ws \<Rightarrow> (x # w) # ws))"

lemma split_on_nonempty [simp]: "split_on c s \<noteq> []"
  by (induction s) (auto split: list.splits)

lemma split_on_none: "c \<notin> set s \<Longrightarrow> split_on c s = [s]"
  by (induction s) auto

lemma split_on_append:
  "c \<notin> set s \<Longrightarrow> split_on c (s @ c # t) = s # split_on c t"
  by (induction s) auto

section \<open>Decimal digits\<close>

definition digit_char :: "nat \<Rightarrow> char" where
  "digit_char d = char_of (48 + d)"

definition digit_val :: "char \<Rightarrow> nat option" where
  "digit_val c = (let n = (of_char c :: nat) in if 48 \<le> n \<and> n \<le> 57 then Some (n - 48) else None)"

lemma digit_val_char [simp]: "d < 10 \<Longrightarrow> digit_val (digit_char d) = Some d"
  by (simp add: digit_val_def digit_char_def)

lemma digit_val_lt: "digit_val c = Some d \<Longrightarrow> d < 10"
  by (auto simp: digit_val_def Let_def split: if_splits)

lemma digit_val_eq_Some:
  "digit_val c = Some d \<longleftrightarrow> d < 10 \<and> c = digit_char d"
proof
  assume a: "digit_val c = Some d"
  then have n: "48 \<le> (of_char c :: nat)" "(of_char c :: nat) = 48 + d"
    by (auto simp: digit_val_def Let_def split: if_splits)
  have "c = char_of (of_char c :: nat)" by simp
  with n have "c = digit_char d" by (simp add: digit_char_def)
  with a digit_val_lt show "d < 10 \<and> c = digit_char d" by blast
qed simp

text \<open>\<^verbatim>\<open>fmt.Sprintf("%d", n)\<close> of a non-negative integer.\<close>

function dec :: "nat \<Rightarrow> string" where
  "dec n = (if n < 10 then [digit_char n] else dec (n div 10) @ [digit_char (n mod 10)])"
  by pat_completeness auto
termination
  by (relation "measure id") auto

declare dec.simps [simp del]

lemma dec_nonempty [simp]: "dec n \<noteq> []"
  by (subst dec.simps) simp

lemma dec_digits: "c \<in> set (dec n) \<Longrightarrow> \<exists>d < 10. c = digit_char d"
proof (induction n rule: dec.induct)
  case (1 n)
  show ?case
  proof (cases "n < 10")
    case True
    with "1.prems" show ?thesis by (auto simp: dec.simps [of n])
  next
    case False
    with "1.prems" have "c \<in> set (dec (n div 10)) \<or> c = digit_char (n mod 10)"
      by (auto simp: dec.simps [of n])
    then show ?thesis
    proof
      assume "c \<in> set (dec (n div 10))"
      then show ?thesis using "1.IH" False by blast
    next
      assume "c = digit_char (n mod 10)"
      then show ?thesis by (intro exI [of _ "n mod 10"]) simp
    qed
  qed
qed

lemma digit_char_val: "d < 10 \<Longrightarrow> (of_char (digit_char d) :: nat) = 48 + d"
  by (simp add: digit_char_def)

lemma dec_no_char:
  assumes "digit_val c = None"
  shows "c \<notin> set (dec n)"
  using assms dec_digits [of c n] by auto

section \<open>Parsing\<close>

datatype num_error = ErrSyntax | ErrRange

text \<open>
  The digit loop of \<^verbatim>\<open>ParseUint\<close> for base 10: a value above \<^verbatim>\<open>maxVal\<close> ends it with
  \<^const>\<open>ErrRange\<close> before later bytes are looked at.
\<close>

fun parse_digits :: "nat \<Rightarrow> nat \<Rightarrow> string \<Rightarrow> num_error + nat" where
  "parse_digits mx n [] = Inr n"
| "parse_digits mx n (c # cs) =
     (case digit_val c of
        None \<Rightarrow> Inl ErrSyntax
      | Some d \<Rightarrow> if n * 10 + d > mx then Inl ErrRange else parse_digits mx (n * 10 + d) cs)"

definition ParseUint :: "string \<Rightarrow> num_error + nat" where
  "ParseUint s = (if s = [] then Inl ErrSyntax else parse_digits (2 ^ 64 - 1) 0 s)"

text \<open>
  \<^verbatim>\<open>ParseInt(s, 10, 64)\<close> returns a value beside its error: 0 for a syntax error, the nearest
  bound for a value out of range.
\<close>

definition ParseInt :: "string \<Rightarrow> num_error option \<times> int" where
  "ParseInt s =
     (if s = [] then (Some ErrSyntax, 0)
      else let neg = (hd s = CHR ''-'');
               r = (if hd s = CHR ''-'' \<or> hd s = CHR ''+'' then tl s else s);
               un = ParseUint r
        in if un = Inl ErrSyntax then (Some ErrSyntax, 0)
           else let v = (case un of Inl _ \<Rightarrow> 2 ^ 64 - 1 | Inr n \<Rightarrow> n)
             in if \<not> neg \<and> v \<ge> 2 ^ 63 then (Some ErrRange, 2 ^ 63 - 1)
                else if neg \<and> v > 2 ^ 63 then (Some ErrRange, - (2 ^ 63))
                else (None, if neg then - int v else int v))"

lemma ParseInt_range: "in_int64 (snd (ParseInt s))"
  unfolding in_int64_def ParseInt_def Let_def
  by (auto split: sum.splits if_splits)

lemma parse_digits_snoc:
  "parse_digits mx a (s @ [c]) =
     (case parse_digits mx a s of
        Inl e \<Rightarrow> Inl e
      | Inr n \<Rightarrow> parse_digits mx n [c])"
  by (induction s arbitrary: a) (auto split: option.splits sum.splits)

lemma parse_digits_dec: "n \<le> mx \<Longrightarrow> parse_digits mx 0 (dec n) = Inr n"
proof (induction n rule: dec.induct)
  case (1 n)
  show ?case
  proof (cases "n < 10")
    case True
    with "1.prems" show ?thesis by (simp add: dec.simps [of n])
  next
    case False
    from "1.prems" have "n div 10 \<le> mx" by linarith
    with "1.IH" False have "parse_digits mx 0 (dec (n div 10)) = Inr (n div 10)" by simp
    moreover have "n div 10 * 10 + n mod 10 = n" by simp
    ultimately show ?thesis using False "1.prems"
      by (simp add: dec.simps [of n] parse_digits_snoc)
  qed
qed

lemma ParseUint_dec: "n < 2 ^ 64 \<Longrightarrow> ParseUint (dec n) = Inr n"
  by (simp add: ParseUint_def parse_digits_dec)

lemma dec_inject: "dec m = dec n \<longleftrightarrow> m = n"
proof
  assume eq: "dec m = dec n"
  define k where "k = m + n"
  have "parse_digits k 0 (dec m) = Inr m" "parse_digits k 0 (dec n) = Inr n"
    by (rule parse_digits_dec, simp add: k_def)+
  with eq show "m = n" by (metis sum.inject(2))
qed simp

lemma parse_digits_bound: "parse_digits mx a s = Inr n \<Longrightarrow> a \<le> mx \<Longrightarrow> n \<le> mx"
  by (induction s arbitrary: a) (auto split: option.splits if_splits)

lemma ParseUint_bound: "ParseUint s = Inr n \<Longrightarrow> n < 2 ^ 64"
  using parse_digits_bound [of "2 ^ 64 - 1" 0 s n] by (auto simp: ParseUint_def split: if_splits)

text \<open>\<^verbatim>\<open>%d\<close> of a signed integer.\<close>

definition decimal :: "int \<Rightarrow> string" where
  "decimal i = (if i < 0 then CHR ''-'' # dec (nat (- i)) else dec (nat i))"

lemma digit_val_minus [simp]: "digit_val CHR ''-'' = None"
  by (simp add: digit_val_def)

lemma digit_val_at [simp]: "digit_val CHR ''@'' = None"
  by (simp add: digit_val_def)

lemma digit_val_dot [simp]: "digit_val CHR ''.'' = None"
  by (simp add: digit_val_def)

lemma decimal_inject: "decimal i = decimal j \<longleftrightarrow> i = j"
proof
  assume a: "decimal i = decimal j"
  have minus: "CHR ''-'' \<notin> set (dec n)" for n by (rule dec_no_char) simp
  have ne: "CHR ''-'' # dec m \<noteq> dec n" for m n
  proof
    assume "CHR ''-'' # dec m = dec n"
    then have "CHR ''-'' \<in> set (dec n)" by (metis list.set_intros(1))
    with minus show False by blast
  qed
  show "i = j"
    using a ne [of "nat (- i)" "nat j"] ne [of "nat (- j)" "nat i", symmetric]
    by (simp add: decimal_def dec_inject split: if_splits)
qed simp

lemma decimal_no_at: "CHR ''@'' \<notin> set (decimal i)"
  by (auto simp: decimal_def dec_no_char)

end
