(* ===== verification/Version.thy ===== *)
theory Version
  imports GoStrings
begin

text \<open>
  \<^verbatim>\<open>pkg/bundle/version/version.go\<close>: the version a status bundle carries. A version is a pair
  of 64-bit counters; bundles are ordered by generation first and by value second. The
  counters wrap around at \<^verbatim>\<open>2^64\<close>.
\<close>

section \<open>Definitions\<close>

record Version =
  Generation :: u64
  Value :: u64

definition NewVersion :: Version where
  "NewVersion = \<lparr>Generation = 0, Value = 0\<rparr>"

definition Equals :: "Version \<Rightarrow> Version \<Rightarrow> bool" where
  "Equals this other = (Generation this = Generation other \<and> Value this = Value other)"

definition NewerThan :: "Version \<Rightarrow> Version option \<Rightarrow> bool" where
  "NewerThan this other =
     (case other of
        None \<Rightarrow> True
      | Some o' \<Rightarrow>
          if Equals this o' then False
          else if Generation this > Generation o' then True
          else if Generation this < Generation o' then False
          else Value this > Value o')"

text \<open>The receiver may be nil in the two value comparisons: reading its field then panics.\<close>

definition EqualValue :: "Version option \<Rightarrow> Version option \<Rightarrow> bool panics" where
  "EqualValue this other =
     (case other of
        None \<Rightarrow> Some False
      | Some o' \<Rightarrow> map_option (\<lambda>t. Value t = Value o') this)"

definition NewerValueThan :: "Version option \<Rightarrow> Version option \<Rightarrow> bool panics" where
  "NewerValueThan this other =
     (case other of
        None \<Rightarrow> Some True
      | Some o' \<Rightarrow> map_option (\<lambda>t. Value t > Value o') this)"

definition version_String :: "Version \<Rightarrow> string" where
  "version_String v = dec (unat (Generation v)) @ CHR ''.'' # dec (unat (Value v))"

datatype version_error = MalformedVersion string | VersionNumError num_error

definition VersionFrom :: "string \<Rightarrow> version_error + Version" where
  "VersionFrom strVersion =
     (case split_on CHR ''.'' strVersion of
        [g, v] \<Rightarrow>
          (case ParseUint g of
             Inl e \<Rightarrow> Inl (VersionNumError e)
           | Inr generation \<Rightarrow>
               (case ParseUint v of
                  Inl e \<Rightarrow> Inl (VersionNumError e)
                | Inr val \<Rightarrow> Inr \<lparr>Generation = of_nat generation, Value = of_nat val\<rparr>))
      | _ \<Rightarrow> Inl (MalformedVersion strVersion))"

definition Incr :: "Version \<Rightarrow> Version" where
  "Incr v = v\<lparr>Value := Value v + 1\<rparr>"

definition Next :: "Version \<Rightarrow> Version" where
  "Next v = v\<lparr>Generation := Generation v + 1\<rparr>"

definition Reset :: "Version \<Rightarrow> Version" where
  "Reset v = v\<lparr>Generation := 0, Value := 0\<rparr>"

definition InitGen :: "Version \<Rightarrow> bool" where
  "InitGen v = (Generation v = 0)"

section \<open>The order of versions\<close>

instantiation Version_ext :: (linorder) linorder
begin
definition less_eq_Version_ext :: "('a::linorder) Version_scheme \<Rightarrow> 'a Version_scheme \<Rightarrow> bool" where
  "less_eq_Version_ext a b =
     (Generation a < Generation b \<or> Generation a = Generation b \<and>
       (Value a < Value b \<or> Value a = Value b \<and> Version.more a \<le> Version.more b))"
definition less_Version_ext :: "('a::linorder) Version_scheme \<Rightarrow> 'a Version_scheme \<Rightarrow> bool" where
  "less_Version_ext a b = (a \<le> b \<and> \<not> b \<le> a)"
instance
  by standard (auto simp: less_eq_Version_ext_def less_Version_ext_def)
end

text \<open>\<open>NewerThan\<close> is the strict part of this linear order.\<close>

lemma NewerThan_less: "NewerThan a (Some b) \<longleftrightarrow> b < a"
  for a b :: Version
  unfolding NewerThan_def Equals_def less_Version_ext_def less_eq_Version_ext_def
  by (auto simp: not_less)

lemma NewerThan_None [simp]: "NewerThan a None"
  by (simp add: NewerThan_def)

lemma Equals_eq: "Equals a b \<longleftrightarrow> a = b"
  for a b :: Version
  by (cases a; cases b) (auto simp: Equals_def)

lemma NewVersion_least: "NewVersion \<le> v"
  for v :: Version
  by (auto simp: NewVersion_def less_eq_Version_ext_def word_neq_0_conv simp flip: word_neq_0_conv
      intro: word_coorder.not_eq_extremum [THEN iffD1] dest: not_sym)

lemma Reset_eq [simp]: "Reset v = NewVersion"
  by (simp add: Reset_def NewVersion_def)

lemma InitGen_NewVersion [simp]: "InitGen NewVersion"
  by (simp add: InitGen_def NewVersion_def)

lemma Value_NewVersion [simp]: "Value NewVersion = 0" "Generation NewVersion = 0"
  by (simp_all add: NewVersion_def)

section \<open>Printing and parsing\<close>

lemma VersionFrom_String [simp]: "VersionFrom (version_String v) = Inr v"
proof -
  have "CHR ''.'' \<notin> set (dec n)" for n by (rule dec_no_char) simp
  then have "split_on CHR ''.'' (version_String v) = [dec (unat (Generation v)), dec (unat (Value v))]"
    by (simp add: version_String_def split_on_append split_on_none)
  moreover have "ParseUint (dec (unat w)) = Inr (unat w)" for w :: u64
    by (rule ParseUint_dec) (rule unat_u64)
  ultimately show ?thesis by (simp add: VersionFrom_def)
qed

section \<open>Properties\<close>

text \<open>
  The string form of a version is parsed back to the same version, so the
  \<^verbatim>\<open>extversion\<close> extension an agent writes is the version the manager compares.
\<close>

theorem version_roundtrip: "VersionFrom (version_String v) = Inr v"
  by (rule VersionFrom_String)

text \<open>
  \<open>NewerThan\<close> is a strict linear order of versions: of two versions exactly one is newer
  unless they are equal, and being newer is transitive.
\<close>

theorem newer_than_strict_linear_order:
  "(NewerThan a (Some b) \<longleftrightarrow> \<not> NewerThan b (Some a) \<and> \<not> Equals a b)
   \<and> (NewerThan a (Some b) \<and> NewerThan b (Some c) \<longrightarrow> NewerThan a (Some c))"
  unfolding NewerThan_less Equals_eq by auto

theorem newer_than_strict_linear_order_witness:
  "NewerThan \<lparr>Generation = 2, Value = 0\<rparr> (Some \<lparr>Generation = 1, Value = 9\<rparr>)
   \<and> NewerThan \<lparr>Generation = 1, Value = 9\<rparr> (Some \<lparr>Generation = 1, Value = 3\<rparr>)
   \<and> NewerThan \<lparr>Generation = 2, Value = 0\<rparr> (Some \<lparr>Generation = 1, Value = 3\<rparr>)"
proof -
  let ?a = "\<lparr>Generation = 2, Value = 0\<rparr>" and ?b = "\<lparr>Generation = 1, Value = 9\<rparr>"
    and ?c = "\<lparr>Generation = 1, Value = 3\<rparr> :: Version"
  have "NewerThan ?a (Some ?b)" "NewerThan ?b (Some ?c)"
    by (simp_all add: NewerThan_def Equals_def)
  then show ?thesis using newer_than_strict_linear_order [of ?a ?b ?c] by blast
qed

text \<open>
  A bundle update and a send both give a strictly newer version until the counter they
  bump is exhausted, and at \<^verbatim>\<open>2^64 - 1\<close> the counter wraps and the version is no longer newer.
\<close>

theorem incr_next_newer:
  "(NewerThan (Incr v) (Some v) \<longleftrightarrow> Value v \<noteq> - 1)
   \<and> (NewerThan (Next v) (Some v) \<longleftrightarrow> Generation v \<noteq> - 1)"
  unfolding NewerThan_def Equals_def Incr_def Next_def
  using u64_succ_greater [of "Value v"] u64_succ_greater [of "Generation v"] by auto

end
