(* ===== verification/Metadata.thy ===== *)
theory Metadata
  imports Version
begin

text \<open>
  \<^verbatim>\<open>pkg/transport/type.go\<close> (the event position) and
  \<^verbatim>\<open>manager/pkg/status/conflator/metadata/threshold_metadata.go\<close>: the metadata object created for
  every received event. It carries the retry counter that decides whether the event counts as
  processed, the transport position and the versions read from the event's extensions.

  A CloudEvent is the part of the SDK's event the program reads: type, source, id, extensions
  and data. The data type is a parameter of the models. The SDK's conversions
  \<^verbatim>\<open>types.ToString\<close> and \<^verbatim>\<open>types.ToInteger\<close> are not part of the repository; they are the fields
  of the record \<open>ce_types\<close> that the definitions take as an argument (each returns the
  converted value and whether there was no error), together with the names of the extensions in
  which the SDK's Kafka binding stores the position of a message.
\<close>

section \<open>Events and positions\<close>

datatype ext_value = ExtString string | ExtInteger int | ExtOther nat

record 'd Event =
  evt_Type :: string
  evt_Source :: string
  evt_ID :: string
  evt_Extensions :: "string \<rightharpoonup> ext_value"
  evt_Data :: 'd

record ce_types =
  ce_ToString :: "ext_value option \<Rightarrow> string \<times> bool"
  ce_ToInteger :: "ext_value option \<Rightarrow> int \<times> bool"
  ce_KafkaTopicKey :: string
  ce_KafkaPartitionKey :: string
  ce_KafkaOffsetKey :: string

record EventPosition =
  pos_OwnerIdentity :: string
  pos_Topic :: string
  pos_Partition :: int
  pos_Offset :: int

section \<open>Threshold metadata\<close>

text \<open>
  \<open>md_count\<close> is 0 initially, the number of failed attempts afterwards, and -1 once the event
  was processed successfully.
\<close>

record ThresholdMetadata =
  md_maxRetry :: int
  md_count :: int
  md_kafkaPosition :: EventPosition
  md_eventType :: string
  md_eventVersion :: Version
  md_eventDependencyVersion :: "Version option"

definition ExtVersion :: string where
  "ExtVersion = ''extversion''"

definition ExtDependencyVersion :: string where
  "ExtDependencyVersion = ''extdependencyversion''"

datatype metadata_error = NotAString ext_value | BadVersion version_error

text \<open>A missing extension is not an error: the version is nil.\<close>

definition getVersionFromEvent ::
    "'d Event \<Rightarrow> string \<Rightarrow> metadata_error + Version option" where
  "getVersionFromEvent evt key =
     (case evt_Extensions evt key of
        None \<Rightarrow> Inr None
      | Some (ExtString version) \<Rightarrow>
          (case VersionFrom version of
             Inl e \<Rightarrow> Inl (BadVersion e)
           | Inr v \<Rightarrow> Inr (Some v))
      | Some val \<Rightarrow> Inl (NotAString val))"

text \<open>
  Topic, partition and offset that cannot be read are only logged: the zero value is used. A
  version that is missing or malformed, or a malformed dependency version, yields no metadata.
\<close>

definition NewThresholdMetadata ::
    "ce_types \<Rightarrow> string \<Rightarrow> int \<Rightarrow> 'd Event \<Rightarrow> ThresholdMetadata option" where
  "NewThresholdMetadata ce clusterIdentity mx evt =
     (let topic = fst (ce_ToString ce (evt_Extensions evt (ce_KafkaTopicKey ce)));
          partition = fst (ce_ToInteger ce (evt_Extensions evt (ce_KafkaPartitionKey ce)));
          offsetStr = (case evt_Extensions evt (ce_KafkaOffsetKey ce) of
                         Some (ExtString s) \<Rightarrow> s | _ \<Rightarrow> []);
          offset = snd (ParseInt offsetStr)
      in case getVersionFromEvent evt ExtVersion of
           Inr (Some eventVersion) \<Rightarrow>
             (case getVersionFromEvent evt ExtDependencyVersion of
                Inl _ \<Rightarrow> None
              | Inr dependencyVersion \<Rightarrow>
                  Some \<lparr>md_maxRetry = mx, md_count = 0,
                        md_kafkaPosition = \<lparr>pos_OwnerIdentity = clusterIdentity, pos_Topic = topic,
                                            pos_Partition = partition, pos_Offset = offset\<rparr>,
                        md_eventType = evt_Type evt,
                        md_eventVersion = eventVersion,
                        md_eventDependencyVersion = dependencyVersion\<rparr>)
         | _ \<Rightarrow> None)"

definition MarkAsProcessed :: "ThresholdMetadata \<Rightarrow> ThresholdMetadata" where
  "MarkAsProcessed s = s\<lparr>md_count := - 1\<rparr>"

definition Processed :: "ThresholdMetadata \<Rightarrow> bool" where
  "Processed s = (md_count s = - 1 \<or> md_count s \<ge> md_maxRetry s)"

definition MarkAsUnprocessed :: "ThresholdMetadata \<Rightarrow> ThresholdMetadata" where
  "MarkAsUnprocessed s = s\<lparr>md_count := md_count s + 1\<rparr>"

definition reset_metadata_version :: "ThresholdMetadata \<Rightarrow> ThresholdMetadata" where
  "reset_metadata_version s = s\<lparr>md_eventVersion := Reset (md_eventVersion s)\<rparr>"

section \<open>Properties\<close>

lemma Processed_MarkAsProcessed [simp]: "Processed (MarkAsProcessed m)"
  by (simp add: Processed_def MarkAsProcessed_def)

lemma MarkAs_frame [simp]:
  "md_eventVersion (MarkAsProcessed m) = md_eventVersion m"
  "md_eventVersion (MarkAsUnprocessed m) = md_eventVersion m"
  "md_eventType (MarkAsProcessed m) = md_eventType m"
  "md_eventType (MarkAsUnprocessed m) = md_eventType m"
  "md_kafkaPosition (MarkAsProcessed m) = md_kafkaPosition m"
  "md_kafkaPosition (MarkAsUnprocessed m) = md_kafkaPosition m"
  "md_eventDependencyVersion (MarkAsProcessed m) = md_eventDependencyVersion m"
  "md_eventDependencyVersion (MarkAsUnprocessed m) = md_eventDependencyVersion m"
  "md_maxRetry (MarkAsProcessed m) = md_maxRetry m"
  "md_maxRetry (MarkAsUnprocessed m) = md_maxRetry m"
  by (simp_all add: MarkAsProcessed_def MarkAsUnprocessed_def)

lemma reset_metadata_version_simps [simp]:
  "md_eventVersion (reset_metadata_version m) = NewVersion"
  "md_eventType (reset_metadata_version m) = md_eventType m"
  "md_kafkaPosition (reset_metadata_version m) = md_kafkaPosition m"
  "md_eventDependencyVersion (reset_metadata_version m) = md_eventDependencyVersion m"
  "md_count (reset_metadata_version m) = md_count m"
  "md_maxRetry (reset_metadata_version m) = md_maxRetry m"
  "Processed (reset_metadata_version m) = Processed m"
  by (simp_all add: reset_metadata_version_def Processed_def)

lemma NewThresholdMetadata_fields:
  assumes "NewThresholdMetadata ce ident mx evt = Some m"
  shows "md_count m = 0" "md_maxRetry m = mx" "md_eventType m = evt_Type evt"
    "getVersionFromEvent evt ExtVersion = Inr (Some (md_eventVersion m))"
    "getVersionFromEvent evt ExtDependencyVersion = Inr (md_eventDependencyVersion m)"
    "pos_OwnerIdentity (md_kafkaPosition m) = ident"
  using assms unfolding NewThresholdMetadata_def
  by (auto split: sum.splits option.splits)

lemma MarkAsUnprocessed_count:
  "md_count ((MarkAsUnprocessed ^^ n) m) = md_count m + int n"
  by (induction n) (simp_all add: MarkAsUnprocessed_def)

lemma MarkAsUnprocessed_maxRetry [simp]:
  "md_maxRetry ((MarkAsUnprocessed ^^ n) m) = md_maxRetry m"
  by (induction n) simp_all

text \<open>
  Metadata made for an event stays unprocessed until either the handler succeeds or the
  number of failed attempts reaches the retry bound; it counts as processed from then on.
\<close>

theorem processed_after_retries:
  assumes "NewThresholdMetadata ce ident mx evt = Some m" and "0 < mx"
  shows "(Processed ((MarkAsUnprocessed ^^ n) m) \<longleftrightarrow> mx \<le> int n)
    \<and> Processed (MarkAsProcessed ((MarkAsUnprocessed ^^ n) m))"
  using NewThresholdMetadata_fields [OF assms(1)] assms(2)
  by (auto simp: Processed_def MarkAsUnprocessed_count MarkAsProcessed_def)

definition sample_event :: "unit Event" where
  "sample_event = \<lparr>evt_Type = ''t'', evt_Source = ''hub1'', evt_ID = ''1'',
     evt_Extensions = [ExtVersion \<mapsto> ExtString ''1.4'', ''kafkaoffset'' \<mapsto> ExtString ''7''],
     evt_Data = ()\<rparr>"

definition sample_ce_types :: ce_types where
  "sample_ce_types = \<lparr>
     ce_ToString = (\<lambda>v. case v of Some (ExtString s) \<Rightarrow> (s, True) | _ \<Rightarrow> ([], False)),
     ce_ToInteger = (\<lambda>v. case v of Some (ExtInteger i) \<Rightarrow> (i, True) | _ \<Rightarrow> (0, False)),
     ce_KafkaTopicKey = ''kafkatopic'', ce_KafkaPartitionKey = ''kafkapartition'',
     ce_KafkaOffsetKey = ''kafkaoffset''\<rparr>"

lemma sample_version: "VersionFrom ''1.4'' = Inr \<lparr>Generation = 1, Value = 4\<rparr>"
  by (simp add: VersionFrom_def ParseUint_def digit_val_def)

theorem processed_after_retries_witness:
  "\<exists>m. NewThresholdMetadata sample_ce_types ''kafka'' 3 sample_event = Some m
     \<and> \<not> Processed ((MarkAsUnprocessed ^^ 2) m) \<and> Processed ((MarkAsUnprocessed ^^ 3) m)"
proof -
  have "getVersionFromEvent sample_event ExtVersion = Inr (Some \<lparr>Generation = 1, Value = 4\<rparr>)"
    "getVersionFromEvent sample_event ExtDependencyVersion = Inr None"
    by (simp_all add: getVersionFromEvent_def sample_event_def ExtVersion_def
        ExtDependencyVersion_def sample_version)
  then obtain m where m: "NewThresholdMetadata sample_ce_types ''kafka'' 3 sample_event = Some m"
    by (simp add: NewThresholdMetadata_def)
  show ?thesis
    using processed_after_retries [OF m, of 2] processed_after_retries [OF m, of 3] m by auto
qed

end
