(* ===== verification/ConflationUnit.thy ===== *)
theory ConflationUnit
  imports Metadata
begin

text \<open>
  \<^verbatim>\<open>manager/pkg/status/conflator\<close>: registrations, priorities, the two kinds of conflation
  element, the ready queue and the conflation unit that a managed hub's events go through.

  Metadata objects are shared by pointer between an element, the jobs made from it and the
  worker that runs a job, and they are mutated through each of these paths. They therefore live
  in a store, \<open>heap\<close>, and elements and jobs hold references (\<open>mref\<close>) into it. A version read
  from a metadata object and kept in \<^verbatim>\<open>lastProcessedVersion\<close> is copied: the only code that
  mutates a version in place (\<^verbatim>\<open>Predicate\<close>, on the generation-0 path) replaces
  \<^verbatim>\<open>lastProcessedVersion\<close> first.

  The ready queue's two channels are lists, the head being the next value received. Both are
  shared by all units, so they are passed around with the store in the record \<open>env\<close>.
\<close>

section \<open>Enumerations and registrations\<close>

datatype EventSyncMode = CompleteStateMode | DeltaStateMode

datatype ConflationPriority =
    HubClusterHeartbeatPriority | HubClusterInfoPriority | ManagedClustersPriority
  | ManagedClusterEventPriority | LocalPolicySpecPriority | LocalCompliancePriority
  | LocalCompleteCompliancePriority | LocalEventRootPolicyPriority
  | LocalReplicatedPolicyEventPriority | LocalPlacementRulesSpecPriority
  | SecurityAlertCountsPriority | KlusterletAddonConfigPriority
  | CompliancePriority | CompleteCompliancePriority | DeltaCompliancePriority
  | MinimalCompliancePriority | PlacementRulePriority | PlacementPriority
  | PlacementDecisionPriority | SubscriptionStatusPriority | SubscriptionReportPriority

text \<open>The value of a priority is its position in the \<^verbatim>\<open>iota\<close> block.\<close>

primrec iota :: "ConflationPriority \<Rightarrow> nat" where
  "iota HubClusterHeartbeatPriority = 0"
| "iota HubClusterInfoPriority = 1"
| "iota ManagedClustersPriority = 2"
| "iota ManagedClusterEventPriority = 3"
| "iota LocalPolicySpecPriority = 4"
| "iota LocalCompliancePriority = 5"
| "iota LocalCompleteCompliancePriority = 6"
| "iota LocalEventRootPolicyPriority = 7"
| "iota LocalReplicatedPolicyEventPriority = 8"
| "iota LocalPlacementRulesSpecPriority = 9"
| "iota SecurityAlertCountsPriority = 10"
| "iota KlusterletAddonConfigPriority = 11"
| "iota CompliancePriority = 12"
| "iota CompleteCompliancePriority = 13"
| "iota DeltaCompliancePriority = 14"
| "iota MinimalCompliancePriority = 15"
| "iota PlacementRulePriority = 16"
| "iota PlacementPriority = 17"
| "iota PlacementDecisionPriority = 18"
| "iota SubscriptionStatusPriority = 19"
| "iota SubscriptionReportPriority = 20"

datatype DependencyType = ExactMatch | AtLeast

record Dependency =
  dep_EventType :: string
  dep_DependencyType :: DependencyType

definition NewDependency :: "string \<Rightarrow> DependencyType \<Rightarrow> Dependency" where
  "NewDependency eventType dependencyType =
     \<lparr>dep_EventType = eventType, dep_DependencyType = dependencyType\<rparr>"

text \<open>The handler type \<open>'h\<close> stands for \<^verbatim>\<open>EventHandleFunc\<close> values.\<close>

record 'h ConflationRegistration =
  reg_priority :: nat
  reg_syncMode :: EventSyncMode
  reg_eventType :: string
  reg_handleFunc :: 'h
  reg_dependency :: "Dependency option"

definition NewConflationRegistration ::
    "ConflationPriority \<Rightarrow> EventSyncMode \<Rightarrow> string \<Rightarrow> 'h \<Rightarrow> 'h ConflationRegistration" where
  "NewConflationRegistration priority syncMode eventType handlerFunction =
     \<lparr>reg_priority = iota priority, reg_syncMode = syncMode, reg_eventType = eventType,
      reg_handleFunc = handlerFunction, reg_dependency = None\<rparr>"

definition WithDependency ::
    "Dependency \<Rightarrow> 'h ConflationRegistration \<Rightarrow> 'h ConflationRegistration" where
  "WithDependency val registration = registration\<lparr>reg_dependency := Some val\<rparr>"

section \<open>Elements, jobs, units\<close>

type_synonym mref = nat
type_synonym heap = "mref \<Rightarrow> ThresholdMetadata"

record ('h, 'd) completeElement =
  el_eventType :: string
  el_syncMode :: EventSyncMode
  el_handlerFunction :: 'h
  el_dependency :: "Dependency option"
  el_isInProcess :: bool
  el_lastProcessedVersion :: Version
  el_event :: "'d Event option"
  el_metadata :: "mref option"

record 'h deltaElement =
  de_eventType :: string
  de_syncMode :: EventSyncMode
  de_handlerFunction :: 'h
  de_dependency :: "Dependency option"
  de_isInProcess :: bool
  de_lastProcessedVersion :: Version
  de_metadata :: "mref option"

datatype ('h, 'd) ConflationElement =
    Complete "('h, 'd) completeElement"
  | Delta "'h deltaElement"

definition NewCompleteElement :: "'h ConflationRegistration \<Rightarrow> ('h, 'd) completeElement" where
  "NewCompleteElement registration =
     \<lparr>el_eventType = reg_eventType registration, el_syncMode = reg_syncMode registration,
      el_handlerFunction = reg_handleFunc registration,
      el_dependency = reg_dependency registration, el_isInProcess = False,
      el_lastProcessedVersion = NewVersion, el_event = None, el_metadata = None\<rparr>"

definition NewDeltaElement :: "'h ConflationRegistration \<Rightarrow> 'h deltaElement" where
  "NewDeltaElement registration =
     \<lparr>de_eventType = reg_eventType registration, de_syncMode = reg_syncMode registration,
      de_handlerFunction = reg_handleFunc registration,
      de_dependency = reg_dependency registration, de_isInProcess = False,
      de_lastProcessedVersion = NewVersion, de_metadata = None\<rparr>"

fun element_Name :: "('h, 'd) ConflationElement \<Rightarrow> string" where
  "element_Name (Complete e) = el_eventType e"
| "element_Name (Delta e) = de_eventType e"

fun element_Metadata :: "('h, 'd) ConflationElement \<Rightarrow> mref option" where
  "element_Metadata (Complete e) = el_metadata e"
| "element_Metadata (Delta e) = de_metadata e"

fun element_SyncMode :: "('h, 'd) ConflationElement \<Rightarrow> EventSyncMode" where
  "element_SyncMode (Complete e) = el_syncMode e"
| "element_SyncMode (Delta e) = de_syncMode e"

text \<open>The reporter of a job is its conflation unit, named by the managed hub.\<close>

record ('h, 'd) ConflationJob =
  job_Event :: "'d Event"
  job_Metadata :: mref
  job_Handle :: 'h
  job_Reporter :: string

definition NewConflationJob ::
    "'d Event \<Rightarrow> mref \<Rightarrow> 'h \<Rightarrow> string \<Rightarrow> ('h, 'd) ConflationJob" where
  "NewConflationJob event metadata handle reporter =
     \<lparr>job_Event = event, job_Metadata = metadata, job_Handle = handle, job_Reporter = reporter\<rparr>"

record ('h, 'd) env =
  env_heap :: heap
  env_DeltaEventJobChan :: "('h, 'd) ConflationJob list"
  env_ConflationUnitChan :: "string list"

text \<open>The capacities of the two channels.\<close>

definition DeltaEventJobChan_cap :: nat where
  "DeltaEventJobChan_cap = 1000"

definition ConflationUnitChan_cap :: nat where
  "ConflationUnitChan_cap = 100"

record ('h, 'd) ConflationUnit =
  cu_name :: string
  ElementPriorityQueue :: "('h, 'd) ConflationElement option list"
  eventTypeToPriority :: "(string, nat) gomap"
  isInReadyQueue :: bool

text \<open>Reading a missing key of \<^verbatim>\<open>eventTypeToPriority\<close> gives the zero priority.\<close>

definition priority_of :: "('h, 'd) ConflationUnit \<Rightarrow> string \<Rightarrow> nat" where
  "priority_of cu eventType =
     (case map_of (eventTypeToPriority cu) eventType of None \<Rightarrow> 0 | Some p \<Rightarrow> p)"

text \<open>
  \<^verbatim>\<open>newConflationUnit\<close>: one slot per registration, filled at the registration's priority; a
  priority outside the slice panics.
\<close>

definition place_registration ::
    "string \<times> 'h ConflationRegistration \<Rightarrow> ('h, 'd) ConflationUnit \<Rightarrow> ('h, 'd) ConflationUnit panics"
    where
  "place_registration kr cu =
     (let registration = snd kr;
          p = reg_priority registration;
          el = (case reg_syncMode registration of
                  CompleteStateMode \<Rightarrow> Complete (NewCompleteElement registration)
                | DeltaStateMode \<Rightarrow> Delta (NewDeltaElement registration))
      in if p < length (ElementPriorityQueue cu)
         then Some (cu\<lparr>ElementPriorityQueue := (ElementPriorityQueue cu)[p := Some el],
                       eventTypeToPriority :=
                         AList.update (reg_eventType registration) p (eventTypeToPriority cu)\<rparr>)
         else None)"

fun place_all ::
    "(string, 'h ConflationRegistration) gomap \<Rightarrow> ('h, 'd) ConflationUnit \<Rightarrow> ('h, 'd) ConflationUnit panics"
    where
  "place_all [] cu = Some cu"
| "place_all (r # rs) cu = Option.bind (place_registration r cu) (place_all rs)"

definition newConflationUnit ::
    "string \<Rightarrow> (string, 'h ConflationRegistration) gomap \<Rightarrow> ('h, 'd) ConflationUnit panics" where
  "newConflationUnit name registrations =
     place_all registrations
       \<lparr>cu_name = name, ElementPriorityQueue = replicate (length registrations) None,
        eventTypeToPriority = [], isInReadyQueue = False\<rparr>"

section \<open>Accepting an event\<close>

text \<open>
  \<^verbatim>\<open>completeElement.Predicate\<close>: an event of generation 0 resets what the element remembers,
  also in the metadata object it holds.
\<close>

definition complete_Predicate ::
    "Version \<Rightarrow> ('h, 'd) completeElement \<Rightarrow> heap \<Rightarrow> bool \<times> ('h, 'd) completeElement \<times> heap" where
  "complete_Predicate eventVersion e h =
     (let e1 = (if InitGen eventVersion then e\<lparr>el_lastProcessedVersion := NewVersion\<rparr> else e);
          h1 = (if InitGen eventVersion
                then (case el_metadata e of
                        None \<Rightarrow> h
                      | Some r \<Rightarrow> h(r := reset_metadata_version (h r)))
                else h)
      in if \<not> NewerThan eventVersion (Some (el_lastProcessedVersion e1)) then (False, e1, h1)
         else (case el_metadata e1 of
                 None \<Rightarrow> (True, e1, h1)
               | Some r \<Rightarrow> (NewerThan eventVersion (Some (md_eventVersion (h1 r))), e1, h1)))"

definition delta_Predicate :: "Version \<Rightarrow> 'h deltaElement \<Rightarrow> bool \<times> 'h deltaElement" where
  "delta_Predicate eventVersion e =
     (let e1 = (if InitGen eventVersion then e\<lparr>de_lastProcessedVersion := NewVersion\<rparr> else e)
      in (NewerThan eventVersion (Some (de_lastProcessedVersion e1)), e1))"

section \<open>Readiness\<close>

text \<open>
  The dependency chain is followed through the unit. Nothing in the code stops a cyclic chain,
  so the recursion is partial: \<^const>\<open>None\<close> also stands for not returning.
\<close>

partial_function (option) isCurrentOrAnyDependencyInProcess ::
    "('h, 'd) ConflationUnit \<Rightarrow> ('h, 'd) completeElement \<Rightarrow> bool option" where
  "isCurrentOrAnyDependencyInProcess cu e =
     (if el_isInProcess e then Some True
      else case el_dependency e of
             None \<Rightarrow> Some False
           | Some d \<Rightarrow>
               Option.bind (go_nth (ElementPriorityQueue cu) (priority_of cu (dep_EventType d)))
                 (\<lambda>dependencyElement.
                    case dependencyElement of
                      Some (Complete c) \<Rightarrow> isCurrentOrAnyDependencyInProcess cu c
                    | _ \<Rightarrow> Some False))"

text \<open>
  \<^verbatim>\<open>matchDependency\<close>: a dependent event without a dependency version dereferences nil.
\<close>

definition matchDependency ::
    "('h, 'd) ConflationUnit \<Rightarrow> heap \<Rightarrow> ('h, 'd) completeElement \<Rightarrow> bool panics" where
  "matchDependency cu h e =
     (case el_dependency e of
        None \<Rightarrow> Some True
      | Some d \<Rightarrow>
          Option.bind (go_nth (ElementPriorityQueue cu) (priority_of cu (dep_EventType d)))
            (\<lambda>dependencyElement.
               case dependencyElement of
                 Some (Complete c) \<Rightarrow>
                   Option.bind (el_metadata e) (\<lambda>r.
                     (case dep_DependencyType d of
                        ExactMatch \<Rightarrow>
                          EqualValue (md_eventDependencyVersion (h r)) (Some (el_lastProcessedVersion c))
                      | AtLeast \<Rightarrow>
                          map_option Not
                            (NewerValueThan (md_eventDependencyVersion (h r))
                               (Some (el_lastProcessedVersion c)))))
               | _ \<Rightarrow> Some False))"

definition IsReadyToProcess ::
    "('h, 'd) ConflationUnit \<Rightarrow> heap \<Rightarrow> ('h, 'd) completeElement \<Rightarrow> bool panics" where
  "IsReadyToProcess cu h e =
     (case el_metadata e of
        None \<Rightarrow> Some False
      | Some r \<Rightarrow>
          if el_event e = None \<or> el_isInProcess e \<or> Processed (h r) then Some False
          else Option.bind (isCurrentOrAnyDependencyInProcess cu e)
                 (\<lambda>busy. if busy then Some False else matchDependency cu h e))"

text \<open>
  \<^verbatim>\<open>getNextReadyCompleteElement\<close>: the first ready element in priority order, as its position.
  An empty slot panics, since \<^verbatim>\<open>SyncMode\<close> is called on a nil interface.
\<close>

fun scan_ready ::
    "('h, 'd) ConflationUnit \<Rightarrow> heap \<Rightarrow> nat \<Rightarrow> ('h, 'd) ConflationElement option list
       \<Rightarrow> nat option panics" where
  "scan_ready cu h i [] = Some None"
| "scan_ready cu h i (None # els) = None"
| "scan_ready cu h i (Some (Delta d) # els) = scan_ready cu h (Suc i) els"
| "scan_ready cu h i (Some (Complete c) # els) =
     (if el_syncMode c = DeltaStateMode then scan_ready cu h (Suc i) els
      else Option.bind (IsReadyToProcess cu h c)
             (\<lambda>ready. if ready then Some (Some i) else scan_ready cu h (Suc i) els))"

definition getNextReadyCompleteElement ::
    "('h, 'd) ConflationUnit \<Rightarrow> heap \<Rightarrow> nat option panics" where
  "getNextReadyCompleteElement cu h = scan_ready cu h 0 (ElementPriorityQueue cu)"

section \<open>Operations of the unit\<close>

type_synonym ('h, 'd) cu_state = "('h, 'd) ConflationUnit \<times> ('h, 'd) env"

definition addCUToReadyQueueIfNeeded :: "('h, 'd) cu_state \<Rightarrow> ('h, 'd) cu_state panics" where
  "addCUToReadyQueueIfNeeded s =
     (let (cu, v) = s
      in if isInReadyQueue cu then Some s
         else Option.bind (getNextReadyCompleteElement cu (env_heap v))
                (\<lambda>element.
                   case element of
                     None \<Rightarrow> Some s
                   | Some _ \<Rightarrow>
                       Some (cu\<lparr>isInReadyQueue := True\<rparr>,
                             v\<lparr>env_ConflationUnitChan := env_ConflationUnitChan v @ [cu_name cu]\<rparr>)))"

definition set_element ::
    "nat \<Rightarrow> ('h, 'd) ConflationElement \<Rightarrow> ('h, 'd) ConflationUnit \<Rightarrow> ('h, 'd) ConflationUnit" where
  "set_element p el cu =
     cu\<lparr>ElementPriorityQueue := (ElementPriorityQueue cu)[p := Some el]\<rparr>"

definition complete_AddToReadyQueue ::
    "nat \<Rightarrow> 'd Event \<Rightarrow> mref \<Rightarrow> ('h, 'd) completeElement \<Rightarrow> ('h, 'd) cu_state \<Rightarrow> ('h, 'd) cu_state panics"
    where
  "complete_AddToReadyQueue p event metadata e s =
     addCUToReadyQueueIfNeeded
       (set_element p (Complete (e\<lparr>el_event := Some event, el_metadata := Some metadata\<rparr>)) (fst s),
        snd s)"

definition delta_AddToReadyQueue ::
    "nat \<Rightarrow> 'd Event \<Rightarrow> mref \<Rightarrow> 'h deltaElement \<Rightarrow> ('h, 'd) cu_state \<Rightarrow> ('h, 'd) cu_state" where
  "delta_AddToReadyQueue p event metadata e s =
     (let (cu, v) = s
      in (set_element p (Delta (e\<lparr>de_metadata := Some metadata\<rparr>)) cu,
          v\<lparr>env_DeltaEventJobChan := env_DeltaEventJobChan v @
              [NewConflationJob event metadata (de_handlerFunction e) (cu_name cu)]\<rparr>))"

definition cu_insert ::
    "'d Event \<Rightarrow> mref \<Rightarrow> ('h, 'd) cu_state \<Rightarrow> ('h, 'd) cu_state panics" where
  "cu_insert event eventMetadata s =
     (let (cu, v) = s;
          p = priority_of cu (evt_Type event);
          ver = md_eventVersion (env_heap v eventMetadata)
      in Option.bind (go_nth (ElementPriorityQueue cu) p)
           (\<lambda>slot.
              case slot of
                None \<Rightarrow> Some s
              | Some (Complete e) \<Rightarrow>
                  (let (ok, e1, h1) = complete_Predicate ver e (env_heap v);
                       s1 = (set_element p (Complete e1) cu, v\<lparr>env_heap := h1\<rparr>)
                   in if ok then complete_AddToReadyQueue p event eventMetadata e1 s1 else Some s1)
              | Some (Delta e) \<Rightarrow>
                  (let (ok, e1) = delta_Predicate ver e;
                       s1 = (set_element p (Delta e1) cu, v)
                   in Some (if ok then delta_AddToReadyQueue p event eventMetadata e1 s1 else s1))))"

datatype getnext_error = NoElementReady | NoJobReady

definition ProcessJob ::
    "string \<Rightarrow> ('h, 'd) completeElement \<Rightarrow> (('h, 'd) ConflationJob \<times> ('h, 'd) completeElement) option"
    where
  "ProcessJob reporter e =
     (case (el_event e, el_metadata e) of
        (Some event, Some metadata) \<Rightarrow>
          Some (NewConflationJob event metadata (el_handlerFunction e) reporter,
                e\<lparr>el_isInProcess := True\<rparr>)
      | _ \<Rightarrow> None)"

definition GetNext ::
    "('h, 'd) ConflationUnit \<Rightarrow> heap
       \<Rightarrow> ((getnext_error + ('h, 'd) ConflationJob) \<times> ('h, 'd) ConflationUnit) panics" where
  "GetNext cu h =
     Option.bind (getNextReadyCompleteElement cu h)
       (\<lambda>element.
          case element of
            None \<Rightarrow> Some (Inl NoElementReady, cu)
          | Some i \<Rightarrow>
              (let cu1 = cu\<lparr>isInReadyQueue := False\<rparr>
               in case ElementPriorityQueue cu ! i of
                    Some (Complete e) \<Rightarrow>
                      (case ProcessJob (cu_name cu) e of
                         None \<Rightarrow> Some (Inl NoJobReady, cu1)
                       | Some (job, e1) \<Rightarrow> Some (Inr job, set_element i (Complete e1) cu1))
                  | _ \<Rightarrow> None))"

text \<open>\<open>err\<close> says whether the reported error is non-nil.\<close>

definition complete_PostProcess ::
    "heap \<Rightarrow> mref \<Rightarrow> bool \<Rightarrow> ('h, 'd) completeElement \<Rightarrow> ('h, 'd) completeElement panics" where
  "complete_PostProcess h metadata err e =
     (let e1 = e\<lparr>el_isInProcess := False\<rparr>
      in if err then Some e1
         else let ver = md_eventVersion (h metadata);
                  e2 = (if Processed (h metadata) \<and> NewerThan ver (Some (el_lastProcessedVersion e1))
                        then e1\<lparr>el_lastProcessedVersion := ver\<rparr> else e1)
              in map_option
                   (\<lambda>r. if Equals ver (md_eventVersion (h r)) then e2\<lparr>el_event := None\<rparr> else e2)
                   (el_metadata e))"

definition delta_PostProcess ::
    "heap \<Rightarrow> mref \<Rightarrow> bool \<Rightarrow> 'h deltaElement \<Rightarrow> 'h deltaElement" where
  "delta_PostProcess h metadata err e =
     (if err then e
      else if Processed (h metadata)
              \<and> NewerThan (md_eventVersion (h metadata)) (Some (de_lastProcessedVersion e))
           then e\<lparr>de_lastProcessedVersion := md_eventVersion (h metadata)\<rparr> else e)"

definition ReportResult ::
    "mref \<Rightarrow> bool \<Rightarrow> ('h, 'd) cu_state \<Rightarrow> ('h, 'd) cu_state panics" where
  "ReportResult metadata err s =
     (let (cu, v) = s;
          p = priority_of cu (md_eventType (env_heap v metadata))
      in Option.bind (go_nth (ElementPriorityQueue cu) p)
           (\<lambda>slot.
              case slot of
                None \<Rightarrow> None
              | Some (Complete e) \<Rightarrow>
                  Option.bind (complete_PostProcess (env_heap v) metadata err e)
                    (\<lambda>e1. let s1 = (set_element p (Complete e1) cu, v)
                          in if el_syncMode e1 = CompleteStateMode
                             then addCUToReadyQueueIfNeeded s1 else Some s1)
              | Some (Delta e) \<Rightarrow>
                  (let e1 = delta_PostProcess (env_heap v) metadata err e;
                       s1 = (set_element p (Delta e1) cu, v)
                   in if de_syncMode e1 = CompleteStateMode
                      then addCUToReadyQueueIfNeeded s1 else Some s1)))"

text \<open>\<^verbatim>\<open>getMetadatas\<close>: an empty slot panics.\<close>

fun collect_metadatas :: "('h, 'd) ConflationElement option list \<Rightarrow> mref list panics" where
  "collect_metadatas [] = Some []"
| "collect_metadatas (None # els) = None"
| "collect_metadatas (Some el # els) =
     map_option (\<lambda>ms. (case element_Metadata el of None \<Rightarrow> ms | Some r \<Rightarrow> r # ms))
       (collect_metadatas els)"

definition getMetadatas :: "('h, 'd) ConflationUnit \<Rightarrow> mref list panics" where
  "getMetadatas cu = collect_metadatas (ElementPriorityQueue cu)"

end
