(* ===== verification/ConflationUnitInv.thy ===== *)
theory ConflationUnitInv
  imports ConflationUnit
begin

text \<open>
  Well-formedness of a conflation unit, its preservation by every operation, totality of the
  operations (no panic, the dependency recursion ends), and what each operation returns.
\<close>

section \<open>Well-formed units\<close>

text \<open>What of an element never changes.\<close>

fun elem_shape ::
    "('h, 'd) ConflationElement \<Rightarrow> bool \<times> string \<times> EventSyncMode \<times> Dependency option \<times> 'h" where
  "elem_shape (Complete e) =
     (True, el_eventType e, el_syncMode e, el_dependency e, el_handlerFunction e)"
| "elem_shape (Delta e) =
     (False, de_eventType e, de_syncMode e, de_dependency e, de_handlerFunction e)"

definition wf_slot :: "(string, nat) gomap \<Rightarrow> nat \<Rightarrow> ('h, 'd) ConflationElement \<Rightarrow> bool" where
  "wf_slot m p el =
     (map_of m (element_Name el) = Some p \<and>
      (case el of
         Complete e \<Rightarrow>
           el_syncMode e = CompleteStateMode \<and>
           (case el_dependency e of
              None \<Rightarrow> True
            | Some d \<Rightarrow> (case map_of m (dep_EventType d) of None \<Rightarrow> False | Some q \<Rightarrow> q < p))
       | Delta e \<Rightarrow> de_syncMode e = DeltaStateMode))"

text \<open>
  Every slot is filled by an element whose event type maps to that slot, every event type maps
  to the slot of its element, and a dependency is a registered type of higher priority.
\<close>

definition wf_cu :: "('h, 'd) ConflationUnit \<Rightarrow> bool" where
  "wf_cu cu =
     ((\<forall>p < length (ElementPriorityQueue cu).
         case ElementPriorityQueue cu ! p of
           None \<Rightarrow> False | Some el \<Rightarrow> wf_slot (eventTypeToPriority cu) p el) \<and>
      (\<forall>(t, p) \<in> set (eventTypeToPriority cu).
         p < length (ElementPriorityQueue cu) \<and>
         map_option element_Name (ElementPriorityQueue cu ! p) = Some t))"

lemma wf_slot_shape: "elem_shape el = elem_shape el' \<Longrightarrow> wf_slot m p el = wf_slot m p el'"
  by (cases el; cases el') (auto simp: wf_slot_def)

lemma element_Name_shape: "elem_shape el = elem_shape el' \<Longrightarrow> element_Name el = element_Name el'"
  by (cases el; cases el') auto

lemma wf_cu_iff:
  "wf_cu cu \<longleftrightarrow>
     (\<forall>p < length (ElementPriorityQueue cu). \<exists>el. ElementPriorityQueue cu ! p = Some el \<and>
        wf_slot (eventTypeToPriority cu) p el) \<and>
     (\<forall>t p. (t, p) \<in> set (eventTypeToPriority cu) \<longrightarrow> p < length (ElementPriorityQueue cu) \<and>
        (\<exists>el. ElementPriorityQueue cu ! p = Some el \<and> element_Name el = t))"
  unfolding wf_cu_def by (fastforce split: option.splits)

lemma wf_cu_slot:
  assumes "wf_cu cu" "p < length (ElementPriorityQueue cu)"
  obtains el where "ElementPriorityQueue cu ! p = Some el" "wf_slot (eventTypeToPriority cu) p el"
  using assms unfolding wf_cu_def by (fastforce split: option.splits)

lemma wf_cu_at:
  "wf_cu cu \<Longrightarrow> p < length (ElementPriorityQueue cu) \<Longrightarrow> ElementPriorityQueue cu ! p = Some el
   \<Longrightarrow> wf_slot (eventTypeToPriority cu) p el"
  by (auto elim: wf_cu_slot)

lemma wf_cu_lookup:
  assumes "wf_cu cu" "map_of (eventTypeToPriority cu) t = Some p"
  shows "p < length (ElementPriorityQueue cu)"
    and "\<exists>el. ElementPriorityQueue cu ! p = Some el \<and> element_Name el = t"
proof -
  from assms(2) have "(t, p) \<in> set (eventTypeToPriority cu)" by (rule map_of_SomeD)
  with assms(1) show "p < length (ElementPriorityQueue cu)"
    "\<exists>el. ElementPriorityQueue cu ! p = Some el \<and> element_Name el = t"
    unfolding wf_cu_def by auto
qed

lemma wf_cu_frame [keeps, simp]:
  "wf_cu (cu\<lparr>isInReadyQueue := b\<rparr>) = wf_cu cu"
  by (simp add: wf_cu_def cong: option.case_cong)

lemma priority_of_frame [simp]:
  "priority_of (cu\<lparr>isInReadyQueue := b\<rparr>) t = priority_of cu t"
  "priority_of (set_element p el cu) t = priority_of cu t"
  by (simp_all add: priority_of_def set_element_def)

lemma set_element_simps [simp]:
  "ElementPriorityQueue (set_element p el cu) = (ElementPriorityQueue cu)[p := Some el]"
  "eventTypeToPriority (set_element p el cu) = eventTypeToPriority cu"
  "isInReadyQueue (set_element p el cu) = isInReadyQueue cu"
  "cu_name (set_element p el cu) = cu_name cu"
  by (simp_all add: set_element_def)

lemma wf_cu_set_element [keeps]:
  assumes wf: "wf_cu cu" and el: "ElementPriorityQueue cu ! p = Some el"
    and shape: "elem_shape el' = elem_shape el"
  shows "wf_cu (set_element p el' cu)"
proof (cases "p < length (ElementPriorityQueue cu)")
  case False
  then have "set_element p el' cu = cu" by (cases cu) (simp add: set_element_def list_update_beyond)
  with wf show ?thesis by simp
next
  case True
  have slot: "wf_slot (eventTypeToPriority cu) p el'"
    using wf_cu_at [OF wf True el] wf_slot_shape [OF shape] by blast
  show ?thesis
    using wf slot el True element_Name_shape [OF shape]
    unfolding wf_cu_iff by (auto simp: nth_list_update) fastforce
qed

section \<open>The dependency chain\<close>

text \<open>The elements reached from an element by following dependencies, itself included.\<close>

inductive dep_chain ::
    "('h, 'd) ConflationUnit \<Rightarrow> ('h, 'd) completeElement \<Rightarrow> ('h, 'd) completeElement \<Rightarrow> bool"
  for cu where
  here: "dep_chain cu e e"
| follow: "\<lbrakk>el_dependency e = Some d;
            go_nth (ElementPriorityQueue cu) (priority_of cu (dep_EventType d)) = Some (Some (Complete c));
            dep_chain cu c c'\<rbrakk> \<Longrightarrow> dep_chain cu e c'"

lemma chain_idle:
  assumes "dep_chain cu e c" "isCurrentOrAnyDependencyInProcess cu e = Some False"
  shows "\<not> el_isInProcess c"
  using assms
proof (induction rule: dep_chain.induct)
  case (here e)
  then show ?case by (subst (asm) isCurrentOrAnyDependencyInProcess.simps) (auto split: if_splits)
next
  case (follow e d c c')
  from follow.prems follow.hyps(1,2) have "isCurrentOrAnyDependencyInProcess cu c = Some False"
    by (subst (asm) isCurrentOrAnyDependencyInProcess.simps) (auto split: if_splits)
  then show ?case by (rule follow.IH)
qed

lemma chain_busy:
  assumes "isCurrentOrAnyDependencyInProcess cu e = Some b" "b"
  shows "\<exists>c. dep_chain cu e c \<and> el_isInProcess c"
proof -
  have "b \<longrightarrow> (\<exists>c. dep_chain cu e c \<and> el_isInProcess c)"
  proof (rule isCurrentOrAnyDependencyInProcess.raw_induct
      [where P = "\<lambda>cu e b. b \<longrightarrow> (\<exists>c. dep_chain cu e c \<and> el_isInProcess c)", OF _ assms(1)])
    fix f cu and e :: "('a, 'b) completeElement" and r
    assume IH: "\<And>cu (e :: ('a, 'b) completeElement) r. f cu e = Some r \<Longrightarrow>
        r \<longrightarrow> (\<exists>c. dep_chain cu e c \<and> el_isInProcess c)"
      and eq: "(if el_isInProcess e then Some True
          else case el_dependency e of None \<Rightarrow> Some False
             | Some d \<Rightarrow> Option.bind (go_nth (ElementPriorityQueue cu) (priority_of cu (dep_EventType d)))
                 (\<lambda>de. case de of Some (Complete c) \<Rightarrow> f cu c | _ \<Rightarrow> Some False)) = Some r"
    show "r \<longrightarrow> (\<exists>c. dep_chain cu e c \<and> el_isInProcess c)"
    proof (cases "el_isInProcess e")
      case True
      then show ?thesis using dep_chain.here by blast
    next
      case False
      show ?thesis
      proof
        assume r
        with eq False obtain d slot where
          s: "el_dependency e = Some d"
            "go_nth (ElementPriorityQueue cu) (priority_of cu (dep_EventType d)) = Some slot"
            "(case slot of Some (Complete c) \<Rightarrow> f cu c | _ \<Rightarrow> Some False) = Some r"
          by (auto split: option.splits simp: bind_eq_Some_conv)
        then obtain c where
          d: "el_dependency e = Some d" "f cu c = Some r"
            "go_nth (ElementPriorityQueue cu) (priority_of cu (dep_EventType d)) = Some (Some (Complete c))"
          using \<open>r\<close> by (cases slot; cases "the slot") auto
        with IH [OF d(2)] \<open>r\<close> show "\<exists>c. dep_chain cu e c \<and> el_isInProcess c"
          by (auto intro: dep_chain.follow)
      qed
    qed
  qed
  with assms(2) show ?thesis by blast
qed

lemma wf_dependency:
  assumes "wf_cu cu" "p < length (ElementPriorityQueue cu)"
    "ElementPriorityQueue cu ! p = Some (Complete e)" "el_dependency e = Some d"
  obtains el where "priority_of cu (dep_EventType d) < p"
    "go_nth (ElementPriorityQueue cu) (priority_of cu (dep_EventType d)) = Some (Some el)"
    "ElementPriorityQueue cu ! priority_of cu (dep_EventType d) = Some el"
proof -
  from wf_cu_at [OF assms(1,2,3)] assms(4) obtain q
    where q: "map_of (eventTypeToPriority cu) (dep_EventType d) = Some q" "q < p"
    by (auto simp: wf_slot_def split: option.splits)
  from wf_cu_lookup [OF assms(1) q(1)] obtain el
    where "q < length (ElementPriorityQueue cu)" "ElementPriorityQueue cu ! q = Some el" by blast
  with q that show ?thesis by (simp add: priority_of_def)
qed

lemma dependency_recursion_ends:
  assumes "wf_cu cu" "p < length (ElementPriorityQueue cu)"
    "ElementPriorityQueue cu ! p = Some (Complete e)"
  shows "\<exists>b. isCurrentOrAnyDependencyInProcess cu e = Some b"
  using assms(2,3)
proof (induction p arbitrary: e rule: less_induct)
  case (less p)
  show ?case
  proof (cases "el_isInProcess e \<or> el_dependency e = None")
    case True
    then show ?thesis by (subst isCurrentOrAnyDependencyInProcess.simps) auto
  next
    case False
    then obtain d where d: "el_dependency e = Some d" by auto
    from wf_dependency [OF assms(1) less.prems d] obtain el where
      q: "priority_of cu (dep_EventType d) < p"
        "go_nth (ElementPriorityQueue cu) (priority_of cu (dep_EventType d)) = Some (Some el)"
        "ElementPriorityQueue cu ! priority_of cu (dep_EventType d) = Some el" .
    show ?thesis
    proof (cases el)
      case (Complete c)
      with less.IH [OF q(1)] q less.prems(1) have "\<exists>b. isCurrentOrAnyDependencyInProcess cu c = Some b"
        by simp
      then show ?thesis using False d q(2) Complete
        by (subst isCurrentOrAnyDependencyInProcess.simps) auto
    next
      case (Delta x)
      then show ?thesis using False d q(2)
        by (subst isCurrentOrAnyDependencyInProcess.simps) auto
    qed
  qed
qed

section \<open>Readiness is decided\<close>

text \<open>
  The dependency version an element's comparison reads is present: a dependent element never
  holds metadata without one.
\<close>

definition dep_versions_present :: "('h, 'd) ConflationUnit \<Rightarrow> heap \<Rightarrow> bool" where
  "dep_versions_present cu h =
     (\<forall>slot \<in> set (ElementPriorityQueue cu).
        case slot of
          Some (Complete e) \<Rightarrow>
            (case el_metadata e of
               None \<Rightarrow> True
             | Some r \<Rightarrow> el_dependency e \<noteq> None \<longrightarrow> md_eventDependencyVersion (h r) \<noteq> None)
        | _ \<Rightarrow> True)"

lemma dep_versions_present_at:
  assumes "dep_versions_present cu h" "p < length (ElementPriorityQueue cu)"
    "ElementPriorityQueue cu ! p = Some (Complete e)" "el_metadata e = Some r"
    "el_dependency e \<noteq> None"
  shows "md_eventDependencyVersion (h r) \<noteq> None"
proof -
  from assms(2,3) have "Some (Complete e) \<in> set (ElementPriorityQueue cu)" by (metis nth_mem)
  with assms show ?thesis unfolding dep_versions_present_def by fastforce
qed

lemma matchDependency_total:
  assumes "wf_cu cu" "dep_versions_present cu h" "p < length (ElementPriorityQueue cu)"
    "ElementPriorityQueue cu ! p = Some (Complete e)" "el_metadata e = Some r"
  shows "\<exists>b. matchDependency cu h e = Some b"
proof (cases "el_dependency e")
  case None
  then show ?thesis by (auto simp: matchDependency_def)
next
  case (Some d)
  with dep_versions_present_at [OF assms(2-5)] obtain v
    where v: "md_eventDependencyVersion (h r) = Some v" by auto
  from wf_dependency [OF assms(1,3,4) Some] obtain el where
    q: "go_nth (ElementPriorityQueue cu) (priority_of cu (dep_EventType d)) = Some (Some el)" .
  then show ?thesis using Some v assms(5)
    by (auto simp: matchDependency_def EqualValue_def NewerValueThan_def
        split: ConflationElement.splits DependencyType.splits)
qed

lemma IsReadyToProcess_total:
  assumes "wf_cu cu" "dep_versions_present cu h" "p < length (ElementPriorityQueue cu)"
    "ElementPriorityQueue cu ! p = Some (Complete e)"
  shows "\<exists>b. IsReadyToProcess cu h e = Some b"
proof (cases "el_metadata e")
  case None
  then show ?thesis by (auto simp: IsReadyToProcess_def)
next
  case (Some r)
  from dependency_recursion_ends [OF assms(1,3,4)] matchDependency_total [OF assms Some]
  show ?thesis using Some by (auto simp: IsReadyToProcess_def)
qed

lemma scan_ready_total:
  assumes "wf_cu cu" "dep_versions_present cu h"
    "drop i (ElementPriorityQueue cu) = els"
  shows "\<exists>b. scan_ready cu h i els = Some b"
  using assms(3)
proof (induction els arbitrary: i)
  case Nil
  then show ?case by simp
next
  case (Cons slot els)
  then have i: "i < length (ElementPriorityQueue cu)"
    by (metis drop_eq_Nil2 list.distinct(1) not_less)
  with Cons.prems have here: "ElementPriorityQueue cu ! i = slot"
    and rest: "drop (Suc i) (ElementPriorityQueue cu) = els"
    by (simp_all add: Cons_nth_drop_Suc [symmetric])
  from wf_cu_slot [OF assms(1) i] obtain el where el: "slot = Some el" using here by auto
  note IH = Cons.IH [OF rest]
  show ?case
  proof (cases el)
    case (Complete c)
    from IsReadyToProcess_total [OF assms(1,2) i] here el Complete
    obtain b where "IsReadyToProcess cu h c = Some b" by auto
    then show ?thesis using IH el Complete by auto
  next
    case (Delta d)
    then show ?thesis using IH el by simp
  qed
qed

lemma getNextReady_total:
  "wf_cu cu \<Longrightarrow> dep_versions_present cu h \<Longrightarrow> \<exists>b. getNextReadyCompleteElement cu h = Some b"
  unfolding getNextReadyCompleteElement_def by (rule scan_ready_total) simp_all

text \<open>An element at position \<open>q\<close> is ready.\<close>

definition ready_at :: "('h, 'd) ConflationUnit \<Rightarrow> heap \<Rightarrow> nat \<Rightarrow> bool" where
  "ready_at cu h q =
     (q < length (ElementPriorityQueue cu) \<and>
      (case ElementPriorityQueue cu ! q of
         Some (Complete c) \<Rightarrow> el_syncMode c \<noteq> DeltaStateMode \<and> IsReadyToProcess cu h c = Some True
       | _ \<Rightarrow> False))"

lemma scan_ready_spec:
  assumes "scan_ready cu h i els = Some res" "drop i (ElementPriorityQueue cu) = els"
  shows "case res of
           None \<Rightarrow> \<forall>q \<ge> i. \<not> ready_at cu h q
         | Some p \<Rightarrow> i \<le> p \<and> ready_at cu h p \<and> (\<forall>q. i \<le> q \<and> q < p \<longrightarrow> \<not> ready_at cu h q)"
  using assms
proof (induction els arbitrary: i)
  case Nil
  then show ?case by (auto simp: ready_at_def)
next
  case (Cons slot els)
  then have i: "i < length (ElementPriorityQueue cu)"
    by (metis drop_eq_Nil2 list.distinct(1) not_less)
  with Cons.prems have here: "ElementPriorityQueue cu ! i = slot"
    and rest: "drop (Suc i) (ElementPriorityQueue cu) = els"
    by (simp_all add: Cons_nth_drop_Suc [symmetric])
  have step: "scan_ready cu h (Suc i) els = Some res \<and> \<not> ready_at cu h i
      \<or> res = Some i \<and> ready_at cu h i"
    using Cons.prems(1) here i
    by (cases slot; cases "the slot")
      (auto simp: ready_at_def bind_eq_Some_conv split: if_splits)
  have shift: "P i \<Longrightarrow> (\<forall>q \<ge> Suc i. P q) \<Longrightarrow> \<forall>q \<ge> i. P q" for P :: "nat \<Rightarrow> bool"
    by (metis Suc_leI le_neq_implies_less)
  from step show ?case
  proof
    assume a: "scan_ready cu h (Suc i) els = Some res \<and> \<not> ready_at cu h i"
    with Cons.IH [OF _ rest] show ?thesis
      by (cases res) (auto intro: Suc_leI simp: le_eq_less_or_eq [of i])
  next
    assume "res = Some i \<and> ready_at cu h i"
    then show ?thesis by auto
  qed
qed

lemma getNextReady_Some:
  "getNextReadyCompleteElement cu h = Some (Some p) \<Longrightarrow>
   ready_at cu h p \<and> (\<forall>q < p. \<not> ready_at cu h q)"
  using scan_ready_spec [of cu h 0 "ElementPriorityQueue cu" "Some p"]
  by (simp add: getNextReadyCompleteElement_def)

lemma getNextReady_None:
  "getNextReadyCompleteElement cu h = Some None \<Longrightarrow> \<not> ready_at cu h q"
  using scan_ready_spec [of cu h 0 "ElementPriorityQueue cu" None]
  by (simp add: getNextReadyCompleteElement_def)

lemma ready_at_E:
  assumes "ready_at cu h p"
  obtains e r ev where "p < length (ElementPriorityQueue cu)"
    "ElementPriorityQueue cu ! p = Some (Complete e)" "el_metadata e = Some r" "el_event e = Some ev"
    "\<not> el_isInProcess e" "\<not> Processed (h r)" "isCurrentOrAnyDependencyInProcess cu e = Some False"
    "matchDependency cu h e = Some True"
  using assms
  by (auto simp: ready_at_def IsReadyToProcess_def bind_eq_Some_conv
      split: option.splits ConflationElement.splits if_splits)

section \<open>What the operations change\<close>

text \<open>A unit evolves: name, priorities and the static part of every slot stay.\<close>

definition evolves :: "('h, 'd) ConflationUnit \<Rightarrow> ('h, 'd) ConflationUnit \<Rightarrow> bool" where
  "evolves cu cu' \<longleftrightarrow>
     cu_name cu' = cu_name cu \<and> eventTypeToPriority cu' = eventTypeToPriority cu \<and>
     map (map_option elem_shape) (ElementPriorityQueue cu') =
       map (map_option elem_shape) (ElementPriorityQueue cu)"

lemma evolves_refl [simp]: "evolves cu cu"
  by (simp add: evolves_def)

lemma evolves_trans: "evolves a b \<Longrightarrow> evolves b c \<Longrightarrow> evolves a c"
  by (simp add: evolves_def)

lemma evolves_ready_flag [simp]: "evolves cu (cu'\<lparr>isInReadyQueue := b\<rparr>) = evolves cu cu'"
  by (simp add: evolves_def)

lemma evolves_set_element:
  "ElementPriorityQueue cu ! p = Some el \<Longrightarrow> elem_shape el' = elem_shape el
   \<Longrightarrow> evolves cu (set_element p el' cu)"
  by (cases "p < length (ElementPriorityQueue cu)")
    (auto simp: evolves_def map_update list_update_beyond intro!: list_update_same_conv [THEN iffD2])

lemma evolves_length: "evolves cu cu' \<Longrightarrow> length (ElementPriorityQueue cu') = length (ElementPriorityQueue cu)"
  unfolding evolves_def by (metis length_map)

lemma evolves_slot:
  assumes "evolves cu cu'" "p < length (ElementPriorityQueue cu)"
  shows "map_option elem_shape (ElementPriorityQueue cu' ! p) = map_option elem_shape (ElementPriorityQueue cu ! p)"
  using assms evolves_length [OF assms(1)] unfolding evolves_def by (metis nth_map)

lemma evolves_priority: "evolves cu cu' \<Longrightarrow> priority_of cu' t = priority_of cu t"
  by (simp add: evolves_def priority_of_def)

lemma evolves_wf [keeps]:
  assumes ev: "evolves cu cu'" and wf: "wf_cu cu"
  shows "wf_cu cu'"
proof -
  have m: "eventTypeToPriority cu' = eventTypeToPriority cu" using ev by (simp add: evolves_def)
  have sl: "\<exists>el'. ElementPriorityQueue cu' ! p = Some el' \<and> elem_shape el' = elem_shape el"
    if "p < length (ElementPriorityQueue cu)" "ElementPriorityQueue cu ! p = Some el" for p el
    using evolves_slot [OF ev that(1)] that(2) by auto
  show ?thesis
    unfolding wf_cu_iff m evolves_length [OF ev]
  proof (intro conjI allI impI)
    fix p assume "p < length (ElementPriorityQueue cu)"
    with wf_cu_slot [OF wf this] sl wf_slot_shape
    show "\<exists>el. ElementPriorityQueue cu' ! p = Some el \<and> wf_slot (eventTypeToPriority cu) p el"
      by metis
  next
    fix t p assume tp: "(t, p) \<in> set (eventTypeToPriority cu)"
    then show p: "p < length (ElementPriorityQueue cu)" using wf by (auto simp: wf_cu_iff)
    from tp wf obtain el where "ElementPriorityQueue cu ! p = Some el" "element_Name el = t"
      unfolding wf_cu_iff by blast
    with sl [OF p] show "\<exists>el. ElementPriorityQueue cu' ! p = Some el \<and> element_Name el = t"
      by (auto dest: element_Name_shape)
  qed
qed

text \<open>Whether the complete element of a slot is being processed, and the metadata of a slot.\<close>

definition in_process :: "('h, 'd) ConflationUnit \<Rightarrow> nat \<Rightarrow> bool" where
  "in_process cu q =
     (q < length (ElementPriorityQueue cu) \<and>
      (case ElementPriorityQueue cu ! q of Some (Complete e) \<Rightarrow> el_isInProcess e | _ \<Rightarrow> False))"

definition meta_at :: "('h, 'd) ConflationUnit \<Rightarrow> nat \<Rightarrow> mref option" where
  "meta_at cu q =
     (if q < length (ElementPriorityQueue cu)
      then Option.bind (ElementPriorityQueue cu ! q) element_Metadata else None)"

definition is_complete_slot :: "('h, 'd) ConflationUnit \<Rightarrow> nat \<Rightarrow> bool" where
  "is_complete_slot cu q =
     (q < length (ElementPriorityQueue cu) \<and>
      (case ElementPriorityQueue cu ! q of Some (Complete e) \<Rightarrow> True | _ \<Rightarrow> False))"

lemma slot_views_flag [simp]:
  "in_process (cu\<lparr>isInReadyQueue := b\<rparr>) q = in_process cu q"
  "meta_at (cu\<lparr>isInReadyQueue := b\<rparr>) q = meta_at cu q"
  "is_complete_slot (cu\<lparr>isInReadyQueue := b\<rparr>) q = is_complete_slot cu q"
  by (simp_all add: in_process_def meta_at_def is_complete_slot_def)

lemma in_process_set_element [simp]:
  "p < length (ElementPriorityQueue cu) \<Longrightarrow>
   in_process (set_element p el cu) q =
     (if q = p then (case el of Complete e \<Rightarrow> el_isInProcess e | _ \<Rightarrow> False) else in_process cu q)"
  by (auto simp: in_process_def nth_list_update split: ConflationElement.splits)

lemma meta_at_set_element [simp]:
  "p < length (ElementPriorityQueue cu) \<Longrightarrow>
   meta_at (set_element p el cu) q = (if q = p then element_Metadata el else meta_at cu q)"
  by (auto simp: meta_at_def nth_list_update)

lemma is_complete_slot_evolves:
  "evolves cu cu' \<Longrightarrow> is_complete_slot cu' q = is_complete_slot cu q"
proof (cases "q < length (ElementPriorityQueue cu)")
  case True
  assume ev: "evolves cu cu'"
  from evolves_slot [OF ev True] show ?thesis
    using True evolves_length [OF ev]
    by (cases "ElementPriorityQueue cu ! q"; cases "ElementPriorityQueue cu' ! q";
        cases "the (ElementPriorityQueue cu ! q)"; cases "the (ElementPriorityQueue cu' ! q)")
      (auto simp: is_complete_slot_def)
qed (simp add: is_complete_slot_def evolves_length)

text \<open>Two stores that differ at most in event versions.\<close>

definition same_but_version :: "heap \<Rightarrow> heap \<Rightarrow> bool" where
  "same_but_version h h' \<longleftrightarrow>
     (\<forall>r. md_eventType (h' r) = md_eventType (h r) \<and> md_count (h' r) = md_count (h r) \<and>
          md_maxRetry (h' r) = md_maxRetry (h r) \<and> md_kafkaPosition (h' r) = md_kafkaPosition (h r) \<and>
          md_eventDependencyVersion (h' r) = md_eventDependencyVersion (h r))"

lemma same_but_version_refl [simp]: "same_but_version h h"
  by (simp add: same_but_version_def)

lemma complete_Predicate_effect:
  assumes "complete_Predicate ver e h = (ok, e1, h1)"
  shows "elem_shape (Complete e1) = elem_shape (Complete e)" "el_isInProcess e1 = el_isInProcess e"
    "el_metadata e1 = el_metadata e" "el_event e1 = el_event e" "same_but_version h h1"
    "el_handlerFunction e1 = el_handlerFunction e"
  using assms
  by (auto simp: complete_Predicate_def Let_def same_but_version_def split: if_splits option.splits)

lemma delta_Predicate_effect:
  assumes "delta_Predicate ver e = (ok, e1)"
  shows "elem_shape (Delta e1) = elem_shape (Delta e)" "de_metadata e1 = de_metadata e"
    "de_handlerFunction e1 = de_handlerFunction e"
  using assms by (auto simp: delta_Predicate_def Let_def split: if_splits)

text \<open>The unit either stays as it is, or enters the ready queue with a ready element.\<close>

lemma addCU_cases:
  assumes "addCUToReadyQueueIfNeeded (cu, v) = Some s'"
  obtains (stays) "s' = (cu, v)" "isInReadyQueue cu \<or> (\<forall>q. \<not> ready_at cu (env_heap v) q)"
  | (queued) p where "\<not> isInReadyQueue cu" "ready_at cu (env_heap v) p"
      "s' = (cu\<lparr>isInReadyQueue := True\<rparr>,
             v\<lparr>env_ConflationUnitChan := env_ConflationUnitChan v @ [cu_name cu]\<rparr>)"
proof (cases "isInReadyQueue cu")
  case True
  with assms stays show ?thesis by (simp add: addCUToReadyQueueIfNeeded_def)
next
  case False
  with assms obtain el where el: "getNextReadyCompleteElement cu (env_heap v) = Some el"
    by (auto simp: addCUToReadyQueueIfNeeded_def bind_eq_Some_conv)
  show ?thesis
  proof (cases el)
    case None
    with assms False el stays show ?thesis
      by (auto simp: addCUToReadyQueueIfNeeded_def dest: getNextReady_None)
  next
    case (Some p)
    with assms False el show ?thesis
      by (intro queued [of p]) (auto simp: addCUToReadyQueueIfNeeded_def dest: getNextReady_Some)
  qed
qed

lemma addCU_total:
  "wf_cu cu \<Longrightarrow> dep_versions_present cu (env_heap v) \<Longrightarrow> \<exists>s'. addCUToReadyQueueIfNeeded (cu, v) = Some s'"
  using getNextReady_total [of cu "env_heap v"]
  by (auto simp: addCUToReadyQueueIfNeeded_def split: option.splits)

section \<open>Effect of the operations\<close>

text \<open>How the ready flag and the unit channel may move in an operation that can enqueue the unit.\<close>

definition queue_step ::
    "('h, 'd) ConflationUnit \<Rightarrow> ('h, 'd) env \<Rightarrow> ('h, 'd) ConflationUnit \<Rightarrow> ('h, 'd) env \<Rightarrow> bool" where
  "queue_step cu v cu' v' \<longleftrightarrow>
     (isInReadyQueue cu' = isInReadyQueue cu \<and> env_ConflationUnitChan v' = env_ConflationUnitChan v) \<or>
     (\<not> isInReadyQueue cu \<and> isInReadyQueue cu' \<and>
      env_ConflationUnitChan v' = env_ConflationUnitChan v @ [cu_name cu])"

lemma addCU_effect:
  assumes "addCUToReadyQueueIfNeeded (cu, v) = Some (cu', v')"
  shows "evolves cu cu'" "queue_step cu v cu' v'" "in_process cu' = in_process cu"
    "meta_at cu' = meta_at cu" "env_heap v' = env_heap v"
    "env_DeltaEventJobChan v' = env_DeltaEventJobChan v"
  using assms by (auto elim!: addCU_cases simp: queue_step_def)

lemma cu_insert_effect:
  assumes wf: "wf_cu cu" and ins: "cu_insert event r (cu, v) = Some (cu', v')"
  defines "p \<equiv> priority_of cu (evt_Type event)"
  shows "evolves cu cu'" "queue_step cu v cu' v'" "in_process cu' = in_process cu"
    "same_but_version (env_heap v) (env_heap v')"
    "meta_at cu' q = meta_at cu q \<or> q = p \<and> meta_at cu' q = Some r"
    "env_DeltaEventJobChan v' = env_DeltaEventJobChan v \<or>
     \<not> is_complete_slot cu p \<and> (\<exists>h. env_DeltaEventJobChan v' =
        env_DeltaEventJobChan v @ [NewConflationJob event r h (cu_name cu)])"
proof -
  from ins have p: "p < length (ElementPriorityQueue cu)"
    by (auto simp: cu_insert_def p_def [symmetric] Let_def bind_eq_Some_conv go_nth_eq_Some)
  from wf_cu_slot [OF wf p] obtain el where el: "ElementPriorityQueue cu ! p = Some el" .
  have "evolves cu cu' \<and> queue_step cu v cu' v' \<and> in_process cu' = in_process cu \<and>
    same_but_version (env_heap v) (env_heap v') \<and>
    (meta_at cu' q = meta_at cu q \<or> q = p \<and> meta_at cu' q = Some r) \<and>
    (env_DeltaEventJobChan v' = env_DeltaEventJobChan v \<or>
     \<not> is_complete_slot cu p \<and> (\<exists>h. env_DeltaEventJobChan v' =
        env_DeltaEventJobChan v @ [NewConflationJob event r h (cu_name cu)]))"
  proof (cases el)
    case (Complete e)
    obtain ok e1 h1 where pr:
      "complete_Predicate (md_eventVersion (env_heap v r)) e (env_heap v) = (ok, e1, h1)"
      by (metis prod_cases3)
    note eff = complete_Predicate_effect [OF pr]
    let ?cu1 = "set_element p (Complete e1) cu" and ?v1 = "v\<lparr>env_heap := h1\<rparr>"
    let ?e2 = "e1\<lparr>el_event := Some event, el_metadata := Some r\<rparr>"
    let ?cu2 = "set_element p (Complete ?e2) ?cu1"
    have m: "meta_at cu p = el_metadata e" "in_process cu p = el_isInProcess e"
      using p el Complete by (simp_all add: meta_at_def in_process_def)
    have ev1: "evolves cu ?cu1" and ev2: "evolves cu ?cu2"
      using el Complete eff(1) p
      by (auto intro!: evolves_set_element evolves_trans [of cu ?cu1 ?cu2])
    have ip: "in_process ?cu1 = in_process cu" "in_process ?cu2 = in_process cu"
      using p m eff(2) by (auto simp: fun_eq_iff)
    show ?thesis
    proof (cases ok)
      case True
      with ins el Complete pr p have "addCUToReadyQueueIfNeeded (?cu2, ?v1) = Some (cu', v')"
        by (simp add: cu_insert_def p_def [symmetric] complete_AddToReadyQueue_def)
      from addCU_effect [OF this] ev2 ip eff(5) p m
      show ?thesis by (auto simp: queue_step_def intro: evolves_trans)
    next
      case False
      with ins el Complete pr p have "cu' = ?cu1" "v' = ?v1"
        by (simp_all add: cu_insert_def p_def [symmetric])
      with ev1 ip eff p m show ?thesis by (auto simp: queue_step_def)
    qed
  next
    case (Delta e)
    obtain ok e1 where pr: "delta_Predicate (md_eventVersion (env_heap v r)) e = (ok, e1)"
      by (metis surj_pair)
    note eff = delta_Predicate_effect [OF pr]
    let ?e2 = "if ok then e1\<lparr>de_metadata := Some r\<rparr> else e1"
    have cu': "cu' = set_element p (Delta ?e2) cu"
      and v': "v' = (if ok then v\<lparr>env_DeltaEventJobChan := env_DeltaEventJobChan v @
              [NewConflationJob event r (de_handlerFunction e1) (cu_name cu)]\<rparr> else v)"
      using ins el Delta pr p
      by (auto simp: cu_insert_def p_def [symmetric] delta_AddToReadyQueue_def set_element_def)
    have "evolves cu cu'" unfolding cu' using el Delta eff(1)
      by (intro evolves_set_element) auto
    moreover have "in_process cu' = in_process cu"
      using p el Delta unfolding cu' by (auto simp: fun_eq_iff in_process_def nth_list_update)
    moreover have "\<not> is_complete_slot cu p" using el Delta by (simp add: is_complete_slot_def)
    moreover have "meta_at cu' q = meta_at cu q \<or> q = p \<and> meta_at cu' q = Some r"
      using p el Delta eff(2) unfolding cu' by (auto simp: meta_at_def nth_list_update)
    ultimately show ?thesis unfolding cu' v' by (auto simp: queue_step_def)
  qed
  then show "evolves cu cu'" "queue_step cu v cu' v'" "in_process cu' = in_process cu"
    "same_but_version (env_heap v) (env_heap v')"
    "meta_at cu' q = meta_at cu q \<or> q = p \<and> meta_at cu' q = Some r"
    "env_DeltaEventJobChan v' = env_DeltaEventJobChan v \<or>
     \<not> is_complete_slot cu p \<and> (\<exists>h. env_DeltaEventJobChan v' =
        env_DeltaEventJobChan v @ [NewConflationJob event r h (cu_name cu)])"
    by blast+
qed

lemma GetNext_job:
  assumes "GetNext cu h = Some (Inr job, cu')"
  obtains p e r ev where "ready_at cu h p" "\<forall>q < p. \<not> ready_at cu h q"
    "p < length (ElementPriorityQueue cu)"
    "ElementPriorityQueue cu ! p = Some (Complete e)" "el_metadata e = Some r" "el_event e = Some ev"
    "job = NewConflationJob ev r (el_handlerFunction e) (cu_name cu)"
    "cu' = set_element p (Complete (e\<lparr>el_isInProcess := True\<rparr>)) (cu\<lparr>isInReadyQueue := False\<rparr>)"
proof -
  from assms obtain p where p: "getNextReadyCompleteElement cu h = Some (Some p)"
    by (auto simp: GetNext_def bind_eq_Some_conv split: option.splits)
  note rd = getNextReady_Some [OF this]
  from rd have "ready_at cu h p" ..
  then show ?thesis
  proof (rule ready_at_E)
    fix e r ev assume a: "p < length (ElementPriorityQueue cu)"
      "ElementPriorityQueue cu ! p = Some (Complete e)" "el_metadata e = Some r" "el_event e = Some ev"
    with assms p have "job = NewConflationJob ev r (el_handlerFunction e) (cu_name cu)"
      "cu' = set_element p (Complete (e\<lparr>el_isInProcess := True\<rparr>)) (cu\<lparr>isInReadyQueue := False\<rparr>)"
      by (auto simp: GetNext_def ProcessJob_def)
    with a rd that show ?thesis by blast
  qed
qed

lemma GetNext_error:
  assumes "GetNext cu h = Some (Inl err, cu')"
  shows "err = NoElementReady" "cu' = cu" "\<not> ready_at cu h q"
proof -
  from assms obtain el where el: "getNextReadyCompleteElement cu h = Some el"
    by (auto simp: GetNext_def bind_eq_Some_conv)
  have "el = None"
  proof (cases el)
    case (Some p)
    with el getNextReady_Some have "ready_at cu h p" by blast
    then show ?thesis
      by (rule ready_at_E) (use assms el Some in \<open>auto simp: GetNext_def ProcessJob_def\<close>)
  qed simp
  with assms el getNextReady_None show "err = NoElementReady" "cu' = cu" "\<not> ready_at cu h q"
    by (auto simp: GetNext_def)
qed

lemma GetNext_total:
  assumes "wf_cu cu" "dep_versions_present cu h"
  shows "\<exists>res. GetNext cu h = Some res"
proof -
  from getNextReady_total [OF assms] obtain el where el: "getNextReadyCompleteElement cu h = Some el" ..
  show ?thesis
  proof (cases el)
    case None
    with el show ?thesis by (simp add: GetNext_def)
  next
    case (Some p)
    with el getNextReady_Some have "ready_at cu h p" by blast
    then show ?thesis
      by (rule ready_at_E) (use el Some in \<open>auto simp: GetNext_def ProcessJob_def\<close>)
  qed
qed

lemma complete_PostProcess_effect:
  assumes "complete_PostProcess h r err e = Some e1"
  shows "elem_shape (Complete e1) = elem_shape (Complete e)" "\<not> el_isInProcess e1"
    "el_metadata e1 = el_metadata e"
  using assms by (auto simp: complete_PostProcess_def Let_def split: if_splits)

lemma delta_PostProcess_effect:
  "elem_shape (Delta (delta_PostProcess h r err e)) = elem_shape (Delta e)"
  "de_metadata (delta_PostProcess h r err e) = de_metadata e"
  "de_syncMode (delta_PostProcess h r err e) = de_syncMode e"
  "de_eventType (delta_PostProcess h r err e) = de_eventType e"
  "de_dependency (delta_PostProcess h r err e) = de_dependency e"
  "de_handlerFunction (delta_PostProcess h r err e) = de_handlerFunction e"
  by (simp_all add: delta_PostProcess_def)

lemma ReportResult_effect:
  assumes wf: "wf_cu cu" and rep: "ReportResult r err (cu, v) = Some (cu', v')"
  defines "p \<equiv> priority_of cu (md_eventType (env_heap v r))"
  shows "evolves cu cu'" "queue_step cu v cu' v'" "env_heap v' = env_heap v"
    "env_DeltaEventJobChan v' = env_DeltaEventJobChan v" "meta_at cu' = meta_at cu"
    "in_process cu' = (in_process cu)(p := False)"
proof -
  from rep have p: "p < length (ElementPriorityQueue cu)"
    by (auto simp: ReportResult_def p_def [symmetric] bind_eq_Some_conv go_nth_eq_Some)
  from wf_cu_slot [OF wf p] obtain el where el: "ElementPriorityQueue cu ! p = Some el"
    and sl: "wf_slot (eventTypeToPriority cu) p el" .
  have "evolves cu cu' \<and> queue_step cu v cu' v' \<and> env_heap v' = env_heap v \<and>
    env_DeltaEventJobChan v' = env_DeltaEventJobChan v \<and> meta_at cu' = meta_at cu \<and>
    in_process cu' = (in_process cu)(p := False)"
  proof (cases el)
    case (Complete e)
    with rep el p obtain e1 where e1: "complete_PostProcess (env_heap v) r err e = Some e1"
      by (auto simp: ReportResult_def p_def [symmetric] bind_eq_Some_conv)
    note eff = complete_PostProcess_effect [OF e1]
    let ?cu1 = "set_element p (Complete e1) cu"
    have "addCUToReadyQueueIfNeeded (?cu1, v) = Some (cu', v')"
      using rep el p Complete e1 sl eff(1)
      by (auto simp: ReportResult_def p_def [symmetric] wf_slot_def)
    note add = addCU_effect [OF this]
    have "evolves cu ?cu1" using el Complete eff(1) by (auto intro: evolves_set_element)
    then have "evolves cu cu'" using add(1) by (rule evolves_trans)
    moreover have "in_process cu' = (in_process cu)(p := False)" "meta_at cu' = meta_at cu"
      unfolding add(3,4) using p eff(2,3) el Complete
      by (auto simp: fun_eq_iff meta_at_def nth_list_update)
    ultimately show ?thesis using add by (auto simp: queue_step_def)
  next
    case (Delta e)
    with rep el p sl have "cu' = set_element p (Delta (delta_PostProcess (env_heap v) r err e)) cu"
      "v' = v"
      by (auto simp: ReportResult_def p_def [symmetric] wf_slot_def delta_PostProcess_effect)
    then show ?thesis using el Delta p
      by (auto simp: queue_step_def fun_eq_iff meta_at_def in_process_def delta_PostProcess_effect
          nth_list_update intro!: evolves_set_element)
  qed
  then show "evolves cu cu'" "queue_step cu v cu' v'" "env_heap v' = env_heap v"
    "env_DeltaEventJobChan v' = env_DeltaEventJobChan v" "meta_at cu' = meta_at cu"
    "in_process cu' = (in_process cu)(p := False)" by blast+
qed

end
