(* ===== verification/Statistics.thy ===== *)
theory Statistics
  imports Metadata
begin

text \<open>
  \<^verbatim>\<open>pkg/statistics\<close>: counters per event type kept by the manager. Times are integers: a
  duration is in nanoseconds, as in \<^verbatim>\<open>time.Duration\<close>, the current time is an argument. The
  mutexes make every operation atomic; the periodic dump to the log is not modelled.
\<close>

record genericMetrics =
  gm_failures :: int
  gm_successes :: int
  gm_totalDuration :: int
  gm_maxDuration :: int

definition empty_metrics :: genericMetrics where
  "empty_metrics = \<lparr>gm_failures = 0, gm_successes = 0, gm_totalDuration = 0, gm_maxDuration = 0\<rparr>"

text \<open>\<^verbatim>\<open>Duration.Milliseconds\<close> truncates towards zero.\<close>

definition milliseconds :: "int \<Rightarrow> int" where
  "milliseconds d = sgn d * (\<bar>d\<bar> div 1000000)"

definition addUnsafe :: "int \<Rightarrow> bool \<Rightarrow> genericMetrics \<Rightarrow> genericMetrics" where
  "addUnsafe duration err tm =
     (if err then tm\<lparr>gm_failures := int64 (gm_failures tm + 1)\<rparr>
      else let ms = milliseconds duration;
               tm1 = tm\<lparr>gm_successes := int64 (gm_successes tm + 1),
                        gm_totalDuration := int64 (gm_totalDuration tm + ms)\<rparr>
           in if gm_maxDuration tm1 < ms then tm1\<lparr>gm_maxDuration := ms\<rparr> else tm1)"

record conflationUnitMetrics =
  cum_generic :: genericMetrics
  cum_startTimestamps :: "(string, int) gomap"

definition cum_start :: "int \<Rightarrow> string \<Rightarrow> conflationUnitMetrics \<Rightarrow> conflationUnitMetrics" where
  "cum_start now name cum =
     cum\<lparr>cum_startTimestamps := AList.update name (now div 1000000000) (cum_startTimestamps cum)\<rparr>"

text \<open>A unit that was never started reads the zero timestamp.\<close>

definition cum_stop :: "int \<Rightarrow> string \<Rightarrow> bool \<Rightarrow> conflationUnitMetrics \<Rightarrow> conflationUnitMetrics" where
  "cum_stop now name err cum =
     (let startTme = (case map_of (cum_startTimestamps cum) name of None \<Rightarrow> 0 | Some t \<Rightarrow> t)
      in cum\<lparr>cum_generic := addUnsafe (now - startTme * 1000000000) err (cum_generic cum)\<rparr>)"

record eventMetrics =
  em_conflationUnit :: conflationUnitMetrics
  em_database :: genericMetrics
  em_totalReceived :: int

definition newEventMetrics :: eventMetrics where
  "newEventMetrics =
     \<lparr>em_conflationUnit = \<lparr>cum_generic = empty_metrics, cum_startTimestamps = []\<rparr>,
      em_database = empty_metrics, em_totalReceived = 0\<rparr>"

record Stats =
  st_numOfAvailableDBWorkers :: int
  st_conflationReadyQueueSize :: int
  st_numOfConflationUnits :: int
  st_eventMetrics :: "(string, eventMetrics) gomap"
  st_logInterval :: string

definition NewStatistics :: "string \<Rightarrow> Stats" where
  "NewStatistics logInterval =
     \<lparr>st_numOfAvailableDBWorkers = 0, st_conflationReadyQueueSize = 0, st_numOfConflationUnits = 0,
      st_eventMetrics = [], st_logInterval = logInterval\<rparr>"

definition stats_Register :: "string \<Rightarrow> Stats \<Rightarrow> Stats" where
  "stats_Register eventType s =
     s\<lparr>st_eventMetrics := AList.update eventType newEventMetrics (st_eventMetrics s)\<rparr>"

text \<open>Operations on an unregistered event type do nothing.\<close>

definition on_metrics :: "string \<Rightarrow> (eventMetrics \<Rightarrow> eventMetrics) \<Rightarrow> Stats \<Rightarrow> Stats" where
  "on_metrics eventType f s =
     (case map_of (st_eventMetrics s) eventType of
        None \<Rightarrow> s
      | Some m \<Rightarrow> s\<lparr>st_eventMetrics := AList.update eventType (f m) (st_eventMetrics s)\<rparr>)"

definition ReceivedEvent :: "'d Event \<Rightarrow> Stats \<Rightarrow> Stats" where
  "ReceivedEvent evt =
     on_metrics (evt_Type evt) (\<lambda>m. m\<lparr>em_totalReceived := int64 (em_totalReceived m + 1)\<rparr>)"

definition SetNumberOfAvailableDBWorkers :: "int \<Rightarrow> Stats \<Rightarrow> Stats" where
  "SetNumberOfAvailableDBWorkers numOf s = s\<lparr>st_numOfAvailableDBWorkers := numOf\<rparr>"

definition SetConflationReadyQueueSize :: "int \<Rightarrow> Stats \<Rightarrow> Stats" where
  "SetConflationReadyQueueSize sz s = s\<lparr>st_conflationReadyQueueSize := sz\<rparr>"

definition StartConflationUnitMetrics :: "int \<Rightarrow> 'd Event \<Rightarrow> Stats \<Rightarrow> Stats" where
  "StartConflationUnitMetrics now evt =
     on_metrics (evt_Type evt)
       (\<lambda>m. m\<lparr>em_conflationUnit := cum_start now (evt_Source evt) (em_conflationUnit m)\<rparr>)"

definition StopConflationUnitMetrics :: "int \<Rightarrow> 'd Event \<Rightarrow> bool \<Rightarrow> Stats \<Rightarrow> Stats" where
  "StopConflationUnitMetrics now evt err =
     on_metrics (evt_Type evt)
       (\<lambda>m. m\<lparr>em_conflationUnit := cum_stop now (evt_Source evt) err (em_conflationUnit m)\<rparr>)"

definition IncrementNumberOfConflations :: "Stats \<Rightarrow> Stats" where
  "IncrementNumberOfConflations s = s\<lparr>st_numOfConflationUnits := int64 (st_numOfConflationUnits s + 1)\<rparr>"

definition AddDatabaseMetrics :: "'d Event \<Rightarrow> int \<Rightarrow> bool \<Rightarrow> Stats \<Rightarrow> Stats" where
  "AddDatabaseMetrics evt duration err =
     on_metrics (evt_Type evt) (\<lambda>m. m\<lparr>em_database := addUnsafe duration err (em_database m)\<rparr>)"

section \<open>What a sequence of measurements adds up to\<close>

definition run_metrics :: "(int \<times> bool) list \<Rightarrow> genericMetrics \<Rightarrow> genericMetrics" where
  "run_metrics ms tm = fold (\<lambda>(d, err). addUnsafe d err) ms tm"

definition ok_millis :: "(int \<times> bool) list \<Rightarrow> int list" where
  "ok_millis ms = map (milliseconds \<circ> fst) (filter (Not \<circ> snd) ms)"

lemma milliseconds_nonneg: "0 \<le> d \<Longrightarrow> 0 \<le> milliseconds d"
  by (cases "d = 0") (auto simp: milliseconds_def sgn_if)

lemma sum_list_prefix_le:
  "(\<And>x. x \<in> set xs \<Longrightarrow> (0::int) \<le> x) \<Longrightarrow> 0 \<le> sum_list xs"
  by (induction xs) auto

lemma on_metrics_lookup:
  "map_of (st_eventMetrics (on_metrics t f s)) t' =
     (if t' = t then map_option f (map_of (st_eventMetrics s) t) else map_of (st_eventMetrics s) t')"
  by (auto simp: on_metrics_def split: option.splits)

lemma run_metrics_max:
  "gm_maxDuration (run_metrics ms tm) = fold max (ok_millis ms) (gm_maxDuration tm)"
  by (induction ms arbitrary: tm)
    (auto simp: run_metrics_def ok_millis_def addUnsafe_def Let_def max_def)

lemma run_metrics_counts:
  assumes "in_int64 (gm_failures tm + int (length ms))" "in_int64 (gm_failures tm)"
    "in_int64 (gm_successes tm + int (length ms))" "in_int64 (gm_successes tm)"
  shows "gm_failures (run_metrics ms tm) = gm_failures tm + int (length (filter snd ms))
    \<and> gm_successes (run_metrics ms tm) = gm_successes tm + int (length (ok_millis ms))"
  using assms
proof (induction ms arbitrary: tm)
  case Nil
  then show ?case by (simp add: run_metrics_def ok_millis_def)
next
  case (Cons x ms)
  obtain d err where x: "x = (d, err)" by force
  let ?tm = "addUnsafe d err tm"
  have r: "run_metrics (x # ms) tm = run_metrics ms ?tm" by (simp add: run_metrics_def x)
  have cnt: "gm_failures ?tm = gm_failures tm + (if err then 1 else 0)"
    "gm_successes ?tm = gm_successes tm + (if err then 0 else 1)"
    using Cons.prems by (auto simp: addUnsafe_def Let_def in_int64_def)
  have "gm_failures (run_metrics ms ?tm) = gm_failures ?tm + int (length (filter snd ms))
    \<and> gm_successes (run_metrics ms ?tm) = gm_successes ?tm + int (length (ok_millis ms))"
    by (rule Cons.IH) (use Cons.prems in \<open>auto simp: cnt in_int64_def\<close>)
  then show ?case unfolding r cnt by (auto simp: x ok_millis_def)
qed

end
