(* ===== verification/ConflationManager.thy ===== *)
theory ConflationManager
  imports ConflationUnitInv Statistics
begin

text \<open>
  \<^verbatim>\<open>manager/pkg/status/conflator/conflation_manager.go\<close>: one conflation unit per managed hub,
  created on its first event, and the metadata of all units for the offset committer.

  The manager's state holds the shared ready queue and the store of metadata objects;
  \<open>cm_next\<close> is the next unused reference of the store.
\<close>

record ('h, 'd) ConflationManager =
  cm_conflationUnits :: "(string, ('h, 'd) ConflationUnit) gomap"
  cm_registrations :: "(string, 'h ConflationRegistration) gomap"
  cm_env :: "('h, 'd) env"
  cm_next :: mref
  cm_statistics :: Stats

definition blank_metadata :: ThresholdMetadata where
  "blank_metadata =
     \<lparr>md_maxRetry = 0, md_count = 0,
      md_kafkaPosition = \<lparr>pos_OwnerIdentity = [], pos_Topic = [], pos_Partition = 0, pos_Offset = 0\<rparr>,
      md_eventType = [], md_eventVersion = NewVersion, md_eventDependencyVersion = None\<rparr>"

text \<open>\<^verbatim>\<open>NewConflationReadyQueue\<close>: both channels are empty.\<close>

definition NewConflationReadyQueue :: "('h, 'd) env" where
  "NewConflationReadyQueue =
     \<lparr>env_heap = (\<lambda>_. blank_metadata), env_DeltaEventJobChan = [], env_ConflationUnitChan = []\<rparr>"

definition NewConflationManager :: "Stats \<Rightarrow> ('h, 'd) ConflationManager" where
  "NewConflationManager statistics =
     \<lparr>cm_conflationUnits = [], cm_registrations = [], cm_env = NewConflationReadyQueue,
      cm_next = 0, cm_statistics = statistics\<rparr>"

definition Register ::
    "'h ConflationRegistration \<Rightarrow> ('h, 'd) ConflationManager \<Rightarrow> ('h, 'd) ConflationManager" where
  "Register registration cm =
     cm\<lparr>cm_registrations := AList.update (reg_eventType registration) registration (cm_registrations cm),
        cm_statistics := stats_Register (reg_eventType registration) (cm_statistics cm)\<rparr>"

definition getConflationUnit ::
    "string \<Rightarrow> ('h, 'd) ConflationManager
       \<Rightarrow> (('h, 'd) ConflationUnit \<times> ('h, 'd) ConflationManager) panics" where
  "getConflationUnit leafHubName cm =
     (case map_of (cm_conflationUnits cm) leafHubName of
        Some conflationUnit \<Rightarrow> Some (conflationUnit, cm)
      | None \<Rightarrow>
          map_option
            (\<lambda>conflationUnit.
               (conflationUnit,
                cm\<lparr>cm_conflationUnits := AList.update leafHubName conflationUnit (cm_conflationUnits cm),
                   cm_statistics := IncrementNumberOfConflations (cm_statistics cm)\<rparr>))
            (newConflationUnit leafHubName (cm_registrations cm)))"

text \<open>
  \<^verbatim>\<open>consumer.TransportID()\<close> returns a package variable that no statement of the program assigns:
  it is the empty string.
\<close>

definition TransportID :: string where
  "TransportID = []"

definition max_retry :: int where
  "max_retry = 3"

definition put_unit ::
    "string \<Rightarrow> ('h, 'd) cu_state \<Rightarrow> ('h, 'd) ConflationManager \<Rightarrow> ('h, 'd) ConflationManager" where
  "put_unit name s cm =
     cm\<lparr>cm_conflationUnits := AList.update name (fst s) (cm_conflationUnits cm), cm_env := snd s\<rparr>"

definition cm_Insert ::
    "ce_types \<Rightarrow> 'd Event \<Rightarrow> ('h, 'd) ConflationManager \<Rightarrow> ('h, 'd) ConflationManager panics" where
  "cm_Insert ce evt cm =
     (if map_of (cm_registrations cm) (evt_Type evt) = None then Some cm
      else case NewThresholdMetadata ce TransportID max_retry evt of
             None \<Rightarrow> Some cm
           | Some m \<Rightarrow>
               (let r = cm_next cm;
                    cm1 = cm\<lparr>cm_env := (cm_env cm)\<lparr>env_heap := (env_heap (cm_env cm))(r := m)\<rparr>,
                             cm_next := Suc r\<rparr>
                in Option.bind (getConflationUnit (evt_Source evt) cm1)
                     (\<lambda>(cu, cm2). map_option (\<lambda>s. put_unit (evt_Source evt) s cm2)
                        (cu_insert evt r (cu, cm_env cm2)))))"

fun collect_units :: "(string, ('h, 'd) ConflationUnit) gomap \<Rightarrow> mref list panics" where
  "collect_units [] = Some []"
| "collect_units ((k, cu) # us) =
     Option.bind (getMetadatas cu) (\<lambda>ms. map_option (\<lambda>rest. ms @ rest) (collect_units us))"

definition GetMetadatas :: "('h, 'd) ConflationManager \<Rightarrow> ThresholdMetadata list panics" where
  "GetMetadatas cm =
     map_option (map (env_heap (cm_env cm))) (collect_units (cm_conflationUnits cm))"

section \<open>Registrations that fill the priority queue\<close>

text \<open>
  The registrations occupy exactly the slots \<open>0 \<dots> n-1\<close>, are keyed by their event type, and a
  dependency names a registered type of higher priority.
\<close>

definition wf_registrations :: "(string, 'h ConflationRegistration) gomap \<Rightarrow> bool" where
  "wf_registrations rs =
     (wf_map rs \<and> distinct (map (reg_priority \<circ> snd) rs) \<and>
      (\<forall>(t, r) \<in> set rs.
         reg_eventType r = t \<and> reg_priority r < length rs \<and>
         (case reg_dependency r of
            None \<Rightarrow> True
          | Some d \<Rightarrow>
              (case map_of rs (dep_EventType d) of None \<Rightarrow> False | Some r' \<Rightarrow> reg_priority r' < reg_priority r))))"

definition new_element :: "'h ConflationRegistration \<Rightarrow> ('h, 'd) ConflationElement" where
  "new_element r = (case reg_syncMode r of
       CompleteStateMode \<Rightarrow> Complete (NewCompleteElement r) | DeltaStateMode \<Rightarrow> Delta (NewDeltaElement r))"

text \<open>Closed forms of the loop of \<^verbatim>\<open>newConflationUnit\<close>.\<close>

definition fill_slots ::
    "(string, 'h ConflationRegistration) gomap \<Rightarrow> ('h, 'd) ConflationElement option list
       \<Rightarrow> ('h, 'd) ConflationElement option list" where
  "fill_slots rs q = fold (\<lambda>(t, r) q. q[reg_priority r := Some (new_element r)]) rs q"

definition fill_priorities ::
    "(string, 'h ConflationRegistration) gomap \<Rightarrow> (string, nat) gomap \<Rightarrow> (string, nat) gomap" where
  "fill_priorities rs m = fold (\<lambda>(t, r). AList.update (reg_eventType r) (reg_priority r)) rs m"

lemma fill_simps [simp]:
  "fill_slots [] q = q"
  "fill_slots ((t, r) # rs) q = fill_slots rs (q[reg_priority r := Some (new_element r)])"
  "fill_priorities [] m = m"
  "fill_priorities ((t, r) # rs) m = fill_priorities rs (AList.update (reg_eventType r) (reg_priority r) m)"
  by (simp_all add: fill_slots_def fill_priorities_def)

lemma length_fill_slots [simp]: "length (fill_slots rs q) = length q"
  by (induction rs arbitrary: q) auto

lemma fill_slots_other: "p \<notin> (reg_priority \<circ> snd) ` set rs \<Longrightarrow> fill_slots rs q ! p = q ! p"
  by (induction rs arbitrary: q) auto

lemma fill_slots_at:
  "\<lbrakk>distinct (map (reg_priority \<circ> snd) rs); \<forall>(t, r) \<in> set rs. reg_priority r < length q; (t, r) \<in> set rs\<rbrakk>
   \<Longrightarrow> fill_slots rs q ! reg_priority r = Some (new_element r)"
proof (induction rs arbitrary: q)
  case Nil
  then show ?case by simp
next
  case (Cons x rs)
  show ?case
  proof (cases "(t, r) \<in> set rs")
    case True
    with Cons show ?thesis by (cases x) auto
  next
    case False
    with Cons.prems have x: "x = (t, r)" by simp
    with Cons.prems(1) have "reg_priority r \<notin> (reg_priority \<circ> snd) ` set rs" by auto
    with Cons.prems(2) x show ?thesis by (simp add: fill_slots_other)
  qed
qed

lemma wf_fill_priorities: "wf_map m \<Longrightarrow> wf_map (fill_priorities rs m)"
  by (induction rs arbitrary: m) auto

lemma fill_priorities_lookup:
  "\<lbrakk>wf_map rs; \<forall>(t, r) \<in> set rs. reg_eventType r = t\<rbrakk> \<Longrightarrow>
   map_of (fill_priorities rs m) t =
     (case map_of rs t of None \<Rightarrow> map_of m t | Some r \<Rightarrow> Some (reg_priority r))"
proof (induction rs arbitrary: m)
  case Nil
  then show ?case by simp
next
  case (Cons x rs)
  obtain k r where x: "x = (k, r)" by force
  from Cons.prems have rk: "reg_eventType r = k" and wf: "wf_map rs" and nin: "map_of rs k = None"
    by (auto simp: x wf_map_def map_of_eq_None_iff)
  from Cons.prems Cons.IH [OF wf] show ?case using nin by (auto simp: x rk split: option.splits)
qed

lemma place_all_fill:
  "\<forall>(t, r) \<in> set rs. reg_priority r < length (ElementPriorityQueue cu) \<Longrightarrow>
   place_all rs cu =
     Some (cu\<lparr>ElementPriorityQueue := fill_slots rs (ElementPriorityQueue cu),
              eventTypeToPriority := fill_priorities rs (eventTypeToPriority cu)\<rparr>)"
proof (induction rs arbitrary: cu)
  case Nil
  then show ?case by simp
next
  case (Cons x rs)
  then show ?case
    by (cases x) (simp add: place_registration_def Let_def new_element_def [symmetric])
qed

text \<open>Distinct slots below the length, as many as the length, are all of them.\<close>

lemma all_slots_filled:
  assumes "wf_registrations rs" "p < length rs"
  shows "\<exists>t r. (t, r) \<in> set rs \<and> reg_priority r = p"
proof -
  have d: "distinct (map (reg_priority \<circ> snd) rs)"
    and b: "set (map (reg_priority \<circ> snd) rs) \<subseteq> {..<length rs}"
    using assms(1) by (auto simp: wf_registrations_def)
  have "card (set (map (reg_priority \<circ> snd) rs)) = card {..<length rs}"
    using distinct_card [OF d] by simp
  with b have "set (map (reg_priority \<circ> snd) rs) = {..<length rs}"
    by (intro card_subset_eq) auto
  with assms(2) have "p \<in> set (map (reg_priority \<circ> snd) rs)" by blast
  then show ?thesis by fastforce
qed

lemma new_element_name: "element_Name (new_element r) = reg_eventType r"
  by (simp add: new_element_def NewCompleteElement_def NewDeltaElement_def split: EventSyncMode.split)

lemma new_element_fresh:
  "element_Metadata (new_element r) = None"
  "\<not> (case new_element r of Complete e \<Rightarrow> el_isInProcess e | Delta e \<Rightarrow> False)"
  by (cases "reg_syncMode r"; simp add: new_element_def NewCompleteElement_def NewDeltaElement_def)+

lemma wf_registrations_D:
  assumes "wf_registrations rs"
  shows "wf_map rs" "distinct (map (reg_priority \<circ> snd) rs)"
    "(t, r) \<in> set rs \<Longrightarrow> reg_eventType r = t" "(t, r) \<in> set rs \<Longrightarrow> reg_priority r < length rs"
    "(t, r) \<in> set rs \<Longrightarrow> reg_dependency r = Some d \<Longrightarrow>
       \<exists>r'. map_of rs (dep_EventType d) = Some r' \<and> reg_priority r' < reg_priority r"
proof -
  have all: "(t, r) \<in> set rs \<Longrightarrow> reg_eventType r = t \<and> reg_priority r < length rs \<and>
      (case reg_dependency r of None \<Rightarrow> True
       | Some d \<Rightarrow> (case map_of rs (dep_EventType d) of None \<Rightarrow> False
                   | Some r' \<Rightarrow> reg_priority r' < reg_priority r))"
    using assms unfolding wf_registrations_def by blast
  then show "(t, r) \<in> set rs \<Longrightarrow> reg_eventType r = t" "(t, r) \<in> set rs \<Longrightarrow> reg_priority r < length rs"
    by blast+
  show "(t, r) \<in> set rs \<Longrightarrow> reg_dependency r = Some d \<Longrightarrow>
       \<exists>r'. map_of rs (dep_EventType d) = Some r' \<and> reg_priority r' < reg_priority r"
    using all by (auto split: option.splits)
qed (use assms in \<open>simp_all add: wf_registrations_def\<close>)

lemma newConflationUnit_eq:
  assumes wf: "wf_registrations rs"
  shows "newConflationUnit name rs =
    Some \<lparr>cu_name = name, ElementPriorityQueue = fill_slots rs (replicate (length rs) None),
          eventTypeToPriority = fill_priorities rs [], isInReadyQueue = False\<rparr>"
  unfolding newConflationUnit_def
  by (subst place_all_fill) (use wf_registrations_D(4) [OF wf] in auto)

lemma new_slot:
  assumes wf: "wf_registrations rs" and r: "(t, r) \<in> set rs"
  shows "fill_slots rs (replicate (length rs) None) ! reg_priority r = Some (new_element r)"
  by (rule fill_slots_at [OF wf_registrations_D(2) [OF wf] _ r]) (auto dest: wf_registrations_D(4) [OF wf])

lemma new_priority:
  assumes wf: "wf_registrations rs"
  shows "map_of (fill_priorities rs []) t = map_option reg_priority (map_of rs t)"
  by (subst fill_priorities_lookup [OF wf_registrations_D(1) [OF wf]])
    (auto dest: wf_registrations_D(3) [OF wf] split: option.splits)

lemma newConflationUnit_wf:
  assumes wf: "wf_registrations rs" and new: "newConflationUnit name rs = Some cu"
  shows "wf_cu cu" "cu_name cu = name" "\<not> isInReadyQueue cu" "meta_at cu q = None" "\<not> in_process cu q"
    "map_of (eventTypeToPriority cu) t = map_option reg_priority (map_of rs t)"
proof -
  note D = wf_registrations_D [OF wf]
  have cu: "ElementPriorityQueue cu = fill_slots rs (replicate (length rs) None)"
    "eventTypeToPriority cu = fill_priorities rs []" "cu_name cu = name" "\<not> isInReadyQueue cu"
    using new unfolding newConflationUnit_eq [OF wf] by auto
  have len: "length (ElementPriorityQueue cu) = length rs" by (simp add: cu)
  have slot: "\<exists>t r. (t, r) \<in> set rs \<and> reg_priority r = p \<and> ElementPriorityQueue cu ! p = Some (new_element r)"
    if "p < length rs" for p
    using all_slots_filled [OF wf that] new_slot [OF wf] cu(1) by metis
  have wfs: "wf_slot (eventTypeToPriority cu) (reg_priority r) (new_element r)" if "(t, r) \<in> set rs" for t r
  proof -
    have "map_of rs t = Some r" using that wf_map_in_set [OF D(1)] by blast
    then show ?thesis using D(3,5) [OF that]
      by (fastforce simp: wf_slot_def new_element_name cu(2) new_priority [OF wf] new_element_def
          NewCompleteElement_def NewDeltaElement_def split: option.splits EventSyncMode.splits)
  qed
  show "wf_cu cu"
    unfolding wf_cu_iff len
  proof (intro conjI allI impI)
    fix p assume "p < length rs"
    with slot wfs show "\<exists>el. ElementPriorityQueue cu ! p = Some el \<and> wf_slot (eventTypeToPriority cu) p el"
      by metis
  next
    fix t p assume "(t, p) \<in> set (eventTypeToPriority cu)"
    then have "map_of (eventTypeToPriority cu) t = Some p"
      using wf_map_in_set [OF wf_fill_priorities [of "[]" rs]] by (simp add: cu)
    then obtain r where r: "(t, r) \<in> set rs" "reg_priority r = p"
      using new_priority [OF wf, of t] by (auto simp: cu(2) dest: map_of_SomeD)
    then show "p < length rs" using D(4) by auto
    show "\<exists>el. ElementPriorityQueue cu ! p = Some el \<and> element_Name el = t"
      using new_slot [OF wf r(1)] r D(3) [OF r(1)] cu(1) new_element_name by metis
  qed
  show "meta_at cu q = None" "\<not> in_process cu q"
    using slot [of q] len by (auto simp: meta_at_def in_process_def new_element_fresh)
  show "map_of (eventTypeToPriority cu) t = map_option reg_priority (map_of rs t)"
    by (simp add: cu(2) new_priority [OF wf])
  show "cu_name cu = name" "\<not> isInReadyQueue cu" by (rule cu)+
qed

end
