(* ===== verification/Committer.thy ===== *)
theory Committer
  imports ConflationManager
begin

text \<open>
  \<^verbatim>\<open>manager/pkg/status/conflator/conflation_committer.go\<close>: every five seconds the committer
  writes, per topic and partition, the offset from which a restarted consumer has to read.

  The database is not part of the program: taking its lock and the upsert of a batch of rows are
  parameters of \<^verbatim>\<open>commit\<close> (the upsert returns \<^const>\<open>None\<close> for an error). The JSON payload
  of a row has the fields of the position that are marshalled: all but the topic.
\<close>

section \<open>The committer\<close>

definition positionKey :: "string \<Rightarrow> int \<Rightarrow> string" where
  "positionKey topic part = topic @ ''@'' @ decimal part"

record PositionPayload =
  pay_OwnerIdentity :: string
  pay_Partition :: int
  pay_Offset :: int

definition marshal_position :: "EventPosition \<Rightarrow> PositionPayload" where
  "marshal_position pos = \<lparr>pay_OwnerIdentity = pos_OwnerIdentity pos, pay_Partition = pos_Partition pos,
     pay_Offset = pos_Offset pos\<rparr>"

record Transport =
  tr_Name :: string
  tr_Payload :: PositionPayload

definition transport_row :: "EventPosition \<Rightarrow> Transport" where
  "transport_row pos = \<lparr>tr_Name = pos_Topic pos, tr_Payload = marshal_position pos\<rparr>"

record ConflationCommitter =
  committedPositions :: "(string, int) gomap"

definition NewKafkaConflationCommitter :: ConflationCommitter where
  "NewKafkaConflationCommitter = \<lparr>committedPositions = []\<rparr>"

text \<open>The loop of \<^verbatim>\<open>metadataToCommit\<close> over the metadata: the two maps it fills.\<close>

type_synonym positions = "(string, EventPosition) gomap"

definition metadata_key :: "ThresholdMetadata \<Rightarrow> string" where
  "metadata_key m = positionKey (pos_Topic (md_kafkaPosition m)) (pos_Partition (md_kafkaPosition m))"

definition sort_metadata :: "ThresholdMetadata option \<Rightarrow> positions \<times> positions \<Rightarrow> positions \<times> positions" where
  "sort_metadata mo maps =
     (case mo of
        None \<Rightarrow> maps
      | Some m \<Rightarrow>
          (let (pendingLowest, processedHighest) = maps;
               position = md_kafkaPosition m;
               key = metadata_key m
           in if \<not> Processed m then
                (case map_of pendingLowest key of
                   Some lowest \<Rightarrow>
                     if pos_Offset position \<ge> pos_Offset lowest then maps
                     else (AList.update key position pendingLowest, processedHighest)
                 | None \<Rightarrow> (AList.update key position pendingLowest, processedHighest))
              else
                (case map_of processedHighest key of
                   Some highest \<Rightarrow>
                     if pos_Offset position \<le> pos_Offset highest then maps
                     else (pendingLowest, AList.update key position processedHighest)
                 | None \<Rightarrow> (pendingLowest, AList.update key position processedHighest))))"

definition next_offset :: "EventPosition \<Rightarrow> EventPosition" where
  "next_offset pos = pos\<lparr>pos_Offset := int64 (pos_Offset pos + 1)\<rparr>"

definition metadataToCommit :: "ThresholdMetadata option list \<Rightarrow> positions" where
  "metadataToCommit metadataArray =
     (let (pendingLowest, processedHighest) = fold sort_metadata metadataArray ([], []);
          incremented = map (\<lambda>(key, pos). (key, next_offset pos)) processedHighest
      in fold (\<lambda>(key, pos). AList.update key pos) pendingLowest incremented)"

text \<open>
  The loop of \<^verbatim>\<open>commit\<close> over the positions collects the rows and already records them as
  committed.
\<close>

definition commit_position ::
    "string \<times> EventPosition \<Rightarrow> Transport list \<times> (string, int) gomap \<Rightarrow> Transport list \<times> (string, int) gomap"
    where
  "commit_position kp s =
     (let (key, pos) = kp; (rows, committed) = s
      in case map_of committed key of
           Some committedOffset \<Rightarrow>
             if committedOffset \<ge> pos_Offset pos then s
             else (rows @ [transport_row pos],
                   AList.update key (pos_Offset pos) committed)
         | None \<Rightarrow> (rows @ [transport_row pos],
                   AList.update key (pos_Offset pos) committed))"

text \<open>The error of the result is \<^const>\<open>True\<close> when non-nil.\<close>

definition commit ::
    "bool \<Rightarrow> (Transport list \<Rightarrow> 'db \<Rightarrow> 'db option) \<Rightarrow> ThresholdMetadata option list
       \<Rightarrow> ConflationCommitter \<times> 'db \<Rightarrow> bool \<times> ConflationCommitter \<times> 'db" where
  "commit locked upsert metadatas s =
     (let (k, db) = s;
          (rows, committed) = fold commit_position (metadataToCommit metadatas) ([], committedPositions k);
          k1 = k\<lparr>committedPositions := committed\<rparr>
      in if \<not> locked then (True, k1, db)
         else if rows = [] then (False, k1, db)
         else case upsert rows db of
                None \<Rightarrow> (True, k1, db)
              | Some db1 \<Rightarrow> (False, k1, db1))"

section \<open>Keys\<close>

text \<open>
  Topic and partition can be read back from a key, whatever characters the topic has: two
  partitions never share an entry of the committer's maps.
\<close>

theorem positionKey_injective:
  "positionKey t p = positionKey t' p' \<longleftrightarrow> t = t' \<and> p = p'"
proof
  assume eq: "positionKey t p = positionKey t' p'"
  have split: "takeWhile (\<lambda>c. c \<noteq> CHR ''@'') (rev (positionKey t p)) = rev (decimal p)"
    "dropWhile (\<lambda>c. c \<noteq> CHR ''@'') (rev (positionKey t p)) = CHR ''@'' # rev t" for t p
  proof -
    have all: "\<forall>c \<in> set (rev (decimal p)). c \<noteq> CHR ''@''" using decimal_no_at [of p] by (metis set_rev)
    have k: "rev (positionKey t p) = rev (decimal p) @ CHR ''@'' # rev t" by (simp add: positionKey_def)
    show "takeWhile (\<lambda>c. c \<noteq> CHR ''@'') (rev (positionKey t p)) = rev (decimal p)"
      unfolding k using all by (subst takeWhile_append2) auto
    show "dropWhile (\<lambda>c. c \<noteq> CHR ''@'') (rev (positionKey t p)) = CHR ''@'' # rev t"
      unfolding k using all by (subst dropWhile_append2) auto
  qed
  from split(1) [of t p] split(1) [of t' p'] eq have "decimal p = decimal p'" by simp
  moreover from split(2) [of t p] split(2) [of t' p'] eq have "t = t'" by simp
  ultimately show "t = t' \<and> p = p'" by (simp add: decimal_inject)
qed simp

section \<open>The offsets that are committed\<close>

text \<open>The offsets of the pending and of the processed metadata of a key.\<close>

definition pending_offsets :: "ThresholdMetadata option list \<Rightarrow> string \<Rightarrow> int set" where
  "pending_offsets ms key =
     {pos_Offset (md_kafkaPosition m) | m. Some m \<in> set ms \<and> \<not> Processed m \<and> metadata_key m = key}"

definition processed_offsets :: "ThresholdMetadata option list \<Rightarrow> string \<Rightarrow> int set" where
  "processed_offsets ms key =
     {pos_Offset (md_kafkaPosition m) | m. Some m \<in> set ms \<and> Processed m \<and> metadata_key m = key}"

text \<open>An entry is the extremal offset of a set; no entry means the set is empty.\<close>

definition entry_is :: "(int set \<Rightarrow> int) \<Rightarrow> EventPosition option \<Rightarrow> string \<Rightarrow> int set \<Rightarrow> bool" where
  "entry_is pick entry key S \<longleftrightarrow>
     (case entry of
        None \<Rightarrow> S = {}
      | Some pos \<Rightarrow> S \<noteq> {} \<and> pos_Offset pos = pick S \<and> positionKey (pos_Topic pos) (pos_Partition pos) = key)"

lemma offsets_simps:
  "pending_offsets [] key = {}" "processed_offsets [] key = {}"
  "pending_offsets (ms @ [mo]) key = (case mo of
     Some m \<Rightarrow> if \<not> Processed m \<and> metadata_key m = key
       then insert (pos_Offset (md_kafkaPosition m)) (pending_offsets ms key) else pending_offsets ms key
   | None \<Rightarrow> pending_offsets ms key)"
  "processed_offsets (ms @ [mo]) key = (case mo of
     Some m \<Rightarrow> if Processed m \<and> metadata_key m = key
       then insert (pos_Offset (md_kafkaPosition m)) (processed_offsets ms key) else processed_offsets ms key
   | None \<Rightarrow> processed_offsets ms key)"
  by (auto simp: pending_offsets_def processed_offsets_def split: option.splits)

lemma finite_offsets: "finite (pending_offsets ms key)" "finite (processed_offsets ms key)"
proof -
  have "pending_offsets ms key \<subseteq> (\<lambda>mo. pos_Offset (md_kafkaPosition (the mo))) ` set ms"
    "processed_offsets ms key \<subseteq> (\<lambda>mo. pos_Offset (md_kafkaPosition (the mo))) ` set ms"
    by (force simp: pending_offsets_def processed_offsets_def)+
  then show "finite (pending_offsets ms key)" "finite (processed_offsets ms key)"
    by (auto intro: finite_subset)
qed

lemma entry_insert:
  assumes "finite S" "positionKey (pos_Topic pos) (pos_Partition pos) = key"
  shows "entry_is Min None key S \<Longrightarrow> entry_is Min (Some pos) key (insert (pos_Offset pos) S)"
    "entry_is Max None key S \<Longrightarrow> entry_is Max (Some pos) key (insert (pos_Offset pos) S)"
    "entry_is Min (Some low) key S \<Longrightarrow>
       entry_is Min (Some (if pos_Offset pos \<ge> pos_Offset low then low else pos)) key (insert (pos_Offset pos) S)"
    "entry_is Max (Some high) key S \<Longrightarrow>
       entry_is Max (Some (if pos_Offset pos \<le> pos_Offset high then high else pos)) key (insert (pos_Offset pos) S)"
  using assms by (auto simp: entry_is_def)

lemma sort_metadata_pending:
  assumes "\<not> Processed m"
  shows "snd (sort_metadata (Some m) (P, H)) = H"
    "wf_map P \<Longrightarrow> wf_map (fst (sort_metadata (Some m) (P, H)))"
    "map_of (fst (sort_metadata (Some m) (P, H))) = (map_of P)(metadata_key m \<mapsto> (case map_of P (metadata_key m) of
       None \<Rightarrow> md_kafkaPosition m
     | Some low \<Rightarrow> if pos_Offset (md_kafkaPosition m) \<ge> pos_Offset low then low else md_kafkaPosition m))"
  using assms by (cases "map_of P (metadata_key m)"; simp add: sort_metadata_def Let_def map_upd_triv)+

lemma sort_metadata_processed:
  assumes "Processed m"
  shows "fst (sort_metadata (Some m) (P, H)) = P"
    "wf_map H \<Longrightarrow> wf_map (snd (sort_metadata (Some m) (P, H)))"
    "map_of (snd (sort_metadata (Some m) (P, H))) = (map_of H)(metadata_key m \<mapsto> (case map_of H (metadata_key m) of
       None \<Rightarrow> md_kafkaPosition m
     | Some high \<Rightarrow> if pos_Offset (md_kafkaPosition m) \<le> pos_Offset high then high else md_kafkaPosition m))"
  using assms by (cases "map_of H (metadata_key m)"; simp add: sort_metadata_def Let_def map_upd_triv)+

lemma entry_update:
  assumes "finite S" "positionKey (pos_Topic pos) (pos_Partition pos) = key"
  shows "entry_is Min entry key S \<Longrightarrow> entry_is Min (Some (case entry of None \<Rightarrow> pos
       | Some low \<Rightarrow> if pos_Offset pos \<ge> pos_Offset low then low else pos)) key (insert (pos_Offset pos) S)"
    "entry_is Max entry key S \<Longrightarrow> entry_is Max (Some (case entry of None \<Rightarrow> pos
       | Some high \<Rightarrow> if pos_Offset pos \<le> pos_Offset high then high else pos)) key (insert (pos_Offset pos) S)"
  using entry_insert [OF assms] by (cases entry; simp)+

text \<open>The two maps hold the lowest pending and the highest processed position of every key.\<close>

definition sorted_spec :: "ThresholdMetadata option list \<Rightarrow> positions \<times> positions \<Rightarrow> bool" where
  "sorted_spec ms maps \<longleftrightarrow>
     (\<forall>key. entry_is Min (map_of (fst maps) key) key (pending_offsets ms key)) \<and>
     (\<forall>key. entry_is Max (map_of (snd maps) key) key (processed_offsets ms key)) \<and>
     wf_map (fst maps) \<and> wf_map (snd maps)"

lemma sorted_spec_step:
  assumes "sorted_spec ms (P, H)"
  shows "sorted_spec (ms @ [mo]) (sort_metadata mo (P, H))"
proof (cases mo)
  case None
  then show ?thesis using assms by (simp add: sorted_spec_def sort_metadata_def offsets_simps)
next
  case (Some m)
  let ?pos = "md_kafkaPosition m" and ?k = "metadata_key m"
  have k: "positionKey (pos_Topic ?pos) (pos_Partition ?pos) = ?k" by (simp add: metadata_key_def)
  have e: "entry_is Min (map_of P ?k) ?k (pending_offsets ms ?k)"
    "entry_is Max (map_of H ?k) ?k (processed_offsets ms ?k)" using assms by (simp_all add: sorted_spec_def)
  show ?thesis
  proof (cases "Processed m")
    case True
    then show ?thesis
      using assms Some entry_update(2) [OF finite_offsets(2) k e(2)]
      by (simp add: sorted_spec_def offsets_simps sort_metadata_processed)
  next
    case False
    then show ?thesis
      using assms Some entry_update(1) [OF finite_offsets(1) k e(1)]
      by (simp add: sorted_spec_def offsets_simps sort_metadata_pending)
  qed
qed

lemma sort_metadata_spec: "sorted_spec ms (fold sort_metadata ms ([], []))"
proof (induction ms rule: rev_induct)
  case Nil
  then show ?case by (simp add: sorted_spec_def entry_is_def offsets_simps)
next
  case (snoc mo ms)
  then show ?case
    using sorted_spec_step [of ms "fst (fold sort_metadata ms ([], []))" "snd (fold sort_metadata ms ([], []))" mo]
    by simp
qed

lemma map_of_fold_update:
  "wf_map P \<Longrightarrow> map_of (fold (\<lambda>(key, pos). AList.update key pos) P m) k =
     (case map_of P k of None \<Rightarrow> map_of m k | Some pos \<Rightarrow> Some pos)"
proof (induction P arbitrary: m)
  case Nil
  then show ?case by simp
next
  case (Cons x P)
  obtain key pos where x: "x = (key, pos)" by force
  from Cons.prems have "wf_map P" "map_of P key = None" by (auto simp: x wf_map_def map_of_eq_None_iff)
  with Cons.IH show ?case by (auto simp: x split: option.splits)
qed

lemma map_of_next_offset: "map_of (map (\<lambda>(key, pos). (key, f pos)) H) k = map_option f (map_of H k)"
  by (induction H) auto

lemma metadataToCommit_lookup:
  "map_of (metadataToCommit ms) key =
     (case map_of (fst (fold sort_metadata ms ([], []))) key of
        Some pos \<Rightarrow> Some pos
      | None \<Rightarrow> map_option next_offset (map_of (snd (fold sort_metadata ms ([], []))) key))"
proof -
  obtain P H where PH: "fold sort_metadata ms ([], []) = (P, H)" by force
  with sort_metadata_spec [of ms] have "wf_map P" by (simp add: sorted_spec_def)
  then show ?thesis
    by (cases "map_of P key") (simp_all add: metadataToCommit_def PH map_of_fold_update map_of_next_offset)
qed

lemma commit_position_spec:
  "case map_of (metadataToCommit ms) key of
     None \<Rightarrow> pending_offsets ms key = {} \<and> processed_offsets ms key = {}
   | Some pos \<Rightarrow>
       positionKey (pos_Topic pos) (pos_Partition pos) = key \<and>
       (if pending_offsets ms key = {}
        then processed_offsets ms key \<noteq> {} \<and> pos_Offset pos = int64 (Max (processed_offsets ms key) + 1)
        else pos_Offset pos = Min (pending_offsets ms key))"
proof -
  have P: "entry_is Min (map_of (fst (fold sort_metadata ms ([], []))) key) key (pending_offsets ms key)"
    and H: "entry_is Max (map_of (snd (fold sort_metadata ms ([], []))) key) key (processed_offsets ms key)"
    using sort_metadata_spec [of ms] by (simp_all add: sorted_spec_def)
  show ?thesis
    using P H unfolding metadataToCommit_lookup
    by (auto simp: entry_is_def next_offset_def split: option.splits)
qed

text \<open>
  C5: the position committed for a partition is the lowest offset among the pending bundles
  held in memory; when none is pending it is one past the highest processed offset, and when no
  bundle of the partition is held nothing is committed for it.
\<close>

theorem commit_position_of_partition:
  "case map_of (metadataToCommit ms) key of
     None \<Rightarrow> pending_offsets ms key = {} \<and> processed_offsets ms key = {}
   | Some pos \<Rightarrow>
       positionKey (pos_Topic pos) (pos_Partition pos) = key \<and>
       (if pending_offsets ms key = {}
        then processed_offsets ms key \<noteq> {} \<and> pos_Offset pos = int64 (Max (processed_offsets ms key) + 1)
        else pos_Offset pos = Min (pending_offsets ms key))"
  by (rule commit_position_spec)

section \<open>Committing\<close>

text \<open>What the loop over the positions does to one key, and which rows it adds.\<close>

definition commit_offset :: "int option \<Rightarrow> EventPosition option \<Rightarrow> int option" where
  "commit_offset old pos =
     (case pos of
        None \<Rightarrow> old
      | Some p \<Rightarrow> (case old of None \<Rightarrow> Some (pos_Offset p) | Some c \<Rightarrow> Some (max c (pos_Offset p))))"

definition is_news :: "int option \<Rightarrow> EventPosition \<Rightarrow> bool" where
  "is_news old p = (case old of None \<Rightarrow> True | Some c \<Rightarrow> c < pos_Offset p)"

lemma commit_position_eq:
  "commit_position (key, pos) (rows, committed) =
     (if is_news (map_of committed key) pos
      then (rows @ [transport_row pos], AList.update key (pos_Offset pos) committed)
      else (rows, committed))"
  by (auto simp: commit_position_def is_news_def split: option.splits)

lemma fold_commit_position:
  assumes "wf_map ps" "fold commit_position ps (rows, committed) = (rows', committed')"
  shows "map_of committed' key = commit_offset (map_of committed key) (map_of ps key)"
    "rows' = rows @ map (\<lambda>(k, p). transport_row p)
       (filter (\<lambda>(k, p). is_news (map_of committed k) p) ps)"
proof -
  have "map_of committed' key = commit_offset (map_of committed key) (map_of ps key) \<and>
    rows' = rows @ map (\<lambda>(k, p). transport_row p)
       (filter (\<lambda>(k, p). is_news (map_of committed k) p) ps)"
    using assms
  proof (induction ps arbitrary: rows committed)
    case Nil
    then show ?case by (simp add: commit_offset_def)
  next
    case (Cons x ps)
    obtain k p where x: "x = (k, p)" by force
    let ?new = "is_news (map_of committed k) p"
    let ?c = "if ?new then AList.update k (pos_Offset p) committed else committed"
    let ?r = "if ?new then rows @ [transport_row p] else rows"
    from Cons.prems have wf: "wf_map ps" and nk: "k \<notin> fst ` set ps"
      by (auto simp: x wf_map_def)
    have "fold commit_position ps (?r, ?c) = (rows', committed')"
      using Cons.prems(2) by (simp add: x commit_position_eq split: if_splits)
    from Cons.IH [OF wf this]
    have ih: "map_of committed' key = commit_offset (map_of ?c key) (map_of ps key)"
      "rows' = ?r @ map (\<lambda>(k, p). transport_row p)
         (filter (\<lambda>(k, p). is_news (map_of ?c k) p) ps)" by blast+
    have "filter (\<lambda>(k', p). is_news (map_of ?c k') p) ps = filter (\<lambda>(k', p). is_news (map_of committed k') p) ps"
      by (rule filter_cong) (use nk in \<open>force+\<close>)
    moreover have "map_of ps k = None" using nk by (simp add: map_of_eq_None_iff)
    ultimately show ?case using ih
      by (auto simp: x commit_offset_def is_news_def max_def split: option.splits if_splits)
  qed
  then show "map_of committed' key = commit_offset (map_of committed key) (map_of ps key)"
    "rows' = rows @ map (\<lambda>(k, p). transport_row p)
       (filter (\<lambda>(k, p). is_news (map_of committed k) p) ps)" by blast+
qed

lemma wf_metadataToCommit: "wf_map (metadataToCommit ms)"
proof -
  obtain P H where PH: "fold sort_metadata ms ([], []) = (P, H)" by force
  with sort_metadata_spec [of ms] have "wf_map H" by (simp add: sorted_spec_def)
  then have "wf_map (map (\<lambda>(key, pos). (key, next_offset pos)) H)"
    by (simp add: wf_map_def comp_def split_beta)
  moreover have "wf_map m \<Longrightarrow> wf_map (fold (\<lambda>(key, pos). AList.update key pos) P m)" for m :: positions
    by (induction P arbitrary: m) auto
  ultimately show ?thesis by (simp add: metadataToCommit_def PH)
qed

lemma commit_committed:
  assumes "commit locked upsert ms (k, db) = (err, k', db')"
  shows "map_of (committedPositions k') key =
    commit_offset (map_of (committedPositions k) key) (map_of (metadataToCommit ms) key)"
proof -
  obtain rows c where f: "fold commit_position (metadataToCommit ms) ([], committedPositions k) = (rows, c)"
    by force
  with assms have "committedPositions k' = c"
    by (auto simp: commit_def Let_def split: if_splits option.splits)
  with fold_commit_position(1) [OF wf_metadataToCommit f] show ?thesis by simp
qed

text \<open>
  the offset recorded as committed for a partition never decreases, whether or not the
  database could be locked or written.
\<close>

theorem committed_offsets_monotone:
  assumes "commit locked upsert ms (k, db) = (err, k', db')" and "map_of (committedPositions k) key = Some c"
  shows "\<exists>c'. map_of (committedPositions k') key = Some c' \<and> c \<le> c'"
  using commit_committed [OF assms(1), of key] assms(2)
  by (auto simp: commit_offset_def split: option.splits)

text \<open>
  A position whose write failed is not written again: the committer already counts it as
  committed, so that repeating the commit on the same metadata writes no row.
\<close>

theorem failed_commit_not_retried:
  assumes "commit locked upsert ms (k, db) = (True, k', db')"
  shows "db' = db \<and> commit True upsert ms (k', db) = (False, k', db)"
proof -
  obtain rows c where f: "fold commit_position (metadataToCommit ms) ([], committedPositions k) = (rows, c)"
    by force
  with assms have c: "committedPositions k' = c" and db: "db' = db"
    by (auto simp: commit_def Let_def split: if_splits option.splits)
  obtain rows2 c2 where f2: "fold commit_position (metadataToCommit ms) ([], c) = (rows2, c2)" by force
  have none: "\<not> is_news (map_of c key) p" if "(key, p) \<in> set (metadataToCommit ms)" for key p
    using that fold_commit_position(1) [OF wf_metadataToCommit f, of key] wf_map_in_set [OF wf_metadataToCommit]
    by (auto simp: is_news_def commit_offset_def split: option.splits)
  then have "rows2 = []"
    using fold_commit_position(2) [OF wf_metadataToCommit f2] by (auto simp: filter_empty_conv)
  moreover have "c2 = c"
  proof -
    have "fold commit_position ps (r, c) = (r, c)" if "\<forall>(key, p) \<in> set ps. \<not> is_news (map_of c key) p" for ps r
      using that by (induction ps) (auto simp: commit_position_eq)
    with none f2 show ?thesis by (metis (no_types, lifting) case_prodI2 prod.inject)
  qed
  ultimately have "commit True upsert ms (k', db) = (False, k'\<lparr>committedPositions := c\<rparr>, db)"
    using f2 c by (simp add: commit_def)
  then show ?thesis using c db by (cases k') simp
qed

section \<open>Witnesses, and the held bundles\<close>

definition sample_position :: "int \<Rightarrow> int \<Rightarrow> ThresholdMetadata" where
  "sample_position count offset = blank_metadata\<lparr>md_maxRetry := 3, md_count := count,
     md_kafkaPosition := \<lparr>pos_OwnerIdentity = [], pos_Topic = ''status'', pos_Partition = 0, pos_Offset = offset\<rparr>\<rparr>"

definition sample_commit :: "bool \<Rightarrow> bool \<times> ConflationCommitter \<times> Transport list" where
  "sample_commit locked = commit locked (\<lambda>rows db. Some (db @ rows))
     [Some (sample_position (- 1) 7), None, Some (sample_position 0 5)]
     (\<lparr>committedPositions = [(''status@0'', 3)]\<rparr>, [])"

lemma sample_commit_eq:
  "sample_commit True = (False, \<lparr>committedPositions = [(''status@0'', 5)]\<rparr>,
     [transport_row (md_kafkaPosition (sample_position 0 5))])"
  "sample_commit False = (True, \<lparr>committedPositions = [(''status@0'', 5)]\<rparr>, [])"
  by code_simp+

theorem committed_offsets_monotone_witness:
  "\<exists>k' db'. sample_commit True = (False, k', db') \<and> (\<exists>c'. map_of (committedPositions k') ''status@0'' = Some c' \<and> 3 \<le> c')"
  using sample_commit_eq(1)
    committed_offsets_monotone [OF sample_commit_def [of True, unfolded sample_commit_eq, symmetric], of "''status@0''" 3]
  by simp

theorem failed_commit_not_retried_witness:
  "\<exists>k'. sample_commit False = (True, k', []) \<and>
     commit True (\<lambda>rows db. Some (db @ rows)) [Some (sample_position (- 1) 7), None, Some (sample_position 0 5)] (k', [])
       = (False, k', [])"
  using sample_commit_eq(2)
    failed_commit_not_retried [OF sample_commit_def [of False, unfolded sample_commit_eq, symmetric]]
  by simp

lemma collect_metadatas_mem:
  "collect_metadatas els = Some ms \<Longrightarrow> Some el \<in> set els \<Longrightarrow> element_Metadata el = Some r \<Longrightarrow> r \<in> set ms"
proof (induction els arbitrary: ms)
  case Nil
  then show ?case by simp
next
  case (Cons x els)
  then obtain e ms' where x: "x = Some e" and rest: "collect_metadatas els = Some ms'"
    and ms: "ms = (case element_Metadata e of None \<Rightarrow> ms' | Some r \<Rightarrow> r # ms')" by (cases x) auto
  show ?case
  proof (cases "Some el \<in> set els")
    case True
    from Cons.IH [OF rest this Cons.prems(3)] ms show ?thesis by (auto split: option.splits)
  next
    case False
    with Cons.prems x ms show ?thesis by auto
  qed
qed

lemma collect_units_mem:
  "collect_units us = Some ms \<Longrightarrow> (n, cu) \<in> set us \<Longrightarrow> meta_at cu q = Some r \<Longrightarrow> r \<in> set ms"
proof (induction us arbitrary: ms)
  case Nil
  then show ?case by simp
next
  case (Cons x us)
  obtain k c where x: "x = (k, c)" by force
  with Cons.prems obtain m1 m2 where m: "getMetadatas c = Some m1" "collect_units us = Some m2" "ms = m1 @ m2"
    by (auto simp: bind_eq_Some_conv)
  show ?case
  proof (cases "(n, cu) \<in> set us")
    case True
    from Cons.IH [OF m(2) this Cons.prems(3)] m show ?thesis by simp
  next
    case False
    with Cons.prems x have c: "c = cu" by simp
    from Cons.prems(3) obtain el where "Some el \<in> set (ElementPriorityQueue cu)" "element_Metadata el = Some r"
      by (auto simp: meta_at_def bind_eq_Some_conv split: if_splits dest: nth_mem)
    with collect_metadatas_mem m(1) c have "r \<in> set m1" unfolding getMetadatas_def by metis
    then show ?thesis using m by simp
  qed
qed

text \<open>
  C30: the committer never commits past a bundle that is held in memory and not processed yet:
  for every element of every unit, the offset committed for its partition is at most its own.
\<close>

theorem commit_never_skips_held:
  assumes "GetMetadatas cm = Some ms" and "(hub, cu) \<in> set (cm_conflationUnits cm)"
    and "meta_at cu q = Some r" and "\<not> Processed (env_heap (cm_env cm) r)"
  shows "\<exists>pos. map_of (metadataToCommit (map Some ms)) (metadata_key (env_heap (cm_env cm) r)) = Some pos
    \<and> pos_Offset pos \<le> pos_Offset (md_kafkaPosition (env_heap (cm_env cm) r))"
proof -
  let ?m = "env_heap (cm_env cm) r"
  from assms(1) obtain rs where rs: "collect_units (cm_conflationUnits cm) = Some rs"
    "ms = map (env_heap (cm_env cm)) rs" by (auto simp: GetMetadatas_def)
  have "?m \<in> set ms" using collect_units_mem [OF rs(1) assms(2,3)] rs(2) by simp
  then have mem: "pos_Offset (md_kafkaPosition ?m) \<in> pending_offsets (map Some ms) (metadata_key ?m)"
    using assms(4) by (auto simp: pending_offsets_def)
  with commit_position_spec [of "map Some ms" "metadata_key ?m"] Min_le [OF finite_offsets(1) mem]
  show ?thesis by (auto split: option.splits if_splits)
qed

definition sample_held_unit :: "(unit, unit) ConflationUnit" where
  "sample_held_unit = \<lparr>cu_name = ''hub1'',
     ElementPriorityQueue = [Some (Delta ((NewDeltaElement
       (NewConflationRegistration HubClusterHeartbeatPriority DeltaStateMode ''t'' ()))\<lparr>de_metadata := Some 0\<rparr>))],
     eventTypeToPriority = [(''t'', 0)], isInReadyQueue = False\<rparr>"

definition sample_manager :: "(unit, unit) ConflationManager" where
  "sample_manager = (NewConflationManager (NewStatistics []))
     \<lparr>cm_conflationUnits := [(''hub1'', sample_held_unit)],
      cm_env := NewConflationReadyQueue\<lparr>env_heap := \<lambda>_. sample_position 0 5\<rparr>\<rparr>"

theorem commit_never_skips_held_witness:
  "\<exists>ms pos. GetMetadatas sample_manager = Some ms
     \<and> map_of (metadataToCommit (map Some ms)) ''status@0'' = Some pos \<and> pos_Offset pos \<le> 5"
proof -
  have ms: "GetMetadatas sample_manager = Some [sample_position 0 5]"
    by (simp add: GetMetadatas_def sample_manager_def sample_held_unit_def getMetadatas_def)
  have cu: "(''hub1'', sample_held_unit) \<in> set (cm_conflationUnits sample_manager)"
    "meta_at sample_held_unit 0 = Some 0" "env_heap (cm_env sample_manager) 0 = sample_position 0 5"
    by (simp_all add: sample_manager_def sample_held_unit_def meta_at_def)
  have m: "\<not> Processed (sample_position 0 5)" "metadata_key (sample_position 0 5) = ''status@0''"
    "pos_Offset (md_kafkaPosition (sample_position 0 5)) = 5" by code_simp+
  from commit_never_skips_held [OF ms cu(1,2)] ms cu(3) m show ?thesis by simp
qed

end
