(* ===== verification/Pipeline.thy ===== *)
theory Pipeline
  imports ConflationManager
begin

text \<open>
  The status pipeline of the manager as a transition system: the transport dispatcher
  (\<^verbatim>\<open>dispatcher/transport_dispatcher.go\<close>) feeds the conflation manager, the conflation dispatcher
  (\<^verbatim>\<open>dispatcher/conflation_dispatcher.go\<close>) drains the ready queue, and the workers of
  \<^verbatim>\<open>conflator/workerpool\<close> run the handler of a job and report to its unit.

  The goroutines interleave freely; what a mutex or a channel makes atomic is one step. A job
  is held by the dispatcher until a worker is free, then queued at the worker, then tried (each
  try marks the shared metadata object), and finally reported.
\<close>

section \<open>A worker's job\<close>

text \<open>One call of the handler, with its outcome, and what it leaves in the metadata.\<close>

definition mark_attempt :: "bool \<Rightarrow> ThresholdMetadata \<Rightarrow> ThresholdMetadata" where
  "mark_attempt ok m = (if ok then MarkAsProcessed m else MarkAsUnprocessed m)"

text \<open>
  The polling loop. The list holds the outcomes of the handler at the polls that the timeout
  allows; when it is used up the poll returns a timeout error. The second component of the
  result says whether the error is non-nil.
\<close>

fun poll_handle :: "bool list \<Rightarrow> ThresholdMetadata \<Rightarrow> ThresholdMetadata \<times> bool" where
  "poll_handle [] m = (m, True)"
| "poll_handle (ok # oks) m =
     (let m1 = mark_attempt ok m
      in if \<not> Processed m1 \<or> \<not> ok then poll_handle oks m1
         else if Processed m1 then (m1, False) else poll_handle oks m1)"

text \<open>
  \<^verbatim>\<open>handleJob\<close> on the unit that reports it: \<open>locked\<close> says whether the database lock was taken.
\<close>

definition handleJob ::
    "bool \<Rightarrow> bool list \<Rightarrow> int \<Rightarrow> ('h, 'd) ConflationJob \<Rightarrow> Stats \<Rightarrow> ('h, 'd) cu_state
       \<Rightarrow> (Stats \<times> ('h, 'd) cu_state) panics" where
  "handleJob locked oks duration job st s =
     (if \<not> locked then Some (st, s)
      else let (cu, v) = s;
               r = job_Metadata job;
               (m, err) = poll_handle oks (env_heap v r);
               v1 = v\<lparr>env_heap := (env_heap v)(r := m)\<rparr>
           in map_option (Pair (AddDatabaseMetrics (job_Event job) duration err st))
                (ReportResult r err (cu, v1)))"

section \<open>The system\<close>

datatype job_phase = Held | Queued | Trying | Succeeded

text \<open>\<open>sys_lost\<close> collects the jobs that a worker gave up without a report.\<close>

record ('h, 'd) sys =
  sys_cm :: "('h, 'd) ConflationManager"
  sys_jobs :: "(job_phase \<times> ('h, 'd) ConflationJob) list"
  sys_lost :: "('h, 'd) ConflationJob list"

text \<open>\<^verbatim>\<open>DBWorkerPool.Start\<close>: the number of workers.\<close>

definition workSize :: "int \<Rightarrow> int" where
  "workSize maxOpenConnections = (if maxOpenConnections < 5 then 5 else maxOpenConnections)"

definition busy_workers :: "('h, 'd) sys \<Rightarrow> int" where
  "busy_workers s = int (length (filter (\<lambda>(ph, j). ph \<noteq> Held) (sys_jobs s)))"

definition channels_fit :: "('h, 'd) env \<Rightarrow> bool" where
  "channels_fit v =
     (length (env_DeltaEventJobChan v) \<le> DeltaEventJobChan_cap \<and>
      length (env_ConflationUnitChan v) \<le> ConflationUnitChan_cap)"

text \<open>The body of the transport dispatcher's loop.\<close>

definition transport_dispatch ::
    "ce_types \<Rightarrow> 'd Event \<Rightarrow> ('h, 'd) sys \<Rightarrow> ('h, 'd) sys panics" where
  "transport_dispatch ce evt s =
     map_option (\<lambda>cm. s\<lparr>sys_cm := cm\<rparr>)
       (cm_Insert ce evt
          ((sys_cm s)\<lparr>cm_statistics := ReceivedEvent evt (cm_statistics (sys_cm s))\<rparr>))"

text \<open>The two receiving cases of the conflation dispatcher's loop.\<close>

definition dispatch_delta :: "('h, 'd) sys \<Rightarrow> ('h, 'd) sys" where
  "dispatch_delta s =
     (let cm = sys_cm s; v = cm_env cm
      in case env_DeltaEventJobChan v of
           [] \<Rightarrow> s
         | job # jobs \<Rightarrow>
             s\<lparr>sys_cm := cm\<lparr>cm_env := v\<lparr>env_DeltaEventJobChan := jobs\<rparr>\<rparr>,
               sys_jobs := sys_jobs s @ [(Held, job)]\<rparr>)"

definition dispatch_unit :: "('h, 'd) sys \<Rightarrow> ('h, 'd) sys panics" where
  "dispatch_unit s =
     (let cm = sys_cm s; v = cm_env cm
      in case env_ConflationUnitChan v of
           [] \<Rightarrow> Some s
         | name # names \<Rightarrow>
             Option.bind (map_of (cm_conflationUnits cm) name)
               (\<lambda>cu. map_option
                  (\<lambda>(res, cu1).
                     let cm1 = put_unit name (cu1, v\<lparr>env_ConflationUnitChan := names\<rparr>) cm
                     in case res of
                          Inl err \<Rightarrow> s\<lparr>sys_cm := cm1\<rparr>
                        | Inr job \<Rightarrow> s\<lparr>sys_cm := cm1, sys_jobs := sys_jobs s @ [(Held, job)]\<rparr>)
                  (GetNext cu (env_heap v))))"

text \<open>Handing the held job to a worker; a try; the report; the failed lock.\<close>

definition set_phase :: "nat \<Rightarrow> job_phase \<Rightarrow> ('h, 'd) sys \<Rightarrow> ('h, 'd) sys" where
  "set_phase i ph s = s\<lparr>sys_jobs := (sys_jobs s)[i := (ph, snd (sys_jobs s ! i))]\<rparr>"

definition remove_job :: "nat \<Rightarrow> ('h, 'd) sys \<Rightarrow> ('h, 'd) sys" where
  "remove_job i s = s\<lparr>sys_jobs := take i (sys_jobs s) @ drop (Suc i) (sys_jobs s)\<rparr>"

definition worker_attempt :: "nat \<Rightarrow> bool \<Rightarrow> ('h, 'd) sys \<Rightarrow> ('h, 'd) sys" where
  "worker_attempt i ok s =
     (let cm = sys_cm s; v = cm_env cm; r = job_Metadata (snd (sys_jobs s ! i));
          h = (env_heap v)(r := mark_attempt ok (env_heap v r))
      in set_phase i (if ok then Succeeded else Trying)
           (s\<lparr>sys_cm := cm\<lparr>cm_env := v\<lparr>env_heap := h\<rparr>\<rparr>\<rparr>))"

definition worker_report :: "nat \<Rightarrow> int \<Rightarrow> ('h, 'd) sys \<Rightarrow> ('h, 'd) sys panics" where
  "worker_report i duration s =
     (let cm = sys_cm s; (ph, job) = sys_jobs s ! i; err = (ph \<noteq> Succeeded);
          cm1 = cm\<lparr>cm_statistics := AddDatabaseMetrics (job_Event job) duration err (cm_statistics cm)\<rparr>
      in Option.bind (map_of (cm_conflationUnits cm) (job_Reporter job))
           (\<lambda>cu. map_option
              (\<lambda>cs. remove_job i (s\<lparr>sys_cm := put_unit (job_Reporter job) cs cm1\<rparr>))
              (ReportResult (job_Metadata job) err (cu, cm_env cm))))"

definition worker_lock_failed :: "nat \<Rightarrow> ('h, 'd) sys \<Rightarrow> ('h, 'd) sys" where
  "worker_lock_failed i s =
     remove_job i (s\<lparr>sys_lost := sys_lost s @ [snd (sys_jobs s ! i)]\<rparr>)"

text \<open>
  A send on a full channel blocks the sender: such a step is not taken. The dispatcher receives
  only when it holds no job; an idle worker exists when fewer than \<open>n\<close> are busy.
\<close>

inductive step :: "ce_types \<Rightarrow> int \<Rightarrow> ('h, 'd) sys \<Rightarrow> ('h, 'd) sys \<Rightarrow> bool"
  for ce :: ce_types and n :: int where
  receive: "\<lbrakk>transport_dispatch ce evt s = Some s'; channels_fit (cm_env (sys_cm s'))\<rbrakk>
            \<Longrightarrow> step ce n s s'"
| delta: "\<lbrakk>\<forall>j \<in> set (sys_jobs s). fst j \<noteq> Held; env_DeltaEventJobChan (cm_env (sys_cm s)) \<noteq> []\<rbrakk>
          \<Longrightarrow> step ce n s (dispatch_delta s)"
| unit: "\<lbrakk>\<forall>j \<in> set (sys_jobs s). fst j \<noteq> Held; env_ConflationUnitChan (cm_env (sys_cm s)) \<noteq> [];
          dispatch_unit s = Some s'\<rbrakk> \<Longrightarrow> step ce n s s'"
| assign: "\<lbrakk>i < length (sys_jobs s); fst (sys_jobs s ! i) = Held; busy_workers s < n\<rbrakk>
           \<Longrightarrow> step ce n s (set_phase i Queued s)"
| attempt: "\<lbrakk>i < length (sys_jobs s); fst (sys_jobs s ! i) = Queued \<or> fst (sys_jobs s ! i) = Trying\<rbrakk>
            \<Longrightarrow> step ce n s (worker_attempt i ok s)"
| report: "\<lbrakk>i < length (sys_jobs s); fst (sys_jobs s ! i) \<noteq> Held; worker_report i duration s = Some s';
            channels_fit (cm_env (sys_cm s'))\<rbrakk> \<Longrightarrow> step ce n s s'"
| lock_failed: "\<lbrakk>i < length (sys_jobs s); fst (sys_jobs s ! i) = Queued\<rbrakk>
            \<Longrightarrow> step ce n s (worker_lock_failed i s)"

definition initial_sys :: "Stats \<Rightarrow> (string, 'h ConflationRegistration) gomap \<Rightarrow> ('h, 'd) sys" where
  "initial_sys st rs =
     \<lparr>sys_cm = (NewConflationManager st)\<lparr>cm_registrations := rs\<rparr>, sys_jobs = [], sys_lost = []\<rparr>"

inductive reachable ::
    "ce_types \<Rightarrow> int \<Rightarrow> Stats \<Rightarrow> (string, 'h ConflationRegistration) gomap \<Rightarrow> ('h, 'd) sys \<Rightarrow> bool"
  for ce n st rs where
  start: "reachable ce n st rs (initial_sys st rs)"
| next_step: "reachable ce n st rs s \<Longrightarrow> step ce n s s' \<Longrightarrow> reachable ce n st rs s'"

end
