(* ===== verification/PipelineInv.thy ===== *)
theory PipelineInv
  imports Pipeline "HOL-Library.Multiset"
begin

text \<open>
  The invariant of the status pipeline, over every interleaving of its goroutines: the ready
  queue holds a unit at most once and only when the unit is flagged, and an element is in
  process exactly when one job made from it has not been reported.
\<close>

section \<open>The invariant\<close>

definition slot_of :: "(string, 'h ConflationRegistration) gomap \<Rightarrow> string \<Rightarrow> nat" where
  "slot_of rs t = (case map_of rs t of None \<Rightarrow> 0 | Some r \<Rightarrow> reg_priority r)"

definition complete_type :: "(string, 'h ConflationRegistration) gomap \<Rightarrow> string \<Rightarrow> bool" where
  "complete_type rs t =
     (case map_of rs t of None \<Rightarrow> False | Some r \<Rightarrow> reg_syncMode r = CompleteStateMode)"

definition job_type :: "heap \<Rightarrow> ('h, 'd) ConflationJob \<Rightarrow> string" where
  "job_type h j = md_eventType (h (job_Metadata j))"

definition job_key :: "heap \<Rightarrow> ('h, 'd) ConflationJob \<Rightarrow> string \<times> string" where
  "job_key h j = (job_Reporter j, job_type h j)"

definition complete_job ::
    "(string, 'h ConflationRegistration) gomap \<Rightarrow> heap \<Rightarrow> ('h, 'd) ConflationJob \<Rightarrow> bool" where
  "complete_job rs h j = complete_type rs (job_type h j)"

definition unit_ok ::
    "(string, 'h ConflationRegistration) gomap \<Rightarrow> heap \<Rightarrow> mref \<Rightarrow> string \<Rightarrow> ('h, 'd) ConflationUnit \<Rightarrow> bool"
    where
  "unit_ok rs h nx n cu \<longleftrightarrow>
     wf_cu cu \<and> cu_name cu = n \<and>
     (\<forall>t. map_of (eventTypeToPriority cu) t = map_option reg_priority (map_of rs t)) \<and>
     (\<forall>t. map_of rs t \<noteq> None \<longrightarrow> is_complete_slot cu (slot_of rs t) = complete_type rs t) \<and>
     (\<forall>t reg. map_of rs t = Some reg \<longrightarrow> reg_priority reg < length (ElementPriorityQueue cu) \<and>
        map_option elem_shape (ElementPriorityQueue cu ! reg_priority reg) =
          Some (elem_shape (new_element reg :: ('h, 'd) ConflationElement))) \<and>
     (\<forall>q. in_process cu q \<longrightarrow> meta_at cu q \<noteq> None) \<and>
     (\<forall>q r. meta_at cu q = Some r \<longrightarrow>
        r < nx \<and> map_of rs (md_eventType (h r)) \<noteq> None \<and> slot_of rs (md_eventType (h r)) = q)"

definition job_ok ::
    "(string, 'h ConflationRegistration) gomap \<Rightarrow> (string \<rightharpoonup> ('h, 'd) ConflationUnit) \<Rightarrow> heap \<Rightarrow> mref
       \<Rightarrow> ('h, 'd) ConflationJob \<Rightarrow> bool" where
  "job_ok rs U h nx j \<longleftrightarrow>
     U (job_Reporter j) \<noteq> None \<and> job_Metadata j < nx \<and> map_of rs (job_type h j) \<noteq> None"

definition queue_ok :: "(string \<rightharpoonup> ('h, 'd) ConflationUnit) \<Rightarrow> string list \<Rightarrow> bool" where
  "queue_ok U ch \<longleftrightarrow> distinct ch \<and> (\<forall>n \<in> set ch. \<exists>cu. U n = Some cu \<and> isInReadyQueue cu)"

text \<open>In process is what the active jobs are about.\<close>

definition busy_ok ::
    "(string, 'h ConflationRegistration) gomap \<Rightarrow> (string \<rightharpoonup> ('h, 'd) ConflationUnit) \<Rightarrow> heap
       \<Rightarrow> ('h, 'd) ConflationJob list \<Rightarrow> bool" where
  "busy_ok rs U h act \<longleftrightarrow>
     distinct (map (job_key h) (filter (complete_job rs h) act)) \<and>
     (\<forall>n cu p. U n = Some cu \<longrightarrow>
        in_process cu p =
          (\<exists>j \<in> set act. complete_job rs h j \<and> job_Reporter j = n \<and> slot_of rs (job_type h j) = p))"

definition inv_core ::
    "(string, 'h ConflationRegistration) gomap \<Rightarrow> (string \<rightharpoonup> ('h, 'd) ConflationUnit) \<Rightarrow> ('h, 'd) env
       \<Rightarrow> mref \<Rightarrow> ('h, 'd) ConflationJob list \<Rightarrow> bool" where
  "inv_core rs U v nx act \<longleftrightarrow>
     (\<forall>n cu. U n = Some cu \<longrightarrow> unit_ok rs (env_heap v) nx n cu) \<and>
     queue_ok U (env_ConflationUnitChan v) \<and>
     (\<forall>j \<in> set (env_DeltaEventJobChan v).
        job_ok rs U (env_heap v) nx j \<and> \<not> complete_job rs (env_heap v) j) \<and>
     (\<forall>j \<in> set act. job_ok rs U (env_heap v) nx j) \<and>
     busy_ok rs U (env_heap v) act"

definition active :: "('h, 'd) sys \<Rightarrow> ('h, 'd) ConflationJob list" where
  "active s = map snd (sys_jobs s) @ sys_lost s"

definition sys_inv :: "(string, 'h ConflationRegistration) gomap \<Rightarrow> ('h, 'd) sys \<Rightarrow> bool" where
  "sys_inv rs s \<longleftrightarrow>
     cm_registrations (sys_cm s) = rs \<and> wf_map (cm_conflationUnits (sys_cm s)) \<and>
     inv_core rs (map_of (cm_conflationUnits (sys_cm s))) (cm_env (sys_cm s)) (cm_next (sys_cm s)) (active s)"

section \<open>Basic facts\<close>

lemma slot_of_inj:
  assumes "wf_registrations rs" "map_of rs t \<noteq> None" "map_of rs t' \<noteq> None" "slot_of rs t = slot_of rs t'"
  shows "t = t'"
proof -
  from assms(2,3) obtain r r' where r: "(t, r) \<in> set rs" "(t', r') \<in> set rs"
    "map_of rs t = Some r" "map_of rs t' = Some r'"
    by (auto dest: map_of_SomeD)
  have "(t, r) = (t', r')"
    using wf_registrations_D(2) [OF assms(1)] r assms(4)
    by (auto simp: slot_of_def distinct_map dest!: inj_onD [where x = "(t, r)" and y = "(t', r')"])
  then show ?thesis by simp
qed

lemma unit_ok_priority: "unit_ok rs h nx n cu \<Longrightarrow> priority_of cu t = slot_of rs t"
  by (simp add: unit_ok_def priority_of_def slot_of_def split: option.splits)

definition heap_agree :: "mref \<Rightarrow> heap \<Rightarrow> heap \<Rightarrow> bool" where
  "heap_agree nx h h' \<longleftrightarrow> (\<forall>r < nx. md_eventType (h' r) = md_eventType (h r))"

lemma unit_ok_mono:
  "\<lbrakk>unit_ok rs h nx n cu; heap_agree nx h h'; nx \<le> nx'\<rbrakk> \<Longrightarrow> unit_ok rs h' nx' n cu"
  unfolding unit_ok_def heap_agree_def by (fastforce intro: order_less_le_trans)

lemma job_mono:
  assumes "job_ok rs U h nx j" "heap_agree nx h h'" "nx \<le> nx'"
  shows "job_ok rs U h' nx' j" "job_type h' j = job_type h j"
proof -
  show eq: "job_type h' j = job_type h j"
    using assms by (simp add: job_ok_def heap_agree_def job_type_def)
  show "job_ok rs U h' nx' j" using assms eq by (auto simp: job_ok_def)
qed

lemma busy_ok_cong:
  assumes "\<forall>j \<in> set act. job_type h' j = job_type h j"
  shows "busy_ok rs U h' act = busy_ok rs U h act"
proof -
  have "filter (complete_job rs h') act = filter (complete_job rs h) act"
    by (rule filter_cong) (use assms in \<open>auto simp: complete_job_def\<close>)
  moreover have "map (job_key h') (filter (complete_job rs h) act) =
      map (job_key h) (filter (complete_job rs h) act)"
    by (rule map_cong) (use assms in \<open>auto simp: job_key_def\<close>)
  moreover have "(\<exists>j \<in> set act. complete_job rs h' j \<and> job_Reporter j = n \<and> slot_of rs (job_type h' j) = p)
     = (\<exists>j \<in> set act. complete_job rs h j \<and> job_Reporter j = n \<and> slot_of rs (job_type h j) = p)" for n p
    using assms by (auto simp: complete_job_def)
  ultimately show ?thesis unfolding busy_ok_def by (simp only:)
qed

lemma inv_core_mono:
  assumes "inv_core rs U v nx act" "heap_agree nx (env_heap v) h'" "nx \<le> nx'"
  shows "inv_core rs U (v\<lparr>env_heap := h'\<rparr>) nx' act"
proof -
  from assms(1) have "\<forall>j \<in> set act. job_type h' j = job_type (env_heap v) j"
    using job_mono(2) [OF _ assms(2) order_refl] unfolding inv_core_def by blast
  note busy = busy_ok_cong [OF this]
  have d: "job_ok rs U h' nx' j \<and> \<not> complete_job rs h' j"
    if "job_ok rs U (env_heap v) nx j \<and> \<not> complete_job rs (env_heap v) j" for j
    using that job_mono [OF _ assms(2,3)] unfolding complete_job_def by metis
  show ?thesis
    using assms(1) busy d job_mono(1) [OF _ assms(2,3)] unit_ok_mono [OF _ assms(2,3)]
    unfolding inv_core_def by (simp; blast)
qed

lemma inv_core_perm:
  assumes "inv_core rs U v nx act" "mset act = mset act'"
  shows "inv_core rs U v nx act'"
proof -
  have s: "set act' = set act" using assms(2) by (metis set_mset_mset)
  have "mset (map (job_key h) (filter P act')) = mset (map (job_key h) (filter P act))" for h P
    using assms(2) by simp
  then have "distinct (map (job_key h) (filter P act')) = distinct (map (job_key h) (filter P act))" for h P
    by (metis mset_eq_imp_distinct_iff)
  with assms(1) s show ?thesis by (simp add: inv_core_def busy_ok_def)
qed

section \<open>One step at a time\<close>

lemma new_complete_slot:
  assumes wf: "wf_registrations rs" and new: "newConflationUnit n rs = Some cu" and t: "map_of rs t \<noteq> None"
  shows "is_complete_slot cu (slot_of rs t) = complete_type rs t"
proof -
  from t obtain r where r: "map_of rs t = Some r" by auto
  then have "ElementPriorityQueue cu ! reg_priority r = Some (new_element r)"
    "reg_priority r < length (ElementPriorityQueue cu)"
    using new new_slot [OF wf] wf_registrations_D(4) [OF wf] map_of_SomeD
    unfolding newConflationUnit_eq [OF wf] by fastforce+
  then show ?thesis using r
    by (simp add: is_complete_slot_def slot_of_def complete_type_def new_element_def
        split: EventSyncMode.split)
qed

lemma new_unit_shape:
  fixes cu :: "('h, 'd) ConflationUnit"
  assumes wf: "wf_registrations rs" and new: "newConflationUnit n rs = Some cu" and t: "map_of rs t = Some reg"
  shows "reg_priority reg < length (ElementPriorityQueue cu) \<and>
    map_option elem_shape (ElementPriorityQueue cu ! reg_priority reg) =
      Some (elem_shape (new_element reg :: ('h, 'd) ConflationElement))"
  using new new_slot [OF wf map_of_SomeD [OF t]] wf_registrations_D(4) [OF wf map_of_SomeD [OF t]]
  unfolding newConflationUnit_eq [OF wf] by fastforce

lemma inv_core_new_unit:
  assumes inv: "inv_core rs U v nx act" and none: "U n = None"
    and wf: "wf_registrations rs" and new: "newConflationUnit n rs = Some cu"
  shows "inv_core rs (U(n \<mapsto> cu)) v nx act"
proof -
  note N = newConflationUnit_wf [OF wf new]
  have "unit_ok rs (env_heap v) nx n cu"
    using N new_complete_slot [OF wf new] new_unit_shape [OF wf new] by (simp add: unit_ok_def)
  moreover have "queue_ok (U(n \<mapsto> cu)) (env_ConflationUnitChan v)"
    using inv none by (auto simp: inv_core_def queue_ok_def)
  moreover have "job_ok rs (U(n \<mapsto> cu)) (env_heap v) nx j" if "job_ok rs U (env_heap v) nx j" for j
    using that by (auto simp: job_ok_def)
  moreover have "busy_ok rs (U(n \<mapsto> cu)) (env_heap v) act"
    unfolding busy_ok_def
  proof (intro conjI allI impI)
    show "distinct (map (job_key (env_heap v)) (filter (complete_job rs (env_heap v)) act))"
      using inv by (simp add: inv_core_def busy_ok_def)
    fix m c p assume c: "(U(n \<mapsto> cu)) m = Some c"
    have jobs: "job_Reporter j \<noteq> n" if "j \<in> set act" for j
      using inv none that by (auto simp: inv_core_def job_ok_def)
    show "in_process c p = (\<exists>j \<in> set act. complete_job rs (env_heap v) j \<and> job_Reporter j = m \<and>
        slot_of rs (job_type (env_heap v) j) = p)"
    proof (cases "m = n")
      case True
      then show ?thesis using c N(5) jobs by auto
    next
      case False
      then show ?thesis using c inv by (simp add: inv_core_def busy_ok_def)
    qed
  qed
  ultimately show ?thesis using inv unfolding inv_core_def by auto
qed

lemma inv_core_update_unit:
  assumes inv: "inv_core rs U v nx act" and cu: "U n = Some cu" and ev: "evolves cu cu'"
    and metas: "\<And>q r. meta_at cu' q = Some r \<Longrightarrow> meta_at cu q = Some r \<or>
      r < nx \<and> map_of rs (md_eventType (env_heap v r)) \<noteq> None \<and> slot_of rs (md_eventType (env_heap v r)) = q"
    and agree: "heap_agree nx (env_heap v) (env_heap v')"
    and queue: "queue_ok (U(n \<mapsto> cu')) (env_ConflationUnitChan v')"
    and dchan: "\<And>j. j \<in> set (env_DeltaEventJobChan v') \<Longrightarrow> j \<in> set (env_DeltaEventJobChan v) \<or>
      job_ok rs U (env_heap v) nx j \<and> \<not> complete_job rs (env_heap v) j"
    and act: "\<And>j. j \<in> set act' \<Longrightarrow> j \<in> set act \<or> job_ok rs U (env_heap v) nx j"
    and busy: "busy_ok rs (U(n \<mapsto> cu')) (env_heap v) act'"
    and held: "\<And>q. in_process cu' q \<Longrightarrow> meta_at cu' q \<noteq> None"
  shows "inv_core rs (U(n \<mapsto> cu')) v' nx act'"
proof -
  have ok: "unit_ok rs (env_heap v) nx n cu" using inv cu by (simp add: inv_core_def)
  have "unit_ok rs (env_heap v) nx n cu'"
    unfolding unit_ok_def
  proof (intro conjI allI impI)
    show "wf_cu cu'" using evolves_wf [OF ev] ok by (simp add: unit_ok_def)
    show "cu_name cu' = n" "map_of (eventTypeToPriority cu') t = map_option reg_priority (map_of rs t)" for t
      using ok ev by (simp_all add: unit_ok_def evolves_def)
    show "is_complete_slot cu' (slot_of rs t) = complete_type rs t" if "map_of rs t \<noteq> None" for t
      using ok that is_complete_slot_evolves [OF ev] by (simp add: unit_ok_def)
    show "meta_at cu' q \<noteq> None" if "in_process cu' q" for q using held [OF that] .
    fix t reg assume t: "map_of rs t = Some reg"
    with ok have p: "reg_priority reg < length (ElementPriorityQueue cu)"
      "map_option elem_shape (ElementPriorityQueue cu ! reg_priority reg) =
         Some (elem_shape (new_element reg :: ('a, 'b) ConflationElement))" by (auto simp: unit_ok_def)
    with evolves_slot [OF ev p(1)] evolves_length [OF ev]
    show "reg_priority reg < length (ElementPriorityQueue cu')"
      "map_option elem_shape (ElementPriorityQueue cu' ! reg_priority reg) =
         Some (elem_shape (new_element reg :: ('a, 'b) ConflationElement))" by simp_all
  next
    fix q r assume "meta_at cu' q = Some r"
    from metas [OF this] ok show "r < nx" "map_of rs (md_eventType (env_heap v r)) \<noteq> None"
      "slot_of rs (md_eventType (env_heap v r)) = q" by (auto simp: unit_ok_def)
  qed
  moreover have J: "job_ok rs (U(n \<mapsto> cu')) (env_heap v) nx j" if "job_ok rs U (env_heap v) nx j" for j
    using that by (auto simp: job_ok_def)
  then have "\<forall>j \<in> set act'. job_ok rs (U(n \<mapsto> cu')) (env_heap v) nx j"
    using inv act unfolding inv_core_def by blast
  moreover have "\<forall>j \<in> set (env_DeltaEventJobChan v').
      job_ok rs (U(n \<mapsto> cu')) (env_heap v) nx j \<and> \<not> complete_job rs (env_heap v) j"
    using inv dchan J unfolding inv_core_def by blast
  ultimately have
    "inv_core rs (U(n \<mapsto> cu')) (v\<lparr>env_ConflationUnitChan := env_ConflationUnitChan v',
       env_DeltaEventJobChan := env_DeltaEventJobChan v'\<rparr>) nx act'"
    using inv queue busy unfolding inv_core_def by auto
  from inv_core_mono [OF this, of "env_heap v'" nx] agree show ?thesis
    by (cases v; cases v') simp
qed

lemma queue_ok_step:
  assumes "queue_ok U (env_ConflationUnitChan v)" "U n = Some cu" "cu_name cu = n" "queue_step cu v cu' v'"
  shows "queue_ok (U(n \<mapsto> cu')) (env_ConflationUnitChan v')"
  using assms by (fastforce simp: queue_ok_def queue_step_def)

lemma busy_ok_upd:
  assumes "U n = Some cu" "in_process cu' = in_process cu"
  shows "busy_ok rs (U(n \<mapsto> cu')) h act = busy_ok rs U h act"
proof -
  have "(\<forall>m c. (U(n \<mapsto> cu')) m = Some c \<longrightarrow> P m (in_process c)) =
      (\<forall>m c. U m = Some c \<longrightarrow> P m (in_process c))" for P
    using assms by (metis fun_upd_other fun_upd_same option.inject)
  from this [of "\<lambda>m b. \<forall>p. b p = (\<exists>j \<in> set act. complete_job rs h j \<and> job_Reporter j = m \<and>
      slot_of rs (job_type h j) = p)"]
  show ?thesis unfolding busy_ok_def by blast
qed

lemma same_but_version_agree: "same_but_version h h' \<Longrightarrow> heap_agree nx h h'"
  by (simp add: same_but_version_def heap_agree_def)

lemma inv_core_insert:
  assumes inv: "inv_core rs U v nx act" and cu: "U n = Some cu"
    and ins: "cu_insert evt r (cu, v) = Some (cu', v')"
    and r: "r < nx" "md_eventType (env_heap v r) = evt_Type evt" "map_of rs (evt_Type evt) \<noteq> None"
  shows "inv_core rs (U(n \<mapsto> cu')) v' nx act"
proof -
  have ok: "unit_ok rs (env_heap v) nx n cu" using inv cu by (simp add: inv_core_def)
  then have wf: "wf_cu cu" and name: "cu_name cu = n" by (simp_all add: unit_ok_def)
  note eff = cu_insert_effect [OF wf ins, unfolded unit_ok_priority [OF ok]]
  show ?thesis
  proof (rule inv_core_update_unit [OF inv cu eff(1)])
    show "meta_at cu q = Some x \<or> x < nx \<and> map_of rs (md_eventType (env_heap v x)) \<noteq> None \<and>
      slot_of rs (md_eventType (env_heap v x)) = q" if "meta_at cu' q = Some x" for q x
      using eff(5) [of q] that r by auto
    show "heap_agree nx (env_heap v) (env_heap v')" by (rule same_but_version_agree [OF eff(4)])
    show "queue_ok (U(n \<mapsto> cu')) (env_ConflationUnitChan v')"
      using inv cu name eff(2) by (intro queue_ok_step [where v = v and cu = cu]) (simp_all add: inv_core_def)
    show "j \<in> set (env_DeltaEventJobChan v) \<or> job_ok rs U (env_heap v) nx j \<and> \<not> complete_job rs (env_heap v) j"
      if "j \<in> set (env_DeltaEventJobChan v')" for j
      using eff(6) that r ok cu name
      by (auto simp: job_ok_def complete_job_def job_type_def NewConflationJob_def unit_ok_def)
    show "busy_ok rs (U(n \<mapsto> cu')) (env_heap v) act"
      using inv busy_ok_upd [where U = U and n = n, OF cu eff(3)] unfolding inv_core_def by blast
    show "meta_at cu' q \<noteq> None" if "in_process cu' q" for q
      using that eff(3) eff(5) [of q] ok by (auto simp: unit_ok_def)
  qed simp
qed

lemma complete_slot_type:
  assumes "unit_ok rs h nx n cu" "map_of rs t \<noteq> None" "ElementPriorityQueue cu ! slot_of rs t = Some (Complete e)"
    "slot_of rs t < length (ElementPriorityQueue cu)"
  shows "complete_type rs t"
  using assms by (auto simp: unit_ok_def is_complete_slot_def)

text \<open>A job taken from a unit marks its element as in process.\<close>

lemma busy_ok_add:
  assumes busy: "busy_ok rs U h act" and cu: "U n = Some cu" and wf: "wf_registrations rs"
    and idle: "\<not> in_process cu p" and ip: "in_process cu' = (in_process cu)(p := True)"
    and j: "job_Reporter j = n" "complete_job rs h j" "slot_of rs (job_type h j) = p"
  shows "busy_ok rs (U(n \<mapsto> cu')) h (j # act)"
proof -
  have none: "\<not> (\<exists>i \<in> set act. complete_job rs h i \<and> job_Reporter i = n \<and> slot_of rs (job_type h i) = p)"
    using busy cu idle unfolding busy_ok_def by blast
  then have "job_key h j \<notin> job_key h ` {i \<in> set act. complete_job rs h i}"
    using j by (auto simp: job_key_def)
  then show ?thesis using busy cu ip j unfolding busy_ok_def by auto
qed

lemma inv_core_getnext:
  assumes inv: "inv_core rs U v nx act" and cu: "U n = Some cu" and wf: "wf_registrations rs"
    and get: "GetNext cu (env_heap v) = Some (Inr job, cu')"
    and ch: "env_ConflationUnitChan v = n # names"
  shows "inv_core rs (U(n \<mapsto> cu')) (v\<lparr>env_ConflationUnitChan := names\<rparr>) nx (job # act)"
proof -
  have ok: "unit_ok rs (env_heap v) nx n cu" using inv cu by (simp add: inv_core_def)
  from GetNext_job [OF get] obtain p e r evt where
    g: "ready_at cu (env_heap v) p" "p < length (ElementPriorityQueue cu)"
      "ElementPriorityQueue cu ! p = Some (Complete e)" "el_metadata e = Some r" "el_event e = Some evt"
      "job = NewConflationJob evt r (el_handlerFunction e) (cu_name cu)"
      "cu' = set_element p (Complete (e\<lparr>el_isInProcess := True\<rparr>)) (cu\<lparr>isInReadyQueue := False\<rparr>)" .
  have idle: "\<not> in_process cu p"
    using g(1) by (rule ready_at_E) (use g(3) in \<open>simp add: in_process_def\<close>)
  have "meta_at cu p = Some r" using g by (simp add: meta_at_def)
  with ok have r: "r < nx" "map_of rs (md_eventType (env_heap v r)) \<noteq> None"
    "slot_of rs (md_eventType (env_heap v r)) = p" by (auto simp: unit_ok_def)
  have jt: "job_type (env_heap v) job = md_eventType (env_heap v r)" "job_Reporter job = n" "job_Metadata job = r"
    using g ok by (simp_all add: job_type_def NewConflationJob_def unit_ok_def)
  have cj: "complete_job rs (env_heap v) job"
    unfolding complete_job_def jt by (rule complete_slot_type [OF ok r(2)]) (use g r in auto)
  have ip: "in_process cu' = (in_process cu)(p := True)"
    unfolding g using g(2) by (auto simp: fun_eq_iff)
  have ev: "evolves cu cu'"
    unfolding g using g(3) by (auto intro: evolves_trans [OF _ evolves_set_element, of _ _ p "Complete e"])
  show ?thesis
  proof (rule inv_core_update_unit [OF inv cu ev])
    show "meta_at cu q = Some x \<or> x < nx \<and> map_of rs (md_eventType (env_heap v x)) \<noteq> None \<and>
      slot_of rs (md_eventType (env_heap v x)) = q" if "meta_at cu' q = Some x" for q x
      using that g by (auto simp: meta_at_def nth_list_update split: if_splits)
    show "queue_ok (U(n \<mapsto> cu')) (env_ConflationUnitChan (v\<lparr>env_ConflationUnitChan := names\<rparr>))"
      using inv ch by (auto simp: inv_core_def queue_ok_def)
    show "j \<in> set act \<or> job_ok rs U (env_heap v) nx j" if "j \<in> set (job # act)" for j
      using that r jt cu by (auto simp: job_ok_def)
    show "busy_ok rs (U(n \<mapsto> cu')) (env_heap v) (job # act)"
      using inv by (intro busy_ok_add [where U = U, OF _ cu wf idle ip jt(2) cj]) (simp_all add: inv_core_def jt r)
    show "meta_at cu' q \<noteq> None" if "in_process cu' q" for q
      using that ok g(2,4) unfolding g(7) by (auto simp: unit_ok_def split: if_splits)
  qed (simp_all add: heap_agree_def)
qed

text \<open>A report takes its job out of the active ones and its element out of process.\<close>

lemma busy_ok_remove:
  assumes busy: "busy_ok rs U h (j # act)" and cu: "U (job_Reporter j) = Some cu"
    and wf: "wf_registrations rs" and ok: "unit_ok rs h nx (job_Reporter j) cu"
    and t: "map_of rs (job_type h j) \<noteq> None"
    and ip: "in_process cu' = (in_process cu)(slot_of rs (job_type h j) := False)"
  shows "busy_ok rs (U(job_Reporter j \<mapsto> cu')) h act"
proof -
  let ?p = "slot_of rs (job_type h j)"
  have iff: "in_process c p = (\<exists>i \<in> set (j # act). complete_job rs h i \<and> job_Reporter i = m \<and>
      slot_of rs (job_type h i) = p)" if "U m = Some c" for m c p
    using busy that unfolding busy_ok_def by blast
  have none: "\<not> (complete_job rs h i \<and> job_Reporter i = job_Reporter j \<and> slot_of rs (job_type h i) = ?p)"
    if "i \<in> set act" for i
  proof
    assume i: "complete_job rs h i \<and> job_Reporter i = job_Reporter j \<and> slot_of rs (job_type h i) = ?p"
    then have "job_type h i = job_type h j"
      using t by (intro slot_of_inj [OF wf]) (auto simp: complete_job_def complete_type_def split: option.splits)
    then have eq: "complete_job rs h j" "job_key h i = job_key h j"
      using i by (simp_all add: complete_job_def job_key_def)
    with busy have "job_key h j \<notin> job_key h ` {x \<in> set act. complete_job rs h x}"
      by (simp add: busy_ok_def)
    moreover have "job_key h j \<in> job_key h ` {x \<in> set act. complete_job rs h x}"
      unfolding eq(2) [symmetric] by (rule imageI) (use i that in simp)
    ultimately show False by contradiction
  qed
  show ?thesis
    unfolding busy_ok_def
  proof (intro conjI allI impI)
    show "distinct (map (job_key h) (filter (complete_job rs h) act))"
      using busy by (auto simp: busy_ok_def split: if_splits)
    fix m c p assume c: "(U(job_Reporter j \<mapsto> cu')) m = Some c"
    show "in_process c p = (\<exists>i \<in> set act. complete_job rs h i \<and> job_Reporter i = m \<and>
        slot_of rs (job_type h i) = p)"
    proof (cases "m = job_Reporter j")
      case True
      then show ?thesis using c ip iff [OF cu, of p] none by auto
    next
      case False
      then show ?thesis using c iff [of m c p] by auto
    qed
  qed
qed

lemma inv_core_report:
  assumes inv: "inv_core rs U v nx (j # act)" and cu: "U (job_Reporter j) = Some cu"
    and wf: "wf_registrations rs"
    and rep: "ReportResult (job_Metadata j) err (cu, v) = Some (cu', v')"
  shows "inv_core rs (U(job_Reporter j \<mapsto> cu')) v' nx act"
proof -
  have ok: "unit_ok rs (env_heap v) nx (job_Reporter j) cu" using inv cu by (simp add: inv_core_def)
  then have wfc: "wf_cu cu" and name: "cu_name cu = job_Reporter j" by (simp_all add: unit_ok_def)
  note eff = ReportResult_effect [OF wfc rep, unfolded unit_ok_priority [OF ok]]
  have t: "map_of rs (job_type (env_heap v) j) \<noteq> None" using inv by (simp add: inv_core_def job_ok_def)
  show ?thesis
  proof (rule inv_core_update_unit [OF inv cu eff(1)])
    show "queue_ok (U(job_Reporter j \<mapsto> cu')) (env_ConflationUnitChan v')"
      using inv cu name eff(2) by (intro queue_ok_step [where v = v and cu = cu]) (simp_all add: inv_core_def)
    show "busy_ok rs (U(job_Reporter j \<mapsto> cu')) (env_heap v) act"
      using inv eff(6) by (intro busy_ok_remove [where U = U, OF _ cu wf ok t]) (simp_all add: inv_core_def job_type_def)
    show "meta_at cu' q \<noteq> None" if "in_process cu' q" for q
      using that ok by (auto simp: eff unit_ok_def split: if_splits)
  qed (simp_all add: eff heap_agree_def)
qed

section \<open>Every step keeps the invariant\<close>

lemma mark_attempt_type [simp]: "md_eventType (mark_attempt ok m) = md_eventType m"
  by (simp add: mark_attempt_def)

lemma inv_stats [simp]:
  "sys_inv rs (s\<lparr>sys_cm := (sys_cm s)\<lparr>cm_statistics := st\<rparr>\<rparr>) = sys_inv rs s"
  by (simp add: sys_inv_def active_def)

lemma cm_Insert_inv:
  assumes cmi: "cm_Insert ce evt cm = Some cm'" and regs: "cm_registrations cm = rs" and wf: "wf_registrations rs"
    and wfm: "wf_map (cm_conflationUnits cm)"
    and inv: "inv_core rs (map_of (cm_conflationUnits cm)) (cm_env cm) (cm_next cm) act"
  shows "cm_registrations cm' = rs \<and> wf_map (cm_conflationUnits cm') \<and>
    inv_core rs (map_of (cm_conflationUnits cm')) (cm_env cm') (cm_next cm') act"
proof (cases "map_of rs (evt_Type evt) = None \<or> NewThresholdMetadata ce TransportID max_retry evt = None")
  case True
  then have "cm' = cm" using cmi regs by (auto simp: cm_Insert_def split: if_splits)
  then show ?thesis using assms by simp
next
  case False
  then obtain m where m: "NewThresholdMetadata ce TransportID max_retry evt = Some m"
    and reg: "map_of rs (evt_Type evt) \<noteq> None" by auto
  let ?r = "cm_next cm" and ?U = "map_of (cm_conflationUnits cm)" and ?n = "evt_Source evt"
  let ?v = "(cm_env cm)\<lparr>env_heap := (env_heap (cm_env cm))(?r := m)\<rparr>"
  have inv1: "inv_core rs ?U ?v (Suc ?r) act"
    by (rule inv_core_mono [OF inv]) (simp_all add: heap_agree_def)
  from cmi m reg regs obtain cu cm2 cu' v' where
    get: "getConflationUnit ?n (cm\<lparr>cm_env := ?v, cm_next := Suc ?r\<rparr>) = Some (cu, cm2)"
    and ins: "cu_insert evt ?r (cu, cm_env cm2) = Some (cu', v')"
    and cm': "cm' = put_unit ?n (cu', v') cm2"
    by (auto simp: cm_Insert_def Let_def bind_eq_Some_conv)
  have "cm_env cm2 = ?v \<and> cm_next cm2 = Suc ?r \<and> cm_registrations cm2 = rs \<and>
      wf_map (cm_conflationUnits cm2) \<and> map_of (cm_conflationUnits cm2) = ?U(?n \<mapsto> cu) \<and>
      inv_core rs (?U(?n \<mapsto> cu)) ?v (Suc ?r) act"
  proof (cases "?U ?n")
    case (Some c)
    with get regs wfm inv1 show ?thesis by (auto simp: getConflationUnit_def map_upd_triv)
  next
    case None
    with get regs have "newConflationUnit ?n rs = Some cu" by (auto simp: getConflationUnit_def)
    from inv_core_new_unit [OF inv1 None wf this] None get regs wfm
    show ?thesis by (auto simp: getConflationUnit_def)
  qed
  then have c2: "cm_env cm2 = ?v" "cm_next cm2 = Suc ?r" "cm_registrations cm2 = rs"
    "wf_map (cm_conflationUnits cm2)" "map_of (cm_conflationUnits cm2) = ?U(?n \<mapsto> cu)"
    "inv_core rs (?U(?n \<mapsto> cu)) ?v (Suc ?r) act" by blast+
  have "inv_core rs ((?U(?n \<mapsto> cu))(?n \<mapsto> cu')) v' (Suc ?r) act"
    by (rule inv_core_insert [where cu = cu and v = ?v and r = ?r and evt = evt, OF c2(6)])
      (use ins c2(1) reg NewThresholdMetadata_fields(3) [OF m] in auto)
  then show ?thesis using c2 by (simp add: cm' put_unit_def)
qed

lemma active_simps:
  "active (s\<lparr>sys_cm := cm\<rparr>) = active s"
  "i < length (sys_jobs s) \<Longrightarrow> active (set_phase i ph s) = active s"
  "i < length (sys_jobs s) \<Longrightarrow> mset (active s) = mset (snd (sys_jobs s ! i) # active (remove_job i s))"
  "i < length (sys_jobs s) \<Longrightarrow> mset (active (worker_lock_failed i s)) = mset (active s)"
proof -
  show "active (s\<lparr>sys_cm := cm\<rparr>) = active s" by (simp add: active_def)
  assume i: "i < length (sys_jobs s)"
  show "active (set_phase i ph s) = active s"
    using i list_update_id [of "map snd (sys_jobs s)" i] by (simp add: active_def set_phase_def map_update)
  have split: "mset (map snd (sys_jobs s)) =
      add_mset (snd (sys_jobs s ! i)) (mset (map snd (take i (sys_jobs s) @ drop (Suc i) (sys_jobs s))))"
    by (subst id_take_nth_drop [OF i]) simp
  then show "mset (active s) = mset (snd (sys_jobs s ! i) # active (remove_job i s))"
    by (simp add: active_def remove_job_def)
  from split show "mset (active (worker_lock_failed i s)) = mset (active s)"
    by (simp add: active_def worker_lock_failed_def remove_job_def)
qed

lemma dispatch_delta_inv:
  assumes "sys_inv rs s" shows "sys_inv rs (dispatch_delta s)"
proof (cases "env_DeltaEventJobChan (cm_env (sys_cm s))")
  case Nil
  then show ?thesis using assms by (simp add: dispatch_delta_def)
next
  case (Cons job jobs)
  let ?v = "cm_env (sys_cm s)" and ?U = "map_of (cm_conflationUnits (sys_cm s))" and ?nx = "cm_next (sys_cm s)"
  have core: "inv_core rs ?U ?v ?nx (active s)" using assms by (simp add: sys_inv_def)
  have nc: "\<not> complete_job rs (env_heap ?v) job" "job_ok rs ?U (env_heap ?v) ?nx job"
    using core Cons by (auto simp: inv_core_def)
  then have "inv_core rs ?U (?v\<lparr>env_DeltaEventJobChan := jobs\<rparr>) ?nx (job # active s)"
    using core Cons by (auto simp: inv_core_def busy_ok_def)
  then have "inv_core rs ?U (?v\<lparr>env_DeltaEventJobChan := jobs\<rparr>) ?nx
      (map snd (sys_jobs s) @ job # sys_lost s)"
    by (rule inv_core_perm) (simp add: active_def)
  then show ?thesis using assms Cons by (simp add: sys_inv_def dispatch_delta_def active_def Let_def)
qed

lemma dispatch_unit_cases:
  assumes "dispatch_unit s = Some s'" "env_ConflationUnitChan (cm_env (sys_cm s)) = n # names"
  obtains cu err where "map_of (cm_conflationUnits (sys_cm s)) n = Some cu"
      "GetNext cu (env_heap (cm_env (sys_cm s))) = Some (Inl err, cu)"
      "\<And>q. \<not> ready_at cu (env_heap (cm_env (sys_cm s))) q"
      "s' = s\<lparr>sys_cm := put_unit n (cu, (cm_env (sys_cm s))\<lparr>env_ConflationUnitChan := names\<rparr>) (sys_cm s)\<rparr>"
  | cu job cu1 where "map_of (cm_conflationUnits (sys_cm s)) n = Some cu"
      "GetNext cu (env_heap (cm_env (sys_cm s))) = Some (Inr job, cu1)"
      "s' = s\<lparr>sys_cm := put_unit n (cu1, (cm_env (sys_cm s))\<lparr>env_ConflationUnitChan := names\<rparr>) (sys_cm s),
              sys_jobs := sys_jobs s @ [(Held, job)]\<rparr>"
proof -
  from assms obtain cu res cu1 where
    a: "map_of (cm_conflationUnits (sys_cm s)) n = Some cu"
      "GetNext cu (env_heap (cm_env (sys_cm s))) = Some (res, cu1)"
      "s' = (let cm1 = put_unit n (cu1, (cm_env (sys_cm s))\<lparr>env_ConflationUnitChan := names\<rparr>) (sys_cm s)
             in case res of Inl err \<Rightarrow> s\<lparr>sys_cm := cm1\<rparr>
                | Inr job \<Rightarrow> s\<lparr>sys_cm := cm1, sys_jobs := sys_jobs s @ [(Held, job)]\<rparr>)"
    by (auto simp: dispatch_unit_def Let_def bind_eq_Some_conv)
  show ?thesis
  proof (cases res)
    case (Inl err)
    with a(2) GetNext_error [of cu "env_heap (cm_env (sys_cm s))" err cu1] a(1,3) that(1) [of cu err]
    show ?thesis by simp
  next
    case (Inr job)
    with a that(2) [of cu job cu1] show ?thesis by simp
  qed
qed

lemma dispatch_unit_inv:
  assumes inv: "sys_inv rs s" and wf: "wf_registrations rs" and d: "dispatch_unit s = Some s'"
  shows "sys_inv rs s'"
proof (cases "env_ConflationUnitChan (cm_env (sys_cm s))")
  case Nil
  then show ?thesis using inv d by (simp add: dispatch_unit_def)
next
  case (Cons n names)
  let ?v = "cm_env (sys_cm s)" and ?U = "map_of (cm_conflationUnits (sys_cm s))" and ?nx = "cm_next (sys_cm s)"
  have core: "inv_core rs ?U ?v ?nx (active s)" using inv by (simp add: sys_inv_def)
  from d Cons show ?thesis
  proof (cases rule: dispatch_unit_cases)
    case (1 cu err)
    have "inv_core rs ?U (?v\<lparr>env_ConflationUnitChan := names\<rparr>) ?nx (active s)"
      using core Cons by (simp add: inv_core_def queue_ok_def)
    with 1 inv show ?thesis by (simp add: sys_inv_def put_unit_def active_simps map_upd_triv)
  next
    case (2 cu job cu1)
    have "inv_core rs (?U(n \<mapsto> cu1)) (?v\<lparr>env_ConflationUnitChan := names\<rparr>) ?nx (job # active s)"
      by (rule inv_core_getnext [OF core 2(1) wf 2(2) Cons])
    then have "inv_core rs (?U(n \<mapsto> cu1)) (?v\<lparr>env_ConflationUnitChan := names\<rparr>) ?nx
        (map snd (sys_jobs s) @ job # sys_lost s)"
      by (rule inv_core_perm) (simp add: active_def)
    with 2(3) inv show ?thesis by (simp add: sys_inv_def put_unit_def active_def)
  qed
qed

lemma worker_attempt_inv:
  assumes "sys_inv rs s" "i < length (sys_jobs s)" shows "sys_inv rs (worker_attempt i ok s)"
proof -
  let ?v = "cm_env (sys_cm s)" and ?r = "job_Metadata (snd (sys_jobs s ! i))"
  let ?h = "(env_heap ?v)(?r := mark_attempt ok (env_heap ?v ?r))"
  have "inv_core rs (map_of (cm_conflationUnits (sys_cm s))) (?v\<lparr>env_heap := ?h\<rparr>) (cm_next (sys_cm s)) (active s)"
    using assms(1) by (intro inv_core_mono) (auto simp: sys_inv_def heap_agree_def)
  then show ?thesis using assms
    by (simp add: sys_inv_def worker_attempt_def Let_def active_simps) (cases ok; simp add: set_phase_def)
qed

lemma worker_report_inv:
  assumes inv: "sys_inv rs s" and wf: "wf_registrations rs" and i: "i < length (sys_jobs s)"
    and rep: "worker_report i duration s = Some s'"
  shows "sys_inv rs s'"
proof -
  let ?v = "cm_env (sys_cm s)" and ?U = "map_of (cm_conflationUnits (sys_cm s))" and ?nx = "cm_next (sys_cm s)"
  obtain ph job where j: "sys_jobs s ! i = (ph, job)" by force
  from rep j obtain cu cu' v' where cu: "?U (job_Reporter job) = Some cu"
    and r: "ReportResult (job_Metadata job) (ph \<noteq> Succeeded) (cu, ?v) = Some (cu', v')"
    and s': "s' = remove_job i (s\<lparr>sys_cm := put_unit (job_Reporter job) (cu', v')
         ((sys_cm s)\<lparr>cm_statistics := AddDatabaseMetrics (job_Event job) duration (ph \<noteq> Succeeded)
            (cm_statistics (sys_cm s))\<rparr>)\<rparr>)"
    by (fastforce simp: worker_report_def Let_def bind_eq_Some_conv)
  have "inv_core rs ?U ?v ?nx (job # active (remove_job i s))"
  proof (rule inv_core_perm)
    show "inv_core rs ?U ?v ?nx (active s)" using inv by (simp add: sys_inv_def)
    show "mset (active s) = mset (job # active (remove_job i s))" using active_simps(3) [OF i] by (simp only: j snd_conv)
  qed
  from inv_core_report [OF this cu wf r] show ?thesis
    using inv by (simp add: sys_inv_def s' put_unit_def remove_job_def active_def)
qed

lemma step_inv:
  assumes "step ce n s s'" "sys_inv rs s" "wf_registrations rs"
  shows "sys_inv rs s'"
  using assms
proof (cases rule: step.cases)
  case (receive evt)
  then obtain cm where cm: "cm_Insert ce evt
      ((sys_cm s)\<lparr>cm_statistics := ReceivedEvent evt (cm_statistics (sys_cm s))\<rparr>) = Some cm" "s' = s\<lparr>sys_cm := cm\<rparr>"
    by (auto simp: transport_dispatch_def)
  from cm_Insert_inv [OF cm(1), of rs "active s"] assms show ?thesis
    by (simp add: sys_inv_def cm(2) active_simps)
next
  case delta
  with assms dispatch_delta_inv show ?thesis by simp
next
  case unit
  with assms dispatch_unit_inv show ?thesis by blast
next
  case (assign i)
  with assms show ?thesis by (simp add: sys_inv_def active_simps) (simp add: set_phase_def)
next
  case (attempt i ok)
  with assms worker_attempt_inv show ?thesis by simp
next
  case (report i duration)
  with assms worker_report_inv show ?thesis by blast
next
  case (lock_failed i)
  with assms inv_core_perm [OF _ active_simps(4) [symmetric], of rs _ _ _ s i] show ?thesis
    by (simp add: sys_inv_def) (simp add: worker_lock_failed_def remove_job_def)
qed

lemma reachable_inv:
  assumes "reachable ce n st rs s" "wf_registrations rs"
  shows "sys_inv rs s"
  using assms
proof (induction rule: reachable.induct)
  case start
  then show ?case
    by (simp add: sys_inv_def initial_sys_def NewConflationManager_def NewConflationReadyQueue_def
        active_def inv_core_def queue_ok_def busy_ok_def)
next
  case (next_step s s')
  then show ?case by (blast intro: step_inv)
qed

section \<open>No step panics\<close>

text \<open>
  The only assumption on the events: one whose registration has a dependency carries a
  dependency version.
\<close>

definition carries_dependency ::
    "(string, 'h ConflationRegistration) gomap \<Rightarrow> ThresholdMetadata \<Rightarrow> bool" where
  "carries_dependency rs m \<longleftrightarrow>
     (case map_of rs (md_eventType m) of
        None \<Rightarrow> True
      | Some reg \<Rightarrow> reg_dependency reg \<noteq> None \<longrightarrow> md_eventDependencyVersion m \<noteq> None)"

lemma slot_dependency:
  assumes ok: "unit_ok rs h nx n cu" and t: "map_of rs t = Some reg"
    and e: "ElementPriorityQueue cu ! reg_priority reg = Some (Complete e)"
  shows "el_dependency e = reg_dependency reg"
proof -
  have "map_option elem_shape (ElementPriorityQueue cu ! reg_priority reg) =
      Some (elem_shape (new_element reg :: ('a, 'b) ConflationElement))"
    using ok t by (simp add: unit_ok_def)
  then show ?thesis using e
    by (auto simp: new_element_def NewCompleteElement_def NewDeltaElement_def split: EventSyncMode.splits)
qed

lemma unit_dep_versions:
  assumes ok: "unit_ok rs h nx n cu" and cd: "\<forall>r < nx. carries_dependency rs (h r)"
  shows "dep_versions_present cu h"
  unfolding dep_versions_present_def
proof
  fix slot assume "slot \<in> set (ElementPriorityQueue cu)"
  then obtain q where q: "q < length (ElementPriorityQueue cu)" "ElementPriorityQueue cu ! q = slot"
    by (auto simp: in_set_conv_nth)
  have "md_eventDependencyVersion (h r) \<noteq> None"
    if e: "slot = Some (Complete e)" "el_metadata e = Some r" "el_dependency e \<noteq> None" for e r
  proof -
    have "meta_at cu q = Some r" using q e by (simp add: meta_at_def)
    then have "r < nx" "map_of rs (md_eventType (h r)) \<noteq> None" "slot_of rs (md_eventType (h r)) = q"
      using ok by (simp_all add: unit_ok_def)
    then obtain reg where reg: "map_of rs (md_eventType (h r)) = Some reg" "reg_priority reg = q" "r < nx"
      by (auto simp: slot_of_def)
    moreover have "reg_dependency reg \<noteq> None" using slot_dependency [OF ok reg(1)] reg(2) q e by simp
    ultimately show ?thesis using cd by (auto simp: carries_dependency_def)
  qed
  then show "case slot of Some (Complete e) \<Rightarrow> (case el_metadata e of None \<Rightarrow> True
      | Some r \<Rightarrow> el_dependency e \<noteq> None \<longrightarrow> md_eventDependencyVersion (h r) \<noteq> None) | _ \<Rightarrow> True"
    by (auto split: option.splits ConflationElement.splits)
qed

lemma dep_versions_set_element:
  assumes "dep_versions_present cu h"
    and "\<And>e r. el = Complete e \<Longrightarrow> el_metadata e = Some r \<Longrightarrow> el_dependency e \<noteq> None
      \<Longrightarrow> md_eventDependencyVersion (h r) \<noteq> None"
  shows "dep_versions_present (set_element p el cu) h"
proof -
  have "set (ElementPriorityQueue (set_element p el cu)) \<subseteq> insert (Some el) (set (ElementPriorityQueue cu))"
    by (simp add: set_update_subset_insert)
  moreover have "case el of Complete e \<Rightarrow> (case el_metadata e of None \<Rightarrow> True
      | Some r \<Rightarrow> el_dependency e \<noteq> None \<longrightarrow> md_eventDependencyVersion (h r) \<noteq> None) | _ \<Rightarrow> True"
    using assms(2) by (auto split: option.splits ConflationElement.splits)
  ultimately show ?thesis using assms(1) unfolding dep_versions_present_def by fastforce
qed

lemma dep_versions_heap:
  "same_but_version h h' \<Longrightarrow> dep_versions_present cu h' = dep_versions_present cu h"
  unfolding dep_versions_present_def same_but_version_def
  by (simp cong: option.case_cong ConflationElement.case_cong)

lemma ReportResult_total:
  assumes ok: "unit_ok rs (env_heap v) nx n cu" and cd: "\<forall>r < nx. carries_dependency rs (env_heap v r)"
    and t: "map_of rs (md_eventType (env_heap v r)) \<noteq> None"
    and held: "is_complete_slot cu (slot_of rs (md_eventType (env_heap v r))) \<Longrightarrow>
      meta_at cu (slot_of rs (md_eventType (env_heap v r))) \<noteq> None"
  shows "ReportResult r err (cu, v) \<noteq> None"
proof -
  let ?p = "slot_of rs (md_eventType (env_heap v r))"
  from t obtain reg where reg: "map_of rs (md_eventType (env_heap v r)) = Some reg" "?p = reg_priority reg"
    by (auto simp: slot_of_def)
  with ok have p: "?p < length (ElementPriorityQueue cu)" by (auto simp: unit_ok_def)
  have wf: "wf_cu cu" using ok by (simp add: unit_ok_def)
  note dv = unit_dep_versions [OF ok cd] and pr = unit_ok_priority [OF ok]
  from wf_cu_slot [OF wf p] obtain el where el: "ElementPriorityQueue cu ! ?p = Some el"
    and sl: "wf_slot (eventTypeToPriority cu) ?p el" .
  show ?thesis
  proof (cases el)
    case (Complete e)
    with held el p obtain m where m: "el_metadata e = Some m"
      by (auto simp: is_complete_slot_def meta_at_def)
    then have "complete_PostProcess (env_heap v) r err e \<noteq> None" by (simp add: complete_PostProcess_def Let_def)
    then obtain e1 where e1: "complete_PostProcess (env_heap v) r err e = Some e1" by blast
    note eff = complete_PostProcess_effect [OF e1]
    have "wf_cu (set_element ?p (Complete e1) cu)"
      using wf el Complete eff(1) by (intro wf_cu_set_element) auto
    moreover have "dep_versions_present (set_element ?p (Complete e1) cu) (env_heap v)"
      using dep_versions_present_at [OF dv p, of e] el Complete eff
      by (intro dep_versions_set_element [OF dv]) auto
    ultimately obtain s' where "addCUToReadyQueueIfNeeded (set_element ?p (Complete e1) cu, v) = Some s'"
      using addCU_total by blast
    then show ?thesis using el Complete p e1 by (cases s') (simp add: ReportResult_def pr Let_def)
  next
    case (Delta e)
    then show ?thesis using el p sl
      by (simp add: ReportResult_def pr wf_slot_def delta_PostProcess_effect)
  qed
qed

lemma cu_insert_total:
  assumes ok: "unit_ok rs (env_heap v) nx n cu" and cd: "\<forall>x < nx. carries_dependency rs (env_heap v x)"
    and t: "map_of rs (evt_Type evt) \<noteq> None" and r: "r < nx" "md_eventType (env_heap v r) = evt_Type evt"
  shows "cu_insert evt r (cu, v) \<noteq> None"
proof -
  let ?p = "slot_of rs (evt_Type evt)"
  from t obtain reg where reg: "map_of rs (evt_Type evt) = Some reg" "?p = reg_priority reg"
    by (auto simp: slot_of_def)
  with ok have p: "?p < length (ElementPriorityQueue cu)" by (auto simp: unit_ok_def)
  have wf: "wf_cu cu" using ok by (simp add: unit_ok_def)
  note dv = unit_dep_versions [OF ok cd] and pr = unit_ok_priority [OF ok]
  from wf_cu_slot [OF wf p] obtain el where el: "ElementPriorityQueue cu ! ?p = Some el" .
  show ?thesis
  proof (cases el)
    case (Complete e)
    obtain b e1 h1 where pred:
      "complete_Predicate (md_eventVersion (env_heap v r)) e (env_heap v) = (b, e1, h1)"
      by (metis prod_cases3)
    note eff = complete_Predicate_effect [OF pred]
    let ?e2 = "e1\<lparr>el_event := Some evt, el_metadata := Some r\<rparr>"
    let ?cu1 = "set_element ?p (Complete e1) cu"
    let ?cu2 = "set_element ?p (Complete ?e2) ?cu1"
    have wf2: "wf_cu ?cu2"
      using wf el Complete eff(1) p by (intro wf_cu_set_element [of ?cu1 _ "Complete e1"] wf_cu_set_element) auto
    have dep: "el_dependency e = reg_dependency reg"
      using slot_dependency [OF ok reg(1)] el Complete reg(2) by simp
    have dv1: "dep_versions_present ?cu1 h1"
      using dep_versions_present_at [OF dv p, of e] el Complete eff
      by (intro dep_versions_set_element) (auto simp: dep_versions_heap [OF eff(5)] dv same_but_version_def)
    have "dep_versions_present ?cu2 h1"
      using cd r reg(1) dep eff
      by (intro dep_versions_set_element [OF dv1]) (auto simp: carries_dependency_def same_but_version_def)
    with addCU_total [OF wf2, of "v\<lparr>env_heap := h1\<rparr>"]
    obtain s' where "addCUToReadyQueueIfNeeded (?cu2, v\<lparr>env_heap := h1\<rparr>) = Some s'" by auto
    then show ?thesis using el Complete p pred
      by (simp add: cu_insert_def pr complete_AddToReadyQueue_def Let_def)
  next
    case (Delta e)
    then show ?thesis using el p by (simp add: cu_insert_def pr Let_def split: prod.splits)
  qed
qed

end
