(* ===== verification/Registration.thy ===== *)
theory Registration
  imports ConflationManager
begin

text \<open>
  \<^verbatim>\<open>pkg/enum/event_type.go\<close> and the registration half of \<^verbatim>\<open>manager/pkg/status/handlers\<close>: which
  event types the manager accepts, with which priority, sync mode, handler and dependency. The
  handlers are named here; what they do to the database is the subject of the theories of the
  handlers.
\<close>

section \<open>Event types\<close>

definition EventTypePrefix :: string where
  "EventTypePrefix = ''io.open-cluster-management.operator.multiclusterglobalhubs.''"

datatype EventType =
    HubClusterInfoType
  | HubClusterHeartbeatType
  | KlusterletAddonConfigType
  | ManagedClusterType
  | SubscriptionReportType
  | SubscriptionStatusType
  | LocalComplianceType
  | LocalCompleteComplianceType
  | LocalPolicySpecType
  | ComplianceType
  | CompleteComplianceType
  | DeltaComplianceType
  | MiniComplianceType
  | LocalReplicatedPolicyEventType
  | LocalRootPolicyEventType
  | ManagedClusterEventType
  | PlacementDecisionType
  | LocalPlacementRuleSpecType
  | PlacementRuleSpecType
  | PlacementSpecType
  | SecurityAlertCountsType

primrec event_suffix :: "EventType \<Rightarrow> string" where
  "event_suffix HubClusterInfoType = ''managedhub.info''"
| "event_suffix HubClusterHeartbeatType = ''managedhub.heartbeat''"
| "event_suffix KlusterletAddonConfigType = ''managedcluster.klusterletaddonconfig''"
| "event_suffix ManagedClusterType = ''managedcluster''"
| "event_suffix SubscriptionReportType = ''subscription.report''"
| "event_suffix SubscriptionStatusType = ''subscription.status''"
| "event_suffix LocalComplianceType = ''policy.localcompliance''"
| "event_suffix LocalCompleteComplianceType = ''policy.localcompletecompliance''"
| "event_suffix LocalPolicySpecType = ''policy.localspec''"
| "event_suffix ComplianceType = ''policy.compliance''"
| "event_suffix CompleteComplianceType = ''policy.completecompliance''"
| "event_suffix DeltaComplianceType = ''policy.deltacompliance''"
| "event_suffix MiniComplianceType = ''policy.minicompliance''"
| "event_suffix LocalReplicatedPolicyEventType = ''event.localreplicatedpolicy''"
| "event_suffix LocalRootPolicyEventType = ''event.localrootpolicy''"
| "event_suffix ManagedClusterEventType = ''event.managedcluster''"
| "event_suffix PlacementDecisionType = ''placementdecision''"
| "event_suffix LocalPlacementRuleSpecType = ''placementrule.localspec''"
| "event_suffix PlacementRuleSpecType = ''placementrule.spec''"
| "event_suffix PlacementSpecType = ''placement.spec''"
| "event_suffix SecurityAlertCountsType = ''security.alertcounts''"

definition event_type :: "EventType \<Rightarrow> string" where
  "event_type t = EventTypePrefix @ event_suffix t"

section \<open>Handlers\<close>

datatype Handler =
    HeartbeatHandler | HubClusterInfoHandler | ManagedClusterHandler | ManagedClusterEventHandler
  | KlusterletAddonConfigHandler | LocalPolicySpecHandler | LocalPolicyComplianceHandler
  | LocalPolicyCompleteHandler | LocalRootPolicyEventHandler | LocalReplicatedPolicyEventHandler
  | SecurityAlertCountsHandler | PolicyComplianceHandler | PolicyCompleteHandler
  | PolicyDeltaComplianceHandler | PolicyMiniComplianceHandler | GenericHandler string

type_synonym 'd manager = "(Handler, 'd) ConflationManager"

definition RegisterHubClusterHeartbeatHandler :: "'d manager \<Rightarrow> 'd manager" where
  "RegisterHubClusterHeartbeatHandler =
     Register (NewConflationRegistration HubClusterHeartbeatPriority CompleteStateMode
                 (event_type HubClusterHeartbeatType) HeartbeatHandler)"

definition RegsiterHubClusterInfoHandler :: "'d manager \<Rightarrow> 'd manager" where
  "RegsiterHubClusterInfoHandler =
     Register (NewConflationRegistration HubClusterInfoPriority CompleteStateMode
                 (event_type HubClusterInfoType) HubClusterInfoHandler)"

definition RegisterManagedClusterHandler :: "'d manager \<Rightarrow> 'd manager" where
  "RegisterManagedClusterHandler =
     Register (NewConflationRegistration ManagedClustersPriority CompleteStateMode
                 (event_type ManagedClusterType) ManagedClusterHandler)"

definition RegisterManagedClusterEventHandler :: "'d manager \<Rightarrow> 'd manager" where
  "RegisterManagedClusterEventHandler =
     Register (NewConflationRegistration ManagedClusterEventPriority DeltaStateMode
                 (event_type ManagedClusterEventType) ManagedClusterEventHandler)"

definition RegisterKlusterletAddonConfigHandler :: "'d manager \<Rightarrow> 'd manager" where
  "RegisterKlusterletAddonConfigHandler =
     Register (NewConflationRegistration KlusterletAddonConfigPriority CompleteStateMode
                 (event_type KlusterletAddonConfigType) KlusterletAddonConfigHandler)"

definition RegisterLocalPolicySpecHandler :: "'d manager \<Rightarrow> 'd manager" where
  "RegisterLocalPolicySpecHandler =
     Register (NewConflationRegistration LocalPolicySpecPriority CompleteStateMode
                 (event_type LocalPolicySpecType) LocalPolicySpecHandler)"

definition RegisterLocalPolicyComplianceHandler :: "'d manager \<Rightarrow> 'd manager" where
  "RegisterLocalPolicyComplianceHandler =
     Register (NewConflationRegistration LocalCompliancePriority CompleteStateMode
                 (event_type LocalComplianceType) LocalPolicyComplianceHandler)"

definition RegisterLocalPolicyCompleteHandler :: "'d manager \<Rightarrow> 'd manager" where
  "RegisterLocalPolicyCompleteHandler =
     Register (WithDependency (NewDependency (event_type LocalComplianceType) ExactMatch)
       (NewConflationRegistration LocalCompleteCompliancePriority CompleteStateMode
          (event_type LocalCompleteComplianceType) LocalPolicyCompleteHandler))"

definition RegisterLocalRootPolicyEventHandler :: "'d manager \<Rightarrow> 'd manager" where
  "RegisterLocalRootPolicyEventHandler =
     Register (NewConflationRegistration LocalEventRootPolicyPriority DeltaStateMode
                 (event_type LocalRootPolicyEventType) LocalRootPolicyEventHandler)"

definition RegisterLocalReplicatedPolicyEventHandler :: "'d manager \<Rightarrow> 'd manager" where
  "RegisterLocalReplicatedPolicyEventHandler =
     Register (NewConflationRegistration LocalReplicatedPolicyEventPriority DeltaStateMode
                 (event_type LocalReplicatedPolicyEventType) LocalReplicatedPolicyEventHandler)"

definition RegisterSecurityAlertCountsHandler :: "'d manager \<Rightarrow> 'd manager" where
  "RegisterSecurityAlertCountsHandler =
     Register (NewConflationRegistration SecurityAlertCountsPriority CompleteStateMode
                 (event_type SecurityAlertCountsType) SecurityAlertCountsHandler)"

definition RegisterPolicyComplianceHandler :: "'d manager \<Rightarrow> 'd manager" where
  "RegisterPolicyComplianceHandler =
     Register (NewConflationRegistration CompliancePriority CompleteStateMode
                 (event_type ComplianceType) PolicyComplianceHandler)"

definition RegisterPolicyCompleteHandler :: "'d manager \<Rightarrow> 'd manager" where
  "RegisterPolicyCompleteHandler =
     Register (WithDependency (NewDependency (event_type ComplianceType) ExactMatch)
       (NewConflationRegistration CompleteCompliancePriority CompleteStateMode
          (event_type CompleteComplianceType) PolicyCompleteHandler))"

definition RegisterPolicyDeltaComplianceHandler :: "'d manager \<Rightarrow> 'd manager" where
  "RegisterPolicyDeltaComplianceHandler =
     Register (WithDependency (NewDependency (event_type CompleteComplianceType) ExactMatch)
       (NewConflationRegistration DeltaCompliancePriority DeltaStateMode
          (event_type DeltaComplianceType) PolicyDeltaComplianceHandler))"

definition RegisterPolicyMiniComplianceHandler :: "'d manager \<Rightarrow> 'd manager" where
  "RegisterPolicyMiniComplianceHandler =
     Register (NewConflationRegistration MinimalCompliancePriority CompleteStateMode
                 (event_type MiniComplianceType) PolicyMiniComplianceHandler)"

definition RegisterGenericHandler ::
    "string \<Rightarrow> ConflationPriority \<Rightarrow> EventSyncMode \<Rightarrow> string \<Rightarrow> 'd manager \<Rightarrow> 'd manager" where
  "RegisterGenericHandler eventType priority syncMode table =
     Register (NewConflationRegistration priority syncMode eventType (GenericHandler table))"

text \<open>The calls of \<^verbatim>\<open>RegisterHandlers\<close>, in order.\<close>

definition RegisterHandlers :: "bool \<Rightarrow> 'd manager \<Rightarrow> 'd manager" where
  "RegisterHandlers enableGlobalResource cmr =
     (let cmr = RegisterHubClusterHeartbeatHandler cmr;
          cmr = RegsiterHubClusterInfoHandler cmr;
          cmr = RegisterManagedClusterHandler cmr;
          cmr = RegisterManagedClusterEventHandler cmr;
          cmr = RegisterKlusterletAddonConfigHandler cmr;
          cmr = RegisterLocalPolicySpecHandler cmr;
          cmr = RegisterLocalPolicyComplianceHandler cmr;
          cmr = RegisterLocalPolicyCompleteHandler cmr;
          cmr = RegisterLocalRootPolicyEventHandler cmr;
          cmr = RegisterLocalReplicatedPolicyEventHandler cmr;
          cmr = RegisterGenericHandler (event_type LocalPlacementRuleSpecType)
                  LocalPlacementRulesSpecPriority CompleteStateMode ''local_spec.placementrules'' cmr;
          cmr = RegisterSecurityAlertCountsHandler cmr
      in if \<not> enableGlobalResource then cmr
         else
           let cmr = RegisterPolicyComplianceHandler cmr;
               cmr = RegisterPolicyCompleteHandler cmr;
               cmr = RegisterPolicyDeltaComplianceHandler cmr;
               cmr = RegisterPolicyMiniComplianceHandler cmr;
               cmr = RegisterGenericHandler (event_type PlacementRuleSpecType) PlacementRulePriority
                       CompleteStateMode ''status.placementrules'' cmr;
               cmr = RegisterGenericHandler (event_type PlacementSpecType) PlacementPriority
                       CompleteStateMode ''status.placements'' cmr;
               cmr = RegisterGenericHandler (event_type PlacementDecisionType) PlacementDecisionPriority
                       CompleteStateMode ''status.placementdecisions'' cmr;
               cmr = RegisterGenericHandler (event_type SubscriptionReportType) SubscriptionReportPriority
                       CompleteStateMode ''status.subscription_reports'' cmr;
               cmr = RegisterGenericHandler (event_type SubscriptionStatusType) SubscriptionStatusPriority
                       CompleteStateMode ''status.subscription_statuses'' cmr
           in cmr)"

section \<open>The registrations are well formed\<close>

lemma event_type_inject [simp]: "event_type s = event_type t \<longleftrightarrow> s = t"
  by (cases s; cases t) (simp_all add: event_type_def)

lemmas register_defs =
  RegisterHubClusterHeartbeatHandler_def RegsiterHubClusterInfoHandler_def
  RegisterManagedClusterHandler_def RegisterManagedClusterEventHandler_def
  RegisterKlusterletAddonConfigHandler_def RegisterLocalPolicySpecHandler_def
  RegisterLocalPolicyComplianceHandler_def RegisterLocalPolicyCompleteHandler_def
  RegisterLocalRootPolicyEventHandler_def RegisterLocalReplicatedPolicyEventHandler_def
  RegisterSecurityAlertCountsHandler_def RegisterPolicyComplianceHandler_def
  RegisterPolicyCompleteHandler_def RegisterPolicyDeltaComplianceHandler_def
  RegisterPolicyMiniComplianceHandler_def RegisterGenericHandler_def

lemma Register_simps [simp]:
  "cm_registrations (Register r cm) = AList.update (reg_eventType r) r (cm_registrations cm)"
  "cm_conflationUnits (Register r cm) = cm_conflationUnits cm"
  "cm_env (Register r cm) = cm_env cm" "cm_next (Register r cm) = cm_next cm"
  by (simp_all add: Register_def)

lemma registration_simps [simp]:
  "reg_eventType (NewConflationRegistration p m t h) = t"
  "reg_priority (NewConflationRegistration p m t h) = iota p"
  "reg_syncMode (NewConflationRegistration p m t h) = m"
  "reg_dependency (NewConflationRegistration p m t h) = None"
  "reg_eventType (WithDependency d r) = reg_eventType r"
  "reg_priority (WithDependency d r) = reg_priority r"
  "reg_syncMode (WithDependency d r) = reg_syncMode r"
  "reg_dependency (WithDependency d r) = Some d"
  "dep_EventType (NewDependency t k) = t"
  "dep_DependencyType (NewDependency t k) = k"
  by (simp_all add: NewConflationRegistration_def WithDependency_def NewDependency_def)

text \<open>
  C34: the program's registrations, with and without the global resources, fill the priority
  queue of a unit exactly: no two share a slot, no slot is empty and every dependency has a
  higher priority. Creating a unit therefore never panics and gives a well-formed unit.
\<close>

theorem registered_handlers_fill_queue:
  "wf_registrations (cm_registrations (RegisterHandlers glob (NewConflationManager st)))
   \<and> (\<exists>cu. newConflationUnit hub (cm_registrations (RegisterHandlers glob (NewConflationManager st))) = Some cu
        \<and> wf_cu cu)"
proof -
  have wf: "wf_registrations (cm_registrations (RegisterHandlers glob (NewConflationManager st)))"
    by (cases glob)
      (simp_all add: RegisterHandlers_def register_defs NewConflationManager_def Let_def
        wf_registrations_def wf_map_def)
  with newConflationUnit_eq newConflationUnit_wf(1) show ?thesis by metis
qed

end
