(* ===== verification/PipelineProps.thy ===== *)
theory PipelineProps
  imports PipelineInv Registration
begin

text \<open>
  What the conflation pipeline guarantees, and where it does not: properties of the operations of
  a conflation unit, and of every reachable state of the pipeline.
\<close>

section \<open>A sample run\<close>

text \<open>
  Two event types, the second depending on the first. \<open>sample_run1\<close> has received an event of the
  first type, \<open>sample_run2\<close> has dispatched it to a worker.
\<close>

definition sample_registrations :: "(string, nat) gomap \<Rightarrow> (string, nat ConflationRegistration) gomap" where
  "sample_registrations _ =
     [(''t'', \<lparr>reg_priority = 0, reg_syncMode = CompleteStateMode, reg_eventType = ''t'',
               reg_handleFunc = 0, reg_dependency = None\<rparr>),
      (''u'', \<lparr>reg_priority = 1, reg_syncMode = CompleteStateMode, reg_eventType = ''u'',
               reg_handleFunc = 1, reg_dependency = Some (NewDependency ''t'' ExactMatch)\<rparr>)]"

definition sample_start :: "(nat, unit) sys" where
  "sample_start = initial_sys (NewStatistics []) (sample_registrations [])"

definition sample_run1 :: "(nat, unit) sys" where
  "sample_run1 = the (transport_dispatch sample_ce_types sample_event sample_start)"

definition sample_run2 :: "(nat, unit) sys" where
  "sample_run2 = set_phase 0 Queued (the (dispatch_unit sample_run1))"

lemma chain_here:
  "el_isInProcess e \<Longrightarrow> isCurrentOrAnyDependencyInProcess cu e = Some True"
  "\<not> el_isInProcess e \<Longrightarrow> el_dependency e = None \<Longrightarrow> isCurrentOrAnyDependencyInProcess cu e = Some False"
  by (subst isCurrentOrAnyDependencyInProcess.simps; simp)+

lemmas run_defs =
  transport_dispatch_def cm_Insert_def sample_start_def initial_sys_def NewConflationManager_def
  NewConflationReadyQueue_def sample_registrations_def getConflationUnit_def newConflationUnit_def
  place_registration_def NewCompleteElement_def NewDependency_def cu_insert_def priority_of_def
  complete_Predicate_def complete_AddToReadyQueue_def addCUToReadyQueueIfNeeded_def
  getNextReadyCompleteElement_def IsReadyToProcess_def matchDependency_def chain_here
  set_element_def put_unit_def GetNext_def ProcessJob_def dispatch_unit_def Let_def InitGen_def
  NewerThan_def NewVersion_def Equals_def Processed_def ReceivedEvent_def on_metrics_def NewStatistics_def
  IncrementNumberOfConflations_def max_retry_def go_nth_def channels_fit_def
  DeltaEventJobChan_cap_def ConflationUnitChan_cap_def

definition sample_metadata :: ThresholdMetadata where
  "sample_metadata = \<lparr>md_maxRetry = 3, md_count = 0,
       md_kafkaPosition = \<lparr>pos_OwnerIdentity = [], pos_Topic = [], pos_Partition = 0, pos_Offset = 7\<rparr>,
       md_eventType = ''t'', md_eventVersion = \<lparr>Generation = 1, Value = 4\<rparr>,
       md_eventDependencyVersion = None\<rparr>"

lemma sample_md:
  "NewThresholdMetadata sample_ce_types TransportID 3 sample_event = Some sample_metadata"
  by (simp add: sample_metadata_def NewThresholdMetadata_def sample_event_def sample_ce_types_def getVersionFromEvent_def
      ExtVersion_def ExtDependencyVersion_def sample_version TransportID_def ParseInt_def ParseUint_def digit_val_def)

lemma sample_event_sel [simp]: "evt_Type sample_event = ''t''" "evt_Source sample_event = ''hub1''"
  by (simp_all add: sample_event_def)

lemma sample_run1: "transport_dispatch sample_ce_types sample_event sample_start = Some sample_run1"
proof -
  have "transport_dispatch sample_ce_types sample_event sample_start \<noteq> None"
    by (simp add: run_defs sample_md sample_metadata_def)
  then show ?thesis by (auto simp: sample_run1_def)
qed

lemma sample_fit: "channels_fit (cm_env (sys_cm sample_run1))"
  by (simp add: sample_run1_def run_defs sample_md sample_metadata_def)

lemma sample_dispatch: "dispatch_unit sample_run1 \<noteq> None"
  "env_ConflationUnitChan (cm_env (sys_cm sample_run1)) \<noteq> []" "sys_jobs sample_run1 = []"
  by (simp_all add: sample_run1_def run_defs sample_md sample_metadata_def)

lemma sample_jobs: "map fst (sys_jobs sample_run2) = [Queued]"
  by (simp add: sample_run2_def set_phase_def sample_run1_def run_defs sample_md sample_metadata_def)

lemma sample_wf: "wf_registrations (sample_registrations [])"
  by (simp add: wf_registrations_def sample_registrations_def wf_map_def NewDependency_def)

lemma sample_reach1: "reachable sample_ce_types 5 (NewStatistics []) (sample_registrations []) sample_run1"
  using reachable.next_step [OF reachable.start step.receive, OF sample_run1 [unfolded sample_start_def] sample_fit] .

lemma sample_reach2: "reachable sample_ce_types 5 (NewStatistics []) (sample_registrations []) sample_run2"
proof -
  obtain s' where s': "dispatch_unit sample_run1 = Some s'" using sample_dispatch(1) by auto
  have "step sample_ce_types 5 sample_run1 s'"
    by (rule step.unit [OF _ sample_dispatch(2) s']) (simp add: sample_dispatch)
  moreover have "step sample_ce_types 5 s' (set_phase 0 Queued s')"
  proof (rule step.assign)
    show "0 < length (sys_jobs s')" "fst (sys_jobs s' ! 0) = Held" "busy_workers s' < 5"
      using s' by (auto simp: sample_run1_def run_defs sample_md sample_metadata_def busy_workers_def)
  qed
  moreover have "sample_run2 = set_phase 0 Queued s'" by (simp add: sample_run2_def s')
  ultimately show ?thesis
    using reachable.next_step [OF reachable.next_step [OF sample_reach1]] by metis
qed

section \<open>Conflation: the newest version wins\<close>

text \<open>
  The newest version a complete element knows of: processed, or held for processing. Abstractly,
  an event replaces it when it is newer, and always when its generation is 0.
\<close>

definition known_version :: "('h, 'd) ConflationUnit \<Rightarrow> heap \<Rightarrow> nat \<Rightarrow> Version" where
  "known_version cu h p =
     (case ElementPriorityQueue cu ! p of
        Some (Complete e) \<Rightarrow>
          (case el_metadata e of
             None \<Rightarrow> el_lastProcessedVersion e
           | Some r \<Rightarrow> max (el_lastProcessedVersion e) (md_eventVersion (h r)))
      | _ \<Rightarrow> NewVersion)"

definition conflate_spec :: "Version \<Rightarrow> Version \<Rightarrow> Version" where
  "conflate_spec ver known = (if InitGen ver then ver else max known ver)"

definition accepts_spec :: "Version \<Rightarrow> Version \<Rightarrow> bool" where
  "accepts_spec ver known = (if InitGen ver then NewVersion < ver else known < ver)"

definition held_event :: "('h, 'd) ConflationUnit \<Rightarrow> nat \<Rightarrow> 'd Event option" where
  "held_event cu p = (case ElementPriorityQueue cu ! p of Some (Complete e) \<Rightarrow> el_event e | _ \<Rightarrow> None)"

lemma complete_Predicate_spec:
  assumes "complete_Predicate ver e h = (ok, e1, h1)"
  shows "ok = accepts_spec ver (case el_metadata e of None \<Rightarrow> el_lastProcessedVersion e
      | Some r \<Rightarrow> max (el_lastProcessedVersion e) (md_eventVersion (h r)))"
    "el_lastProcessedVersion e1 = (if InitGen ver then NewVersion else el_lastProcessedVersion e)"
    "h1 = (if InitGen ver then (case el_metadata e of None \<Rightarrow> h | Some r \<Rightarrow> h(r := reset_metadata_version (h r))) else h)"
  using assms
  by (auto simp: complete_Predicate_def accepts_spec_def NewerThan_less Let_def
      split: option.splits if_splits)

lemma cu_insert_complete:
  assumes slot: "ElementPriorityQueue cu ! p = Some (Complete e)" "p < length (ElementPriorityQueue cu)"
    and p: "p = priority_of cu (evt_Type evt)"
    and pr: "complete_Predicate (md_eventVersion (env_heap v r)) e (env_heap v) = (ok, e1, h1)"
    and ins: "cu_insert evt r (cu, v) = Some (cu', v')"
  shows "ElementPriorityQueue cu' =
      (ElementPriorityQueue cu)[p := Some (Complete (if ok then e1\<lparr>el_event := Some evt, el_metadata := Some r\<rparr> else e1))]"
    "env_heap v' = h1"
    "ok \<Longrightarrow> isInReadyQueue cu' \<or> (\<forall>q. \<not> ready_at cu' h1 q)"
proof -
  let ?cu1 = "set_element p (Complete e1) cu"
  let ?cu2 = "set_element p (Complete (e1\<lparr>el_event := Some evt, el_metadata := Some r\<rparr>)) ?cu1"
  have "(if ok then addCUToReadyQueueIfNeeded (?cu2, v\<lparr>env_heap := h1\<rparr>) else Some (?cu1, v\<lparr>env_heap := h1\<rparr>)) =
      Some (cu', v')"
    using ins slot pr by (auto simp: cu_insert_def p complete_AddToReadyQueue_def Let_def split: if_splits)
  then show "ElementPriorityQueue cu' =
      (ElementPriorityQueue cu)[p := Some (Complete (if ok then e1\<lparr>el_event := Some evt, el_metadata := Some r\<rparr> else e1))]"
    "env_heap v' = h1" "ok \<Longrightarrow> isInReadyQueue cu' \<or> (\<forall>q. \<not> ready_at cu' h1 q)"
    by (auto split: if_splits elim!: addCU_cases)
qed

text \<open>
  C2: inserting an event into a unit refines the abstract conflation step. The version its
  element knows of becomes the event's own version when the event is of generation 0 (a
  restarted agent), and otherwise the newer of the two; the event is held for processing exactly
  when it is accepted, and a rejected event leaves the held event as it was.
\<close>

theorem insert_refines_conflation:
  assumes "wf_cu cu" and "is_complete_slot cu p" and "p = priority_of cu (evt_Type evt)"
    and "meta_at cu p \<noteq> Some r" and "cu_insert evt r (cu, v) = Some (cu', v')"
  shows "known_version cu' (env_heap v') p =
      conflate_spec (md_eventVersion (env_heap v r)) (known_version cu (env_heap v) p)
    \<and> (if accepts_spec (md_eventVersion (env_heap v r)) (known_version cu (env_heap v) p)
       then held_event cu' p = Some evt \<and> meta_at cu' p = Some r
       else held_event cu' p = held_event cu p \<and> meta_at cu' p = meta_at cu p)"
proof -
  from assms(2) obtain e where e: "ElementPriorityQueue cu ! p = Some (Complete e)"
    "p < length (ElementPriorityQueue cu)"
    by (auto simp: is_complete_slot_def split: option.splits ConflationElement.splits)
  obtain ok e1 h1 where pr:
    "complete_Predicate (md_eventVersion (env_heap v r)) e (env_heap v) = (ok, e1, h1)"
    by (metis prod_cases3)
  note spec = complete_Predicate_spec [OF pr] and eff = complete_Predicate_effect [OF pr]
    and ins = cu_insert_complete [OF e assms(3) pr assms(5)]
  have nr: "el_metadata e \<noteq> Some r" using assms(4) e by (simp add: meta_at_def)
  have known: "known_version cu (env_heap v) p = (case el_metadata e of None \<Rightarrow> el_lastProcessedVersion e
      | Some r \<Rightarrow> max (el_lastProcessedVersion e) (md_eventVersion (env_heap v r)))"
    using e by (simp add: known_version_def)
  have ok: "ok = accepts_spec (md_eventVersion (env_heap v r)) (known_version cu (env_heap v) p)"
    using spec(1) known by simp
  have zero: "InitGen ver \<Longrightarrow> \<not> NewVersion < ver \<Longrightarrow> ver = NewVersion" for ver
    using NewVersion_least [of ver] by auto
  have "known_version cu' (env_heap v') p =
      conflate_spec (md_eventVersion (env_heap v r)) (known_version cu (env_heap v) p)"
    unfolding known using e nr ins eff ok [unfolded known] spec(2,3) zero NewVersion_least [of "md_eventVersion (env_heap v r)"]
    by (auto simp: known_version_def conflate_spec_def accepts_spec_def max_def split: option.splits if_splits)
  moreover have "if ok then held_event cu' p = Some evt \<and> meta_at cu' p = Some r
       else held_event cu' p = held_event cu p \<and> meta_at cu' p = meta_at cu p"
    using e ins eff by (simp add: held_event_def meta_at_def)
  ultimately show ?thesis using ok by simp
qed

definition sample_unit :: "(nat, unit) ConflationUnit" where
  "sample_unit = the (newConflationUnit ''hub1'' (sample_registrations []))"

definition sample_env :: "(nat, unit) env" where
  "sample_env = NewConflationReadyQueue\<lparr>env_heap := (\<lambda>_. blank_metadata)(0 := sample_metadata)\<rparr>"

lemma sample_unit_wf: "wf_cu sample_unit" "meta_at sample_unit q = None"
proof -
  have "newConflationUnit ''hub1'' (sample_registrations []) = Some sample_unit"
    by (simp add: sample_unit_def newConflationUnit_eq [OF sample_wf])
  from newConflationUnit_wf [OF sample_wf this] show "wf_cu sample_unit" "meta_at sample_unit q = None"
    by blast+
qed

lemma sample_insert:
  "\<exists>cu' v'. cu_insert sample_event 0 (sample_unit, sample_env) = Some (cu', v')
     \<and> GetNext cu' (env_heap v') \<noteq> None \<and> isl (fst (the (GetNext cu' (env_heap v')))) = False"
  by (simp add: sample_unit_def sample_env_def sample_metadata_def run_defs)

theorem insert_refines_conflation_witness:
  "\<exists>cu' v'. cu_insert sample_event 0 (sample_unit, sample_env) = Some (cu', v')
     \<and> known_version cu' (env_heap v') 0 = \<lparr>Generation = 1, Value = 4\<rparr>
     \<and> held_event cu' 0 = Some sample_event"
proof -
  obtain cu' v' where ins: "cu_insert sample_event 0 (sample_unit, sample_env) = Some (cu', v')"
    using sample_insert by blast
  have "is_complete_slot sample_unit 0" "0 = priority_of sample_unit (evt_Type sample_event)"
    by (simp_all add: sample_unit_def run_defs is_complete_slot_def)
  from insert_refines_conflation [OF sample_unit_wf(1) this _ ins] sample_unit_wf(2) [of 0]
  have "known_version cu' (env_heap v') 0 =
      conflate_spec (md_eventVersion sample_metadata) (known_version sample_unit (env_heap sample_env) 0)"
    "if accepts_spec (md_eventVersion sample_metadata) (known_version sample_unit (env_heap sample_env) 0)
     then held_event cu' 0 = Some sample_event else held_event cu' 0 = held_event sample_unit 0"
    by (auto simp: sample_env_def split: if_splits)
  moreover have "known_version sample_unit (env_heap sample_env) 0 = NewVersion"
    by (simp add: sample_unit_def run_defs known_version_def)
  moreover have "conflate_spec (md_eventVersion sample_metadata) NewVersion = \<lparr>Generation = 1, Value = 4\<rparr>"
    "accepts_spec (md_eventVersion sample_metadata) NewVersion"
    by (simp_all add: sample_metadata_def conflate_spec_def accepts_spec_def InitGen_def NewVersion_def max_def
        less_eq_Version_ext_def less_Version_ext_def)
  ultimately show ?thesis using ins by auto
qed

text \<open>A sequence of deliveries to one unit.\<close>

fun insert_all :: "('d Event \<times> mref) list \<Rightarrow> ('h, 'd) cu_state \<Rightarrow> ('h, 'd) cu_state panics" where
  "insert_all [] s = Some s"
| "insert_all ((evt, r) # es) s = Option.bind (cu_insert evt r s) (insert_all es)"

lemma cu_insert_known:
  assumes wf: "wf_cu cu" and c: "is_complete_slot cu p" and p: "p = priority_of cu (evt_Type evt)"
    and ins: "cu_insert evt r (cu, v) = Some (cu', v')"
    and ng: "\<not> InitGen (md_eventVersion (env_heap v r))"
  shows "known_version cu' (env_heap v') p = max (known_version cu (env_heap v) p) (md_eventVersion (env_heap v r))"
    "env_heap v' = env_heap v"
proof -
  from c obtain e where e: "ElementPriorityQueue cu ! p = Some (Complete e)"
    "p < length (ElementPriorityQueue cu)"
    by (auto simp: is_complete_slot_def split: option.splits ConflationElement.splits)
  obtain ok e1 h1 where pr:
    "complete_Predicate (md_eventVersion (env_heap v r)) e (env_heap v) = (ok, e1, h1)"
    by (metis prod_cases3)
  note spec = complete_Predicate_spec [OF pr] and eff = complete_Predicate_effect [OF pr]
    and ic = cu_insert_complete [OF e p pr ins]
  show h: "env_heap v' = env_heap v" using spec(3) ic(2) ng by simp
  show "known_version cu' (env_heap v') p = max (known_version cu (env_heap v) p) (md_eventVersion (env_heap v r))"
    using e ic(1) eff spec ng h
    by (auto simp: known_version_def accepts_spec_def max_def split: option.splits if_splits)
qed

text \<open>
  However the events of one type are ordered or repeated on their way to a unit, as long as
  none is of generation 0 the version its element ends up with is the newest one delivered (or
  the one it already had, when that is newer).
\<close>

theorem conflation_ends_with_newest:
  assumes "wf_cu cu" and "is_complete_slot cu p"
    and "\<forall>(evt, r) \<in> set es. p = priority_of cu (evt_Type evt)
           \<and> \<not> InitGen (md_eventVersion (env_heap v r))"
    and "insert_all es (cu, v) = Some (cu', v')"
  shows "known_version cu' (env_heap v') p =
    Max (insert (known_version cu (env_heap v) p) ((\<lambda>(evt, r). md_eventVersion (env_heap v r)) ` set es))"
  using assms
proof (induction es arbitrary: cu v)
  case Nil
  then show ?case by simp
next
  case (Cons x es)
  obtain evt r where x: "x = (evt, r)" by force
  with Cons.prems obtain cu1 v1 where
    ins: "cu_insert evt r (cu, v) = Some (cu1, v1)" and rest: "insert_all es (cu1, v1) = Some (cu', v')"
    by (auto simp: bind_eq_Some_conv)
  from Cons.prems(3) x have p: "p = priority_of cu (evt_Type evt)"
    and ng: "\<not> InitGen (md_eventVersion (env_heap v r))" by auto
  note k = cu_insert_known [OF Cons.prems(1,2) p ins ng]
  note ev = cu_insert_effect(1) [OF Cons.prems(1) ins]
  have "known_version cu' (env_heap v') p = Max (insert (known_version cu1 (env_heap v1) p)
      ((\<lambda>(evt, r). md_eventVersion (env_heap v1 r)) ` set es))"
    by (rule Cons.IH [OF evolves_wf [OF ev Cons.prems(1)] _ _ rest])
      (use Cons.prems is_complete_slot_evolves [OF ev] evolves_priority [OF ev] k(2) in auto)
  also have "known_version cu1 (env_heap v1) p =
      max (known_version cu (env_heap v) p) (md_eventVersion (env_heap v r))" by (rule k(1))
  finally show ?case unfolding x k(2)
    by (cases "es = []") (simp_all add: max.assoc max.commute max.left_commute)
qed

theorem conflation_ends_with_newest_witness:
  "\<exists>cu' v'. insert_all [(sample_event, 0)] (sample_unit, sample_env) = Some (cu', v')
     \<and> known_version cu' (env_heap v') 0 =
       Max {known_version sample_unit (env_heap sample_env) 0, md_eventVersion sample_metadata}"
proof -
  obtain cu' v' where ins: "insert_all [(sample_event, 0)] (sample_unit, sample_env) = Some (cu', v')"
    using sample_insert by auto
  have "is_complete_slot sample_unit 0" "0 = priority_of sample_unit (evt_Type sample_event)"
    by (simp_all add: sample_unit_def run_defs is_complete_slot_def)
  moreover have h: "env_heap sample_env 0 = sample_metadata" by (simp add: sample_env_def)
  moreover have "\<not> InitGen (md_eventVersion sample_metadata)"
    by (simp add: sample_metadata_def InitGen_def)
  ultimately show ?thesis
    using conflation_ends_with_newest [OF sample_unit_wf(1), of 0 "[(sample_event, 0)]" sample_env cu' v'] ins
    by auto
qed

section \<open>Reporting a result\<close>

lemma ReportResult_complete:
  assumes slot: "ElementPriorityQueue cu ! p = Some (Complete e)" "p < length (ElementPriorityQueue cu)"
    and p: "p = priority_of cu (md_eventType (env_heap v r))" and wf: "wf_cu cu"
    and rep: "ReportResult r err (cu, v) = Some (cu', v')"
  obtains e' where "complete_PostProcess (env_heap v) r err e = Some e'"
    "ElementPriorityQueue cu' = (ElementPriorityQueue cu)[p := Some (Complete e')]" "env_heap v' = env_heap v"
    "isInReadyQueue cu' \<or> (\<forall>q. \<not> ready_at cu' (env_heap v') q)"
proof -
  from rep slot p obtain e' where e': "complete_PostProcess (env_heap v) r err e = Some e'"
    by (auto simp: ReportResult_def bind_eq_Some_conv)
  have "el_syncMode e = CompleteStateMode" using wf_cu_at [OF wf slot(2,1)] by (simp add: wf_slot_def)
  with complete_PostProcess_effect(1) [OF e'] have "el_syncMode e' = CompleteStateMode" by simp
  with rep slot p e' have "addCUToReadyQueueIfNeeded (set_element p (Complete e') cu, v) = Some (cu', v')"
    by (simp add: ReportResult_def)
  then show ?thesis by (rule addCU_cases) (use that [OF e'] in auto)
qed

text \<open>
  C14: when a worker reports success, the element is free again, its processed version is raised
  to the version of the reported event (never lowered), and the pending event is released
  exactly when it is the reported one: an event that arrived meanwhile stays pending.
\<close>

theorem success_keeps_newer_event:
  assumes "wf_cu cu" and "p = priority_of cu (md_eventType (env_heap v r))"
    and "p < length (ElementPriorityQueue cu)"
    and "ElementPriorityQueue cu ! p = Some (Complete e)" and "el_metadata e = Some m"
    and "Processed (env_heap v r)" and "ReportResult r False (cu, v) = Some (cu', v')"
  shows "\<exists>e'. ElementPriorityQueue cu' ! p = Some (Complete e') \<and> \<not> el_isInProcess e'
    \<and> el_lastProcessedVersion e' = max (el_lastProcessedVersion e) (md_eventVersion (env_heap v r))
    \<and> el_metadata e' = Some m
    \<and> el_event e' = (if md_eventVersion (env_heap v r) = md_eventVersion (env_heap v m) then None else el_event e)"
proof -
  from ReportResult_complete [OF assms(4,3,2,1,7)] obtain e' where
    "complete_PostProcess (env_heap v) r False e = Some e'"
    "ElementPriorityQueue cu' = (ElementPriorityQueue cu)[p := Some (Complete e')]" by metis
  then show ?thesis using assms(3,5,6)
    by (auto simp: complete_PostProcess_def Let_def NewerThan_less Equals_eq max_def split: if_splits)
qed

text \<open>
  when a worker reports an error, the element is free again, keeps its event and its
  processed version, and the unit is in the ready queue whenever one of its elements is ready;
  so a failed event whose retries are not used up is dispatched again.
\<close>

theorem error_is_retried:
  assumes "wf_cu cu" and "p = priority_of cu (md_eventType (env_heap v r))"
    and "p < length (ElementPriorityQueue cu)"
    and "ElementPriorityQueue cu ! p = Some (Complete e)"
    and "ReportResult r True (cu, v) = Some (cu', v')"
  shows "ElementPriorityQueue cu' ! p = Some (Complete (e\<lparr>el_isInProcess := False\<rparr>))
    \<and> (isInReadyQueue cu' \<or> (\<forall>q. \<not> ready_at cu' (env_heap v') q))"
proof -
  from ReportResult_complete [OF assms(4,3,2,1,5)] obtain e' where
    "complete_PostProcess (env_heap v) r True e = Some e'"
    "ElementPriorityQueue cu' = (ElementPriorityQueue cu)[p := Some (Complete e')]"
    "isInReadyQueue cu' \<or> (\<forall>q. \<not> ready_at cu' (env_heap v') q)" by metis
  then show ?thesis using assms(3) by (auto simp: complete_PostProcess_def Let_def)
qed

section \<open>Choosing the next event\<close>

text \<open>What an element's dependency asks of the event it holds.\<close>

definition dependency_met :: "('h, 'd) ConflationUnit \<Rightarrow> heap \<Rightarrow> ('h, 'd) completeElement \<Rightarrow> mref \<Rightarrow> bool" where
  "dependency_met cu h e r \<longleftrightarrow>
     (\<forall>d. el_dependency e = Some d \<longrightarrow>
        (\<exists>c ver. ElementPriorityQueue cu ! priority_of cu (dep_EventType d) = Some (Complete c)
           \<and> md_eventDependencyVersion (h r) = Some ver
           \<and> (case dep_DependencyType d of
                ExactMatch \<Rightarrow> Value ver = Value (el_lastProcessedVersion c)
              | AtLeast \<Rightarrow> Value ver \<le> Value (el_lastProcessedVersion c))))"

lemma matchDependency_met:
  assumes "matchDependency cu h e = Some True" "el_metadata e = Some r"
  shows "dependency_met cu h e r"
proof (cases "el_dependency e")
  case None
  then show ?thesis by (simp add: dependency_met_def)
next
  case (Some d)
  with assms obtain c where c: "ElementPriorityQueue cu ! priority_of cu (dep_EventType d) = Some (Complete c)"
    and m: "(case dep_DependencyType d of
        ExactMatch \<Rightarrow> EqualValue (md_eventDependencyVersion (h r)) (Some (el_lastProcessedVersion c))
      | AtLeast \<Rightarrow> map_option Not (NewerValueThan (md_eventDependencyVersion (h r)) (Some (el_lastProcessedVersion c))))
      = Some True"
    by (auto simp: matchDependency_def bind_eq_Some_conv go_nth_eq_Some split: option.splits ConflationElement.splits)
  show ?thesis
    unfolding dependency_met_def using Some c m
    by (cases "md_eventDependencyVersion (h r)")
      (auto simp: EqualValue_def NewerValueThan_def split: DependencyType.splits)
qed

text \<open>
  C13: the job that a unit hands out is made from the ready element of highest priority, one that
  holds an unprocessed event, with neither itself nor any element of its dependency chain in
  process, and whose dependency has been processed up to the version the event asks for. The
  element is marked as in process and the unit leaves the ready queue.
\<close>

theorem getnext_is_highest_ready:
  assumes "GetNext cu h = Some (Inr job, cu')"
  shows "\<exists>p e r. p < length (ElementPriorityQueue cu) \<and> ElementPriorityQueue cu ! p = Some (Complete e)
    \<and> el_event e = Some (job_Event job) \<and> el_metadata e = Some r \<and> job_Metadata job = r
    \<and> \<not> Processed (h r) \<and> (\<forall>c. dep_chain cu e c \<longrightarrow> \<not> el_isInProcess c) \<and> dependency_met cu h e r
    \<and> (\<forall>q < p. \<not> ready_at cu h q)
    \<and> in_process cu' p \<and> \<not> isInReadyQueue cu'"
proof -
  from GetNext_job [OF assms] obtain p e r evt where
    g: "ready_at cu h p" "\<forall>q < p. \<not> ready_at cu h q" "p < length (ElementPriorityQueue cu)"
      "ElementPriorityQueue cu ! p = Some (Complete e)" "el_metadata e = Some r" "el_event e = Some evt"
      "job = NewConflationJob evt r (el_handlerFunction e) (cu_name cu)"
      "cu' = set_element p (Complete (e\<lparr>el_isInProcess := True\<rparr>)) (cu\<lparr>isInReadyQueue := False\<rparr>)" .
  from g(1) have "\<not> Processed (h r)" "isCurrentOrAnyDependencyInProcess cu e = Some False"
    "matchDependency cu h e = Some True"
    by (rule ready_at_E; use g(4,5) in simp)+
  moreover have "el_event e = Some (job_Event job)" "job_Metadata job = r" "in_process cu' p" "\<not> isInReadyQueue cu'"
    using g by (simp_all add: NewConflationJob_def)
  ultimately show ?thesis
    using g(2-5) matchDependency_met [OF _ g(5)] chain_idle by blast
qed

theorem getnext_is_highest_ready_witness:
  "\<exists>cu' v' job cu2 p. cu_insert sample_event 0 (sample_unit, sample_env) = Some (cu', v')
     \<and> GetNext cu' (env_heap v') = Some (Inr job, cu2) \<and> in_process cu2 p"
proof -
  obtain cu' v' where ins: "cu_insert sample_event 0 (sample_unit, sample_env) = Some (cu', v')"
    and "GetNext cu' (env_heap v') \<noteq> None" "isl (fst (the (GetNext cu' (env_heap v')))) = False"
    using sample_insert by blast
  then obtain job cu2 where "GetNext cu' (env_heap v') = Some (Inr job, cu2)"
    by (cases "GetNext cu' (env_heap v')"; cases "fst (the (GetNext cu' (env_heap v')))") auto
  with getnext_is_highest_ready [OF this] ins show ?thesis by blast
qed

definition sample_unit1 :: "(nat, unit) ConflationUnit" where
  "sample_unit1 = fst (the (cu_insert sample_event 0 (sample_unit, sample_env)))"

definition sample_done :: "(nat, unit) env" where
  "sample_done = sample_env\<lparr>env_heap := (\<lambda>_. blank_metadata)(0 := MarkAsProcessed sample_metadata)\<rparr>"

lemma sample_unit1_wf: "wf_cu sample_unit1"
proof -
  obtain cu' v' where ins: "cu_insert sample_event 0 (sample_unit, sample_env) = Some (cu', v')"
    using sample_insert by blast
  from evolves_wf [OF cu_insert_effect(1) [OF sample_unit_wf(1) ins] sample_unit_wf(1)] ins
  show ?thesis by (simp add: sample_unit1_def)
qed

lemma sample_unit1_slot:
  "0 = priority_of sample_unit1 ''t''" "0 < length (ElementPriorityQueue sample_unit1)"
  "\<exists>e. ElementPriorityQueue sample_unit1 ! 0 = Some (Complete e) \<and> el_metadata e = Some 0
     \<and> el_event e = Some sample_event"
  by (simp_all add: sample_unit1_def sample_unit_def sample_env_def sample_metadata_def run_defs)

lemma sample_report:
  "\<exists>cu' v'. ReportResult 0 err (sample_unit1, if err then sample_env else sample_done) = Some (cu', v')"
  by (cases err)
    (simp_all add: sample_unit1_def sample_unit_def sample_env_def sample_done_def sample_metadata_def
      ReportResult_def complete_PostProcess_def MarkAsProcessed_def run_defs)

theorem success_keeps_newer_event_witness:
  "\<exists>cu' v' e'. ReportResult 0 False (sample_unit1, sample_done) = Some (cu', v')
     \<and> ElementPriorityQueue cu' ! 0 = Some (Complete e') \<and> el_event e' = None"
proof -
  obtain cu' v' where r: "ReportResult 0 False (sample_unit1, sample_done) = Some (cu', v')"
    using sample_report [of False] by auto
  have h: "env_heap sample_done 0 = MarkAsProcessed sample_metadata" "md_eventType sample_metadata = ''t''"
    by (simp_all add: sample_done_def sample_metadata_def)
  then have p: "0 = priority_of sample_unit1 (md_eventType (env_heap sample_done 0))"
    using sample_unit1_slot(1) by simp
  have d: "Processed (env_heap sample_done 0)" by (simp add: h)
  from sample_unit1_slot(3) obtain e where e: "ElementPriorityQueue sample_unit1 ! 0 = Some (Complete e)"
    "el_metadata e = Some 0" by blast
  from success_keeps_newer_event [OF sample_unit1_wf p sample_unit1_slot(2) e d r] r show ?thesis by auto
qed

theorem error_is_retried_witness:
  "\<exists>cu' v' e. ReportResult 0 True (sample_unit1, sample_env) = Some (cu', v')
     \<and> ElementPriorityQueue cu' ! 0 = Some (Complete e) \<and> el_event e = Some sample_event"
proof -
  obtain cu' v' where r: "ReportResult 0 True (sample_unit1, sample_env) = Some (cu', v')"
    using sample_report [of True] by auto
  have "md_eventType (env_heap sample_env 0) = ''t''" by (simp add: sample_env_def sample_metadata_def)
  then have p: "0 = priority_of sample_unit1 (md_eventType (env_heap sample_env 0))"
    using sample_unit1_slot(1) by simp
  from sample_unit1_slot(3) obtain e where e: "ElementPriorityQueue sample_unit1 ! 0 = Some (Complete e)"
    "el_event e = Some sample_event" by blast
  from error_is_retried [OF sample_unit1_wf p sample_unit1_slot(2) e(1) r] r e(2) show ?thesis by auto
qed

section \<open>The pipeline as a whole\<close>

text \<open>
  C15: in every reachable state the ready queue holds a unit at most once, and only when the
  unit is flagged as queued. It is therefore never longer than the number of managed hubs: a unit
  entering the queue does not block as long as there are no more hubs than the channel holds.
\<close>

theorem ready_queue_never_blocks:
  assumes "reachable ce n st rs s" and "wf_registrations rs"
  shows "distinct (env_ConflationUnitChan (cm_env (sys_cm s)))
    \<and> (\<forall>name \<in> set (env_ConflationUnitChan (cm_env (sys_cm s))).
         \<exists>cu. map_of (cm_conflationUnits (sys_cm s)) name = Some cu \<and> isInReadyQueue cu)
    \<and> length (env_ConflationUnitChan (cm_env (sys_cm s))) \<le> length (cm_conflationUnits (sys_cm s))"
proof -
  let ?ch = "env_ConflationUnitChan (cm_env (sys_cm s))" and ?us = "cm_conflationUnits (sys_cm s)"
  from reachable_inv [OF assms] have q: "queue_ok (map_of ?us) ?ch" by (simp add: sys_inv_def inv_core_def)
  then have "set ?ch \<subseteq> fst ` set ?us" by (force simp: queue_ok_def dest: map_of_SomeD)
  then have "card (set ?ch) \<le> card (fst ` set ?us)" by (intro card_mono) auto
  also have "\<dots> \<le> length ?us" using card_image_le [of "set ?us" fst] card_length [of ?us] by simp
  finally have "card (set ?ch) \<le> length ?us" .
  moreover have "card (set ?ch) = length ?ch" using q by (simp add: queue_ok_def distinct_card)
  ultimately show ?thesis using q by (simp add: queue_ok_def)
qed

theorem ready_queue_never_blocks_witness:
  "env_ConflationUnitChan (cm_env (sys_cm sample_run1)) \<noteq> []
   \<and> distinct (env_ConflationUnitChan (cm_env (sys_cm sample_run1)))
   \<and> length (env_ConflationUnitChan (cm_env (sys_cm sample_run1))) \<le> length (cm_conflationUnits (sys_cm sample_run1))"
  using ready_queue_never_blocks [OF sample_reach1 sample_wf] sample_dispatch(2) by simp

text \<open>
  C1: in every reachable state, whatever the interleaving of receiving, dispatching, working and
  reporting, there is at most one unreported job for each pair of a managed hub and a
  complete-mode event type, and an element is in process exactly when there is one. Two workers
  never handle bundles of the same hub and type at the same time.
\<close>

theorem one_job_per_element:
  assumes "reachable ce n st rs s" and "wf_registrations rs"
  shows "distinct (map (job_key (env_heap (cm_env (sys_cm s))))
           (filter (complete_job rs (env_heap (cm_env (sys_cm s)))) (active s)))
    \<and> (\<forall>hub cu p. map_of (cm_conflationUnits (sys_cm s)) hub = Some cu \<longrightarrow>
         in_process cu p = (\<exists>j \<in> set (active s). complete_job rs (env_heap (cm_env (sys_cm s))) j
            \<and> job_Reporter j = hub \<and> slot_of rs (job_type (env_heap (cm_env (sys_cm s))) j) = p))"
  using reachable_inv [OF assms] unfolding sys_inv_def inv_core_def busy_ok_def by blast

theorem one_job_per_element_witness:
  "active sample_run2 \<noteq> []
   \<and> distinct (map (job_key (env_heap (cm_env (sys_cm sample_run2))))
       (filter (complete_job (sample_registrations []) (env_heap (cm_env (sys_cm sample_run2)))) (active sample_run2)))"
  using one_job_per_element [OF sample_reach2 sample_wf] sample_jobs by (auto simp: active_def)

lemma cm_Insert_total:
  fixes cm :: "('h, 'd) ConflationManager"
  assumes wf: "wf_registrations rs" and regs: "cm_registrations cm = rs"
    and inv: "inv_core rs (map_of (cm_conflationUnits cm)) (cm_env cm) (cm_next cm) act"
    and cd: "\<forall>r < cm_next cm. carries_dependency rs (env_heap (cm_env cm) r)"
    and evt: "\<And>m. NewThresholdMetadata ce TransportID max_retry evt = Some m \<Longrightarrow> carries_dependency rs m"
  shows "cm_Insert ce evt cm \<noteq> None"
proof (cases "map_of rs (evt_Type evt) = None \<or> NewThresholdMetadata ce TransportID max_retry evt = None")
  case True
  then show ?thesis using regs by (auto simp: cm_Insert_def)
next
  case False
  then obtain m where m: "NewThresholdMetadata ce TransportID max_retry evt = Some m"
    and reg: "map_of rs (evt_Type evt) \<noteq> None" by auto
  let ?r = "cm_next cm" and ?U = "map_of (cm_conflationUnits cm)" and ?n = "evt_Source evt"
  let ?v = "(cm_env cm)\<lparr>env_heap := (env_heap (cm_env cm))(?r := m)\<rparr>"
  have inv1: "inv_core rs ?U ?v (Suc ?r) act"
    by (rule inv_core_mono [OF inv]) (simp_all add: heap_agree_def)
  have cd1: "\<forall>x < Suc ?r. carries_dependency rs (env_heap ?v x)" using cd evt [OF m] by (simp add: less_Suc_eq)
  have ins: "cu_insert evt ?r (cu, ?v) \<noteq> None" if "unit_ok rs (env_heap ?v) (Suc ?r) ?n cu" for cu
    by (rule cu_insert_total [OF that cd1 reg]) (use NewThresholdMetadata_fields(3) [OF m] in simp_all)
  show ?thesis
  proof (cases "?U ?n")
    case (Some cu)
    with inv1 have "unit_ok rs (env_heap ?v) (Suc ?r) ?n cu" unfolding inv_core_def by blast
    from ins [OF this] show ?thesis using m reg regs Some by (auto simp: cm_Insert_def getConflationUnit_def Let_def)
  next
    case None
    from newConflationUnit_eq [OF wf] obtain cu :: "('h, 'd) ConflationUnit"
      where cu: "newConflationUnit ?n rs = Some cu" by blast
    from inv_core_new_unit [OF inv1 None wf this] have "unit_ok rs (env_heap ?v) (Suc ?r) ?n cu"
      by (simp add: inv_core_def)
    from ins [OF this] show ?thesis
      using m reg regs None cu by (auto simp: cm_Insert_def getConflationUnit_def Let_def)
  qed
qed


lemma sample_carries:
  "r < cm_next (sys_cm sample_run2) \<Longrightarrow>
   carries_dependency (sample_registrations []) (env_heap (cm_env (sys_cm sample_run2)) r)"
  "carries_dependency (sample_registrations []) sample_metadata"
  by (simp_all add: carries_dependency_def sample_run2_def set_phase_def sample_run1_def run_defs sample_md
      sample_metadata_def)


section \<open>A job and its steps\<close>

lemma poll_handle_eq:
  "poll_handle oks m =
     (if True \<in> set oks then (m\<lparr>md_count := - 1\<rparr>, False)
      else (m\<lparr>md_count := md_count m + int (length oks)\<rparr>, True))"
  by (induction oks arbitrary: m)
    (auto simp: Let_def mark_attempt_def MarkAsProcessed_def MarkAsUnprocessed_def Processed_def)

text \<open>
  Polling ends with success as soon as one call of the handler succeeds, however many
  failed before, and with the timeout otherwise; only then does the count of failures remain in
  the metadata. The retry bound of the metadata does not end the polling.
\<close>

theorem polling_outcome:
  "poll_handle oks m =
     (if True \<in> set oks then (m\<lparr>md_count := - 1\<rparr>, False)
      else (m\<lparr>md_count := md_count m + int (length oks)\<rparr>, True))"
  by (rule poll_handle_eq)

fun attempts :: "nat \<Rightarrow> bool list \<Rightarrow> ('h, 'd) sys \<Rightarrow> ('h, 'd) sys" where
  "attempts i [] s = s"
| "attempts i (ok # oks) s =
     (if ok then worker_attempt i True s else attempts i oks (worker_attempt i False s))"

definition put_meta :: "mref \<Rightarrow> ThresholdMetadata \<Rightarrow> ('h, 'd) sys \<Rightarrow> ('h, 'd) sys" where
  "put_meta r m s = s\<lparr>sys_cm := (sys_cm s)\<lparr>cm_env :=
     (cm_env (sys_cm s))\<lparr>env_heap := (env_heap (cm_env (sys_cm s)))(r := m)\<rparr>\<rparr>\<rparr>"

definition meta_of :: "mref \<Rightarrow> ('h, 'd) sys \<Rightarrow> ThresholdMetadata" where
  "meta_of r s = env_heap (cm_env (sys_cm s)) r"

lemma put_meta_simps [simp]:
  "put_meta r m (put_meta r m' s) = put_meta r m s" "put_meta r (meta_of r s) s = s"
  "meta_of r (put_meta r m s) = m" "sys_jobs (put_meta r m s) = sys_jobs s"
  "put_meta r m (s\<lparr>sys_jobs := js\<rparr>) = (put_meta r m s)\<lparr>sys_jobs := js\<rparr>"
  "meta_of r (s\<lparr>sys_jobs := js\<rparr>) = meta_of r s"
  by (simp_all add: put_meta_def meta_of_def)

lemma worker_attempt_eq:
  assumes "sys_jobs s ! i = (ph, job)"
  shows "worker_attempt i ok s =
    (put_meta (job_Metadata job) (mark_attempt ok (meta_of (job_Metadata job) s)) s)
      \<lparr>sys_jobs := (sys_jobs s)[i := (if ok then Succeeded else Trying, job)]\<rparr>"
  using assms by (simp add: worker_attempt_def set_phase_def Let_def put_meta_def meta_of_def)

lemma attempts_eq:
  assumes "i < length (sys_jobs s)" "sys_jobs s ! i = (ph, job)" "ph \<noteq> Succeeded"
  shows "\<exists>ph'. attempts i oks s =
     (put_meta (job_Metadata job) (fst (poll_handle oks (meta_of (job_Metadata job) s))) s)
       \<lparr>sys_jobs := (sys_jobs s)[i := (ph', job)]\<rparr>
     \<and> (ph' = Succeeded) = (True \<in> set oks)"
  using assms
proof (induction oks arbitrary: s ph)
  case Nil
  then have "(sys_jobs s)[i := (ph, job)] = sys_jobs s" by (metis list_update_id)
  then show ?case using Nil by (intro exI [of _ ph]) simp
next
  case (Cons ok oks)
  note step = worker_attempt_eq [OF Cons.prems(2)]
  show ?case
  proof (cases ok)
    case True
    then show ?thesis
      by (intro exI [of _ Succeeded]) (simp add: step mark_attempt_def)
  next
    case False
    have "sys_jobs (worker_attempt i False s) ! i = (Trying, job)" "i < length (sys_jobs (worker_attempt i False s))"
      using Cons.prems by (simp_all add: step)
    from Cons.IH [OF this(2,1)] False show ?thesis by (simp add: step)
  qed
qed

text \<open>
  The worker's handling of a job, run on its own, is the sequence of its steps: the tries up
  to the first success, then the report.
\<close>

theorem handle_job_is_its_steps:
  assumes "i < length (sys_jobs s)" and "sys_jobs s ! i = (Queued, job)"
    and "map_of (cm_conflationUnits (sys_cm s)) (job_Reporter job) = Some cu"
  shows "map_option (\<lambda>(st, cs). put_unit (job_Reporter job) cs ((sys_cm s)\<lparr>cm_statistics := st\<rparr>))
       (handleJob True oks duration job (cm_statistics (sys_cm s)) (cu, cm_env (sys_cm s)))
     = map_option sys_cm (worker_report i duration (attempts i oks s))"
proof -
  let ?r = "job_Metadata job"
  from attempts_eq [OF assms(1,2), of oks] obtain ph' where
    a: "attempts i oks s = (put_meta ?r (fst (poll_handle oks (meta_of ?r s))) s)
       \<lparr>sys_jobs := (sys_jobs s)[i := (ph', job)]\<rparr>" "(ph' = Succeeded) = (True \<in> set oks)" by blast
  have err: "snd (poll_handle oks (meta_of ?r s)) = (ph' \<noteq> Succeeded)"
    using a(2) by (simp add: poll_handle_eq)
  show ?thesis
    unfolding a(1) using assms err
    by (simp add: handleJob_def worker_report_def Let_def split_beta option.map_comp comp_def
        remove_job_def put_unit_def put_meta_def meta_of_def)
qed

theorem handle_job_is_its_steps_witness:
  "\<exists>job cu. sys_jobs sample_run2 = [(Queued, job)]
     \<and> map_option (\<lambda>(st, cs). put_unit (job_Reporter job) cs ((sys_cm sample_run2)\<lparr>cm_statistics := st\<rparr>))
         (handleJob True [False, True] 9 job (cm_statistics (sys_cm sample_run2)) (cu, cm_env (sys_cm sample_run2)))
       = map_option sys_cm (worker_report 0 9 (attempts 0 [False, True] sample_run2))"
proof -
  from sample_jobs obtain job where job: "sys_jobs sample_run2 = [(Queued, job)]" by auto
  have "job \<in> set (active sample_run2)" by (simp add: active_def job)
  then obtain cu where "map_of (cm_conflationUnits (sys_cm sample_run2)) (job_Reporter job) = Some cu"
    using reachable_inv [OF sample_reach2 sample_wf] by (auto simp: sys_inv_def inv_core_def job_ok_def)
  then show ?thesis
    using handle_job_is_its_steps [of 0 sample_run2 job cu "[False, True]" 9] job by auto
qed

section \<open>Where the pipeline gets stuck\<close>

lemma lost_frame:
  "dispatch_unit s = Some s' \<Longrightarrow> sys_lost s' = sys_lost s"
  "worker_report i duration s = Some s' \<Longrightarrow> sys_lost s' = sys_lost s"
proof -
  show "dispatch_unit s = Some s' \<Longrightarrow> sys_lost s' = sys_lost s"
  proof (cases "env_ConflationUnitChan (cm_env (sys_cm s))")
    case Nil
    then show "dispatch_unit s = Some s' \<Longrightarrow> ?thesis" by (simp add: dispatch_unit_def)
  next
    case (Cons n names)
    then show "dispatch_unit s = Some s' \<Longrightarrow> ?thesis" by (rule_tac dispatch_unit_cases) auto
  qed
  show "worker_report i duration s = Some s' \<Longrightarrow> sys_lost s' = sys_lost s"
    by (cases "sys_jobs s ! i") (auto simp: worker_report_def remove_job_def Let_def bind_eq_Some_conv)
qed

lemma lost_kept: "step ce n s s' \<Longrightarrow> set (sys_lost s) \<subseteq> set (sys_lost s')"
  by (induction rule: step.induct)
    (auto simp: transport_dispatch_def dispatch_delta_def set_phase_def worker_attempt_def lost_frame
      worker_lock_failed_def remove_job_def Let_def split: list.splits)

text \<open>
  a job given up because the database lock was not obtained is never reported. Its
  element stays in process, so it is never ready again, and no later step brings the job back.
\<close>

theorem lost_job_blocks_element:
  assumes "reachable ce n st rs s" and "wf_registrations rs" and "j \<in> set (sys_lost s)"
    and "complete_job rs (env_heap (cm_env (sys_cm s))) j"
    and "map_of (cm_conflationUnits (sys_cm s)) (job_Reporter j) = Some cu"
  shows "\<not> ready_at cu (env_heap (cm_env (sys_cm s))) (slot_of rs (job_type (env_heap (cm_env (sys_cm s))) j))
    \<and> (\<forall>s'. step ce n s s' \<longrightarrow> j \<in> set (sys_lost s'))"
proof -
  let ?p = "slot_of rs (job_type (env_heap (cm_env (sys_cm s))) j)"
  have "j \<in> set (active s)" using assms(3) by (simp add: active_def)
  with reachable_inv [OF assms(1,2)] assms(4,5) have "in_process cu ?p"
    unfolding sys_inv_def inv_core_def busy_ok_def by blast
  then have "\<not> ready_at cu (env_heap (cm_env (sys_cm s))) ?p"
    by (auto elim!: ready_at_E simp: in_process_def)
  with lost_kept assms(3) show ?thesis by blast
qed

theorem lost_job_blocks_element_witness:
  "\<exists>j (cu :: (nat, unit) ConflationUnit). j \<in> set (sys_lost (worker_lock_failed 0 sample_run2))
     \<and> \<not> ready_at cu (env_heap (cm_env (sys_cm (worker_lock_failed 0 sample_run2)))) 0"
proof -
  let ?s = "worker_lock_failed 0 sample_run2"
  from sample_jobs obtain job where job: "sys_jobs sample_run2 = [(Queued, job)]" by auto
  have "step sample_ce_types 5 sample_run2 ?s"
    using job by (intro step.lock_failed) simp_all
  from reachable.next_step [OF sample_reach2 this]
  have r: "reachable sample_ce_types 5 (NewStatistics []) (sample_registrations []) ?s" .
  have lost: "job \<in> set (sys_lost ?s)" using job by (simp add: worker_lock_failed_def remove_job_def)
  have t: "job_type (env_heap (cm_env (sys_cm ?s))) job = ''t''"
    using job
    by (auto simp: worker_lock_failed_def remove_job_def sample_run2_def set_phase_def sample_run1_def run_defs
        sample_md sample_metadata_def job_type_def NewConflationJob_def)
  then have c: "complete_job (sample_registrations []) (env_heap (cm_env (sys_cm ?s))) job"
    and z: "slot_of (sample_registrations []) ''t'' = 0"
    by (simp_all add: complete_job_def complete_type_def slot_of_def sample_registrations_def)
  have "job \<in> set (active ?s)" using lost by (simp add: active_def)
  then obtain cu where "map_of (cm_conflationUnits (sys_cm ?s)) (job_Reporter job) = Some cu"
    using reachable_inv [OF r sample_wf] by (auto simp: sys_inv_def inv_core_def job_ok_def)
  from lost_job_blocks_element [OF r sample_wf lost c this] t z lost show ?thesis by auto
qed

text \<open>A unit that is flagged as queued without being in the queue.\<close>

definition stuck :: "string \<Rightarrow> ('h, 'd) sys \<Rightarrow> bool" where
  "stuck hub s \<longleftrightarrow>
     (\<exists>cu. map_of (cm_conflationUnits (sys_cm s)) hub = Some cu \<and> isInReadyQueue cu)
     \<and> hub \<notin> set (env_ConflationUnitChan (cm_env (sys_cm s)))"

lemma stuck_queue_step:
  assumes "queue_step cu v cu' v'" "cu_name cu = name"
    "\<exists>c. U hub = Some c \<and> isInReadyQueue c" "U name = Some cu" "hub \<notin> set (env_ConflationUnitChan v)"
  shows "(\<exists>c. (U(name \<mapsto> cu')) hub = Some c \<and> isInReadyQueue c) \<and> hub \<notin> set (env_ConflationUnitChan v')"
  using assms by (auto simp: queue_step_def)

lemma cm_Insert_stuck:
  assumes cmi: "cm_Insert ce evt cm = Some cm'" and regs: "cm_registrations cm = rs" and wf: "wf_registrations rs"
    and inv: "inv_core rs (map_of (cm_conflationUnits cm)) (cm_env cm) (cm_next cm) act"
    and st: "\<exists>c. map_of (cm_conflationUnits cm) hub = Some c \<and> isInReadyQueue c"
      "hub \<notin> set (env_ConflationUnitChan (cm_env cm))"
  shows "(\<exists>c. map_of (cm_conflationUnits cm') hub = Some c \<and> isInReadyQueue c) \<and>
    hub \<notin> set (env_ConflationUnitChan (cm_env cm'))"
proof (cases "map_of rs (evt_Type evt) = None \<or> NewThresholdMetadata ce TransportID max_retry evt = None")
  case True
  then have "cm' = cm" using cmi regs by (auto simp: cm_Insert_def split: if_splits)
  then show ?thesis using st by simp
next
  case False
  then obtain m where m: "NewThresholdMetadata ce TransportID max_retry evt = Some m"
    and reg: "map_of rs (evt_Type evt) \<noteq> None" by auto
  let ?r = "cm_next cm" and ?U = "map_of (cm_conflationUnits cm)" and ?n = "evt_Source evt"
  let ?v = "(cm_env cm)\<lparr>env_heap := (env_heap (cm_env cm))(?r := m)\<rparr>"
  from cmi m reg regs obtain cu cm2 cu' v' where
    get: "getConflationUnit ?n (cm\<lparr>cm_env := ?v, cm_next := Suc ?r\<rparr>) = Some (cu, cm2)"
    and ins: "cu_insert evt ?r (cu, cm_env cm2) = Some (cu', v')"
    and cm': "cm' = put_unit ?n (cu', v') cm2"
    by (auto simp: cm_Insert_def Let_def bind_eq_Some_conv)
  have "wf_cu cu \<and> cu_name cu = ?n \<and> cm_env cm2 = ?v \<and>
      (\<exists>c. map_of (cm_conflationUnits cm2) hub = Some c \<and> isInReadyQueue c) \<and>
      map_of (cm_conflationUnits cm2) ?n = Some cu"
  proof (cases "?U ?n")
    case (Some c)
    with inv have "unit_ok rs (env_heap (cm_env cm)) ?r ?n c" by (simp add: inv_core_def)
    with Some get st show ?thesis by (auto simp: getConflationUnit_def unit_ok_def)
  next
    case None
    with get regs have "newConflationUnit ?n rs = Some cu" by (auto simp: getConflationUnit_def)
    with newConflationUnit_wf(1,2) [OF wf this] None get st show ?thesis
      by (auto simp: getConflationUnit_def)
  qed
  then have c2: "wf_cu cu" "cu_name cu = ?n" "cm_env cm2 = ?v"
    "\<exists>c. map_of (cm_conflationUnits cm2) hub = Some c \<and> isInReadyQueue c"
    "map_of (cm_conflationUnits cm2) ?n = Some cu" by blast+
  have "queue_step cu ?v cu' v'"
    using cu_insert_effect(2) [OF c2(1) ins] c2(3) by simp
  from stuck_queue_step [OF this c2(2,4,5)] st(2) show ?thesis by (simp add: cm' put_unit_def)
qed

lemma worker_report_stuck:
  assumes inv: "sys_inv rs s" and st: "stuck hub s" and rep: "worker_report i duration s = Some s'"
  shows "stuck hub s'"
proof -
  obtain ph job where j: "sys_jobs s ! i = (ph, job)" by force
  from rep j obtain cu cu' v' where cu: "map_of (cm_conflationUnits (sys_cm s)) (job_Reporter job) = Some cu"
    and r: "ReportResult (job_Metadata job) (ph \<noteq> Succeeded) (cu, cm_env (sys_cm s)) = Some (cu', v')"
    and units: "map_of (cm_conflationUnits (sys_cm s')) =
        (map_of (cm_conflationUnits (sys_cm s)))(job_Reporter job \<mapsto> cu')" "cm_env (sys_cm s') = v'"
    by (fastforce simp: worker_report_def Let_def bind_eq_Some_conv remove_job_def put_unit_def)
  have ok: "wf_cu cu" "cu_name cu = job_Reporter job"
    using inv cu by (auto simp: sys_inv_def inv_core_def unit_ok_def)
  note q = ReportResult_effect(2) [OF ok(1) r]
  show ?thesis
    unfolding stuck_def units
    by (rule stuck_queue_step [where U = "map_of (cm_conflationUnits (sys_cm s))", OF q ok(2) _ cu])
      (use st in \<open>auto simp: stuck_def\<close>)
qed

lemma dispatch_unit_stuck:
  assumes st: "stuck hub s" and d: "dispatch_unit s = Some s'"
  shows "stuck hub s'"
proof (cases "env_ConflationUnitChan (cm_env (sys_cm s))")
  case Nil
  then show ?thesis using st d by (simp add: dispatch_unit_def)
next
  case (Cons name names)
  from d Cons show ?thesis
    by (rule dispatch_unit_cases) (use st Cons in \<open>auto simp: stuck_def put_unit_def\<close>)
qed

lemma stuck_step:
  assumes "step ce n s s'" "sys_inv rs s" "wf_registrations rs" "stuck hub s"
  shows "stuck hub s'"
  using assms
proof (cases rule: step.cases)
  case (receive evt)
  then obtain cm where cm: "cm_Insert ce evt
      ((sys_cm s)\<lparr>cm_statistics := ReceivedEvent evt (cm_statistics (sys_cm s))\<rparr>) = Some cm" "s' = s\<lparr>sys_cm := cm\<rparr>"
    by (auto simp: transport_dispatch_def)
  from cm_Insert_stuck [OF cm(1), of rs "active s" hub] assms show ?thesis
    by (simp add: sys_inv_def cm(2) stuck_def)
next
  case delta
  with assms(4) show ?thesis by (auto simp: stuck_def dispatch_delta_def Let_def split: list.splits)
next
  case unit
  with assms(4) dispatch_unit_stuck show ?thesis by blast
next
  case (report i duration)
  with assms(2,4) worker_report_stuck show ?thesis by blast
qed (simp_all add: stuck_def set_phase_def worker_attempt_def worker_lock_failed_def remove_job_def Let_def)

text \<open>
  C36: a unit taken from the ready queue at a moment when none of its elements is ready leaves
  the queue while it stays flagged as queued, and from then on no sequence of steps ever puts it
  back: none of its hub's bundles is processed again.
\<close>

theorem failed_dispatch_is_final:
  assumes "reachable ce n st rs s" and "wf_registrations rs"
    and "env_ConflationUnitChan (cm_env (sys_cm s)) = hub # names"
    and "map_of (cm_conflationUnits (sys_cm s)) hub = Some cu"
    and "\<forall>q. \<not> ready_at cu (env_heap (cm_env (sys_cm s))) q"
    and "\<forall>j \<in> set (sys_jobs s). fst j \<noteq> Held"
    and "dispatch_unit s = Some s1" and "(step ce n)\<^sup>*\<^sup>* s1 s2"
  shows "hub \<notin> set (env_ConflationUnitChan (cm_env (sys_cm s2)))
    \<and> (\<exists>cu2. map_of (cm_conflationUnits (sys_cm s2)) hub = Some cu2 \<and> isInReadyQueue cu2)"
proof -
  note inv = reachable_inv [OF assms(1,2)]
  have q: "distinct (hub # names)" "isInReadyQueue cu"
    using inv assms(3,4) by (auto simp: sys_inv_def inv_core_def queue_ok_def)
  have "step ce n s s1" using assms(3,6,7) by (intro step.unit) auto
  with assms(1) have r1: "reachable ce n st rs s1" by (rule reachable.next_step)
  from assms(7,3) have "stuck hub s1"
  proof (cases rule: dispatch_unit_cases)
    case (2 c job cu1)
    from GetNext_job [OF 2(2)] have "\<exists>p. ready_at c (env_heap (cm_env (sys_cm s))) p" by metis
    with 2(1) assms(4,5) show ?thesis by auto
  qed (use q assms(4) in \<open>auto simp: stuck_def put_unit_def\<close>)
  with assms(8) r1 have "stuck hub s2 \<and> reachable ce n st rs s2"
  proof (induction rule: rtranclp_induct)
    case (step y z)
    with stuck_step [OF step.hyps(2) reachable_inv [OF _ assms(2)] assms(2)] reachable.next_step
    show ?case by blast
  qed simp
  then show ?thesis by (simp add: stuck_def)
qed

text \<open>
  Such a moment is reached when an event that was ready is overtaken by a newer one whose
  dependency has not been processed yet.
\<close>

definition dependent_event :: "string \<Rightarrow> string \<Rightarrow> unit Event" where
  "dependent_event ver dep = sample_event\<lparr>evt_Type := ''u'',
     evt_Extensions := [ExtVersion \<mapsto> ExtString ver, ExtDependencyVersion \<mapsto> ExtString dep]\<rparr>"

definition dependent_metadata :: "u64 \<Rightarrow> u64 \<Rightarrow> ThresholdMetadata" where
  "dependent_metadata ver dep = \<lparr>md_maxRetry = 3, md_count = 0,
     md_kafkaPosition = \<lparr>pos_OwnerIdentity = [], pos_Topic = [], pos_Partition = 0, pos_Offset = 0\<rparr>,
     md_eventType = ''u'', md_eventVersion = \<lparr>Generation = 1, Value = ver\<rparr>,
     md_eventDependencyVersion = Some \<lparr>Generation = 1, Value = dep\<rparr>\<rparr>"

lemma dependent_md:
  "NewThresholdMetadata sample_ce_types TransportID 3 (dependent_event ''1.1'' ''1.0'') = Some (dependent_metadata 1 0)"
  "NewThresholdMetadata sample_ce_types TransportID 3 (dependent_event ''1.2'' ''1.5'') = Some (dependent_metadata 2 5)"
  by (simp_all add: NewThresholdMetadata_def dependent_event_def dependent_metadata_def sample_event_def sample_ce_types_def
      getVersionFromEvent_def ExtVersion_def ExtDependencyVersion_def TransportID_def VersionFrom_def ParseInt_def
      ParseUint_def digit_val_def)

lemma dependent_sel [simp]: "evt_Type (dependent_event a b) = ''u''" "evt_Source (dependent_event a b) = ''hub1''"
  by (simp_all add: dependent_event_def)

lemma chain_next:
  "\<lbrakk>\<not> el_isInProcess e; el_dependency e = Some d;
    go_nth (ElementPriorityQueue cu) (priority_of cu (dep_EventType d)) = Some (Some (Complete c))\<rbrakk>
   \<Longrightarrow> isCurrentOrAnyDependencyInProcess cu e = isCurrentOrAnyDependencyInProcess cu c"
  by (subst isCurrentOrAnyDependencyInProcess.simps) simp

definition sample_overtaken1 :: "(nat, unit) sys" where
  "sample_overtaken1 = the (transport_dispatch sample_ce_types (dependent_event ''1.1'' ''1.0'') sample_start)"

definition sample_overtaken :: "(nat, unit) sys" where
  "sample_overtaken = the (transport_dispatch sample_ce_types (dependent_event ''1.2'' ''1.5'') sample_overtaken1)"

lemmas overtaken_defs = run_defs dependent_md dependent_metadata_def chain_next EqualValue_def

lemma sample_overtaken1:
  "transport_dispatch sample_ce_types (dependent_event ''1.1'' ''1.0'') sample_start = Some sample_overtaken1"
  "channels_fit (cm_env (sys_cm sample_overtaken1))"
proof -
  have "transport_dispatch sample_ce_types (dependent_event ''1.1'' ''1.0'') sample_start \<noteq> None"
    by (simp add: overtaken_defs)
  then show "transport_dispatch sample_ce_types (dependent_event ''1.1'' ''1.0'') sample_start = Some sample_overtaken1"
    by (auto simp: sample_overtaken1_def)
  show "channels_fit (cm_env (sys_cm sample_overtaken1))"
    by (simp add: sample_overtaken1_def overtaken_defs)
qed

lemma sample_overtaken:
  "transport_dispatch sample_ce_types (dependent_event ''1.2'' ''1.5'') sample_overtaken1 = Some sample_overtaken"
  "channels_fit (cm_env (sys_cm sample_overtaken))"
  "env_ConflationUnitChan (cm_env (sys_cm sample_overtaken)) = [''hub1'']"
  "sys_jobs sample_overtaken = []"
  "\<exists>cu. map_of (cm_conflationUnits (sys_cm sample_overtaken)) ''hub1'' = Some cu \<and>
     getNextReadyCompleteElement cu (env_heap (cm_env (sys_cm sample_overtaken))) = Some None"
proof -
  have "transport_dispatch sample_ce_types (dependent_event ''1.2'' ''1.5'') sample_overtaken1 \<noteq> None"
    by (simp add: sample_overtaken1_def overtaken_defs)
  then show "transport_dispatch sample_ce_types (dependent_event ''1.2'' ''1.5'') sample_overtaken1 = Some sample_overtaken"
    by (auto simp: sample_overtaken_def)
qed (simp_all add: sample_overtaken1_def sample_overtaken_def overtaken_defs)

theorem failed_dispatch_is_final_witness:
  "\<exists>s1. dispatch_unit sample_overtaken = Some s1
     \<and> ''hub1'' \<notin> set (env_ConflationUnitChan (cm_env (sys_cm s1)))
     \<and> (\<exists>cu. map_of (cm_conflationUnits (sys_cm s1)) ''hub1'' = Some cu \<and> isInReadyQueue cu)"
proof -
  have r1: "reachable sample_ce_types 5 (NewStatistics []) (sample_registrations []) sample_overtaken1"
    using reachable.next_step [OF reachable.start step.receive, OF sample_overtaken1 [unfolded sample_start_def]] .
  have r: "reachable sample_ce_types 5 (NewStatistics []) (sample_registrations []) sample_overtaken"
    using reachable.next_step [OF r1 step.receive, OF sample_overtaken(1,2)] .
  from sample_overtaken(5) obtain cu where
    cu: "map_of (cm_conflationUnits (sys_cm sample_overtaken)) ''hub1'' = Some cu"
      "getNextReadyCompleteElement cu (env_heap (cm_env (sys_cm sample_overtaken))) = Some None" by blast
  then obtain s1 where s1: "dispatch_unit sample_overtaken = Some s1"
    using sample_overtaken(3) by (auto simp: dispatch_unit_def GetNext_def Let_def)
  from failed_dispatch_is_final [OF r sample_wf sample_overtaken(3) cu(1) _ _ s1 rtranclp.rtrancl_refl]
    getNextReady_None [OF cu(2)] sample_overtaken(4) s1 show ?thesis by auto
qed

end
