(* ===== verification/Restart.thy ===== *)
theory Restart
  imports Committer PipelineProps
begin

text \<open>
  Restarting the manager: the offsets the committer stored (\<^verbatim>\<open>conflation_committer.go\<close>) and the
  query by which a new consumer reads them (\<^verbatim>\<open>getInitOffset\<close> in
  \<^verbatim>\<open>pkg/transport/consumer/generic_consumer.go\<close>). The table is the list of its rows.
\<close>

record TopicPartition =
  tp_Topic :: string
  tp_Partition :: int
  tp_Offset :: int

text \<open>The regular expression \<^verbatim>\<open>^status*\<close> matches the names that start with \<open>statu\<close>.\<close>

definition status_name :: "string \<Rightarrow> bool" where
  "status_name name = (take 5 name = ''statu'')"

definition getInitOffset :: "string \<Rightarrow> Transport list \<Rightarrow> TopicPartition list" where
  "getInitOffset kafkaClusterIdentity table =
     map (\<lambda>row. \<lparr>tp_Topic = tr_Name row, tp_Partition = pay_Partition (tr_Payload row),
                 tp_Offset = pay_Offset (tr_Payload row)\<rparr>)
       (filter (\<lambda>row. status_name (tr_Name row) \<and> pay_OwnerIdentity (tr_Payload row) \<noteq> []
                  \<and> pay_OwnerIdentity (tr_Payload row) = kafkaClusterIdentity) table)"

section \<open>The owner of every position\<close>

definition no_owner :: "heap \<Rightarrow> bool" where
  "no_owner h \<longleftrightarrow> (\<forall>r. pos_OwnerIdentity (md_kafkaPosition (h r)) = [])"

lemma no_owner_same: "same_but_version h h' \<Longrightarrow> no_owner h' = no_owner h"
  by (simp add: no_owner_def same_but_version_def)

lemma no_owner_upd: "no_owner h \<Longrightarrow> pos_OwnerIdentity (md_kafkaPosition m) = [] \<Longrightarrow> no_owner (h(r := m))"
  by (simp add: no_owner_def)

lemma cm_Insert_no_owner:
  assumes cmi: "cm_Insert ce evt cm = Some cm'" and regs: "cm_registrations cm = rs" and wf: "wf_registrations rs"
    and inv: "inv_core rs (map_of (cm_conflationUnits cm)) (cm_env cm) (cm_next cm) act"
    and no: "no_owner (env_heap (cm_env cm))"
  shows "no_owner (env_heap (cm_env cm'))"
proof (cases "map_of rs (evt_Type evt) = None \<or> NewThresholdMetadata ce TransportID max_retry evt = None")
  case True
  then have "cm' = cm" using cmi regs by (auto simp: cm_Insert_def split: if_splits)
  then show ?thesis using no by simp
next
  case False
  then obtain m where m: "NewThresholdMetadata ce TransportID max_retry evt = Some m"
    and reg: "map_of rs (evt_Type evt) \<noteq> None" by auto
  let ?v = "(cm_env cm)\<lparr>env_heap := (env_heap (cm_env cm))(cm_next cm := m)\<rparr>"
  from cmi m reg regs obtain cu cm2 cu' v' where
    get: "getConflationUnit (evt_Source evt) (cm\<lparr>cm_env := ?v, cm_next := Suc (cm_next cm)\<rparr>) = Some (cu, cm2)"
    and ins: "cu_insert evt (cm_next cm) (cu, cm_env cm2) = Some (cu', v')"
    and cm': "cm' = put_unit (evt_Source evt) (cu', v') cm2"
    by (auto simp: cm_Insert_def Let_def bind_eq_Some_conv)
  have env: "cm_env cm2 = ?v" using get by (auto simp: getConflationUnit_def split: option.splits)
  have "wf_cu cu"
  proof (cases "map_of (cm_conflationUnits cm) (evt_Source evt)")
    case (Some c)
    with inv have "wf_cu c" by (simp add: inv_core_def unit_ok_def)
    with Some get show ?thesis by (auto simp: getConflationUnit_def)
  next
    case None
    with get regs have "newConflationUnit (evt_Source evt) rs = Some cu" by (auto simp: getConflationUnit_def)
    from newConflationUnit_wf(1) [OF wf this] show ?thesis .
  qed
  from cu_insert_effect(4) [OF this ins] no NewThresholdMetadata_fields(6) [OF m] show ?thesis
    by (simp add: cm' put_unit_def env no_owner_same no_owner_upd TransportID_def)
qed

lemma step_no_owner:
  assumes "step ce n s s'" "sys_inv rs s" "wf_registrations rs" "no_owner (env_heap (cm_env (sys_cm s)))"
  shows "no_owner (env_heap (cm_env (sys_cm s')))"
  using assms(1)
proof (cases rule: step.cases)
  case (receive evt)
  then obtain cm where cm: "cm_Insert ce evt
      ((sys_cm s)\<lparr>cm_statistics := ReceivedEvent evt (cm_statistics (sys_cm s))\<rparr>) = Some cm" "s' = s\<lparr>sys_cm := cm\<rparr>"
    by (auto simp: transport_dispatch_def)
  from cm_Insert_no_owner [OF cm(1), of rs "active s"] assms(2-4) show ?thesis
    by (simp add: sys_inv_def cm(2))
next
  case delta
  with assms(4) show ?thesis by (auto simp: dispatch_delta_def Let_def split: list.splits)
next
  case unit
  then obtain name names where ch: "env_ConflationUnitChan (cm_env (sys_cm s)) = name # names"
    by (cases "env_ConflationUnitChan (cm_env (sys_cm s))") auto
  from unit(3) ch show ?thesis
    by (rule dispatch_unit_cases) (use assms(4) in \<open>auto simp: put_unit_def\<close>)
next
  case (attempt i ok)
  with assms(4) show ?thesis
    by (auto simp: worker_attempt_def set_phase_def Let_def mark_attempt_def no_owner_def)
next
  case (report i duration)
  obtain ph job where j: "sys_jobs s ! i = (ph, job)" by force
  with report(3) obtain cu cu' v' where
    cu: "map_of (cm_conflationUnits (sys_cm s)) (job_Reporter job) = Some cu"
    and r: "ReportResult (job_Metadata job) (ph \<noteq> Succeeded) (cu, cm_env (sys_cm s)) = Some (cu', v')"
    and env: "cm_env (sys_cm s') = v'"
    by (fastforce simp: worker_report_def Let_def bind_eq_Some_conv remove_job_def put_unit_def)
  have "wf_cu cu" using assms(2) cu by (auto simp: sys_inv_def inv_core_def unit_ok_def)
  from ReportResult_effect(3) [OF this r] assms(4) env show ?thesis by simp
qed (use assms(4) in \<open>simp_all add: set_phase_def worker_lock_failed_def remove_job_def\<close>)

lemma reachable_no_owner:
  assumes "reachable ce n st rs s" "wf_registrations rs"
  shows "no_owner (env_heap (cm_env (sys_cm s)))"
  using assms
proof (induction rule: reachable.induct)
  case start
  then show ?case
    by (simp add: initial_sys_def NewConflationManager_def NewConflationReadyQueue_def no_owner_def blank_metadata_def)
next
  case (next_step s s')
  with step_no_owner reachable_inv show ?case by blast
qed

lemma update_all: "\<forall>x \<in> set m. Q (snd x) \<Longrightarrow> Q v \<Longrightarrow> \<forall>x \<in> set (AList.update key v m). Q (snd x)"
  using set_update_subset [of key v m] by fastforce

lemma sort_positions:
  assumes "\<And>m. mo = Some m \<Longrightarrow> Q (md_kafkaPosition m)"
    "\<forall>x \<in> set P. Q (snd x)" "\<forall>x \<in> set H. Q (snd x)" "sort_metadata mo (P, H) = (P', H')"
  shows "(\<forall>x \<in> set P'. Q (snd x)) \<and> (\<forall>x \<in> set H'. Q (snd x))"
proof (cases mo)
  case None
  then show ?thesis using assms(2-4) by (simp add: sort_metadata_def)
next
  case (Some m)
  from update_all [where Q = Q, OF assms(2) assms(1) [OF Some], of "metadata_key m"]
    update_all [where Q = Q, OF assms(3) assms(1) [OF Some], of "metadata_key m"]
  show ?thesis using assms(2-4) Some
    by (auto simp: sort_metadata_def Let_def split: option.splits if_splits)
qed

lemma fold_sort_positions:
  assumes "\<forall>m. Some m \<in> set ms \<longrightarrow> Q (md_kafkaPosition m)"
    "\<forall>x \<in> set P. Q (snd x)" "\<forall>x \<in> set H. Q (snd x)" "fold sort_metadata ms (P, H) = (P', H')"
  shows "(\<forall>x \<in> set P'. Q (snd x)) \<and> (\<forall>x \<in> set H'. Q (snd x))"
  using assms
proof (induction ms arbitrary: P H)
  case Nil
  then show ?case by simp
next
  case (Cons mo ms)
  obtain P1 H1 where s: "sort_metadata mo (P, H) = (P1, H1)" by force
  have "(\<forall>x \<in> set P1. Q (snd x)) \<and> (\<forall>x \<in> set H1. Q (snd x))"
    by (rule sort_positions [OF _ Cons.prems(2,3) s]) (use Cons.prems(1) in simp)
  then show ?case
    using Cons.prems(1,4) s by (intro Cons.IH [of P1 H1]) simp_all
qed

lemma fold_update_all:
  "\<lbrakk>\<forall>x \<in> set P. Q (snd x); \<forall>x \<in> set m. Q (snd x)\<rbrakk> \<Longrightarrow>
   \<forall>x \<in> set (fold (\<lambda>(key, pos). AList.update key pos) P m). Q (snd x)"
proof (induction P arbitrary: m)
  case Nil
  then show ?case by simp
next
  case (Cons y P)
  have "\<forall>x \<in> set (AList.update (fst y) (snd y) m). Q (snd x)"
    by (rule update_all) (use Cons.prems in simp_all)
  with Cons.IH Cons.prems(1) show ?case by (simp add: split_beta)
qed

lemma metadataToCommit_positions:
  assumes "\<forall>m. Some m \<in> set ms \<longrightarrow> Q (md_kafkaPosition m)" "\<And>p. Q p \<Longrightarrow> Q (next_offset p)"
  shows "\<forall>x \<in> set (metadataToCommit ms). Q (snd x)"
proof -
  obtain P H where PH: "fold sort_metadata ms ([], []) = (P, H)" by force
  from fold_sort_positions [where Q = Q, OF assms(1) _ _ this] have q: "\<forall>x \<in> set P. Q (snd x)" "\<forall>x \<in> set H. Q (snd x)"
    by simp_all
  have "\<forall>x \<in> set (map (\<lambda>(key, pos). (key, next_offset pos)) H). Q (snd x)" using q(2) assms(2) by auto
  from fold_update_all [where Q = Q, OF q(1) this] show ?thesis by (simp add: metadataToCommit_def PH)
qed

lemma fold_commit_rows:
  "fold commit_position ps (rows, c) = (rows', c') \<Longrightarrow> set rows' \<subseteq> set rows \<union> (transport_row \<circ> snd) ` set ps"
proof (induction ps arbitrary: rows c)
  case Nil
  then show ?case by simp
next
  case (Cons x ps)
  obtain k p where x: "x = (k, p)" by force
  from Cons show ?case
    by (cases "is_news (map_of c k) p") (fastforce simp: x commit_position_eq)+
qed

text \<open>
  C37: a restarted manager never resumes from a stored offset. The identity of the Kafka cluster
  is not set anywhere in the program, so every position that is ever committed has an empty
  owner, and the query of the consumer asks for a non-empty one.
\<close>

theorem stored_offsets_never_used:
  assumes "reachable ce n st rs s" and "wf_registrations rs"
    and "GetMetadatas (sys_cm s) = Some ms"
    and "\<forall>rows db db'. upsert rows db = Some db' \<longrightarrow> set db' \<subseteq> set db \<union> set rows"
    and "\<forall>row \<in> set table. pay_OwnerIdentity (tr_Payload row) = []"
    and "commit locked upsert (map Some ms) (k, table) = (err, k', table')"
  shows "getInitOffset identity table' = [] \<and> (\<forall>row \<in> set table'. pay_OwnerIdentity (tr_Payload row) = [])"
proof -
  from assms(3) obtain refs where "ms = map (env_heap (cm_env (sys_cm s))) refs" by (auto simp: GetMetadatas_def)
  with reachable_no_owner [OF assms(1,2)]
  have "\<forall>m. Some m \<in> set (map Some ms) \<longrightarrow> pos_OwnerIdentity (md_kafkaPosition m) = []"
    by (auto simp: no_owner_def)
  from metadataToCommit_positions [where Q = "\<lambda>p. pos_OwnerIdentity p = []", OF this]
  have pos: "\<forall>x \<in> set (metadataToCommit (map Some ms)). pos_OwnerIdentity (snd x) = []"
    by (simp add: next_offset_def)
  obtain rows c where f: "fold commit_position (metadataToCommit (map Some ms)) ([], committedPositions k) = (rows, c)"
    by force
  have rows: "\<forall>row \<in> set rows. pay_OwnerIdentity (tr_Payload row) = []"
    using fold_commit_rows [OF f] pos by (fastforce simp: transport_row_def marshal_position_def)
  have "set table' \<subseteq> set table \<union> set rows"
    using assms(4,6) f by (auto simp: commit_def Let_def split: if_splits option.splits dest!: spec)
  with assms(5) rows have all: "\<forall>row \<in> set table'. pay_OwnerIdentity (tr_Payload row) = []" by blast
  then have "getInitOffset identity table' = []" by (auto simp: getInitOffset_def filter_empty_conv)
  with all show ?thesis by blast
qed

theorem stored_offsets_never_used_witness:
  "\<exists>ms k' table'. GetMetadatas (sys_cm sample_run1) = Some ms
     \<and> commit True (\<lambda>rows db. Some (db @ rows)) (map Some ms) (NewKafkaConflationCommitter, []) = (False, k', table')
     \<and> table' \<noteq> [] \<and> getInitOffset ''kafka-cluster'' table' = []"
proof -
  have ms: "GetMetadatas (sys_cm sample_run1) = Some [sample_metadata]"
    by (simp add: GetMetadatas_def getMetadatas_def sample_run1_def run_defs sample_md sample_metadata_def)
  obtain err k' table' where c:
    "commit True (\<lambda>rows db. Some (db @ rows)) (map Some [sample_metadata]) (NewKafkaConflationCommitter, []) = (err, k', table')"
    by (metis prod_cases3)
  have "err = False \<and> table' \<noteq> []"
    using c by (auto simp: commit_def metadataToCommit_def sort_metadata_def sample_metadata_def Processed_def
        NewKafkaConflationCommitter_def commit_position_def Let_def)
  with stored_offsets_never_used [OF sample_reach1 sample_wf ms _ _ c, of "''kafka-cluster''"] ms c
  show ?thesis by auto
qed

end
