(* ===== verification/Transport.thy ===== *)
theory Transport
  imports Metadata
begin

text \<open>
  \<^verbatim>\<open>pkg/transport\<close>: the producer that cuts a payload into chunks
  (\<^verbatim>\<open>producer/generic_producer.go\<close>), the assembler that puts them together again
  (\<^verbatim>\<open>consumer/message_assembler.go\<close>) and the receiving callback of the consumer
  (\<^verbatim>\<open>consumer/generic_consumer.go\<close>).

  The CloudEvents client is a parameter: sending an event changes the state of the network and
  tells whether the event was undelivered. A payload is a list of bytes, of any type \<open>'b\<close>.
\<close>

section \<open>Topics\<close>

datatype TransportType = Kafka | Chan | Rest

record KafkaConfig =
  kc_ClusterID :: string
  kc_SpecTopic :: string
  kc_StatusTopic :: string

definition producer_topic :: "bool \<Rightarrow> KafkaConfig \<Rightarrow> string" where
  "producer_topic isManager c = (if isManager then kc_SpecTopic c else kc_StatusTopic c)"

definition consumer_topic :: "bool \<Rightarrow> KafkaConfig \<Rightarrow> string" where
  "consumer_topic isManager c = (if isManager then kc_StatusTopic c else kc_SpecTopic c)"

section \<open>The producer\<close>

definition ChunkSizeKey :: string where
  "ChunkSizeKey = ''extsize''"

definition ChunkOffsetKey :: string where
  "ChunkOffsetKey = ''extoffset''"

definition DefaultMessageKBSize :: int where
  "DefaultMessageKBSize = 960"

record GenericProducer =
  messageSizeLimit :: int

definition new_producer :: GenericProducer where
  "new_producer = \<lparr>messageSizeLimit = DefaultMessageKBSize * 1000\<rparr>"

definition SetDataLimit :: "int \<Rightarrow> GenericProducer \<Rightarrow> GenericProducer" where
  "SetDataLimit sz p = p\<lparr>messageSizeLimit := sz\<rparr>"

text \<open>
  The loop of \<^verbatim>\<open>splitPayloadIntoChunks\<close> for a positive limit. A limit of 0 divides by zero
  when the capacity of the result is computed; a negative one is out of range for the slices.
\<close>

function split_loop :: "nat \<Rightarrow> 'b list \<Rightarrow> 'b list list" where
  "split_loop limit payload =
     (if 0 < limit \<and> limit \<le> length payload
      then take limit payload # split_loop limit (drop limit payload)
      else if payload \<noteq> [] then [payload] else [])"
  by auto
termination by (relation "measure (length \<circ> snd)") auto

declare split_loop.simps [simp del]

definition splitPayloadIntoChunks :: "GenericProducer \<Rightarrow> 'b list \<Rightarrow> 'b list list panics" where
  "splitPayloadIntoChunks p payload =
     (if messageSizeLimit p \<le> 0 then None
      else Some (split_loop (nat (messageSizeLimit p)) payload))"

type_synonym ('b, 'n) send = "'b list Event \<Rightarrow> 'n \<Rightarrow> bool \<times> 'n"

text \<open>One chunk as an event: the offset is that of the end of the chunk.\<close>

definition chunk_event :: "'b list Event \<Rightarrow> nat \<Rightarrow> nat \<Rightarrow> 'b list \<Rightarrow> 'b list Event" where
  "chunk_event evt tot chunkOffset chunk =
     evt\<lparr>evt_Extensions := (evt_Extensions evt)(ChunkSizeKey \<mapsto> ExtInteger (int tot),
                                              ChunkOffsetKey \<mapsto> ExtInteger (int chunkOffset)),
         evt_Data := chunk\<rparr>"

fun send_chunks ::
    "('b, 'n) send \<Rightarrow> 'b list Event \<Rightarrow> nat \<Rightarrow> nat \<Rightarrow> 'b list list \<Rightarrow> 'n \<Rightarrow> bool \<times> 'n" where
  "send_chunks send evt tot off [] n = (False, n)"
| "send_chunks send evt tot off (c # cs) n =
     (let evt1 = chunk_event evt tot (off + length c) c; (undelivered, n1) = send evt1 n
      in if undelivered then (True, n1) else send_chunks send evt1 tot (off + length c) cs n1)"

text \<open>The first component of the result says whether an error is returned.\<close>

definition SendEvent ::
    "('b, 'n) send \<Rightarrow> GenericProducer \<Rightarrow> 'b list Event \<Rightarrow> 'n \<Rightarrow> (bool \<times> 'n) panics" where
  "SendEvent send p evt n =
     map_option
       (\<lambda>chunks.
          if length chunks \<le> 1 then send evt n
          else send_chunks send evt (length (evt_Data evt)) 0 chunks n)
       (splitPayloadIntoChunks p (evt_Data evt))"

section \<open>The assembler\<close>

record 'b messageChunk =
  mc_id :: string
  mc_offset :: int
  mc_size :: int
  mc_bytes :: "'b list"

record 'b messageChunksCollection =
  col_id :: string
  totalSize :: int
  accumulatedSize :: int
  chunks :: "(int, 'b messageChunk) gomap"
  orderedOffsets :: "int list"

definition newMessageChunksCollection :: "string \<Rightarrow> int \<Rightarrow> 'b messageChunksCollection" where
  "newMessageChunksCollection cid sz =
     \<lparr>col_id = cid, totalSize = sz, accumulatedSize = 0, chunks = [], orderedOffsets = []\<rparr>"

definition collection_add :: "'b messageChunk \<Rightarrow> 'b messageChunksCollection \<Rightarrow> 'b messageChunksCollection" where
  "collection_add chunk c =
     (if map_of (chunks c) (mc_offset chunk) \<noteq> None then c
      else c\<lparr>chunks := AList.update (mc_offset chunk) chunk (chunks c),
             orderedOffsets := orderedOffsets c @ [mc_offset chunk],
             accumulatedSize := accumulatedSize c + int (length (mc_bytes chunk))\<rparr>)"

text \<open>
  Every recorded offset has a chunk; a missing one would be a nil dereference. Writing to the
  buffer never fails.
\<close>

definition collect :: "'b messageChunksCollection \<Rightarrow> 'b list panics" where
  "collect c =
     (let slices = map (map_of (chunks c)) (sort (orderedOffsets c))
      in if None \<in> set slices then None else Some (concat (map (mc_bytes \<circ> the) slices)))"

type_synonym 'b messageAssembler = "(string, 'b messageChunksCollection) gomap"

text \<open>An assembled payload without bytes is a nil slice, like no payload at all.\<close>

definition assemble ::
    "'b messageChunk \<Rightarrow> 'b messageAssembler \<Rightarrow> ('b list \<times> 'b messageAssembler) panics" where
  "assemble chunk asm =
     (let c = (case map_of asm (mc_id chunk) of
                 Some c \<Rightarrow> c
               | None \<Rightarrow> newMessageChunksCollection (mc_id chunk) (mc_size chunk));
          c1 = collection_add chunk c;
          asm1 = AList.update (mc_id chunk) c1 asm
      in if totalSize c1 \<le> accumulatedSize c1
         then map_option (\<lambda>payload. (payload, AList.delete (col_id c1) asm1)) (collect c1)
         else Some ([], asm1))"

definition chunk_of_event :: "ce_types \<Rightarrow> 'b list Event \<Rightarrow> 'b messageChunk option" where
  "chunk_of_event ce e =
     (let (off, ok1) = ce_ToInteger ce (evt_Extensions e ChunkOffsetKey);
          (sz, ok2) = ce_ToInteger ce (evt_Extensions e ChunkSizeKey)
      in if ok1 \<and> ok2
         then Some \<lparr>mc_id = evt_ID e, mc_offset = off, mc_size = sz, mc_bytes = evt_Data e\<rparr>
         else None)"

text \<open>The receiver callback: the events it forwards to the event channel.\<close>

definition receive_event ::
    "ce_types \<Rightarrow> 'b list Event \<Rightarrow> 'b messageAssembler \<Rightarrow> ('b list Event list \<times> 'b messageAssembler) panics"
    where
  "receive_event ce event asm =
     (case chunk_of_event ce event of
        None \<Rightarrow> Some ([event], asm)
      | Some chunk \<Rightarrow>
          map_option
            (\<lambda>(payload, asm1). (if payload \<noteq> [] then [event\<lparr>evt_Data := payload\<rparr>] else [], asm1))
            (assemble chunk asm))"

fun receive_all ::
    "ce_types \<Rightarrow> 'b list Event list \<Rightarrow> 'b messageAssembler \<Rightarrow> ('b list Event list \<times> 'b messageAssembler) panics"
    where
  "receive_all ce [] asm = Some ([], asm)"
| "receive_all ce (e # es) asm =
     Option.bind (receive_event ce e asm)
       (\<lambda>(out, asm1). map_option (\<lambda>(outs, asm2). (out @ outs, asm2)) (receive_all ce es asm1))"

section \<open>Producer failures\<close>

text \<open>
  \<^verbatim>\<open>handleProducerEvents\<close>: the events of the Kafka client with the time at which they are
  handled. The zero value of \<^verbatim>\<open>lastErrorTime\<close> lies before every reset window and is
  \<^const>\<open>None\<close>; a panic ends the loop.
\<close>

datatype producer_event = DeliveryReport bool | AllBrokersDown | ClientError

record producer_state =
  errorCount :: int
  lastErrorTime :: "int option"

definition five_minutes :: int where
  "five_minutes = 300000000000"

definition handle_producer_event ::
    "int \<Rightarrow> producer_event \<times> int \<Rightarrow> producer_state \<Rightarrow> producer_state panics" where
  "handle_producer_event threshold ev s =
     (case fst ev of
        DeliveryReport _ \<Rightarrow> Some s
      | AllBrokersDown \<Rightarrow> Some s
      | ClientError \<Rightarrow>
          (let s1 = s\<lparr>errorCount := errorCount s + 1\<rparr>
           in if errorCount s1 \<ge> threshold then None
              else let old = (case lastErrorTime s1 of None \<Rightarrow> True | Some t \<Rightarrow> t + five_minutes < snd ev)
                   in Some (s1\<lparr>errorCount := if old then 0 else errorCount s1, lastErrorTime := Some (snd ev)\<rparr>)))"

fun handleProducerEvents ::
    "int \<Rightarrow> (producer_event \<times> int) list \<Rightarrow> producer_state \<Rightarrow> producer_state panics" where
  "handleProducerEvents threshold [] s = Some s"
| "handleProducerEvents threshold (e # es) s =
     Option.bind (handle_producer_event threshold e s) (handleProducerEvents threshold es)"

definition initial_producer_state :: producer_state where
  "initial_producer_state = \<lparr>errorCount = 0, lastErrorTime = None\<rparr>"

section \<open>Splitting\<close>

lemma split_loop_concat: "concat (split_loop limit payload) = payload"
  by (induction limit payload rule: split_loop.induct) (subst split_loop.simps, simp)

lemma split_loop_bounds:
  "0 < limit \<Longrightarrow> c \<in> set (split_loop limit payload) \<Longrightarrow> c \<noteq> [] \<and> length c \<le> limit"
proof (induction limit payload rule: split_loop.induct)
  case (1 limit payload)
  then show ?case by (subst (asm) (2) split_loop.simps) (auto split: if_splits)
qed

text \<open>
  C35: for every positive size limit, cutting a payload ends, keeps its bytes in order, and
  gives only non-empty chunks within the limit; for any other limit it panics.
\<close>

theorem split_payload_correct:
  "case splitPayloadIntoChunks p payload of
     None \<Rightarrow> messageSizeLimit p \<le> 0
   | Some cs \<Rightarrow> 0 < messageSizeLimit p \<and> concat cs = payload \<and>
       list_all (\<lambda>c. c \<noteq> [] \<and> int (length c) \<le> messageSizeLimit p) cs"
  using split_loop_bounds [of "nat (messageSizeLimit p)" _ payload]
  by (auto simp: splitPayloadIntoChunks_def split_loop_concat list_all_iff) fastforce+

section \<open>Assembling\<close>

text \<open>The chunks of one message, in the order in which they are sent.\<close>

fun message_chunks :: "string \<Rightarrow> int \<Rightarrow> nat \<Rightarrow> 'b list list \<Rightarrow> 'b messageChunk list" where
  "message_chunks x tot off [] = []"
| "message_chunks x tot off (c # cs) =
     \<lparr>mc_id = x, mc_offset = int (off + length c), mc_size = tot, mc_bytes = c\<rparr>
       # message_chunks x tot (off + length c) cs"

lemma message_chunks_offset:
  "m \<in> set (message_chunks x tot off cs) \<Longrightarrow> int off \<le> mc_offset m"
  by (induction cs arbitrary: off) fastforce+

lemma message_chunks_sorted:
  "list_all (\<lambda>c. c \<noteq> []) cs \<Longrightarrow> sorted_wrt (<) (map mc_offset (message_chunks x tot off cs))"
proof (induction cs arbitrary: off)
  case Nil
  then show ?case by simp
next
  case (Cons c cs)
  have "int (off + length c) < mc_offset m" if "m \<in> set (message_chunks x tot (off + length c) cs)" for m
  proof (cases cs)
    case (Cons d ds)
    with Cons.prems have "0 < length d" by simp
    with that Cons message_chunks_offset [of m x tot "off + length c + length d" ds] show ?thesis by (cases d) auto
  qed (use that in simp)
  with Cons show ?case by auto
qed

lemma message_chunks_bytes: "map mc_bytes (message_chunks x tot off cs) = cs"
  by (induction cs arbitrary: off) auto

lemma message_chunks_fields:
  "m \<in> set (message_chunks x tot off cs) \<Longrightarrow> mc_id m = x \<and> mc_size m = tot \<and> mc_bytes m \<in> set cs"
  by (induction cs arbitrary: off) auto

text \<open>A collection that holds the set \<open>A\<close> of the chunks of a message \<open>M\<close>.\<close>

definition holds :: "'b messageChunk list \<Rightarrow> 'b messageChunk set \<Rightarrow> 'b messageChunksCollection \<Rightarrow> bool" where
  "holds M A c \<longleftrightarrow>
     A \<subseteq> set M \<and> totalSize c = (\<Sum>m \<in> set M. int (length (mc_bytes m))) \<and>
     accumulatedSize c = (\<Sum>m \<in> A. int (length (mc_bytes m))) \<and>
     (\<forall>off m. map_of (chunks c) off = Some m \<longleftrightarrow> m \<in> A \<and> mc_offset m = off) \<and>
     distinct (orderedOffsets c) \<and> set (orderedOffsets c) = mc_offset ` A"

definition message :: "'b messageChunk list \<Rightarrow> bool" where
  "message M \<longleftrightarrow> sorted_wrt (<) (map mc_offset M) \<and> (\<forall>m \<in> set M. mc_bytes m \<noteq> [])"

lemma message_inj: "message M \<Longrightarrow> inj_on mc_offset (set M)"
  by (simp add: message_def strict_sorted_iff distinct_map)

lemma holds_add:
  assumes "message M" "holds M A c" "m \<in> set M"
  shows "holds M (insert m A) (collection_add m c)"
proof (cases "m \<in> A")
  case True
  then have "map_of (chunks c) (mc_offset m) = Some m" using assms(2) by (simp add: holds_def)
  then have "collection_add m c = c" by (simp add: collection_add_def)
  then show ?thesis using True assms(2) by (simp add: insert_absorb)
next
  case False
  have none: "map_of (chunks c) (mc_offset m) = None"
  proof (rule ccontr)
    assume "map_of (chunks c) (mc_offset m) \<noteq> None"
    then obtain m' where "m' \<in> A" "mc_offset m' = mc_offset m" using assms(2) by (auto simp: holds_def)
    with False assms message_inj [OF assms(1)] show False by (auto simp: holds_def dest: inj_onD)
  qed
  then have new: "mc_offset m \<notin> mc_offset ` A" using assms(2) by (force simp: holds_def)
  then have "\<forall>m' \<in> A. mc_offset m' \<noteq> mc_offset m" by (metis imageI)
  moreover have "finite A" using assms(2) finite_subset by (auto simp: holds_def)
  ultimately show ?thesis using assms none new False by (auto simp: holds_def collection_add_def)
qed

lemma holds_complete:
  assumes "message M" "holds M A c"
  shows "totalSize c \<le> accumulatedSize c \<longleftrightarrow> A = set M"
proof
  assume le: "totalSize c \<le> accumulatedSize c"
  show "A = set M"
  proof (rule ccontr)
    assume "A \<noteq> set M"
    then obtain b where b: "b \<in> set M - A" using assms(2) by (auto simp: holds_def)
    have "(\<Sum>m \<in> A. int (length (mc_bytes m))) < (\<Sum>m \<in> set M. int (length (mc_bytes m)))"
      by (rule sum_strict_mono2 [where b = b]) (use b assms in \<open>auto simp: holds_def message_def\<close>)
    with le assms(2) show False by (simp add: holds_def)
  qed
qed (use assms in \<open>simp add: holds_def\<close>)

lemma holds_collect:
  assumes "message M" "holds M (set M) c"
  shows "collect c = Some (concat (map mc_bytes M))"
proof -
  have "sort (orderedOffsets c) = map mc_offset M"
    using assms by (intro sorted_distinct_set_unique) (auto simp: holds_def message_def strict_sorted_iff)
  moreover have "map (map_of (chunks c)) (map mc_offset M) = map Some M"
    using assms(2) by (auto simp: holds_def)
  ultimately show ?thesis by (auto simp: collect_def comp_def intro!: arg_cong [where f = concat])
qed

text \<open>The assembler while the chunks \<open>A\<close> of message \<open>M\<close> with identifier \<open>x\<close> have arrived.\<close>

definition waiting :: "string \<Rightarrow> 'b messageChunk list \<Rightarrow> 'b messageChunk set \<Rightarrow> 'b messageAssembler \<Rightarrow> bool" where
  "waiting x M A asm \<longleftrightarrow>
     (case map_of asm x of None \<Rightarrow> A = {} | Some c \<Rightarrow> holds M A c \<and> col_id c = x \<and> A \<noteq> set M)"

definition of_message :: "string \<Rightarrow> 'b messageChunk list \<Rightarrow> bool" where
  "of_message x M \<longleftrightarrow> message M \<and>
     (\<forall>m \<in> set M. mc_id m = x \<and> mc_size m = (\<Sum>m \<in> set M. int (length (mc_bytes m))))"

lemma assemble_step:
  assumes M: "of_message x M" and w: "waiting x M A asm" and m: "m \<in> set M"
  shows "if insert m A = set M
    then \<exists>asm'. assemble m asm = Some (concat (map mc_bytes M), asm') \<and> map_of asm' = (map_of asm)(x := None)
    else \<exists>asm'. assemble m asm = Some ([], asm') \<and> waiting x M (insert m A) asm'
      \<and> (\<forall>y. y \<noteq> x \<longrightarrow> map_of asm' y = map_of asm y)"
proof -
  have msg: "message M" and id: "mc_id m = x" "mc_size m = (\<Sum>m \<in> set M. int (length (mc_bytes m)))"
    using M m by (auto simp: of_message_def)
  let ?c = "case map_of asm x of Some c \<Rightarrow> c | None \<Rightarrow> newMessageChunksCollection x (mc_size m)"
  have h: "holds M A ?c" "col_id ?c = x"
    using w id by (auto simp: waiting_def holds_def newMessageChunksCollection_def split: option.splits)
  note h1 = holds_add [OF msg h(1) m]
  have cid: "col_id (collection_add m ?c) = x" using h(2) by (simp add: collection_add_def)
  show ?thesis
  proof (cases "insert m A = set M")
    case True
    with holds_complete [OF msg h1] holds_collect [OF msg] h1 id cid show ?thesis
      by (auto simp: assemble_def Let_def)
  next
    case False
    with holds_complete [OF msg h1] h1 id cid show ?thesis
      by (auto simp: assemble_def Let_def waiting_def)
  qed
qed

section \<open>From producer to consumer\<close>

text \<open>What the SDK documents of reading an integer extension.\<close>

definition reads_integers :: "ce_types \<Rightarrow> bool" where
  "reads_integers ce \<longleftrightarrow> (\<forall>i. ce_ToInteger ce (Some (ExtInteger i)) = (i, True))"

text \<open>A network that delivers every event, and keeps them in the order of sending.\<close>

definition record_send :: "('b, 'b list Event list) send" where
  "record_send e n = (False, n @ [e])"

fun chunk_events :: "'b list Event \<Rightarrow> nat \<Rightarrow> nat \<Rightarrow> 'b list list \<Rightarrow> 'b list Event list" where
  "chunk_events evt tot off [] = []"
| "chunk_events evt tot off (c # cs) =
     chunk_event evt tot (off + length c) c # chunk_events evt tot (off + length c) cs"

lemma chunk_event_again:
  "chunk_event (chunk_event evt tot o1 c1) tot o2 c2 = chunk_event evt tot o2 c2"
  by (simp add: chunk_event_def ChunkSizeKey_def ChunkOffsetKey_def fun_upd_twist)

lemma chunk_events_shape:
  "e \<in> set (chunk_events evt tot off cs) \<Longrightarrow> \<exists>o' c. e = chunk_event evt tot o' c"
  by (induction cs arbitrary: off) auto

lemma chunk_events_again:
  "chunk_events (chunk_event evt tot o1 c1) tot off cs = chunk_events evt tot off cs"
  by (induction cs arbitrary: off) (simp_all add: chunk_event_again)

lemma send_chunks_record:
  "send_chunks record_send evt tot off cs n = (False, n @ chunk_events evt tot off cs)"
  by (induction cs arbitrary: evt off n) (simp_all add: record_send_def chunk_events_again)

lemma chunk_events_chunks:
  assumes "reads_integers ce"
  shows "map (chunk_of_event ce) (chunk_events evt tot off cs) =
    map Some (message_chunks (evt_ID evt) (int tot) off cs)"
  using assms
  by (induction cs arbitrary: off)
    (simp_all add: chunk_of_event_def chunk_event_def reads_integers_def ChunkSizeKey_def ChunkOffsetKey_def)

lemma message_chunks_message:
  assumes "list_all (\<lambda>c. c \<noteq> []) cs" "tot = int (length (concat cs))"
  shows "of_message x (message_chunks x tot 0 cs)"
proof -
  let ?M = "message_chunks x tot 0 cs"
  have msg: "message ?M"
    using assms(1) message_chunks_sorted [OF assms(1)] message_chunks_fields [of _ x tot 0 cs]
    by (auto simp: message_def list_all_iff)
  have "distinct ?M" using msg by (auto simp: message_def strict_sorted_iff distinct_map)
  then have "(\<Sum>m \<in> set ?M. int (length (mc_bytes m))) = sum_list (map (\<lambda>m. int (length (mc_bytes m))) ?M)"
    by (simp add: sum_list_distinct_conv_sum_set)
  also have "\<dots> = sum_list (map (\<lambda>c. int (length c)) (map mc_bytes ?M))" by (simp add: comp_def)
  also have "\<dots> = tot" unfolding message_chunks_bytes assms(2) by (induction cs) auto
  finally show ?thesis using msg message_chunks_fields [of _ x tot 0 cs] by (auto simp: of_message_def)
qed

lemma receive_message:
  assumes M: "of_message x M" and ne: "concat (map mc_bytes M) \<noteq> []"
    and ev: "\<forall>e \<in> set ds. \<exists>m \<in> set M. chunk_of_event ce e = Some m"
    and last: "ds \<noteq> []" "A \<union> {m. \<exists>e \<in> set ds. chunk_of_event ce e = Some m} = set M"
    and before: "A \<union> {m. \<exists>e \<in> set (butlast ds). chunk_of_event ce e = Some m} \<noteq> set M"
    and w: "waiting x M A asm"
  shows "\<exists>asm'. receive_all ce ds asm = Some ([(List.last ds)\<lparr>evt_Data := concat (map mc_bytes M)\<rparr>], asm')
    \<and> map_of asm' = (map_of asm)(x := None)"
  using ev last before w
proof (induction ds arbitrary: A asm)
  case Nil
  then show ?case by simp
next
  case (Cons e ds)
  then obtain m where m: "m \<in> set M" "chunk_of_event ce e = Some m" by auto
  note st = assemble_step [OF M Cons.prems(5) m(1)]
  show ?case
  proof (cases "ds = []")
    case True
    then have "insert m A = set M" using Cons.prems(3) m(2) by auto
    with st obtain asm' where a: "assemble m asm = Some (concat (map mc_bytes M), asm')"
      "map_of asm' = (map_of asm)(x := None)" by auto
    have "receive_all ce (e # ds) asm = Some ([e\<lparr>evt_Data := concat (map mc_bytes M)\<rparr>], asm')"
      using a(1) ne m(2) True by (simp add: receive_event_def del: concat_eq_Nil_conv)
    then show ?thesis using a(2) True by auto
  next
    case False
    have "insert m A \<noteq> set M"
    proof
      assume "insert m A = set M"
      moreover have "{m. \<exists>e \<in> set (butlast (e # ds)). chunk_of_event ce e = Some m} \<subseteq> set M"
        using Cons.prems(1) in_set_butlastD [of _ "e # ds"] by fastforce
      moreover have "m \<in> {m. \<exists>e \<in> set (butlast (e # ds)). chunk_of_event ce e = Some m}"
        using False m(2) by auto
      ultimately show False using Cons.prems(4) by auto
    qed
    with st obtain asm' where a: "assemble m asm = Some ([], asm')" "waiting x M (insert m A) asm'"
      "\<forall>y. y \<noteq> x \<longrightarrow> map_of asm' y = map_of asm y" by auto
    have "\<exists>asm2. receive_all ce ds asm' = Some ([(List.last ds)\<lparr>evt_Data := concat (map mc_bytes M)\<rparr>], asm2)
        \<and> map_of asm2 = (map_of asm')(x := None)"
    proof (rule Cons.IH [where A = "insert m A"])
      show "insert m A \<union> {m. \<exists>e \<in> set ds. chunk_of_event ce e = Some m} = set M"
        using Cons.prems(3) m(2) by auto
      show "insert m A \<union> {m. \<exists>e \<in> set (butlast ds). chunk_of_event ce e = Some m} \<noteq> set M"
        using Cons.prems(4) m(2) False by auto
    qed (use Cons.prems(1) False a(2) in auto)
    with a m(2) False show ?thesis by (auto simp: receive_event_def fun_eq_iff)
  qed
qed


definition sample_payload :: "nat list Event" where
  "sample_payload = \<lparr>evt_Type = ''t'', evt_Source = ''hub1'', evt_ID = ''42'', evt_Extensions = Map.empty,
     evt_Data = [1, 2, 3, 4, 5]\<rparr>"

abbreviation sample_chunk :: "nat \<Rightarrow> nat list \<Rightarrow> nat list Event" where
  "sample_chunk \<equiv> chunk_event sample_payload 5"

lemma sample_sent:
  "SendEvent record_send (SetDataLimit 2 new_producer) sample_payload [] =
     Some (False, [sample_chunk 2 [1, 2], sample_chunk 4 [3, 4], sample_chunk 5 [5]])"
proof -
  have "split_loop 2 [1, 2, 3, 4, 5 :: nat] = [[1, 2], [3, 4], [5]]" by (simp add: split_loop.simps [of 2])
  moreover have "evt_Data sample_payload = [1, 2, 3, 4, 5]" by (simp add: sample_payload_def)
  ultimately have "SendEvent record_send (SetDataLimit 2 new_producer) sample_payload [] =
      Some (False, chunk_events sample_payload 5 0 [[1, 2], [3, 4], [5]])"
    by (simp add: SendEvent_def SetDataLimit_def splitPayloadIntoChunks_def send_chunks_record eval_nat_numeral
        del: send_chunks.simps chunk_events.simps)
  then show ?thesis by (simp add: eval_nat_numeral)
qed


section \<open>When the producer gives up\<close>

lemma handle_error:
  "handle_producer_event n (ClientError, t) s =
     (if n \<le> errorCount s + 1 then None
      else Some \<lparr>errorCount = (case lastErrorTime s of None \<Rightarrow> 0
                  | Some t0 \<Rightarrow> if t0 + five_minutes < t then 0 else errorCount s + 1),
                lastErrorTime = Some t\<rparr>)"
  by (cases s) (auto simp: handle_producer_event_def Let_def split: option.splits)

lemma errors_in_a_row:
  "\<lbrakk>errorCount s + int k < n; lastErrorTime s = Some t\<rbrakk> \<Longrightarrow>
   handleProducerEvents n (replicate k (ClientError, t)) s = Some \<lparr>errorCount = errorCount s + int k, lastErrorTime = Some t\<rparr>"
proof (induction k arbitrary: s)
  case 0
  then show ?case by (cases s) simp
next
  case (Suc k)
  then show ?case by (simp add: handle_error five_minutes_def)
qed

text \<open>
  Errors that are long past still count. After a burst of as many errors as the threshold
  (the first only starts the window), the next error stops the process however much later it
  comes, although it is then the only one within five minutes.
\<close>

theorem stale_errors_stop_producer:
  assumes "1 < n" and "t \<le> t'"
  shows "(\<exists>s. handleProducerEvents (int n) (replicate n (ClientError, t)) initial_producer_state = Some s)
    \<and> handleProducerEvents (int n) (replicate n (ClientError, t) @ [(ClientError, t')]) initial_producer_state = None"
proof -
  obtain k where n: "n = Suc k" using assms(1) by (cases n) auto
  let ?s = "\<lparr>errorCount = 0, lastErrorTime = Some t\<rparr>"
  have first: "handle_producer_event (int n) (ClientError, t) initial_producer_state = Some ?s"
    using assms(1) by (simp add: handle_error initial_producer_state_def)
  have run: "handleProducerEvents (int n) (replicate k (ClientError, t)) ?s =
      Some \<lparr>errorCount = int k, lastErrorTime = Some t\<rparr>"
    using errors_in_a_row [of ?s k "int n" t] n by simp
  have app: "handleProducerEvents m (xs @ ys) s = Option.bind (handleProducerEvents m xs s) (handleProducerEvents m ys)"
    for m xs ys s by (induction xs arbitrary: s) (simp_all, metis bind_assoc)
  show ?thesis using first run by (simp add: n app handle_error)
qed

theorem stale_errors_stop_producer_witness:
  "handleProducerEvents 10 (replicate 10 (ClientError, 0) @ [(ClientError, 3600000000000)]) initial_producer_state = None"
  using stale_errors_stop_producer [of 10 0 3600000000000] by simp

end
