(* ===== verification/Database.thy ===== *)
theory Database
  imports Prelude
begin

text \<open>
  What the handlers use of the database. GORM and PostgreSQL are not part of the program: a table
  is a record of the statements that the handlers execute on it, an argument of every handler.
  What the handlers rely on is the predicate \<open>table_laws\<close>: each statement either fails and changes
  nothing or has its documented effect on the set of live rows (rows that are deleted softly
  do not count). \<open>mem_table\<close> is a table kept as a list of rows, which satisfies the laws.
\<close>

section \<open>Statements\<close>

record ('row, 'db) table =
  tb_Find :: "('row \<Rightarrow> bool) \<Rightarrow> 'db \<Rightarrow> 'row list option"
  tb_Upsert :: "'row list \<Rightarrow> 'db \<Rightarrow> 'db option"
  tb_InsertIgnore :: "'row list \<Rightarrow> 'db \<Rightarrow> 'db option"
  tb_Insert :: "'row \<Rightarrow> 'db \<Rightarrow> 'db option"
  tb_Delete :: "('row \<Rightarrow> bool) \<Rightarrow> 'db \<Rightarrow> 'db option"
  tb_Update :: "('row \<Rightarrow> bool) \<Rightarrow> ('row \<Rightarrow> 'row) \<Rightarrow> 'db \<Rightarrow> 'db option"

text \<open>
  \<^item> \<open>tb_Find\<close>: \<^verbatim>\<open>Where(P).Find\<close>
  \<^item> \<open>tb_Upsert\<close>: \<^verbatim>\<open>Clauses(OnConflict{UpdateAll}).CreateInBatches\<close>; nothing is said of a list in which
    two rows have the same key, which PostgreSQL refuses when they fall in one batch
  \<^item> \<open>tb_InsertIgnore\<close>: \<^verbatim>\<open>Clauses(OnConflict{DoNothing}).CreateInBatches\<close>
  \<^item> \<open>tb_Insert\<close>: \<^verbatim>\<open>INSERT INTO\<close> without a conflict clause
  \<^item> \<open>tb_Delete\<close>: \<^verbatim>\<open>Where(P).Delete\<close>
  \<^item> \<open>tb_Update\<close>: \<^verbatim>\<open>Where(P).Updates\<close>
\<close>

definition table_laws :: "('row, 'db) table \<Rightarrow> ('db \<Rightarrow> 'row set) \<Rightarrow> ('row \<Rightarrow> 'k) \<Rightarrow> bool" where
  "table_laws T rows key \<longleftrightarrow>
     (\<forall>P db rs. tb_Find T P db = Some rs \<longrightarrow> set rs = {r \<in> rows db. P r}) \<and>
     (\<forall>rs db db'. tb_Upsert T rs db = Some db' \<longrightarrow> distinct (map key rs) \<longrightarrow>
        rows db' = {r \<in> rows db. key r \<notin> key ` set rs} \<union> set rs) \<and>
     (\<forall>rs db db'. tb_InsertIgnore T rs db = Some db' \<longrightarrow>
        rows db \<subseteq> rows db' \<and> rows db' \<subseteq> rows db \<union> set rs \<and> key ` rows db' = key ` rows db \<union> key ` set rs) \<and>
     (\<forall>r db db'. tb_Insert T r db = Some db' \<longrightarrow> rows db' = insert r (rows db)) \<and>
     (\<forall>P db db'. tb_Delete T P db = Some db' \<longrightarrow> rows db' = {r \<in> rows db. \<not> P r}) \<and>
     (\<forall>P f db db'. tb_Update T P f db = Some db' \<longrightarrow> rows db' = {r \<in> rows db. \<not> P r} \<union> f ` {r \<in> rows db. P r})"

lemma table_find: "table_laws T rows key \<Longrightarrow> tb_Find T P db = Some rs \<Longrightarrow> set rs = {r \<in> rows db. P r}"
  by (simp add: table_laws_def)

lemma table_upsert:
  "table_laws T rows key \<Longrightarrow> tb_Upsert T rs db = Some db' \<Longrightarrow> distinct (map key rs) \<Longrightarrow>
   rows db' = {r \<in> rows db. key r \<notin> key ` set rs} \<union> set rs"
  by (simp add: table_laws_def)

lemma table_delete:
  "table_laws T rows key \<Longrightarrow> tb_Delete T P db = Some db' \<Longrightarrow> rows db' = {r \<in> rows db. \<not> P r}"
  by (simp add: table_laws_def)

lemma table_update:
  "table_laws T rows key \<Longrightarrow> tb_Update T P f db = Some db' \<Longrightarrow>
   rows db' = {r \<in> rows db. \<not> P r} \<union> f ` {r \<in> rows db. P r}"
  by (simp add: table_laws_def)

lemma table_insert:
  "table_laws T rows key \<Longrightarrow> tb_Insert T r db = Some db' \<Longrightarrow> rows db' = insert r (rows db)"
  by (simp add: table_laws_def)

lemma table_ignore:
  "table_laws T rows key \<Longrightarrow> tb_InsertIgnore T rs db = Some db' \<Longrightarrow>
   rows db \<subseteq> rows db' \<and> rows db' \<subseteq> rows db \<union> set rs \<and> key ` rows db' = key ` rows db \<union> key ` set rs"
  by (simp add: table_laws_def)

section \<open>Sequencing\<close>

datatype handler_error = ParseError | MarshalError | EmptyPayload | DbError

type_synonym 'db act = "'db \<Rightarrow> handler_error option \<times> 'db"

text \<open>One statement, with the error of the handler when it fails.\<close>

definition exec :: "('db \<Rightarrow> 'db option) \<Rightarrow> 'db act" where
  "exec stmt db = (case stmt db of None \<Rightarrow> (Some DbError, db) | Some db1 \<Rightarrow> (None, db1))"

definition and_then :: "'db act \<Rightarrow> 'db act \<Rightarrow> 'db act" where
  "and_then a b db = (case a db of (Some e, db1) \<Rightarrow> (Some e, db1) | (None, db1) \<Rightarrow> b db1)"

fun for_each :: "('a \<Rightarrow> 'db act) \<Rightarrow> 'a list \<Rightarrow> 'db act" where
  "for_each f [] db = (None, db)"
| "for_each f (x # xs) db = and_then (f x) (for_each f xs) db"

text \<open>\<^verbatim>\<open>db.Transaction\<close>: an error rolls everything back.\<close>

definition transaction :: "'db act \<Rightarrow> 'db act" where
  "transaction a db = (case a db of (Some e, db1) \<Rightarrow> (Some e, db) | (None, db1) \<Rightarrow> (None, db1))"

lemma exec_ok: "exec stmt db = (None, db') \<longleftrightarrow> stmt db = Some db'"
  by (auto simp: exec_def split: option.splits)

lemma and_then_ok: "and_then a b db = (None, db') \<longleftrightarrow> (\<exists>db1. a db = (None, db1) \<and> b db1 = (None, db'))"
  by (auto simp: and_then_def split: option.splits prod.splits)

lemma transaction_ok [simp]: "transaction a db = (None, db') \<longleftrightarrow> a db = (None, db')"
  by (auto simp: transaction_def split: option.splits prod.splits)

lemma transaction_error: "transaction a db = (Some e, db') \<Longrightarrow> db' = db"
  by (auto simp: transaction_def split: option.splits prod.splits)

lemmas act_ok = exec_ok and_then_ok

text \<open>Deleting a list of selections, and updating one after the other.\<close>

lemma for_each_delete:
  assumes T: "table_laws T rows key"
    and run: "for_each (\<lambda>x. exec (tb_Delete T (P x))) xs db = (None, db')"
  shows "rows db' = {r \<in> rows db. \<forall>x \<in> set xs. \<not> P x r}"
  using run
proof (induction xs arbitrary: db)
  case Nil
  then show ?case by simp
next
  case (Cons x xs)
  then obtain db1 where d: "tb_Delete T (P x) db = Some db1"
    and rest: "for_each (\<lambda>x. exec (tb_Delete T (P x))) xs db1 = (None, db')"
    by (auto simp: act_ok)
  from Cons.IH [OF rest] table_delete [OF T d] show ?case by auto
qed

lemma table_update_map:
  "table_laws T rows key \<Longrightarrow> tb_Update T P f db = Some db' \<Longrightarrow>
   rows db' = (\<lambda>r. if P r then f r else r) ` rows db"
  by (drule (1) table_update) auto

lemma for_each_update:
  assumes T: "table_laws T rows key"
    and run: "for_each (\<lambda>x. exec (tb_Update T (P x) (f x))) xs db = (None, db')"
  shows "rows db' = fold (\<lambda>x r. if P x r then f x r else r) xs ` rows db"
  using run
proof (induction xs arbitrary: db)
  case Nil
  then show ?case by simp
next
  case (Cons x xs)
  then obtain db1 where d: "tb_Update T (P x) (f x) db = Some db1"
    and rest: "for_each (\<lambda>x. exec (tb_Update T (P x) (f x))) xs db1 = (None, db')"
    by (auto simp: act_ok)
  from Cons.IH [OF rest] table_update_map [OF T d] show ?case by (simp only: fold.simps image_comp)
qed

section \<open>A table in memory\<close>

definition mem_table :: "('row \<Rightarrow> 'k) \<Rightarrow> ('row, 'row list) table" where
  "mem_table key =
     \<lparr>tb_Find = (\<lambda>P db. Some (filter P db)),
      tb_Upsert = (\<lambda>rs db. if distinct (map key rs)
                           then Some (filter (\<lambda>r. key r \<notin> key ` set rs) db @ rs) else None),
      tb_InsertIgnore = (\<lambda>rs db. Some (fold (\<lambda>r db. if key r \<in> key ` set db then db else db @ [r]) rs db)),
      tb_Insert = (\<lambda>r db. if key r \<in> key ` set db then None else Some (db @ [r])),
      tb_Delete = (\<lambda>P db. Some (filter (\<lambda>r. \<not> P r) db)),
      tb_Update = (\<lambda>P f db. Some (map (\<lambda>r. if P r then f r else r) db))\<rparr>"

lemma mem_ignore:
  "set db \<subseteq> set (fold (\<lambda>r db. if key r \<in> key ` set db then db else db @ [r]) rs db) \<and>
   set (fold (\<lambda>r db. if key r \<in> key ` set db then db else db @ [r]) rs db) \<subseteq> set db \<union> set rs \<and>
   key ` set (fold (\<lambda>r db. if key r \<in> key ` set db then db else db @ [r]) rs db) = key ` set db \<union> key ` set rs"
proof (induction rs arbitrary: db)
  case Nil
  then show ?case by simp
next
  case (Cons r rs)
  show ?case
  proof (cases "key r \<in> key ` set db")
    case True
    with Cons.IH [of db] show ?thesis by auto
  next
    case False
    with Cons.IH [of "db @ [r]"] show ?thesis by auto
  qed
qed

lemma mem_table_laws: "table_laws (mem_table key) set key"
  using mem_ignore [of _ key]
  by (auto simp: table_laws_def mem_table_def split: if_splits)

end
