(* ===== verification/Compliance.thy ===== *)
theory Compliance
  imports Database
begin

text \<open>
  The policy compliance handlers of \<^verbatim>\<open>manager/pkg/status/handlers/policy\<close>: what a compliance,
  complete, delta or minimal bundle of a hub does to the tables \<^verbatim>\<open>local_status.compliance\<close>,
  \<^verbatim>\<open>status.compliance\<close> and \<^verbatim>\<open>status.aggregated_compliance\<close>.

  The decoded payload of the event is an argument, \<^const>\<open>None\<close> when decoding fails. A Go set is a
  list without duplicates.
\<close>

section \<open>Rows and bundles\<close>

datatype ComplianceStatus = Compliant | NonCompliant | Unknown | Pending

record ComplianceRow =
  cr_PolicyID :: string
  cr_ClusterName :: string
  cr_LeafHubName :: string
  cr_Error :: string
  cr_Compliance :: ComplianceStatus

definition ErrorNone :: string where
  "ErrorNone = ''none''"

text \<open>The primary key of both compliance tables.\<close>

definition compliance_key :: "ComplianceRow \<Rightarrow> string \<times> string \<times> string" where
  "compliance_key r = (cr_PolicyID r, cr_ClusterName r, cr_LeafHubName r)"

text \<open>In a condition given by a struct, GORM leaves out the fields with the zero value.\<close>

definition where_eq :: "string \<Rightarrow> string \<Rightarrow> bool" where
  "where_eq v x = (v = [] \<or> x = v)"

lemma where_eq_simps [simp]: "v \<noteq> [] \<Longrightarrow> where_eq v x = (x = v)" "where_eq [] x"
  by (auto simp: where_eq_def)

record ComplianceData =
  cd_PolicyID :: string
  cd_CompliantClusters :: "string list"
  cd_NonCompliantClusters :: "string list"
  cd_UnknownComplianceClusters :: "string list"
  cd_PendingComplianceClusters :: "string list"

record CompleteCompliance =
  cc_PolicyID :: string
  cc_NonCompliantClusters :: "string list"
  cc_UnknownComplianceClusters :: "string list"
  cc_PendingComplianceClusters :: "string list"

section \<open>Cluster sets\<close>

type_synonym PolicyClustersSets = "ComplianceStatus \<Rightarrow> string list"

definition NewPolicyClusterSets :: PolicyClustersSets where
  "NewPolicyClusterSets = (\<lambda>_. [])"

definition AddCluster :: "string \<Rightarrow> ComplianceStatus \<Rightarrow> PolicyClustersSets \<Rightarrow> PolicyClustersSets" where
  "AddCluster clusterName complianceStatus sets =
     sets(complianceStatus := List.insert clusterName (sets complianceStatus))"

definition GetAllClusters :: "PolicyClustersSets \<Rightarrow> string list" where
  "GetAllClusters sets =
     remdups (sets Compliant @ (sets NonCompliant @ sets Pending) @ sets Unknown)"

definition GetClusters :: "ComplianceStatus \<Rightarrow> PolicyClustersSets \<Rightarrow> string list" where
  "GetClusters complianceStatus sets = sets complianceStatus"

text \<open>The sets of a policy, and new empty ones for a policy without.\<close>

definition sets_at :: "(string, PolicyClustersSets) gomap \<Rightarrow> string \<Rightarrow> PolicyClustersSets" where
  "sets_at m policyID = (case map_of m policyID of None \<Rightarrow> NewPolicyClusterSets | Some s \<Rightarrow> s)"

definition add_row ::
    "ComplianceRow \<Rightarrow> (string, PolicyClustersSets) gomap \<Rightarrow> (string, PolicyClustersSets) gomap" where
  "add_row compliance m =
     (let m1 = (if map_of m (cr_PolicyID compliance) = None
                then AList.update (cr_PolicyID compliance) NewPolicyClusterSets m else m);
          sets = sets_at m1 (cr_PolicyID compliance)
      in AList.update (cr_PolicyID compliance)
           (AddCluster (cr_ClusterName compliance) (cr_Compliance compliance) sets) m1)"

definition getComplianceClusterSets ::
    "(ComplianceRow, 'db) table \<Rightarrow> (ComplianceRow \<Rightarrow> bool) \<Rightarrow> 'db
       \<Rightarrow> (string, PolicyClustersSets) gomap option" where
  "getComplianceClusterSets T query db =
     map_option (\<lambda>compliancesFromDB. fold add_row compliancesFromDB []) (tb_Find T query db)"

section \<open>The compliance bundle\<close>

definition compliance_row :: "string \<Rightarrow> string \<Rightarrow> ComplianceStatus \<Rightarrow> string \<Rightarrow> ComplianceRow" where
  "compliance_row leafHub policyID compliance cluster =
     \<lparr>cr_PolicyID = policyID, cr_ClusterName = cluster, cr_LeafHubName = leafHub,
      cr_Error = ErrorNone, cr_Compliance = compliance\<rparr>"

definition newCompliances ::
    "string \<Rightarrow> string \<Rightarrow> ComplianceStatus \<Rightarrow> string list \<Rightarrow> string list \<Rightarrow> ComplianceRow list \<times> string list" where
  "newCompliances leafHub policyID compliance eventComplianceClusters allClustersOnDB =
     (map (compliance_row leafHub policyID compliance) eventComplianceClusters,
      filter (\<lambda>c. c \<notin> set eventComplianceClusters) allClustersOnDB)"

text \<open>The upsert and the deletions for one policy of the bundle.\<close>

definition sync_policy ::
    "(ComplianceRow, 'db) table \<Rightarrow> string \<Rightarrow> ComplianceData \<Rightarrow> PolicyClustersSets \<Rightarrow> 'db act" where
  "sync_policy T leafHub eventCompliance complianceClustersFromDB =
     (let policyID = cd_PolicyID eventCompliance;
          all0 = GetAllClusters complianceClustersFromDB;
          (compliant, all1) = newCompliances leafHub policyID Compliant
             (cd_CompliantClusters eventCompliance) all0;
          (nonCompliant, all2) = newCompliances leafHub policyID NonCompliant
             (cd_NonCompliantClusters eventCompliance) all1;
          (unknown, all3) = newCompliances leafHub policyID Unknown
             (cd_UnknownComplianceClusters eventCompliance) all2;
          (pending, all4) = newCompliances leafHub policyID Pending
             (cd_PendingComplianceClusters eventCompliance) all3;
          batch = compliant @ nonCompliant @ unknown @ pending
      in and_then (exec (tb_Upsert T batch))
           (transaction (for_each
              (\<lambda>clusterName. exec (tb_Delete T
                 (\<lambda>r. where_eq leafHub (cr_LeafHubName r) \<and> where_eq policyID (cr_PolicyID r)
                    \<and> where_eq clusterName (cr_ClusterName r))))
              all4)))"

fun sync_policies ::
    "(ComplianceRow, 'db) table \<Rightarrow> string \<Rightarrow> ComplianceData list \<Rightarrow> (string, PolicyClustersSets) gomap
       \<Rightarrow> 'db \<Rightarrow> (handler_error + (string, PolicyClustersSets) gomap) \<times> 'db" where
  "sync_policies T leafHub [] sets db = (Inr sets, db)"
| "sync_policies T leafHub (e # es) sets db =
     (let fromDB = sets_at sets (cd_PolicyID e)
      in case sync_policy T leafHub e fromDB db of
           (Some err, db1) \<Rightarrow> (Inl err, db1)
         | (None, db1) \<Rightarrow> sync_policies T leafHub es (AList.delete (cd_PolicyID e) sets) db1)"

text \<open>The policies of the hub that the bundle does not have are deleted by their identifier alone.\<close>

definition delete_policies ::
    "(ComplianceRow, 'db) table \<Rightarrow> string list \<Rightarrow> 'db act" where
  "delete_policies T policyIDs =
     transaction (for_each (\<lambda>policyID. exec (tb_Delete T (\<lambda>r. where_eq policyID (cr_PolicyID r)))) policyIDs)"

definition compliance_body ::
    "(ComplianceRow, 'db) table \<Rightarrow> string \<Rightarrow> ComplianceData list \<Rightarrow> 'db act" where
  "compliance_body T leafHub data db =
     (case getComplianceClusterSets T (\<lambda>r. cr_LeafHubName r = leafHub) db of
        None \<Rightarrow> (Some DbError, db)
      | Some sets \<Rightarrow>
          (case sync_policies T leafHub data sets db of
             (Inl err, db1) \<Rightarrow> (Some err, db1)
           | (Inr rest, db1) \<Rightarrow> delete_policies T (map fst rest) db1))"

text \<open>\<^verbatim>\<open>handleCompliance\<close> for the local policies, \<^verbatim>\<open>handleEvent\<close> for the global ones.\<close>

definition handleCompliance ::
    "(ComplianceRow, 'db) table \<Rightarrow> string \<Rightarrow> ComplianceData list option \<Rightarrow> 'db act" where
  "handleCompliance T leafHub payload db =
     (case payload of None \<Rightarrow> (Some ParseError, db) | Some data \<Rightarrow> compliance_body T leafHub data db)"

definition policyCompliance_handleEvent ::
    "(ComplianceRow, 'db) table \<Rightarrow> string \<Rightarrow> ComplianceData list option \<Rightarrow> 'db act" where
  "policyCompliance_handleEvent T leafHub payload db =
     (case payload of
        None \<Rightarrow> (Some ParseError, db)
      | Some data \<Rightarrow>
          (case tb_Find T (\<lambda>r. where_eq leafHub (cr_LeafHubName r)) db of
             None \<Rightarrow> (Some DbError, db)
           | Some _ \<Rightarrow> compliance_body T leafHub data db))"

section \<open>The complete bundle\<close>

text \<open>One of the loops over the clusters of the event: rows that differ, clusters not handled.\<close>

definition complete_clusters ::
    "string \<Rightarrow> string \<Rightarrow> PolicyClustersSets \<Rightarrow> ComplianceStatus \<Rightarrow> string list \<Rightarrow> string list
       \<Rightarrow> ComplianceRow list \<times> string list" where
  "complete_clusters leafHub policyID fromDB compliance eventClusters allNonCompliance =
     (map (compliance_row leafHub policyID compliance)
        (filter (\<lambda>c. c \<notin> set (GetClusters compliance fromDB)) eventClusters),
      filter (\<lambda>c. c \<notin> set eventClusters) allNonCompliance)"

text \<open>\<^verbatim>\<open>tx.Updates(compliance)\<close>: the row of that primary key, if there is one.\<close>

definition update_row :: "(ComplianceRow, 'db) table \<Rightarrow> ComplianceRow \<Rightarrow> 'db act" where
  "update_row T c =
     exec (tb_Update T
       (\<lambda>r. where_eq (cr_PolicyID c) (cr_PolicyID r) \<and> where_eq (cr_ClusterName c) (cr_ClusterName r)
          \<and> where_eq (cr_LeafHubName c) (cr_LeafHubName r))
       (\<lambda>r. r\<lparr>cr_Error := cr_Error c, cr_Compliance := cr_Compliance c\<rparr>))"

definition complete_policy ::
    "(ComplianceRow, 'db) table \<Rightarrow> string \<Rightarrow> CompleteCompliance \<Rightarrow> PolicyClustersSets \<Rightarrow> 'db act" where
  "complete_policy T leafHub eventCompliance fromDB =
     (let policyID = cc_PolicyID eventCompliance;
          all0 = GetAllClusters fromDB;
          (nonCompliant, all1) = complete_clusters leafHub policyID fromDB NonCompliant
             (cc_NonCompliantClusters eventCompliance) all0;
          (pending, all2) = complete_clusters leafHub policyID fromDB Pending
             (cc_PendingComplianceClusters eventCompliance) all1;
          (unknown, all3) = complete_clusters leafHub policyID fromDB Unknown
             (cc_UnknownComplianceClusters eventCompliance) all2;
          compliant = map (compliance_row leafHub policyID Compliant) all3
      in transaction (for_each (update_row T) (nonCompliant @ pending @ unknown @ compliant)))"

fun complete_policies ::
    "(ComplianceRow, 'db) table \<Rightarrow> string \<Rightarrow> CompleteCompliance list \<Rightarrow> (string, PolicyClustersSets) gomap
       \<Rightarrow> 'db \<Rightarrow> (handler_error + (string, PolicyClustersSets) gomap) \<times> 'db" where
  "complete_policies T leafHub [] sets db = (Inr sets, db)"
| "complete_policies T leafHub (e # es) sets db =
     (let fromDB = sets_at sets (cc_PolicyID e)
      in case complete_policy T leafHub e fromDB db of
           (Some err, db1) \<Rightarrow> (Inl err, db1)
         | (None, db1) \<Rightarrow> complete_policies T leafHub es (AList.delete (cc_PolicyID e) sets) db1)"

definition all_compliant :: "(ComplianceRow, 'db) table \<Rightarrow> string \<Rightarrow> string list \<Rightarrow> 'db act" where
  "all_compliant T leafHub policyIDs =
     transaction (for_each
       (\<lambda>policyID. exec (tb_Update T (\<lambda>r. cr_PolicyID r = policyID \<and> cr_LeafHubName r = leafHub)
                          (\<lambda>r. r\<lparr>cr_Compliance := Compliant\<rparr>)))
       policyIDs)"

text \<open>
  The handler for local policies reads the table before it decodes the payload; the one for
  global policies decodes first.
\<close>

definition complete_body ::
    "(ComplianceRow, 'db) table \<Rightarrow> string \<Rightarrow> CompleteCompliance list \<Rightarrow> (string, PolicyClustersSets) gomap
       \<Rightarrow> 'db act" where
  "complete_body T leafHub data sets db =
     (case complete_policies T leafHub data sets db of
        (Inl err, db1) \<Rightarrow> (Some err, db1)
      | (Inr rest, db1) \<Rightarrow> all_compliant T leafHub (map fst rest) db1)"

definition handleCompleteCompliance ::
    "(ComplianceRow, 'db) table \<Rightarrow> string \<Rightarrow> CompleteCompliance list option \<Rightarrow> 'db act" where
  "handleCompleteCompliance T leafHub payload db =
     (case getComplianceClusterSets T (\<lambda>r. cr_LeafHubName r = leafHub \<and> cr_Compliance r \<noteq> Compliant) db of
        None \<Rightarrow> (Some DbError, db)
      | Some sets \<Rightarrow>
          (case payload of None \<Rightarrow> (Some ParseError, db) | Some data \<Rightarrow> complete_body T leafHub data sets db))"

definition policyComplete_handleEvent ::
    "(ComplianceRow, 'db) table \<Rightarrow> string \<Rightarrow> CompleteCompliance list option \<Rightarrow> 'db act" where
  "policyComplete_handleEvent T leafHub payload db =
     (case payload of
        None \<Rightarrow> (Some ParseError, db)
      | Some data \<Rightarrow>
          (case getComplianceClusterSets T (\<lambda>r. cr_LeafHubName r = leafHub \<and> cr_Compliance r \<noteq> Compliant) db of
             None \<Rightarrow> (Some DbError, db)
           | Some sets \<Rightarrow> complete_body T leafHub data sets db))"

section \<open>The delta bundle\<close>

definition updateCompliance ::
    "(ComplianceRow, 'db) table \<Rightarrow> string \<Rightarrow> string \<Rightarrow> string \<Rightarrow> ComplianceStatus \<Rightarrow> 'db act" where
  "updateCompliance T policyID leafHub cluster compliance =
     exec (tb_Update T
       (\<lambda>r. where_eq policyID (cr_PolicyID r) \<and> where_eq cluster (cr_ClusterName r)
          \<and> where_eq leafHub (cr_LeafHubName r))
       (\<lambda>r. r\<lparr>cr_Compliance := compliance\<rparr>))"

definition delta_policy :: "(ComplianceRow, 'db) table \<Rightarrow> string \<Rightarrow> ComplianceData \<Rightarrow> 'db act" where
  "delta_policy T leafHub e =
     (let upd = (\<lambda>compliance cluster. updateCompliance T (cd_PolicyID e) leafHub cluster compliance)
      in and_then (for_each (upd Compliant) (cd_CompliantClusters e))
          (and_then (for_each (upd NonCompliant) (cd_NonCompliantClusters e))
            (and_then (for_each (upd Unknown) (cd_UnknownComplianceClusters e))
              (for_each (upd Pending) (cd_PendingComplianceClusters e)))))"

definition policyDeltaCompliance_handleEvent ::
    "(ComplianceRow, 'db) table \<Rightarrow> string \<Rightarrow> ComplianceData list option \<Rightarrow> 'db act" where
  "policyDeltaCompliance_handleEvent T leafHub payload db =
     (case payload of
        None \<Rightarrow> (Some ParseError, db)
      | Some data \<Rightarrow> transaction (for_each (delta_policy T leafHub) data) db)"

section \<open>The minimal bundle\<close>

record AggregatedCompliance =
  ac_PolicyID :: string
  ac_LeafHubName :: string
  ac_AppliedClusters :: int
  ac_NonCompliantClusters :: int

record MinimalCompliance =
  mi_PolicyID :: string
  mi_NonCompliantClusters :: int
  mi_AppliedClusters :: int

definition aggregated_key :: "AggregatedCompliance \<Rightarrow> string \<times> string" where
  "aggregated_key r = (ac_PolicyID r, ac_LeafHubName r)"

definition aggregated_row :: "string \<Rightarrow> MinimalCompliance \<Rightarrow> AggregatedCompliance" where
  "aggregated_row leafHub m =
     \<lparr>ac_PolicyID = mi_PolicyID m, ac_LeafHubName = leafHub, ac_AppliedClusters = mi_AppliedClusters m,
      ac_NonCompliantClusters = mi_NonCompliantClusters m\<rparr>"

fun minimal_loop ::
    "(AggregatedCompliance, 'db) table \<Rightarrow> string \<Rightarrow> MinimalCompliance list \<Rightarrow> string list \<Rightarrow> 'db
       \<Rightarrow> (handler_error + string list) \<times> 'db" where
  "minimal_loop T leafHub [] policyIDSetFromDB db = (Inr policyIDSetFromDB, db)"
| "minimal_loop T leafHub (m # ms) policyIDSetFromDB db =
     (case tb_Upsert T [aggregated_row leafHub m] db of
        None \<Rightarrow> (Inl DbError, db)
      | Some db1 \<Rightarrow>
          minimal_loop T leafHub ms (filter (\<lambda>x. x \<noteq> mi_PolicyID m) policyIDSetFromDB) db1)"

definition policyMini_handleEvent ::
    "(AggregatedCompliance, 'db) table \<Rightarrow> string \<Rightarrow> MinimalCompliance list option \<Rightarrow> 'db act" where
  "policyMini_handleEvent T leafHub payload db =
     (case payload of
        None \<Rightarrow> (Some ParseError, db)
      | Some data \<Rightarrow>
          (case tb_Find T (\<lambda>r. ac_LeafHubName r = leafHub) db of
             None \<Rightarrow> (Some DbError, db)
           | Some found \<Rightarrow>
               (case minimal_loop T leafHub data (remdups (map ac_PolicyID found)) db of
                  (Inl err, db1) \<Rightarrow> (Some err, db1)
                | (Inr rest, db1) \<Rightarrow>
                    for_each (\<lambda>policyID. exec (tb_Delete T
                       (\<lambda>r. where_eq policyID (ac_PolicyID r) \<and> where_eq leafHub (ac_LeafHubName r)))) rest db1)))"

end
