(* ===== verification/ComplianceProps.thy ===== *)
theory ComplianceProps
  imports Compliance
begin

text \<open>
  What the policy compliance handlers do to the rows of the hub that sent a bundle, and to the
  rows of the other hubs.
\<close>

section \<open>Cluster sets read from the table\<close>

lemma sets_at_update: "sets_at (AList.update p s m) q = (if q = p then s else sets_at m q)"
  by (simp add: sets_at_def update_conv)

lemma sets_at_delete: "q \<noteq> p \<Longrightarrow> sets_at (AList.delete p m) q = sets_at m q"
  by (simp add: sets_at_def delete_conv)

lemma add_row_sets:
  "set (sets_at (add_row r m) p st) =
     (if p = cr_PolicyID r \<and> st = cr_Compliance r then insert (cr_ClusterName r) (set (sets_at m p st))
      else set (sets_at m p st))"
  by (auto simp: add_row_def Let_def sets_at_update AddCluster_def sets_at_def update_conv split: option.splits)

lemma add_row_keys: "fst ` set (add_row r m) = insert (cr_PolicyID r) (fst ` set m)"
  by (simp add: add_row_def Let_def dom_update)

lemma fold_row_sets:
  "set (sets_at (fold add_row rs m) p st) =
     set (sets_at m p st) \<union> {cr_ClusterName r | r. r \<in> set rs \<and> cr_PolicyID r = p \<and> cr_Compliance r = st}"
  by (induction rs arbitrary: m) (auto simp: add_row_sets)

lemma fold_row_keys: "fst ` set (fold add_row rs m) = fst ` set m \<union> cr_PolicyID ` set rs"
  by (induction rs arbitrary: m) (auto simp: add_row_keys)

lemma cluster_sets:
  assumes T: "table_laws T rows key" and get: "getComplianceClusterSets T query db = Some m"
  shows "set (sets_at m p st) =
           {cr_ClusterName r | r. r \<in> rows db \<and> query r \<and> cr_PolicyID r = p \<and> cr_Compliance r = st}"
    and "fst ` set m = cr_PolicyID ` {r \<in> rows db. query r}"
proof -
  from get obtain rs where f: "tb_Find T query db = Some rs" and m: "m = fold add_row rs []"
    by (auto simp: getComplianceClusterSets_def)
  have rs: "set rs = {r \<in> rows db. query r}" by (rule table_find [OF T f])
  have "sets_at [] p st = []" by (simp add: sets_at_def NewPolicyClusterSets_def)
  then show "set (sets_at m p st) =
           {cr_ClusterName r | r. r \<in> rows db \<and> query r \<and> cr_PolicyID r = p \<and> cr_Compliance r = st}"
    by (auto simp: m fold_row_sets rs)
  show "fst ` set m = cr_PolicyID ` {r \<in> rows db. query r}"
    by (simp add: m fold_row_keys rs)
qed

lemma set_GetAllClusters: "set (GetAllClusters s) = (\<Union>st. set (s st))"
  by (auto simp: GetAllClusters_def) (metis ComplianceStatus.exhaust)

text \<open>All clusters that the table has for a policy of a hub.\<close>

lemma all_clusters_sets:
  assumes T: "table_laws T rows key" and get: "getComplianceClusterSets T query db = Some m"
  shows "set (GetAllClusters (sets_at m p)) = cr_ClusterName ` {r \<in> rows db. query r \<and> cr_PolicyID r = p}"
  by (auto simp: set_GetAllClusters cluster_sets(1) [OF T get])

section \<open>One policy of a compliance bundle\<close>

definition event_rows :: "string \<Rightarrow> ComplianceData \<Rightarrow> ComplianceRow list" where
  "event_rows h e =
     map (compliance_row h (cd_PolicyID e) Compliant) (cd_CompliantClusters e) @
     map (compliance_row h (cd_PolicyID e) NonCompliant) (cd_NonCompliantClusters e) @
     map (compliance_row h (cd_PolicyID e) Unknown) (cd_UnknownComplianceClusters e) @
     map (compliance_row h (cd_PolicyID e) Pending) (cd_PendingComplianceClusters e)"

definition event_clusters :: "ComplianceData \<Rightarrow> string list" where
  "event_clusters e = cd_CompliantClusters e @ cd_NonCompliantClusters e @
     cd_UnknownComplianceClusters e @ cd_PendingComplianceClusters e"

text \<open>The bundle of an agent: every policy once, with an identifier, every cluster of a policy once.\<close>

definition wf_bundle :: "ComplianceData list \<Rightarrow> bool" where
  "wf_bundle b \<longleftrightarrow> distinct (map cd_PolicyID b) \<and> (\<forall>e \<in> set b. cd_PolicyID e \<noteq> [] \<and> distinct (event_clusters e))"

lemma compliance_row_sel [simp]:
  "cr_PolicyID (compliance_row h p st c) = p" "cr_ClusterName (compliance_row h p st c) = c"
  "cr_LeafHubName (compliance_row h p st c) = h" "cr_Compliance (compliance_row h p st c) = st"
  by (simp_all add: compliance_row_def)

lemma event_rows_key:
  "map compliance_key (event_rows h e) = map (\<lambda>c. (cd_PolicyID e, c, h)) (event_clusters e)"
  by (simp add: event_rows_def event_clusters_def compliance_key_def comp_def)

lemma event_rows_sel: "r \<in> set (event_rows h e) \<Longrightarrow> cr_LeafHubName r = h \<and> cr_PolicyID r = cd_PolicyID e"
  by (auto simp: event_rows_def)

lemma sync_policy_eq:
  "sync_policy T h e s =
     and_then (exec (tb_Upsert T (event_rows h e)))
       (transaction (for_each
          (\<lambda>c. exec (tb_Delete T (\<lambda>r. where_eq h (cr_LeafHubName r) \<and> where_eq (cd_PolicyID e) (cr_PolicyID r)
                \<and> where_eq c (cr_ClusterName r))))
          (filter (\<lambda>c. c \<notin> set (event_clusters e)) (GetAllClusters s))))"
proof -
  have "filter (\<lambda>c. c \<notin> set w) (filter (\<lambda>c. c \<notin> set z) (filter (\<lambda>c. c \<notin> set y) (filter (\<lambda>c. c \<notin> set x) l)))
      = filter (\<lambda>c. c \<notin> set (x @ y @ z @ w)) l" for x y z w l :: "string list"
    by (induction l) auto
  then show ?thesis
    by (simp add: sync_policy_def newCompliances_def Let_def event_rows_def event_clusters_def)
qed

lemma sync_policy_rows:
  assumes T: "table_laws T rows compliance_key" and h: "h \<noteq> []" and p: "cd_PolicyID e \<noteq> []"
    and d: "distinct (event_clusters e)"
    and named: "\<forall>r \<in> rows db. cr_ClusterName r \<noteq> []"
    and s: "set (GetAllClusters s) = cr_ClusterName ` {r \<in> rows db. cr_LeafHubName r = h \<and> cr_PolicyID r = cd_PolicyID e}"
    and run: "sync_policy T h e s db = (None, db')"
  shows "rows db' = {r \<in> rows db. \<not> (cr_LeafHubName r = h \<and> cr_PolicyID r = cd_PolicyID e)} \<union> set (event_rows h e)"
proof -
  let ?gone = "filter (\<lambda>c. c \<notin> set (event_clusters e)) (GetAllClusters s)"
  let ?P = "\<lambda>c r. where_eq h (cr_LeafHubName r) \<and> where_eq (cd_PolicyID e) (cr_PolicyID r) \<and> where_eq c (cr_ClusterName r)"
  from run obtain db1 where u: "tb_Upsert T (event_rows h e) db = Some db1"
    and del: "for_each (\<lambda>c. exec (tb_Delete T (?P c))) ?gone db1 = (None, db')"
    by (auto simp: sync_policy_eq act_ok)
  have "distinct (map compliance_key (event_rows h e))"
    using d by (auto simp: event_rows_key distinct_map inj_on_def)
  note up = table_upsert [OF T u this]
  have keys: "compliance_key ` set (event_rows h e) = (\<lambda>c. (cd_PolicyID e, c, h)) ` set (event_clusters e)"
    using arg_cong [OF event_rows_key, of set h e] by simp
  have db': "rows db' = {r \<in> rows db1. \<forall>c \<in> set ?gone. \<not> ?P c r}"
    using for_each_delete [OF T del] .
  have ne: "c \<noteq> []" if "c \<in> set ?gone" for c
    using that named s by auto
  have gone: "(\<forall>c \<in> set ?gone. \<not> ?P c r) \<longleftrightarrow>
      \<not> (cr_LeafHubName r = h \<and> cr_PolicyID r = cd_PolicyID e \<and> cr_ClusterName r \<in> set ?gone)" for r
    using ne h p by (auto simp: where_eq_def)
  have kept: "cr_ClusterName r \<in> set (event_clusters e)" if "r \<in> set (event_rows h e)" for r
    using that by (auto simp: event_rows_def event_clusters_def)
  show ?thesis
    unfolding db' gone up keys
    using kept s event_rows_sel [of _ h e] by (auto simp: compliance_key_def)
qed

section \<open>The whole compliance bundle\<close>

definition bundle_rows :: "string \<Rightarrow> ComplianceData list \<Rightarrow> ComplianceRow set" where
  "bundle_rows h b = (\<Union>e \<in> set b. set (event_rows h e))"

lemma replace_step:
  assumes "\<forall>r \<in> E. H r \<and> P r = p" "p \<notin> I"
  shows "{r \<in> {r \<in> A. \<not> (H r \<and> P r = p)} \<union> E. \<not> (H r \<and> P r \<in> I)} \<union> B = {r \<in> A. \<not> (H r \<and> P r \<in> insert p I)} \<union> (E \<union> B)"
  using assms by auto

lemma sync_policies_rows:
  assumes T: "table_laws T rows compliance_key" and h: "h \<noteq> []" and wf: "wf_bundle b"
    and named: "\<forall>r \<in> rows db. cr_ClusterName r \<noteq> []" "\<forall>e \<in> set b. [] \<notin> set (event_clusters e)"
    and s: "\<forall>p \<in> cd_PolicyID ` set b. set (GetAllClusters (sets_at sets p)) =
                cr_ClusterName ` {r \<in> rows db. cr_LeafHubName r = h \<and> cr_PolicyID r = p}"
    and run: "sync_policies T h b sets db = (Inr rest, db')"
  shows "rows db' = {r \<in> rows db. \<not> (cr_LeafHubName r = h \<and> cr_PolicyID r \<in> cd_PolicyID ` set b)} \<union> bundle_rows h b
       \<and> fst ` set rest = fst ` set sets - cd_PolicyID ` set b"
  using wf named s run
proof (induction b arbitrary: sets db)
  case Nil
  then show ?case by (simp add: bundle_rows_def)
next
  case (Cons e b)
  let ?p = "cd_PolicyID e"
  from Cons.prems(5) obtain db1 where one: "sync_policy T h e (sets_at sets ?p) db = (None, db1)"
    and rest: "sync_policies T h b (AList.delete ?p sets) db1 = (Inr rest, db')"
    by (auto simp: Let_def split: option.splits prod.splits)
  from Cons.prems(1) have wf: "wf_bundle b" "?p \<notin> cd_PolicyID ` set b" "?p \<noteq> []" "distinct (event_clusters e)"
    by (auto simp: wf_bundle_def)
  have rows1: "rows db1 = {r \<in> rows db. \<not> (cr_LeafHubName r = h \<and> cr_PolicyID r = ?p)} \<union> set (event_rows h e)"
    using Cons.prems(4) by (intro sync_policy_rows [OF T h wf(3,4) Cons.prems(2) _ one]) simp
  have named1: "\<forall>r \<in> rows db1. cr_ClusterName r \<noteq> []"
    using Cons.prems(2,3) by (force simp: rows1 event_rows_def event_clusters_def)
  have sets1: "\<forall>p \<in> cd_PolicyID ` set b. set (GetAllClusters (sets_at (AList.delete ?p sets) p)) =
                cr_ClusterName ` {r \<in> rows db1. cr_LeafHubName r = h \<and> cr_PolicyID r = p}"
  proof
    fix p assume p: "p \<in> cd_PolicyID ` set b"
    with wf(2) have ne: "p \<noteq> ?p" by metis
    have "{r \<in> rows db1. cr_LeafHubName r = h \<and> cr_PolicyID r = p} = {r \<in> rows db. cr_LeafHubName r = h \<and> cr_PolicyID r = p}"
      using ne event_rows_sel [of _ h e] by (auto simp: rows1)
    moreover from p obtain x where "x \<in> set b" "p = cd_PolicyID x" by auto
    ultimately show "set (GetAllClusters (sets_at (AList.delete ?p sets) p)) =
                cr_ClusterName ` {r \<in> rows db1. cr_LeafHubName r = h \<and> cr_PolicyID r = p}"
      using Cons.prems(4) ne by (simp add: sets_at_delete)
  qed
  have "\<forall>e \<in> set b. [] \<notin> set (event_clusters e)" using Cons.prems(3) by simp
  note ih = Cons.IH [OF wf(1) named1 this sets1 rest]
  have "fst ` set (AList.delete ?p sets) = fst ` set sets - {?p}"
    using arg_cong [OF delete_keys, of set ?p sets] by simp
  then have "fst ` set rest = fst ` set sets - cd_PolicyID ` set (e # b)"
    using ih by auto
  moreover have "rows db' = {r \<in> rows db. \<not> (cr_LeafHubName r = h \<and> cr_PolicyID r \<in> cd_PolicyID ` set (e # b))}
       \<union> bundle_rows h (e # b)"
    unfolding ih [THEN conjunct1] rows1 bundle_rows_def list.set image_insert Union_insert
    by (rule replace_step) (use event_rows_sel [of _ h e] wf(2) in auto)
  ultimately show ?case by simp
qed

text \<open>What a hub stores about its policies: its database rows all name a policy and a cluster.\<close>

definition named_rows :: "ComplianceRow set \<Rightarrow> bool" where
  "named_rows R \<longleftrightarrow> (\<forall>r \<in> R. cr_PolicyID r \<noteq> [] \<and> cr_ClusterName r \<noteq> [])"

definition named_bundle :: "ComplianceData list \<Rightarrow> bool" where
  "named_bundle b \<longleftrightarrow> (\<forall>e \<in> set b. [] \<notin> set (event_clusters e))"

text \<open>The policies that the table has for the hub and the bundle does not mention.\<close>

definition removed_policies :: "string \<Rightarrow> ComplianceData list \<Rightarrow> ComplianceRow set \<Rightarrow> string set" where
  "removed_policies h b R = cr_PolicyID ` {r \<in> R. cr_LeafHubName r = h} - cd_PolicyID ` set b"

lemma compliance_body_rows:
  assumes T: "table_laws T rows compliance_key" and h: "h \<noteq> []" and wf: "wf_bundle b" "named_bundle b"
    and named: "named_rows (rows db)"
    and run: "compliance_body T h b db = (None, db')"
  shows "rows db' = {r \<in> rows db. cr_LeafHubName r \<noteq> h \<and> cr_PolicyID r \<notin> removed_policies h b (rows db)}
                      \<union> bundle_rows h b"
proof -
  from run obtain sets rest db1 where get: "getComplianceClusterSets T (\<lambda>r. cr_LeafHubName r = h) db = Some sets"
    and sync: "sync_policies T h b sets db = (Inr rest, db1)"
    and del: "for_each (\<lambda>p. exec (tb_Delete T (\<lambda>r. where_eq p (cr_PolicyID r)))) (map fst rest) db1 = (None, db')"
    by (auto simp: compliance_body_def delete_policies_def split: option.splits prod.splits sum.splits)
  have s: "rows db1 = {r \<in> rows db. \<not> (cr_LeafHubName r = h \<and> cr_PolicyID r \<in> cd_PolicyID ` set b)} \<union> bundle_rows h b
       \<and> fst ` set rest = fst ` set sets - cd_PolicyID ` set b"
    using named wf(2) all_clusters_sets [OF T get]
    by (intro sync_policies_rows [OF T h wf(1) _ _ _ sync]) (auto simp: named_rows_def named_bundle_def)
  have rest: "fst ` set rest = removed_policies h b (rows db)"
    using s cluster_sets(2) [OF T get] by (simp add: removed_policies_def)
  have ne: "[] \<notin> fst ` set rest"
    using named by (auto simp: rest removed_policies_def named_rows_def)
  have "rows db' = {r \<in> rows db1. cr_PolicyID r \<notin> fst ` set rest}"
    using for_each_delete [OF T del] ne by (force simp: where_eq_def image_iff)
  moreover have "cr_PolicyID r \<in> cd_PolicyID ` set b" if "r \<in> bundle_rows h b" for r
    using that event_rows_sel [of r h] by (auto simp: bundle_rows_def)
  ultimately show ?thesis
    using s unfolding rest by (auto simp: removed_policies_def)
qed

lemma policyCompliance_ok:
  "policyCompliance_handleEvent T h payload db = (None, db') \<Longrightarrow>
   \<exists>b. payload = Some b \<and> compliance_body T h b db = (None, db')"
  by (auto simp: policyCompliance_handleEvent_def split: option.splits)

lemma handleCompliance_ok:
  "handleCompliance T h payload db = (None, db') \<Longrightarrow>
   \<exists>b. payload = Some b \<and> compliance_body T h b db = (None, db')"
  by (auto simp: handleCompliance_def split: option.splits)

section \<open>The complete bundle\<close>

definition update_fun :: "ComplianceRow \<Rightarrow> ComplianceRow \<Rightarrow> ComplianceRow" where
  "update_fun c r =
     (if where_eq (cr_PolicyID c) (cr_PolicyID r) \<and> where_eq (cr_ClusterName c) (cr_ClusterName r)
          \<and> where_eq (cr_LeafHubName c) (cr_LeafHubName r)
      then r\<lparr>cr_Error := cr_Error c, cr_Compliance := cr_Compliance c\<rparr> else r)"

definition named_row :: "ComplianceRow \<Rightarrow> bool" where
  "named_row c \<longleftrightarrow> cr_PolicyID c \<noteq> [] \<and> cr_ClusterName c \<noteq> [] \<and> cr_LeafHubName c \<noteq> []"

lemma update_fun_key [simp]: "compliance_key (update_fun c r) = compliance_key r"
  by (simp add: update_fun_def compliance_key_def)

lemma fold_update_key [simp]: "compliance_key (fold update_fun cs r) = compliance_key r"
  by (induction cs arbitrary: r) simp_all

lemma update_fun_named:
  "named_row c \<Longrightarrow> cr_Compliance (update_fun c r) =
     (if compliance_key c = compliance_key r then cr_Compliance c else cr_Compliance r)"
  by (auto simp: update_fun_def compliance_key_def named_row_def)

lemma fold_update_unmatched:
  assumes "\<forall>c \<in> set cs. named_row c" "\<forall>c \<in> set cs. compliance_key c \<noteq> compliance_key r"
  shows "cr_Compliance (fold update_fun cs r) = cr_Compliance r"
  using assms by (induction cs arbitrary: r) (auto simp: update_fun_named)

lemma fold_update_matched:
  assumes "\<forall>c \<in> set cs. named_row c" "\<exists>c \<in> set cs. compliance_key c = compliance_key r"
    and "\<forall>c \<in> set cs. compliance_key c = compliance_key r \<longrightarrow> cr_Compliance c = st"
  shows "cr_Compliance (fold update_fun cs r) = st"
  using assms
proof (induction cs rule: rev_induct)
  case Nil
  then show ?case by simp
next
  case (snoc c cs)
  then show ?case by (cases "compliance_key c = compliance_key r") (auto simp: update_fun_named)
qed

definition complete_batch :: "string \<Rightarrow> CompleteCompliance \<Rightarrow> PolicyClustersSets \<Rightarrow> ComplianceRow list" where
  "complete_batch h e s =
     map (compliance_row h (cc_PolicyID e) NonCompliant) (filter (\<lambda>c. c \<notin> set (s NonCompliant)) (cc_NonCompliantClusters e)) @
     map (compliance_row h (cc_PolicyID e) Pending) (filter (\<lambda>c. c \<notin> set (s Pending)) (cc_PendingComplianceClusters e)) @
     map (compliance_row h (cc_PolicyID e) Unknown) (filter (\<lambda>c. c \<notin> set (s Unknown)) (cc_UnknownComplianceClusters e)) @
     map (compliance_row h (cc_PolicyID e) Compliant)
       (filter (\<lambda>c. c \<notin> set (cc_NonCompliantClusters e) \<and> c \<notin> set (cc_PendingComplianceClusters e)
                   \<and> c \<notin> set (cc_UnknownComplianceClusters e)) (GetAllClusters s))"

lemma complete_policy_rows:
  assumes T: "table_laws T rows key" and run: "complete_policy T h e s db = (None, db')"
  shows "rows db' = fold update_fun (complete_batch h e s) ` rows db"
proof -
  have "filter (\<lambda>c. c \<notin> set z) (filter (\<lambda>c. c \<notin> set y) (filter (\<lambda>c. c \<notin> set x) l))
      = filter (\<lambda>c. c \<notin> set x \<and> c \<notin> set y \<and> c \<notin> set z) l" for x y z l :: "string list"
    by (induction l) auto
  then have "for_each (update_row T) (complete_batch h e s) db = (None, db')"
    using run by (simp add: complete_policy_def complete_clusters_def Let_def complete_batch_def GetClusters_def)
  from for_each_update [OF T this [unfolded update_row_def]]
  show ?thesis by (simp add: update_fun_def [abs_def])
qed

lemma complete_policies_rows:
  assumes T: "table_laws T rows key" and d: "distinct (map cc_PolicyID b)"
    and run: "complete_policies T h b sets db = (Inr rest, db')"
  shows "rows db' = fold update_fun (concat (map (\<lambda>e. complete_batch h e (sets_at sets (cc_PolicyID e))) b)) ` rows db
       \<and> fst ` set rest = fst ` set sets - cc_PolicyID ` set b"
  using d run
proof (induction b arbitrary: sets db)
  case Nil
  then show ?case by simp
next
  case (Cons e b)
  let ?p = "cc_PolicyID e"
  from Cons.prems obtain db1 where one: "complete_policy T h e (sets_at sets ?p) db = (None, db1)"
    and rest: "complete_policies T h b (AList.delete ?p sets) db1 = (Inr rest, db')"
    by (auto simp: Let_def split: option.splits prod.splits)
  have k: "fst ` set (AList.delete ?p sets) = fst ` set sets - {?p}"
    using arg_cong [OF delete_keys, of set ?p sets] by simp
  have m: "map (\<lambda>e. complete_batch h e (sets_at (AList.delete ?p sets) (cc_PolicyID e))) b =
      map (\<lambda>e. complete_batch h e (sets_at sets (cc_PolicyID e))) b"
    using Cons.prems(1) by (auto intro!: arg_cong [where f = "complete_batch h _"] sets_at_delete)
      (metis image_eqI)
  from Cons.prems(1) have "distinct (map cc_PolicyID b)" by simp
  from Cons.IH [OF this rest, unfolded k m] complete_policy_rows [OF T one] show ?case
    by (auto simp: image_image)
qed

definition make_compliant :: "string \<Rightarrow> string \<Rightarrow> ComplianceRow \<Rightarrow> ComplianceRow" where
  "make_compliant h p r =
     (if cr_PolicyID r = p \<and> cr_LeafHubName r = h then r\<lparr>cr_Compliance := Compliant\<rparr> else r)"

lemma fold_make_compliant:
  "compliance_key (fold (make_compliant h) ps r) = compliance_key r \<and>
   cr_Compliance (fold (make_compliant h) ps r) =
     (if cr_LeafHubName r = h \<and> cr_PolicyID r \<in> set ps then Compliant else cr_Compliance r)"
  by (induction ps arbitrary: r) (auto simp: make_compliant_def compliance_key_def)

lemma all_compliant_rows:
  assumes T: "table_laws T rows key" and run: "all_compliant T h ps db = (None, db')"
  shows "rows db' = fold (make_compliant h) ps ` rows db"
  using for_each_update [OF T run [unfolded all_compliant_def transaction_ok]]
  by (simp add: make_compliant_def [abs_def])

text \<open>The status that a complete bundle gives to a row of its hub.\<close>

definition listed_status :: "CompleteCompliance \<Rightarrow> string \<Rightarrow> ComplianceStatus" where
  "listed_status e c =
     (if c \<in> set (cc_NonCompliantClusters e) then NonCompliant
      else if c \<in> set (cc_PendingComplianceClusters e) then Pending
      else if c \<in> set (cc_UnknownComplianceClusters e) then Unknown else Compliant)"

definition complete_status :: "string \<Rightarrow> CompleteCompliance list \<Rightarrow> ComplianceRow \<Rightarrow> ComplianceStatus" where
  "complete_status h b r =
     (if cr_LeafHubName r \<noteq> h then cr_Compliance r
      else case find (\<lambda>e. cc_PolicyID e = cr_PolicyID r) b of
             None \<Rightarrow> Compliant | Some e \<Rightarrow> listed_status e (cr_ClusterName r))"

definition complete_listed :: "CompleteCompliance \<Rightarrow> string list" where
  "complete_listed e = cc_NonCompliantClusters e @ cc_PendingComplianceClusters e @ cc_UnknownComplianceClusters e"

definition wf_complete :: "CompleteCompliance list \<Rightarrow> bool" where
  "wf_complete b \<longleftrightarrow> distinct (map cc_PolicyID b) \<and>
     (\<forall>e \<in> set b. cc_PolicyID e \<noteq> [] \<and> distinct (complete_listed e) \<and> [] \<notin> set (complete_listed e))"

text \<open>The clusters that the handler finds as not compliant, when every row has its own key.\<close>

lemma noncompliant_sets:
  assumes T: "table_laws T rows key" and inj: "inj_on compliance_key (rows db)"
    and get: "getComplianceClusterSets T (\<lambda>r. cr_LeafHubName r = h \<and> cr_Compliance r \<noteq> Compliant) db = Some m"
    and r: "r \<in> rows db" "cr_LeafHubName r = h"
  shows "cr_ClusterName r \<in> set (sets_at m (cr_PolicyID r) st) \<longleftrightarrow> cr_Compliance r = st \<and> st \<noteq> Compliant"
proof -
  have "r' = r" if "r' \<in> rows db" "cr_LeafHubName r' = h" "cr_PolicyID r' = cr_PolicyID r" "cr_ClusterName r' = cr_ClusterName r" for r'
    using inj_onD [OF inj, of r' r] that r by (simp add: compliance_key_def)
  then show ?thesis
    using r by (auto simp: cluster_sets(1) [OF T get]) metis
qed

lemma batch_key:
  "c \<in> set (complete_batch h e s) \<Longrightarrow> cr_PolicyID c = cc_PolicyID e \<and> cr_LeafHubName c = h"
  by (auto simp: complete_batch_def)

lemma batch_status:
  assumes r: "cr_LeafHubName r = h" "cr_PolicyID r = cc_PolicyID e"
    and d: "distinct (complete_listed e)"
    and named: "\<forall>c \<in> set cs. named_row c" and sub: "set (complete_batch h e s) \<subseteq> set cs"
    and only: "\<forall>c \<in> set cs. compliance_key c = compliance_key r \<longrightarrow> c \<in> set (complete_batch h e s)"
    and s: "\<And>st. cr_ClusterName r \<in> set (s st) \<longleftrightarrow> cr_Compliance r = st \<and> st \<noteq> Compliant"
  shows "cr_Compliance (fold update_fun cs r) = listed_status e (cr_ClusterName r)"
proof (cases "cr_Compliance r = listed_status e (cr_ClusterName r)")
  case True
  then have "\<forall>c \<in> set (complete_batch h e s). compliance_key c \<noteq> compliance_key r"
    using d by (auto simp: complete_batch_def compliance_key_def listed_status_def complete_listed_def s
        set_GetAllClusters split: if_splits)
  with only have "\<forall>c \<in> set cs. compliance_key c \<noteq> compliance_key r" by blast
  with True fold_update_unmatched [OF named] show ?thesis by simp
next
  case False
  then have "compliance_row h (cc_PolicyID e) (listed_status e (cr_ClusterName r)) (cr_ClusterName r) \<in> set (complete_batch h e s)"
    by (auto simp: complete_batch_def listed_status_def s set_GetAllClusters split: if_splits)
  then have "\<exists>c \<in> set (complete_batch h e s). compliance_key c = compliance_key r"
    by (rule bexI [rotated]) (simp add: compliance_key_def r)
  moreover have "\<forall>c \<in> set (complete_batch h e s). compliance_key c = compliance_key r \<longrightarrow>
      cr_Compliance c = listed_status e (cr_ClusterName r)"
    using d by (auto simp: complete_batch_def compliance_key_def listed_status_def complete_listed_def)
  ultimately show ?thesis
    using sub only by (intro fold_update_matched [OF named]) blast+
qed

text \<open>All updates that a complete bundle makes before the last transaction.\<close>

definition complete_updates :: "string \<Rightarrow> CompleteCompliance list \<Rightarrow> (string, PolicyClustersSets) gomap \<Rightarrow> ComplianceRow list" where
  "complete_updates h b m = concat (map (\<lambda>e. complete_batch h e (sets_at m (cc_PolicyID e))) b)"

lemma batch_of_policy:
  assumes d: "distinct (map cc_PolicyID b)" and e: "e \<in> set b"
    and c: "c \<in> set (complete_updates h b m)" "cr_PolicyID c = cc_PolicyID e"
  shows "c \<in> set (complete_batch h e (sets_at m (cc_PolicyID e)))"
proof -
  from c(1) obtain e' where e': "e' \<in> set b" "c \<in> set (complete_batch h e' (sets_at m (cc_PolicyID e')))"
    by (auto simp: complete_updates_def)
  with batch_key [OF e'(2)] c(2) have "cc_PolicyID e' = cc_PolicyID e" by simp
  with d e e'(1) have "e' = e" by (auto simp: distinct_map dest: inj_onD)
  with e'(2) show ?thesis by simp
qed

text \<open>A row of the hub after the updates, for a policy that the bundle has and for one that it has not.\<close>

lemma updates_listed:
  assumes T: "table_laws T rows key" and inj: "inj_on compliance_key (rows db)"
    and wf: "wf_complete b"
    and get: "getComplianceClusterSets T (\<lambda>r. cr_LeafHubName r = h \<and> cr_Compliance r \<noteq> Compliant) db = Some m"
    and named: "\<forall>c \<in> set (complete_updates h b m). named_row c"
    and r: "r \<in> rows db" "cr_LeafHubName r = h" and e: "e \<in> set b" "cc_PolicyID e = cr_PolicyID r"
  shows "cr_Compliance (fold update_fun (complete_updates h b m) r) = listed_status e (cr_ClusterName r)"
proof (rule batch_status [OF r(2) e(2) [symmetric] _ named])
  from wf have d: "distinct (map cc_PolicyID b)" by (simp add: wf_complete_def)
  show "distinct (complete_listed e)" using wf e by (simp add: wf_complete_def)
  show "set (complete_batch h e (sets_at m (cc_PolicyID e))) \<subseteq> set (complete_updates h b m)"
    using e(1) by (auto simp: complete_updates_def)
  show "cr_ClusterName r \<in> set (sets_at m (cc_PolicyID e) st) \<longleftrightarrow> cr_Compliance r = st \<and> st \<noteq> Compliant" for st
    unfolding e(2) by (rule noncompliant_sets [OF T inj get r])
  show "\<forall>c \<in> set (complete_updates h b m). compliance_key c = compliance_key r \<longrightarrow>
      c \<in> set (complete_batch h e (sets_at m (cc_PolicyID e)))"
    using batch_of_policy [OF d e(1)] e(2) by (simp add: compliance_key_def)
qed

lemma updates_unlisted:
  assumes named: "\<forall>c \<in> set (complete_updates h b m). named_row c"
    and r: "cr_LeafHubName r \<noteq> h \<or> cr_PolicyID r \<notin> cc_PolicyID ` set b"
  shows "cr_Compliance (fold update_fun (complete_updates h b m) r) = cr_Compliance r"
  using r by (intro fold_update_unmatched [OF named])
    (auto dest!: batch_key simp: compliance_key_def complete_updates_def)

lemma updates_named:
  assumes T: "table_laws T rows key" and h: "h \<noteq> []" and wf: "wf_complete b" and named: "named_rows (rows db)"
    and get: "getComplianceClusterSets T query db = Some m"
  shows "\<forall>c \<in> set (complete_updates h b m). named_row c"
proof -
  have "c \<noteq> []" if "c \<in> set (GetAllClusters (sets_at m p))" for c p
    using that named by (auto simp: all_clusters_sets [OF T get] named_rows_def)
  then show ?thesis
    using wf h by (fastforce simp: complete_updates_def complete_batch_def named_row_def wf_complete_def complete_listed_def)
qed

lemma complete_row_status:
  assumes T: "table_laws T rows key" and inj: "inj_on compliance_key (rows db)"
    and wf: "wf_complete b"
    and get: "getComplianceClusterSets T (\<lambda>r. cr_LeafHubName r = h \<and> cr_Compliance r \<noteq> Compliant) db = Some m"
    and named: "\<forall>c \<in> set (complete_updates h b m). named_row c"
    and rest: "set ps = fst ` set m - cc_PolicyID ` set b" and r: "r \<in> rows db"
  shows "cr_Compliance (fold (make_compliant h) ps (fold update_fun (complete_updates h b m) r)) = complete_status h b r"
proof -
  let ?u = "fold update_fun (complete_updates h b m) r"
  have sel: "cr_LeafHubName ?u = cr_LeafHubName r" "cr_PolicyID ?u = cr_PolicyID r"
    using fold_update_key [of "complete_updates h b m" r] unfolding compliance_key_def by simp_all
  consider (other) "cr_LeafHubName r \<noteq> h"
    | (absent) "cr_LeafHubName r = h" "find (\<lambda>e. cc_PolicyID e = cr_PolicyID r) b = None"
    | (listed) e where "cr_LeafHubName r = h" "find (\<lambda>e. cc_PolicyID e = cr_PolicyID r) b = Some e"
    by (cases "find (\<lambda>e. cc_PolicyID e = cr_PolicyID r) b") auto
  then show ?thesis
  proof cases
    case other
    then show ?thesis by (simp add: fold_make_compliant sel updates_unlisted [OF named] complete_status_def)
  next
    case absent
    then have nb: "cr_PolicyID r \<notin> cc_PolicyID ` set b" by (auto simp: find_None_iff)
    then have "cr_Compliance r = Compliant \<or> cr_PolicyID r \<in> set ps"
      using rest cluster_sets(2) [OF T get] r absent(1) by auto
    then show ?thesis
      using absent nb by (auto simp: fold_make_compliant sel updates_unlisted [OF named] complete_status_def)
  next
    case listed
    then have e: "e \<in> set b" "cc_PolicyID e = cr_PolicyID r" by (auto simp: find_Some_iff)
    then have "cr_PolicyID r \<notin> set ps" using rest by auto
    then show ?thesis
      using listed updates_listed [OF T inj wf get named r listed(1) e]
      by (simp add: fold_make_compliant sel complete_status_def)
  qed
qed

lemma complete_body_rows:
  assumes T: "table_laws T rows key" and inj: "inj_on compliance_key (rows db)"
    and h: "h \<noteq> []" and wf: "wf_complete b" and named: "named_rows (rows db)"
    and get: "getComplianceClusterSets T (\<lambda>r. cr_LeafHubName r = h \<and> cr_Compliance r \<noteq> Compliant) db = Some m"
    and run: "complete_body T h b m db = (None, db')"
  shows "(\<lambda>r. (compliance_key r, cr_Compliance r)) ` rows db' =
         (\<lambda>r. (compliance_key r, complete_status h b r)) ` rows db"
proof -
  from run obtain rest db1 where p: "complete_policies T h b m db = (Inr rest, db1)"
    and a: "all_compliant T h (map fst rest) db1 = (None, db')"
    by (auto simp: complete_body_def split: prod.splits sum.splits)
  from wf have d: "distinct (map cc_PolicyID b)" by (simp add: wf_complete_def)
  note rows1 = complete_policies_rows [OF T d p, folded complete_updates_def]
  have rows': "rows db' = (\<lambda>r. fold (make_compliant h) (map fst rest) (fold update_fun (complete_updates h b m) r)) ` rows db"
    using all_compliant_rows [OF T a] rows1 by (simp add: image_image)
  have ps: "set (map fst rest) = fst ` set m - cc_PolicyID ` set b" using rows1 by simp
  show ?thesis
    unfolding rows' image_image
    by (intro image_cong refl)
      (simp add: fold_make_compliant [THEN conjunct1]
        complete_row_status [OF T inj wf get updates_named [OF T h wf named get] ps])
qed

end
