(* ===== verification/HubSync.thy ===== *)
theory HubSync
  imports Database
begin

text \<open>
  The contract of the handlers that replace what the database has of a hub by what a bundle of that
  hub says. The context of a run (the table, the hub) is the argument \<open>c\<close>. A run may fail after
  some of its statements; the worker then calls the handler again.
\<close>

section \<open>What every statement keeps\<close>

definition act_keeps :: "('db \<Rightarrow> bool) \<Rightarrow> 'db act \<Rightarrow> bool" where
  "act_keeps I a \<longleftrightarrow> (\<forall>db. I db \<longrightarrow> I (snd (a db)))"

lemma keepsD: "act_keeps I a \<Longrightarrow> I db \<Longrightarrow> a db = (e, db') \<Longrightarrow> I db'"
  by (metis act_keeps_def snd_conv)

lemma keeps_exec: "(\<And>db db'. I db \<Longrightarrow> stmt db = Some db' \<Longrightarrow> I db') \<Longrightarrow> act_keeps I (exec stmt)"
  by (auto simp: act_keeps_def exec_def split: option.splits)

lemma keeps_and_then: "act_keeps I a \<Longrightarrow> act_keeps I b \<Longrightarrow> act_keeps I (and_then a b)"
  unfolding act_keeps_def and_then_def
  by (auto split: prod.splits option.splits)

lemma keeps_for_each: "(\<And>x. x \<in> set xs \<Longrightarrow> act_keeps I (f x)) \<Longrightarrow> act_keeps I (for_each f xs)"
proof (induction xs)
  case Nil
  then show ?case by (simp add: act_keeps_def)
next
  case (Cons x xs)
  then have "act_keeps I (and_then (f x) (for_each f xs))" by (simp add: keeps_and_then)
  then show ?case by (simp add: act_keeps_def)
qed

lemma keeps_transaction: "act_keeps I a \<Longrightarrow> act_keeps I (transaction a)"
  unfolding act_keeps_def transaction_def
  by (auto split: prod.splits option.splits)

lemmas keeps_intros = keeps_and_then keeps_for_each keeps_transaction

section \<open>Replacing the rows of a hub\<close>

locale hub_sync =
  fixes run :: "'c \<Rightarrow> 'b \<Rightarrow> 'db act"
    and view :: "'c \<Rightarrow> 'db \<Rightarrow> 'v"
    and want :: "'c \<Rightarrow> 'b \<Rightarrow> 'v"
    and good_bundle :: "'c \<Rightarrow> 'b \<Rightarrow> bool"
    and good_db :: "'c \<Rightarrow> 'db \<Rightarrow> bool"
  assumes sync: "good_db c db \<Longrightarrow> good_bundle c b \<Longrightarrow> run c b db = (None, db') \<Longrightarrow> view c db' = want c b"
    and keeps: "good_bundle c b \<Longrightarrow> act_keeps (good_db c) (run c b)"
begin

text \<open>The state after a sequence of runs, whether they succeed or not.\<close>

definition attempts :: "'c \<Rightarrow> 'b list \<Rightarrow> 'db \<Rightarrow> 'db" where
  "attempts c bs db = fold (\<lambda>b db. snd (run c b db)) bs db"

lemma attempts_good:
  "good_db c db \<Longrightarrow> \<forall>b \<in> set bs. good_bundle c b \<Longrightarrow> good_db c (attempts c bs db)"
  using keeps by (induction bs arbitrary: db) (auto simp: attempts_def act_keeps_def)

text \<open>Whatever was tried before, a run that succeeds leaves what its bundle says.\<close>

lemma converges:
  assumes "good_db c db" "\<forall>b \<in> set bs. good_bundle c b" "good_bundle c b"
    and "run c b (attempts c bs db) = (None, db')"
  shows "view c db' = want c b"
  using assms by (blast intro: sync attempts_good)

lemma idempotent:
  assumes "good_db c db" "good_bundle c b" "run c b db = (None, db1)" "run c b db1 = (None, db2)"
  shows "view c db2 = view c db1"
proof -
  from keeps [OF assms(2)] assms(1,3) have "good_db c db1" by (rule keepsD)
  with assms show ?thesis using sync by metis
qed

end

end
