(* ===== verification/ComplianceSync.thy ===== *)
theory ComplianceSync
  imports ComplianceProps HubSync
begin

text \<open>
  The policy compliance handlers as synchronisations of a hub, and the properties that follow:
  the rows of the hub after a compliance, complete, delta or minimal bundle, what happens to
  the rows of other hubs, and that handling again after failures ends with the same rows.
\<close>

section \<open>Statements keep rows named\<close>

lemma keeps_named_delete:
  "table_laws T rows key \<Longrightarrow> act_keeps (\<lambda>db. named_rows (rows db)) (exec (tb_Delete T P))"
  by (rule keeps_exec) (auto simp: named_rows_def table_delete)

lemma keeps_sync_policy:
  assumes T: "table_laws T rows compliance_key" and e: "cd_PolicyID e \<noteq> []" "distinct (event_clusters e)" "[] \<notin> set (event_clusters e)"
  shows "act_keeps (\<lambda>db. named_rows (rows db)) (sync_policy T h e s)"
proof -
  have d: "distinct (map compliance_key (event_rows h e))"
    using e by (auto simp: event_rows_key distinct_map inj_on_def)
  have "named_rows (set (event_rows h e))"
    using e by (auto simp: named_rows_def event_rows_def event_clusters_def)
  then show ?thesis
    unfolding sync_policy_eq
    by (intro keeps_intros keeps_named_delete [OF T] keeps_exec)
      (auto simp: named_rows_def table_upsert [OF T _ d])
qed

lemma keeps_sync_policies:
  assumes T: "table_laws T rows compliance_key" and "wf_bundle b" "named_bundle b" "named_rows (rows db)"
    and "sync_policies T h b sets db = (res, db')"
  shows "named_rows (rows db')"
  using assms(2-)
proof (induction b arbitrary: sets db)
  case Nil
  then show ?case by simp
next
  case (Cons e b)
  obtain err db1 where one: "sync_policy T h e (sets_at sets (cd_PolicyID e)) db = (err, db1)" by fastforce
  have "act_keeps (\<lambda>db. named_rows (rows db)) (sync_policy T h e (sets_at sets (cd_PolicyID e)))"
    using Cons.prems(1,2) by (intro keeps_sync_policy [OF T]) (auto simp: wf_bundle_def named_bundle_def)
  then have "named_rows (rows db1)" using Cons.prems(3) one by (rule keepsD)
  with Cons one show ?case
    by (auto simp: Let_def wf_bundle_def named_bundle_def split: option.splits)
qed

lemma keeps_compliance_body:
  assumes T: "table_laws T rows compliance_key" and b: "wf_bundle b" "named_bundle b"
  shows "act_keeps (\<lambda>db. named_rows (rows db)) (compliance_body T h b)"
proof -
  have "act_keeps (\<lambda>db. named_rows (rows db)) (delete_policies T ps)" for ps
    unfolding delete_policies_def by (intro keeps_intros keeps_named_delete [OF T])
  with keeps_sync_policies [OF T b] show ?thesis
    unfolding act_keeps_def compliance_body_def
    by (auto split: option.splits prod.splits sum.splits)
qed

lemma keeps_policyCompliance:
  assumes "table_laws T rows compliance_key" "wf_bundle b" "named_bundle b"
  shows "act_keeps (\<lambda>db. named_rows (rows db)) (policyCompliance_handleEvent T h (Some b))"
  using keeps_compliance_body [OF assms]
  by (auto simp: act_keeps_def policyCompliance_handleEvent_def split: option.splits)

lemma keeps_handleCompliance:
  assumes "table_laws T rows compliance_key" "wf_bundle b" "named_bundle b"
  shows "act_keeps (\<lambda>db. named_rows (rows db)) (handleCompliance T h (Some b))"
  using keeps_compliance_body [OF assms]
  by (auto simp: act_keeps_def handleCompliance_def)

section \<open>Compliance bundles synchronise a hub\<close>

definition good_compliance ::
    "(ComplianceRow, 'db) table \<times> ('db \<Rightarrow> ComplianceRow set) \<times> string \<Rightarrow> ComplianceData list \<Rightarrow> bool" where
  "good_compliance c b = (case c of (T, rows, h) \<Rightarrow>
     table_laws T rows compliance_key \<and> h \<noteq> [] \<and> wf_bundle b \<and> named_bundle b)"

definition hub_rows ::
    "(ComplianceRow, 'db) table \<times> ('db \<Rightarrow> ComplianceRow set) \<times> string \<Rightarrow> 'db \<Rightarrow> ComplianceRow set" where
  "hub_rows c db = (case c of (T, rows, h) \<Rightarrow> {r \<in> rows db. cr_LeafHubName r = h})"

definition good_rows ::
    "(ComplianceRow, 'db) table \<times> ('db \<Rightarrow> ComplianceRow set) \<times> string \<Rightarrow> 'db \<Rightarrow> bool" where
  "good_rows c db = (case c of (T, rows, h) \<Rightarrow> named_rows (rows db))"

lemma bundle_rows_hub: "r \<in> bundle_rows h b \<Longrightarrow> cr_LeafHubName r = h"
  using event_rows_sel by (fastforce simp: bundle_rows_def)

lemma body_syncs:
  assumes db: "good_rows (T, rows, h) db" and b: "good_compliance (T, rows, h) b"
    and run: "compliance_body T h b db = (None, db')"
  shows "hub_rows (T, rows, h) db' = bundle_rows h b"
  using compliance_body_rows [OF _ _ _ _ _ run, of rows] db b bundle_rows_hub
  by (auto simp: hub_rows_def good_rows_def good_compliance_def)

interpretation global_compliance: hub_sync
  "\<lambda>(T, rows, h) b. policyCompliance_handleEvent T h (Some b)"
  hub_rows "\<lambda>(T, rows, h). bundle_rows h" good_compliance good_rows
proof (unfold_locales, goal_cases)
  case (1 c db b db')
  then show ?case
    by (cases c) (simp, drule policyCompliance_ok, simp add: body_syncs)
next
  case (2 c b)
  then show ?case
    using keeps_policyCompliance by (auto simp: good_compliance_def good_rows_def [abs_def] split: prod.splits)
qed

interpretation local_compliance: hub_sync
  "\<lambda>(T, rows, h) b. handleCompliance T h (Some b)"
  hub_rows "\<lambda>(T, rows, h). bundle_rows h" good_compliance good_rows
proof (unfold_locales, goal_cases)
  case (1 c db b db')
  then show ?case
    by (cases c) (simp, drule handleCompliance_ok, simp add: body_syncs)
next
  case (2 c b)
  then show ?case
    using keeps_handleCompliance by (auto simp: good_compliance_def good_rows_def [abs_def] split: prod.splits)
qed

section \<open>The delta bundle\<close>

definition delta_fun :: "ComplianceRow \<Rightarrow> ComplianceRow \<Rightarrow> ComplianceRow" where
  "delta_fun c r =
     (if where_eq (cr_PolicyID c) (cr_PolicyID r) \<and> where_eq (cr_ClusterName c) (cr_ClusterName r)
          \<and> where_eq (cr_LeafHubName c) (cr_LeafHubName r)
      then r\<lparr>cr_Compliance := cr_Compliance c\<rparr> else r)"

text \<open>All rows of a bundle, in the order in which the delta handler updates them.\<close>

definition delta_rows :: "string \<Rightarrow> ComplianceData list \<Rightarrow> ComplianceRow list" where
  "delta_rows h b = concat (map (event_rows h) b)"

definition delta_status :: "string \<Rightarrow> ComplianceData list \<Rightarrow> ComplianceRow \<Rightarrow> ComplianceStatus" where
  "delta_status h b r =
     (case find (\<lambda>c. compliance_key c = compliance_key r) (rev (delta_rows h b)) of
        None \<Rightarrow> cr_Compliance r | Some c \<Rightarrow> cr_Compliance c)"

lemma for_each_append: "for_each f (xs @ ys) db = and_then (for_each f xs) (for_each f ys) db"
  by (induction xs arbitrary: db) (auto simp: and_then_def split: prod.splits option.splits)

lemma for_each_map: "for_each f (map g xs) db = for_each (\<lambda>x. f (g x)) xs db"
  by (induction xs arbitrary: db) (auto simp: and_then_def split: prod.splits option.splits)

lemma delta_policy_eq:
  "delta_policy T h e db =
     for_each (\<lambda>c. updateCompliance T (cr_PolicyID c) (cr_LeafHubName c) (cr_ClusterName c) (cr_Compliance c)) (event_rows h e) db"
  by (simp add: delta_policy_def Let_def event_rows_def for_each_append for_each_map and_then_def
      split: prod.splits option.splits)

lemma delta_policies_eq:
  "for_each (delta_policy T h) b db =
     for_each (\<lambda>c. updateCompliance T (cr_PolicyID c) (cr_LeafHubName c) (cr_ClusterName c) (cr_Compliance c)) (delta_rows h b) db"
  by (induction b arbitrary: db)
    (auto simp: delta_rows_def for_each_append delta_policy_eq and_then_def split: prod.splits option.splits)

lemma fold_delta_key [simp]: "compliance_key (fold delta_fun cs r) = compliance_key r"
  by (induction cs arbitrary: r) (simp_all add: delta_fun_def compliance_key_def)

lemma fold_delta_status:
  "\<forall>c \<in> set cs. named_row c \<Longrightarrow> cr_Compliance (fold delta_fun cs r) =
     (case find (\<lambda>c. compliance_key c = compliance_key r) (rev cs) of
        None \<Rightarrow> cr_Compliance r | Some c \<Rightarrow> cr_Compliance c)"
proof (induction cs rule: rev_induct)
  case Nil
  then show ?case by simp
next
  case (snoc c cs)
  have "cr_Compliance (delta_fun c x) = (if compliance_key c = compliance_key x then cr_Compliance c else cr_Compliance x)" for x
    using snoc.prems by (auto simp: delta_fun_def named_row_def compliance_key_def)
  with snoc show ?case by simp
qed

lemma delta_body_rows:
  assumes T: "table_laws T rows key" and named: "\<forall>c \<in> set (delta_rows h b). named_row c"
    and run: "for_each (delta_policy T h) b db = (None, db')"
  shows "(\<lambda>r. (compliance_key r, cr_Compliance r)) ` rows db' = (\<lambda>r. (compliance_key r, delta_status h b r)) ` rows db"
proof -
  have "rows db' = fold delta_fun (delta_rows h b) ` rows db"
    using for_each_update [OF T run [unfolded delta_policies_eq updateCompliance_def]]
    by (simp add: delta_fun_def [abs_def])
  then show ?thesis
    by (simp add: image_image fold_delta_status [OF named] delta_status_def)
qed

section \<open>The minimal bundle\<close>

lemma minimal_loop_rows:
  assumes T: "table_laws T rows aggregated_key"
    and run: "minimal_loop T h ms ids db = (Inr rest, db')" and d: "distinct (map mi_PolicyID ms)"
  shows "rows db' = {r \<in> rows db. aggregated_key r \<notin> (\<lambda>m. (mi_PolicyID m, h)) ` set ms} \<union> aggregated_row h ` set ms
       \<and> set rest = set ids - mi_PolicyID ` set ms"
  using run d
proof (induction ms arbitrary: ids db)
  case Nil
  then show ?case by simp
next
  case (Cons m ms)
  then obtain db1 where u: "tb_Upsert T [aggregated_row h m] db = Some db1"
    and rest: "minimal_loop T h ms (filter (\<lambda>x. x \<noteq> mi_PolicyID m) ids) db1 = (Inr rest, db')"
    by (auto split: option.splits)
  have "rows db1 = {r \<in> rows db. aggregated_key r \<noteq> (mi_PolicyID m, h)} \<union> {aggregated_row h m}"
    using table_upsert [OF T u] by (auto simp: aggregated_key_def aggregated_row_def)
  with Cons.IH [OF rest] Cons.prems(2) show ?case
    by (auto simp: aggregated_key_def aggregated_row_def)
qed

lemma minimal_rows:
  assumes T: "table_laws T rows aggregated_key" and h: "h \<noteq> []" and d: "distinct (map mi_PolicyID b)"
    and named: "\<forall>r \<in> rows db. ac_PolicyID r \<noteq> []"
    and run: "policyMini_handleEvent T h (Some b) db = (None, db')"
  shows "rows db' = {r \<in> rows db. ac_LeafHubName r \<noteq> h} \<union> aggregated_row h ` set b"
proof -
  from run obtain found rest db1 where f: "tb_Find T (\<lambda>r. ac_LeafHubName r = h) db = Some found"
    and loop: "minimal_loop T h b (remdups (map ac_PolicyID found)) db = (Inr rest, db1)"
    and del: "for_each (\<lambda>p. exec (tb_Delete T (\<lambda>r. where_eq p (ac_PolicyID r) \<and> where_eq h (ac_LeafHubName r)))) rest db1 = (None, db')"
    by (auto simp: policyMini_handleEvent_def split: option.splits prod.splits sum.splits)
  note l = minimal_loop_rows [OF T loop d]
  have rest: "set rest = ac_PolicyID ` {r \<in> rows db. ac_LeafHubName r = h} - mi_PolicyID ` set b"
    using l table_find [OF T f] by simp
  have "[] \<notin> set rest" using rest named by auto
  then have "rows db' = {r \<in> rows db1. \<not> (ac_PolicyID r \<in> set rest \<and> ac_LeafHubName r = h)}"
    using for_each_delete [OF T del] h by (auto simp: where_eq_def)
  then show ?thesis
    unfolding rest l [THEN conjunct1]
    by (auto simp: aggregated_key_def aggregated_row_def image_iff) metis+
qed

definition good_minimal ::
    "(AggregatedCompliance, 'db) table \<times> ('db \<Rightarrow> AggregatedCompliance set) \<times> string \<Rightarrow> MinimalCompliance list \<Rightarrow> bool" where
  "good_minimal c b = (case c of (T, rows, h) \<Rightarrow>
     table_laws T rows aggregated_key \<and> h \<noteq> [] \<and> distinct (map mi_PolicyID b) \<and> (\<forall>m \<in> set b. mi_PolicyID m \<noteq> []))"

definition aggregated_named :: "AggregatedCompliance set \<Rightarrow> bool" where
  "aggregated_named R \<longleftrightarrow> (\<forall>r \<in> R. ac_PolicyID r \<noteq> [])"

lemma keeps_minimal_loop:
  assumes T: "table_laws T rows aggregated_key" and "\<forall>m \<in> set ms. mi_PolicyID m \<noteq> []" "aggregated_named (rows db)"
    and "minimal_loop T h ms ids db = (res, db')"
  shows "aggregated_named (rows db')"
  using assms(2-)
proof (induction ms arbitrary: ids db)
  case Nil
  then show ?case by simp
next
  case (Cons m ms)
  show ?case
  proof (cases "tb_Upsert T [aggregated_row h m] db")
    case None
    with Cons.prems show ?thesis by simp
  next
    case (Some db1)
    with Cons.prems have "aggregated_named (rows db1)"
      using table_upsert [OF T Some] by (auto simp: aggregated_row_def aggregated_named_def)
    with Some Cons show ?thesis by simp
  qed
qed

lemma keeps_minimal:
  assumes T: "table_laws T rows aggregated_key" and ms: "\<forall>m \<in> set b. mi_PolicyID m \<noteq> []"
  shows "act_keeps (\<lambda>db. aggregated_named (rows db)) (policyMini_handleEvent T h (Some b))"
proof -
  have "act_keeps (\<lambda>db. aggregated_named (rows db))
      (for_each (\<lambda>p. exec (tb_Delete T (\<lambda>r. where_eq p (ac_PolicyID r) \<and> where_eq h (ac_LeafHubName r)))) ps)" for ps
    by (intro keeps_intros keeps_exec) (auto simp: table_delete [OF T] aggregated_named_def)
  with keeps_minimal_loop [OF T ms] show ?thesis
    unfolding act_keeps_def policyMini_handleEvent_def
    by (auto split: option.splits prod.splits sum.splits)
qed

interpretation minimal_compliance: hub_sync
  "\<lambda>(T, rows, h) b. policyMini_handleEvent T h (Some b)"
  "\<lambda>(T, rows, h) db. {r \<in> rows db. ac_LeafHubName r = h}"
  "\<lambda>(T, rows, h) b. aggregated_row h ` set b" good_minimal
  "\<lambda>(T, rows, h) db. aggregated_named (rows db)"
proof (unfold_locales, goal_cases)
  case (1 c db b db')
  then show ?case
    using minimal_rows [of "fst c" "fst (snd c)" "snd (snd c)" b db db']
    by (cases c) (auto simp: good_minimal_def aggregated_row_def aggregated_named_def)
next
  case (2 c b)
  then show ?case
    using keeps_minimal by (auto simp: good_minimal_def split: prod.splits)
qed

section \<open>A table for the examples\<close>

definition ex_rows :: "ComplianceRow list" where
  "ex_rows = [compliance_row ''h1'' ''p1'' Compliant ''c1'', compliance_row ''h1'' ''p1'' NonCompliant ''c2'',
     compliance_row ''h1'' ''p2'' Pending ''c1'', compliance_row ''h2'' ''p2'' Compliant ''c9'']"

definition ex_bundle :: "ComplianceData list" where
  "ex_bundle = [\<lparr>cd_PolicyID = ''p1'', cd_CompliantClusters = [''c3''], cd_NonCompliantClusters = [''c1''],
     cd_UnknownComplianceClusters = [], cd_PendingComplianceClusters = []\<rparr>]"

definition ex_complete :: "CompleteCompliance list" where
  "ex_complete = [\<lparr>cc_PolicyID = ''p1'', cc_NonCompliantClusters = [], cc_UnknownComplianceClusters = [''c1''],
     cc_PendingComplianceClusters = []\<rparr>]"

lemmas ex_defs = ex_rows_def ex_bundle_def ex_complete_def compliance_row_def

lemma ex_global_run:
  "policyCompliance_handleEvent (mem_table compliance_key) ''h1'' (Some ex_bundle) ex_rows =
     (None, [compliance_row ''h1'' ''p1'' Compliant ''c3'', compliance_row ''h1'' ''p1'' NonCompliant ''c1''])"
  by code_simp

lemma ex_complete_run:
  "policyComplete_handleEvent (mem_table compliance_key) ''h1'' (Some ex_complete) ex_rows =
     (None, [compliance_row ''h1'' ''p1'' Unknown ''c1'', compliance_row ''h1'' ''p1'' Compliant ''c2'',
     compliance_row ''h1'' ''p2'' Compliant ''c1'', compliance_row ''h2'' ''p2'' Compliant ''c9''])"
  by code_simp

lemma ex_delta_run:
  "policyDeltaCompliance_handleEvent (mem_table compliance_key) ''h1'' (Some ex_bundle) ex_rows =
     (None, [compliance_row ''h1'' ''p1'' NonCompliant ''c1'', compliance_row ''h1'' ''p1'' NonCompliant ''c2'',
     compliance_row ''h1'' ''p2'' Pending ''c1'', compliance_row ''h2'' ''p2'' Compliant ''c9''])"
  by code_simp

lemma ex_ok: "wf_bundle ex_bundle" "named_bundle ex_bundle" "named_rows (set ex_rows)" "wf_complete ex_complete"
  "inj_on compliance_key (set ex_rows)"
  by (simp_all add: ex_defs wf_bundle_def named_bundle_def named_rows_def wf_complete_def complete_listed_def
      event_clusters_def compliance_key_def inj_on_def)

definition ex_aggregated :: "AggregatedCompliance list" where
  "ex_aggregated =
     [\<lparr>ac_PolicyID = ''p2'', ac_LeafHubName = ''h1'', ac_AppliedClusters = 3, ac_NonCompliantClusters = 0\<rparr>,
      \<lparr>ac_PolicyID = ''p2'', ac_LeafHubName = ''h2'', ac_AppliedClusters = 4, ac_NonCompliantClusters = 0\<rparr>]"

definition ex_minimal :: "MinimalCompliance list" where
  "ex_minimal = [\<lparr>mi_PolicyID = ''p1'', mi_NonCompliantClusters = 1, mi_AppliedClusters = 2\<rparr>]"

lemma ex_minimal_run:
  "policyMini_handleEvent (mem_table aggregated_key) ''h1'' (Some ex_minimal) ex_aggregated =
     (None, [\<lparr>ac_PolicyID = ''p2'', ac_LeafHubName = ''h2'', ac_AppliedClusters = 4, ac_NonCompliantClusters = 0\<rparr>,
             \<lparr>ac_PolicyID = ''p1'', ac_LeafHubName = ''h1'', ac_AppliedClusters = 2, ac_NonCompliantClusters = 1\<rparr>])"
  by code_simp

section \<open>Properties\<close>

text \<open>
  C31: When a compliance handler (for global or for local policies) succeeds, the table holds exactly
  the rows of the bundle for the hub that sent it. Of the other hubs it keeps the rows of every
  policy except those that the sending hub had and no longer lists: the last deletion names the
  policy and not the hub, so these rows disappear for every hub.
\<close>

theorem compliance_bundle_replaces_hub:
  assumes "table_laws T rows compliance_key" "h \<noteq> []" "wf_bundle b" "named_bundle b" "named_rows (rows db)"
    and "policyCompliance_handleEvent T h (Some b) db = (None, db') \<or> handleCompliance T h (Some b) db = (None, db')"
  shows "rows db' = {r \<in> rows db. cr_LeafHubName r \<noteq> h \<and>
             cr_PolicyID r \<notin> cr_PolicyID ` {s \<in> rows db. cr_LeafHubName s = h} - cd_PolicyID ` set b}
           \<union> bundle_rows h b"
proof -
  from assms(6) have "compliance_body T h b db = (None, db')"
    by (auto dest: policyCompliance_ok handleCompliance_ok)
  from compliance_body_rows [OF assms(1-5) this] show ?thesis
    by (simp add: removed_policies_def)
qed

theorem compliance_bundle_replaces_hub_witness:
  "set (snd (policyCompliance_handleEvent (mem_table compliance_key) ''h1'' (Some ex_bundle) ex_rows)) =
     {r \<in> set ex_rows. cr_LeafHubName r \<noteq> ''h1'' \<and>
        cr_PolicyID r \<notin> cr_PolicyID ` {s \<in> set ex_rows. cr_LeafHubName s = ''h1''} - cd_PolicyID ` set ex_bundle}
     \<union> bundle_rows ''h1'' ex_bundle \<and>
   compliance_row ''h2'' ''p2'' Compliant ''c9'' \<in> set ex_rows \<and>
   compliance_row ''h2'' ''p2'' Compliant ''c9'' \<notin>
     set (snd (policyCompliance_handleEvent (mem_table compliance_key) ''h1'' (Some ex_bundle) ex_rows))"
proof (intro conjI)
  show "set (snd (policyCompliance_handleEvent (mem_table compliance_key) ''h1'' (Some ex_bundle) ex_rows)) =
     {r \<in> set ex_rows. cr_LeafHubName r \<noteq> ''h1'' \<and>
        cr_PolicyID r \<notin> cr_PolicyID ` {s \<in> set ex_rows. cr_LeafHubName s = ''h1''} - cd_PolicyID ` set ex_bundle}
     \<union> bundle_rows ''h1'' ex_bundle"
    unfolding ex_global_run snd_conv
    by (rule compliance_bundle_replaces_hub [OF mem_table_laws _ ex_ok(1-3) disjI1 [OF ex_global_run]]) simp
qed (simp_all only: ex_global_run snd_conv, simp_all add: ex_defs)

text \<open>
  A handler may fail between two statements and is then called again, possibly with a newer
  bundle. Whatever sequence of such attempts came before, an attempt that succeeds leaves exactly
  the rows of its bundle for the hub: a failure never has a lasting effect on the rows of the hub.
\<close>

theorem compliance_retries_converge:
  assumes "table_laws T rows compliance_key" "h \<noteq> []" "\<forall>b' \<in> set bs. wf_bundle b' \<and> named_bundle b'"
    and "wf_bundle b" "named_bundle b" "named_rows (rows db)"
    and "policyCompliance_handleEvent T h (Some b)
           (fold (\<lambda>b db. snd (policyCompliance_handleEvent T h (Some b) db)) bs db) = (None, db')"
  shows "{r \<in> rows db'. cr_LeafHubName r = h} = bundle_rows h b"
  using global_compliance.converges [of "(T, rows, h)" db bs b db'] assms
  by (simp add: global_compliance.attempts_def good_compliance_def good_rows_def hub_rows_def)

theorem compliance_retries_converge_witness:
  "{r \<in> set (snd (policyCompliance_handleEvent (mem_table compliance_key) ''h1'' (Some ex_bundle) ex_rows)).
      cr_LeafHubName r = ''h1''} = bundle_rows ''h1'' ex_bundle"
  using compliance_retries_converge [OF mem_table_laws, of "''h1''" "[]" ex_bundle ex_rows] ex_ok(1-3)
  by (simp add: ex_global_run)

text \<open>
  C32: When a complete handler (for global or for local policies) succeeds, no row is added or
  removed, the rows of other hubs keep their status, and every row of the hub has the status the
  bundle gives it: the one under which its cluster is listed, and compliant when the policy or
  the cluster is not listed.
\<close>

theorem complete_bundle_sets_status:
  assumes "table_laws T rows compliance_key" "inj_on compliance_key (rows db)" "h \<noteq> []" "wf_complete b" "named_rows (rows db)"
    and "policyComplete_handleEvent T h (Some b) db = (None, db') \<or> handleCompleteCompliance T h (Some b) db = (None, db')"
  shows "(\<lambda>r. (compliance_key r, cr_Compliance r)) ` rows db' =
         (\<lambda>r. (compliance_key r, complete_status h b r)) ` rows db"
proof -
  from assms(6) obtain m where
    "getComplianceClusterSets T (\<lambda>r. cr_LeafHubName r = h \<and> cr_Compliance r \<noteq> Compliant) db = Some m"
    "complete_body T h b m db = (None, db')"
    by (auto simp: policyComplete_handleEvent_def handleCompleteCompliance_def split: option.splits)
  from complete_body_rows [OF assms(1-5) this] show ?thesis .
qed

theorem complete_bundle_sets_status_witness:
  "(\<lambda>r. (compliance_key r, complete_status ''h1'' ex_complete r)) ` set ex_rows =
     {((''p1'', ''c1'', ''h1''), Unknown), ((''p1'', ''c2'', ''h1''), Compliant),
      ((''p2'', ''c1'', ''h1''), Compliant), ((''p2'', ''c9'', ''h2''), Compliant)}"
  using complete_bundle_sets_status [OF mem_table_laws ex_ok(5) _ ex_ok(4,3) disjI1 [OF ex_complete_run], symmetric]
  by (simp add: compliance_key_def)

text \<open>
  A delta bundle is applied as a whole or not at all. When it is applied no row is added or
  removed, each row that the bundle lists has the status under which it is listed last, and every
  other row keeps its status.
\<close>

theorem delta_bundle_updates_listed:
  assumes "table_laws T rows compliance_key" "\<forall>c \<in> set (delta_rows h b). named_row c"
    and "policyDeltaCompliance_handleEvent T h (Some b) db = (res, db')"
  shows "(case res of
            Some e \<Rightarrow> db' = db
          | None \<Rightarrow> (\<lambda>r. (compliance_key r, cr_Compliance r)) ` rows db' =
                    (\<lambda>r. (compliance_key r, delta_status h b r)) ` rows db)"
proof (cases res)
  case None
  with assms(3) have "for_each (delta_policy T h) b db = (None, db')"
    by (simp add: policyDeltaCompliance_handleEvent_def)
  from delta_body_rows [OF assms(1,2) this] None show ?thesis by simp
next
  case (Some e)
  with assms(3) show ?thesis
    by (auto simp: policyDeltaCompliance_handleEvent_def dest: transaction_error)
qed

theorem delta_bundle_updates_listed_witness:
  "(\<lambda>r. (compliance_key r, delta_status ''h1'' ex_bundle r)) ` set ex_rows =
     {((''p1'', ''c1'', ''h1''), NonCompliant), ((''p1'', ''c2'', ''h1''), NonCompliant),
      ((''p2'', ''c1'', ''h1''), Pending), ((''p2'', ''c9'', ''h2''), Compliant)}"
proof -
  have "\<forall>c \<in> set (delta_rows ''h1'' ex_bundle). named_row c"
    by (simp add: delta_rows_def event_rows_def ex_defs named_row_def)
  from delta_bundle_updates_listed [OF mem_table_laws this ex_delta_run] show ?thesis
    by (simp add: compliance_key_def)
qed

text \<open>
  When the minimal compliance handler succeeds, the aggregated rows of the hub are exactly those
  of the bundle and the rows of all other hubs are the ones from before.
\<close>

theorem minimal_bundle_replaces_hub:
  assumes "table_laws T rows aggregated_key" "h \<noteq> []" "distinct (map mi_PolicyID b)"
    and "\<forall>r \<in> rows db. ac_PolicyID r \<noteq> []"
    and "policyMini_handleEvent T h (Some b) db = (None, db')"
  shows "rows db' = {r \<in> rows db. ac_LeafHubName r \<noteq> h} \<union> aggregated_row h ` set b"
  using assms by (rule minimal_rows)

theorem minimal_bundle_replaces_hub_witness:
  "{r \<in> set ex_aggregated. ac_LeafHubName r \<noteq> ''h1''} \<union> aggregated_row ''h1'' ` set ex_minimal =
   {\<lparr>ac_PolicyID = ''p2'', ac_LeafHubName = ''h2'', ac_AppliedClusters = 4, ac_NonCompliantClusters = 0\<rparr>,
    \<lparr>ac_PolicyID = ''p1'', ac_LeafHubName = ''h1'', ac_AppliedClusters = 2, ac_NonCompliantClusters = 1\<rparr>}"
proof -
  have "distinct (map mi_PolicyID ex_minimal)" "\<forall>r \<in> set ex_aggregated. ac_PolicyID r \<noteq> []"
    by (simp_all add: ex_minimal_def ex_aggregated_def)
  from minimal_bundle_replaces_hub [OF mem_table_laws _ this ex_minimal_run] show ?thesis by simp
qed

end
