(* ===== verification/StatusHandlers.thy ===== *)
theory StatusHandlers
  imports Compliance HubSync
begin

text \<open>
  The remaining status handlers of \<^verbatim>\<open>manager/pkg/status/handlers\<close> that write to the database:
  managed clusters, local policies, the generic objects, hub information, heartbeats, security
  alerts and the three kinds of events.

  Kubernetes objects are a parameter type with the fields that the handlers read; their
  JSON text is a parameter type \<open>'j\<close>, with the encoder \<open>marshal\<close> (\<^const>\<open>None\<close> on an error) and
  the JSON operators of the SQL queries as arguments.
\<close>

section \<open>The difference between a bundle and the table\<close>

text \<open>
  The loop of the managed cluster and the local policy handler. \<open>ident\<close> identifies an object, \<open>skip\<close>
  tells the identifiers that are left out, \<open>row\<close> builds the row. The result is the batch to write
  and what remains of the map from identifiers to versions.
\<close>

fun diff_loop ::
    "('o \<Rightarrow> string) \<Rightarrow> ('o \<Rightarrow> string) \<Rightarrow> (string \<Rightarrow> bool) \<Rightarrow> ('o \<Rightarrow> 'row option) \<Rightarrow> 'o list \<Rightarrow> (string, string) gomap
       \<Rightarrow> handler_error + 'row list \<times> (string, string) gomap" where
  "diff_loop ident version skip row [] m = Inr ([], m)"
| "diff_loop ident version skip row (object # data) m =
     (if skip (ident object) then diff_loop ident version skip row data m
      else case row object of
        None \<Rightarrow> Inl MarshalError
      | Some r \<Rightarrow>
          (case map_of m (ident object) of
             None \<Rightarrow> map_sum id (\<lambda>(batch, rest). (r # batch, rest)) (diff_loop ident version skip row data m)
           | Some versionFromDB \<Rightarrow>
               if version object = versionFromDB
               then diff_loop ident version skip row data (AList.delete (ident object) m)
               else map_sum id (\<lambda>(batch, rest). (r # batch, rest))
                      (diff_loop ident version skip row data (AList.delete (ident object) m))))"

section \<open>Managed clusters\<close>

record 'j ManagedCluster =
  mc_LeafHubName :: string
  mc_ClusterID :: string
  mc_Payload :: 'j
  mc_Error :: string

record cluster_object =
  co_ClusterClaims :: "(string \<times> string) list"
  co_ResourceVersion :: string

fun cluster_id_of :: "(string \<times> string) list \<Rightarrow> string" where
  "cluster_id_of [] = []"
| "cluster_id_of ((name, v) # claims) = (if name = ''id.k8s.io'' then v else cluster_id_of claims)"

definition getClusterIdToVersionMap ::
    "('j ManagedCluster, 'db) table \<Rightarrow> ('j \<Rightarrow> string) \<Rightarrow> string \<Rightarrow> 'db \<Rightarrow> (string, string) gomap option" where
  "getClusterIdToVersionMap T version_at leafHubName db =
     map_option (\<lambda>found. fold (\<lambda>r m. AList.update (mc_ClusterID r) (version_at (mc_Payload r)) m) found [])
       (tb_Find T (\<lambda>r. where_eq leafHubName (mc_LeafHubName r)) db)"

definition managedCluster_row ::
    "(cluster_object \<Rightarrow> 'j option) \<Rightarrow> string \<Rightarrow> cluster_object \<Rightarrow> 'j ManagedCluster option" where
  "managedCluster_row marshal leafHubName cluster =
     map_option (\<lambda>payload. \<lparr>mc_LeafHubName = leafHubName, mc_ClusterID = cluster_id_of (co_ClusterClaims cluster),
                           mc_Payload = payload, mc_Error = ErrorNone\<rparr>) (marshal cluster)"

definition managedCluster_handleEvent ::
    "('j ManagedCluster, 'db) table \<Rightarrow> (cluster_object \<Rightarrow> 'j option) \<Rightarrow> ('j \<Rightarrow> string) \<Rightarrow> string
       \<Rightarrow> cluster_object list option \<Rightarrow> 'db act" where
  "managedCluster_handleEvent T marshal version_at leafHubName payload db =
     (case payload of
        None \<Rightarrow> (Some ParseError, db)
      | Some data \<Rightarrow>
          (case getClusterIdToVersionMap T version_at leafHubName db of
             None \<Rightarrow> (Some DbError, db)
           | Some clusterIdToVersionMapFromDB \<Rightarrow>
               (case diff_loop (\<lambda>c. cluster_id_of (co_ClusterClaims c)) co_ResourceVersion (\<lambda>i. i = [])
                       (managedCluster_row marshal leafHubName) data clusterIdToVersionMapFromDB of
                  Inl err \<Rightarrow> (Some err, db)
                | Inr (batch, rest) \<Rightarrow>
                    and_then (exec (tb_Upsert T batch))
                      (transaction (for_each
                         (\<lambda>clusterId. exec (tb_Delete T
                            (\<lambda>r. where_eq leafHubName (mc_LeafHubName r) \<and> where_eq clusterId (mc_ClusterID r))))
                         (map fst rest))) db)))"

section \<open>Local policies\<close>

record 'j LocalSpecPolicy =
  lp_LeafHubName :: string
  lp_Payload :: 'j
  lp_PolicyID :: string

record policy_object =
  po_UID :: string
  po_ResourceVersion :: string

definition getPolicyIdToVersionMap ::
    "('j LocalSpecPolicy, 'db) table \<Rightarrow> ('j \<Rightarrow> string) \<Rightarrow> ('j \<Rightarrow> string) \<Rightarrow> string \<Rightarrow> 'db
       \<Rightarrow> (string, string) gomap option" where
  "getPolicyIdToVersionMap T uid_at version_at leafHubName db =
     map_option (\<lambda>found. fold (\<lambda>r m. AList.update (uid_at (lp_Payload r)) (version_at (lp_Payload r)) m) found [])
       (tb_Find T (\<lambda>r. where_eq leafHubName (lp_LeafHubName r)) db)"

definition localPolicy_row ::
    "(policy_object \<Rightarrow> 'j option) \<Rightarrow> string \<Rightarrow> policy_object \<Rightarrow> 'j LocalSpecPolicy option" where
  "localPolicy_row marshal leafHubName specificObj =
     map_option (\<lambda>payload. \<lparr>lp_LeafHubName = leafHubName, lp_Payload = payload, lp_PolicyID = po_UID specificObj\<rparr>)
       (marshal specificObj)"

definition localPolicySpec_handleEvent ::
    "('j LocalSpecPolicy, 'db) table \<Rightarrow> (policy_object \<Rightarrow> 'j option) \<Rightarrow> ('j \<Rightarrow> string) \<Rightarrow> ('j \<Rightarrow> string) \<Rightarrow> string
       \<Rightarrow> policy_object list option \<Rightarrow> 'db act" where
  "localPolicySpec_handleEvent T marshal uid_at version_at leafHubName payload db =
     (case getPolicyIdToVersionMap T uid_at version_at leafHubName db of
        None \<Rightarrow> (Some DbError, db)
      | Some policyIdToVersionMapFromDB \<Rightarrow>
          (case payload of
             None \<Rightarrow> (Some ParseError, db)
           | Some data \<Rightarrow>
               (case diff_loop po_UID po_ResourceVersion (\<lambda>_. False) (localPolicy_row marshal leafHubName)
                       data policyIdToVersionMapFromDB of
                  Inl err \<Rightarrow> (Some err, db)
                | Inr (batch, rest) \<Rightarrow>
                    and_then (exec (tb_Upsert T batch))
                      (transaction (for_each
                         (\<lambda>uid. exec (tb_Delete T (\<lambda>r. where_eq uid (lp_PolicyID r)))) (map fst rest))) db)))"

section \<open>Generic objects\<close>

record 'j generic_row =
  gr_ID :: string
  gr_LeafHubName :: string
  gr_Payload :: 'j

record generic_object =
  go_Annotations :: "(string, string) gomap"
  go_UID :: string
  go_ResourceVersion :: string

definition OriginOwnerReferenceAnnotation :: string where
  "OriginOwnerReferenceAnnotation = ''global-hub.open-cluster-management.io/origin-ownerreference-uid''"

definition getGenericObjectUID :: "generic_object \<Rightarrow> string" where
  "getGenericObjectUID resourceObject =
     (case map_of (go_Annotations resourceObject) OriginOwnerReferenceAnnotation of
        Some originOwnerReference \<Rightarrow> originOwnerReference
      | None \<Rightarrow> go_UID resourceObject)"

text \<open>
  The quotes of the query enclose the alias too: the JSON operator looks up a field of that
  name, which no object has, and the column \<^verbatim>\<open>resource_version\<close> does not exist in the answer.
  The version of every object is the empty string.
\<close>

definition GetIdToVersionByHub :: "('j generic_row, 'db) table \<Rightarrow> string \<Rightarrow> 'db \<Rightarrow> (string, string) gomap option" where
  "GetIdToVersionByHub T hubName db =
     map_option (\<lambda>found. fold (\<lambda>r m. AList.update (gr_ID r) [] m) found [])
       (tb_Find T (\<lambda>r. gr_LeafHubName r = hubName) db)"

definition dao_Insert ::
    "('j generic_row, 'db) table \<Rightarrow> (generic_object \<Rightarrow> 'j option) \<Rightarrow> string \<Rightarrow> string \<Rightarrow> generic_object \<Rightarrow> 'db act" where
  "dao_Insert T marshal hubName uid obj db =
     (case marshal obj of
        None \<Rightarrow> (Some MarshalError, db)
      | Some payload \<Rightarrow> exec (tb_Insert T \<lparr>gr_ID = uid, gr_LeafHubName = hubName, gr_Payload = payload\<rparr>) db)"

definition dao_Update ::
    "('j generic_row, 'db) table \<Rightarrow> (generic_object \<Rightarrow> 'j option) \<Rightarrow> string \<Rightarrow> string \<Rightarrow> generic_object \<Rightarrow> 'db act" where
  "dao_Update T marshal hubName uid obj db =
     (case marshal obj of
        None \<Rightarrow> (Some MarshalError, db)
      | Some payload \<Rightarrow>
          exec (tb_Update T (\<lambda>r. gr_LeafHubName r = hubName \<and> gr_ID r = uid) (\<lambda>r. r\<lparr>gr_Payload := payload\<rparr>)) db)"

definition dao_Delete :: "('j generic_row, 'db) table \<Rightarrow> string \<Rightarrow> string \<Rightarrow> 'db act" where
  "dao_Delete T hubName uid = exec (tb_Delete T (\<lambda>r. gr_LeafHubName r = hubName \<and> gr_ID r = uid))"

fun generic_loop ::
    "('j generic_row, 'db) table \<Rightarrow> (generic_object \<Rightarrow> 'j option) \<Rightarrow> string \<Rightarrow> generic_object list
       \<Rightarrow> (string, string) gomap \<Rightarrow> 'db act" where
  "generic_loop T marshal leafHubName [] m db = for_each (dao_Delete T leafHubName) (map fst m) db"
| "generic_loop T marshal leafHubName (object # data) m db =
     (let uid = getGenericObjectUID object in
      case map_of m uid of
        None \<Rightarrow> and_then (dao_Insert T marshal leafHubName uid object)
                         (generic_loop T marshal leafHubName data m) db
      | Some versionFromDB \<Rightarrow>
          if go_ResourceVersion object = versionFromDB
          then generic_loop T marshal leafHubName data (AList.delete uid m) db
          else and_then (dao_Update T marshal leafHubName uid object)
                        (generic_loop T marshal leafHubName data (AList.delete uid m)) db)"

definition generic_handleEvent ::
    "('j generic_row, 'db) table \<Rightarrow> (generic_object \<Rightarrow> 'j option) \<Rightarrow> string \<Rightarrow> generic_object list option \<Rightarrow> 'db act" where
  "generic_handleEvent T marshal leafHubName payload db =
     (case payload of
        None \<Rightarrow> (Some ParseError, db)
      | Some data \<Rightarrow>
          (case GetIdToVersionByHub T leafHubName db of
             None \<Rightarrow> (Some DbError, db)
           | Some m \<Rightarrow> transaction (generic_loop T marshal leafHubName data m) db))"

section \<open>Hubs\<close>

record 'j LeafHub =
  lh_LeafHubName :: string
  lh_ClusterID :: string
  lh_Payload :: 'j

record HubClusterInfo =
  hi_ConsoleURL :: string
  hi_GrafanaURL :: string
  hi_ClusterId :: string

definition DefaultClusterId :: string where
  "DefaultClusterId = ''00000000-0000-0000-0000-000000000000''"

text \<open>The columns of the conflict clause.\<close>

definition leaf_hub_key :: "'j LeafHub \<Rightarrow> string \<times> string" where
  "leaf_hub_key r = (lh_ClusterID r, lh_LeafHubName r)"

text \<open>A field of the update with its zero value is left out; the cluster identifier is never empty here.\<close>

definition hubClusterInfo_handleEvent ::
    "('j LeafHub, 'db) table \<Rightarrow> (HubClusterInfo \<Rightarrow> 'j option) \<Rightarrow> string \<Rightarrow> HubClusterInfo option \<Rightarrow> 'db act" where
  "hubClusterInfo_handleEvent T marshal leafHubName data db =
     (case tb_Find T (\<lambda>r. where_eq leafHubName (lh_LeafHubName r)) db of
        None \<Rightarrow> (Some DbError, db)
      | Some existingObjects \<Rightarrow>
          (case data of
             None \<Rightarrow> (Some ParseError, db)
           | Some hubInfoData \<Rightarrow>
               let clusterId = (if length (hi_ClusterId hubInfoData) \<noteq> 0 then hi_ClusterId hubInfoData
                                else DefaultClusterId)
               in case marshal hubInfoData of
                    None \<Rightarrow> (Some MarshalError, db)
                  | Some payload \<Rightarrow>
                      if length existingObjects = 0
                      then exec (tb_Upsert T
                             [\<lparr>lh_LeafHubName = leafHubName, lh_ClusterID = clusterId, lh_Payload = payload\<rparr>]) db
                      else exec (tb_Update T (\<lambda>r. where_eq leafHubName (lh_LeafHubName r))
                             (\<lambda>r. r\<lparr>lh_LeafHubName := (if leafHubName = [] then lh_LeafHubName r else leafHubName),
                                    lh_ClusterID := clusterId, lh_Payload := payload\<rparr>)) db))"

text \<open>Times are integers; the status column has its default and is never written here.\<close>

record LeafHubHeartbeat =
  hb_Name :: string
  hb_LastUpdateAt :: int

definition handleHeartbeatEvent :: "(LeafHubHeartbeat, 'db) table \<Rightarrow> int \<Rightarrow> string \<Rightarrow> 'db act" where
  "handleHeartbeatEvent T now source = exec (tb_Upsert T [\<lparr>hb_Name = source, hb_LastUpdateAt = now\<rparr>])"

record SecurityAlertCounts_wire =
  sw_Low :: int
  sw_Medium :: int
  sw_High :: int
  sw_Critical :: int
  sw_DetailURL :: string
  sw_Source :: string

record SecurityAlertCounts =
  sa_HubName :: string
  sa_Low :: int
  sa_Medium :: int
  sa_High :: int
  sa_Critical :: int
  sa_DetailURL :: string
  sa_Source :: string

definition alert_key :: "SecurityAlertCounts \<Rightarrow> string \<times> string" where
  "alert_key r = (sa_HubName r, sa_Source r)"

definition alert_row :: "string \<Rightarrow> SecurityAlertCounts_wire \<Rightarrow> SecurityAlertCounts" where
  "alert_row leafHubName w =
     \<lparr>sa_HubName = leafHubName, sa_Low = sw_Low w, sa_Medium = sw_Medium w, sa_High = sw_High w,
      sa_Critical = sw_Critical w, sa_DetailURL = sw_DetailURL w, sa_Source = sw_Source w\<rparr>"

definition securityAlertCounts_handleEvent ::
    "(SecurityAlertCounts, 'db) table \<Rightarrow> string \<Rightarrow> SecurityAlertCounts_wire option \<Rightarrow> 'db act" where
  "securityAlertCounts_handleEvent T leafHubName data db =
     (case data of
        None \<Rightarrow> (Some ParseError, db)
      | Some wireModel \<Rightarrow> exec (tb_Upsert T [alert_row leafHubName wireModel]) db)"

section \<open>Events\<close>

record ManagedClusterEvent =
  ce_EventNamespace :: string
  ce_EventName :: string
  ce_ClusterName :: string
  ce_ClusterID :: string
  ce_LeafHubName :: string
  ce_Message :: string
  ce_Reason :: string
  ce_ReportingController :: string
  ce_ReportingInstance :: string
  ce_EventType :: string
  ce_CreatedAt :: int

definition cluster_event_key :: "ManagedClusterEvent \<Rightarrow> string \<times> string \<times> int" where
  "cluster_event_key e = (ce_LeafHubName e, ce_EventName e, ce_CreatedAt e)"

text \<open>
  The bundle is a slice of structs, so the loop that sets the hub name assigns to a copy of each
  event and leaves the slice as it is.
\<close>

definition managedClusterEvent_handleEvent ::
    "(ManagedClusterEvent, 'db) table \<Rightarrow> string \<Rightarrow> ManagedClusterEvent list option \<Rightarrow> 'db act" where
  "managedClusterEvent_handleEvent T leafHubName payload db =
     (case payload of
        None \<Rightarrow> (Some ParseError, db)
      | Some managedClusterEvents \<Rightarrow>
          let copies = map (\<lambda>e. e\<lparr>ce_LeafHubName := leafHubName\<rparr>) managedClusterEvents
          in if length managedClusterEvents \<le> 0 then (None, db)
             else exec (tb_InsertIgnore T managedClusterEvents) db)"

definition GetDatabaseCompliance :: "string \<Rightarrow> ComplianceStatus" where
  "GetDatabaseCompliance policyCompliance =
     (if policyCompliance = ''Compliant'' then Compliant
      else if policyCompliance = ''NonCompliant'' then NonCompliant
      else if policyCompliance = ''Pending'' then Pending
      else Unknown)"

text \<open>
  The encoder of an event source is an argument: on an error the handlers log it and store what
  the encoder returned.
\<close>

record 's BaseEvent =
  be_EventName :: string
  be_EventNamespace :: string
  be_Message :: string
  be_Reason :: string
  be_Count :: "32 word"
  be_Source :: 's
  be_CreatedAt :: int

record 's RootPolicyEvent = "'s BaseEvent" +
  re_PolicyID :: string
  re_Compliance :: string

record 's ReplicatedPolicyEvent = "'s BaseEvent" +
  pe_PolicyID :: string
  pe_ClusterID :: string
  pe_ClusterName :: string
  pe_Compliance :: string

record 'j BaseLocalPolicyEvent =
  bp_EventName :: string
  bp_EventNamespace :: string
  bp_PolicyID :: string
  bp_Message :: string
  bp_LeafHubName :: string
  bp_Reason :: string
  bp_Count :: int
  bp_Source :: 'j
  bp_CreatedAt :: int
  bp_Compliance :: ComplianceStatus

record 'j LocalReplicatedPolicyEvent = "'j BaseLocalPolicyEvent" +
  rp_ClusterID :: string
  rp_ClusterName :: string

definition policy_event_key :: "('j, 'more) BaseLocalPolicyEvent_scheme \<Rightarrow> string \<times> int \<times> int" where
  "policy_event_key r = (bp_EventName r, bp_Count r, bp_CreatedAt r)"

definition root_event_row :: "('s \<Rightarrow> 'j) \<Rightarrow> string \<Rightarrow> 's RootPolicyEvent \<Rightarrow> 'j BaseLocalPolicyEvent" where
  "root_event_row sourceJSONB leafHubName element =
     \<lparr>bp_EventName = be_EventName element, bp_EventNamespace = be_EventNamespace element,
      bp_PolicyID = re_PolicyID element, bp_Message = be_Message element, bp_LeafHubName = leafHubName,
      bp_Reason = be_Reason element, bp_Count = sint (be_Count element), bp_Source = sourceJSONB (be_Source element),
      bp_CreatedAt = be_CreatedAt element, bp_Compliance = GetDatabaseCompliance (re_Compliance element)\<rparr>"

definition localRootPolicyEvent_handleEvent ::
    "('j BaseLocalPolicyEvent, 'db) table \<Rightarrow> ('s \<Rightarrow> 'j) \<Rightarrow> string \<Rightarrow> 's RootPolicyEvent list option \<Rightarrow> 'db act" where
  "localRootPolicyEvent_handleEvent T sourceJSONB leafHubName payload db =
     (case payload of
        None \<Rightarrow> (Some ParseError, db)
      | Some data \<Rightarrow>
          if length data = 0 then (Some EmptyPayload, db)
          else exec (tb_Upsert T (map (root_event_row sourceJSONB leafHubName)
                 (filter (\<lambda>element. re_PolicyID element \<noteq> []) data))) db)"

definition replicated_event_row ::
    "('s \<Rightarrow> 'j) \<Rightarrow> string \<Rightarrow> 's ReplicatedPolicyEvent \<Rightarrow> 'j LocalReplicatedPolicyEvent" where
  "replicated_event_row sourceJSONB leafHubName e =
     \<lparr>bp_EventName = be_EventName e, bp_EventNamespace = be_EventNamespace e,
      bp_PolicyID = pe_PolicyID e, bp_Message = be_Message e, bp_LeafHubName = leafHubName,
      bp_Reason = be_Reason e, bp_Count = sint (be_Count e), bp_Source = sourceJSONB (be_Source e),
      bp_CreatedAt = be_CreatedAt e, bp_Compliance = GetDatabaseCompliance (pe_Compliance e),
      rp_ClusterID = pe_ClusterID e, rp_ClusterName = pe_ClusterName e\<rparr>"

definition localReplicatedPolicyEvent_handleEvent ::
    "('j LocalReplicatedPolicyEvent, 'db) table \<Rightarrow> ('s \<Rightarrow> 'j) \<Rightarrow> string \<Rightarrow> 's ReplicatedPolicyEvent list option \<Rightarrow> 'db act" where
  "localReplicatedPolicyEvent_handleEvent T sourceJSONB leafHubName payload db =
     (case payload of
        None \<Rightarrow> (Some ParseError, db)
      | Some data \<Rightarrow>
          let batchLocalPolicyEvents = map (replicated_event_row sourceJSONB leafHubName) data
          in if length batchLocalPolicyEvents \<le> 0 then (None, db)
             else exec (tb_InsertIgnore T batchLocalPolicyEvents) db)"

end
