(* ===== verification/StatusSync.thy ===== *)
theory StatusSync
  imports StatusHandlers
begin

text \<open>
  What the handlers of \<open>StatusHandlers\<close> leave in their tables. The managed cluster, the local
  policy and the generic handler synchronise a hub; the others write single rows or append events.
\<close>

section \<open>The difference loop\<close>

text \<open>The identifiers that the loop does not skip.\<close>

definition kept_objects :: "('o \<Rightarrow> string) \<Rightarrow> (string \<Rightarrow> bool) \<Rightarrow> 'o list \<Rightarrow> 'o list" where
  "kept_objects ident skip data = filter (\<lambda>x. \<not> skip (ident x)) data"

lemma diff_loop_spec:
  assumes "diff_loop ident version skip row data m = Inr (batch, rest)"
    and "distinct (map ident (kept_objects ident skip data))"
  shows "batch = map (the \<circ> row) (filter (\<lambda>x. map_of m (ident x) \<noteq> Some (version x)) (kept_objects ident skip data)) \<and>
         (\<forall>x \<in> set (kept_objects ident skip data). row x \<noteq> None) \<and>
         fst ` set rest = fst ` set m - ident ` set (kept_objects ident skip data)"
  using assms
proof (induction data arbitrary: m batch rest)
  case Nil
  then show ?case by (simp add: kept_objects_def)
next
  case (Cons x data)
  show ?case
  proof (cases "skip (ident x)")
    case True
    with Cons show ?thesis by (simp add: kept_objects_def)
  next
    case False
    with Cons.prems obtain r where r: "row x = Some r" by (auto split: option.splits)
    let ?m = "if map_of m (ident x) = None then m else AList.delete (ident x) m"
    from Cons.prems(1) False r obtain batch' where
      rec: "diff_loop ident version skip row data ?m = Inr (batch', rest)"
      and b: "batch = (if map_of m (ident x) = Some (version x) then batch' else r # batch')"
      by (cases "diff_loop ident version skip row data ?m") (auto split: option.splits if_splits)
    have d: "distinct (map ident (kept_objects ident skip data))" "ident x \<notin> ident ` set (kept_objects ident skip data)"
      using Cons.prems(2) False by (auto simp: kept_objects_def)
    have same: "map_of ?m (ident y) = map_of m (ident y)" if "y \<in> set (kept_objects ident skip data)" for y
      using that d(2) by (auto simp: delete_conv) (metis image_eqI)
    have keys: "fst ` set ?m - ident ` set (kept_objects ident skip data) = fst ` set m - insert (ident x) (ident ` set (kept_objects ident skip data))"
      by (auto simp: keys_delete map_of_eq_None_iff)
    note ih = Cons.IH [OF rec d(1)]
    have k: "kept_objects ident skip (x # data) = x # kept_objects ident skip data"
      using False by (simp add: kept_objects_def)
    have eq: "filter (\<lambda>y. map_of ?m (ident y) \<noteq> Some (version y)) (kept_objects ident skip data) =
        filter (\<lambda>y. map_of m (ident y) \<noteq> Some (version y)) (kept_objects ident skip data)"
      by (rule filter_cong [OF refl]) (simp only: same)
    show ?thesis
      using ih unfolding k eq list.set image_insert keys b by (simp add: r)
  qed
qed

section \<open>Maps from identifiers to versions\<close>

lemma version_map_keys: "fst ` set (fold (\<lambda>r m. AList.update (f r) (g r) m) rs m) = fst ` set m \<union> f ` set rs"
  by (induction rs arbitrary: m) (auto simp: dom_update)

lemma version_map_Some:
  "map_of (fold (\<lambda>r m. AList.update (f r) (g r) m) rs m) i = Some v \<Longrightarrow>
   map_of m i = Some v \<or> (\<exists>r \<in> set rs. f r = i \<and> g r = v)"
  by (induction rs arbitrary: m) (fastforce simp: update_conv split: if_splits)+

lemma version_map_iff:
  assumes "inj_on f (set rs)"
  shows "map_of (fold (\<lambda>r m. AList.update (f r) (g r) m) rs []) i = Some v \<longleftrightarrow> (\<exists>r \<in> set rs. f r = i \<and> g r = v)"
    (is "?L \<longleftrightarrow> ?R")
proof
  assume ?L
  then show ?R using version_map_Some [of f g rs "[]" i v] by simp
next
  assume ?R
  then obtain r where r: "r \<in> set rs" "f r = i" "g r = v" by blast
  let ?m = "fold (\<lambda>r m. AList.update (f r) (g r) m) rs []"
  have "i \<in> fst ` set ?m" using r by (auto simp: version_map_keys)
  then obtain w where w: "map_of ?m i = Some w"
    by (metis map_of_eq_None_iff option.exhaust)
  with version_map_Some [of f g rs "[]" i w] obtain s where "s \<in> set rs" "f s = i" "g s = w" by auto
  with assms r have "w = v" by (auto dest: inj_onD)
  with w show ?L by simp
qed

lemma hub_versions:
  assumes inj: "inj_on f R" and rs: "set rs = {r \<in> R. hub r = h}"
  shows "map_of (fold (\<lambda>r m. AList.update (f r) (g r) m) rs []) i = Some v \<longleftrightarrow> (\<exists>r \<in> R. hub r = h \<and> f r = i \<and> g r = v)"
proof -
  have "inj_on f (set rs)" using inj unfolding rs by (rule inj_on_subset) auto
  then have "map_of (fold (\<lambda>r m. AList.update (f r) (g r) m) rs []) i = Some v \<longleftrightarrow> (\<exists>r \<in> set rs. f r = i \<and> g r = v)"
    by (rule version_map_iff)
  also have "\<dots> \<longleftrightarrow> (\<exists>r \<in> R. hub r = h \<and> f r = i \<and> g r = v)" unfolding rs by blast
  finally show ?thesis .
qed

section \<open>Writing the difference\<close>

text \<open>
  \<open>K\<close> are the objects of the bundle, \<open>N\<close> those that differ from the table \<open>R\<close>, \<open>B\<close> the rows that are
  written for them.
\<close>

lemma diff_view:
  assumes inj: "inj_on rid R" and idK: "inj_on ident K" and NK: "N \<subseteq> K" and B: "B = b ` N"
    and sel: "\<And>x. x \<in> K \<Longrightarrow> rid (b x) = ident x \<and> rhub (b x) = h \<and> rver (b x) = version x"
    and old: "\<And>x. x \<in> K - N \<Longrightarrow> \<exists>s \<in> R. rhub s = h \<and> rid s = ident x \<and> rver s = version x"
    and R': "R' = {r \<in> R. rid r \<notin> ident ` N \<and> (rhub r = h \<longrightarrow> rid r \<in> ident ` K)} \<union> B"
  shows "(\<lambda>r. (rid r, rver r)) ` {r \<in> R'. rhub r = h} = (\<lambda>x. (ident x, version x)) ` K"
    and "{r \<in> R'. rhub r \<noteq> h} = {r \<in> R. rhub r \<noteq> h \<and> rid r \<notin> ident ` K}"
proof -
  have notN: "ident x \<notin> ident ` N" if "x \<in> K - N" for x
    using that idK NK by (auto dest: inj_onD)
  have uniq: "r = s" if "r \<in> R" "s \<in> R" "rid r = rid s" for r s
    using inj that by (auto dest: inj_onD)
  have "(rid r, rver r) \<in> (\<lambda>x. (ident x, version x)) ` K" if r: "r \<in> R'" "rhub r = h" for r
  proof (cases "r \<in> B")
    case True
    then obtain x where "x \<in> K" "r = b x" using NK by (auto simp: B)
    with sel show ?thesis by auto
  next
    case False
    with r R' obtain x where x: "x \<in> K" "rid r = ident x" "x \<notin> N" "r \<in> R" by blast
    with old [of x] uniq [OF x(4)] have "rver r = version x" by (metis DiffI)
    with x show ?thesis by auto
  qed
  moreover have "(ident x, version x) \<in> (\<lambda>r. (rid r, rver r)) ` {r \<in> R'. rhub r = h}" if x: "x \<in> K" for x
  proof (cases "x \<in> N")
    case True
    then have "b x \<in> R'" by (auto simp: R' B)
    with sel [OF x] show ?thesis by force
  next
    case False
    with x old [of x] obtain s where s: "s \<in> R" "rhub s = h" "rid s = ident x" "rver s = version x" by blast
    with notN [of x] x False have "s \<in> R'" unfolding R' by auto
    with s show ?thesis by force
  qed
  ultimately show "(\<lambda>r. (rid r, rver r)) ` {r \<in> R'. rhub r = h} = (\<lambda>x. (ident x, version x)) ` K" by blast
  have "rid r \<in> ident ` N" if "r \<in> R" "rhub r \<noteq> h" "rid r \<in> ident ` K" for r
  proof -
    from that(3) obtain x where x: "x \<in> K" "rid r = ident x" by auto
    have "x \<in> N"
    proof (rule ccontr)
      assume "x \<notin> N"
      with x(1) old [of x] obtain s where "s \<in> R" "rhub s = h" "rid s = ident x" by blast
      with uniq [OF that(1)] x(2) that(2) show False by metis
    qed
    with x show ?thesis by simp
  qed
  then show "{r \<in> R'. rhub r \<noteq> h} = {r \<in> R. rhub r \<noteq> h \<and> rid r \<notin> ident ` K}"
    using sel NK unfolding R' B by auto
qed

lemma diff_sync_rows:
  assumes T: "table_laws T rows rid" and inj: "inj_on rid (rows db)"
    and build: "\<And>x r. row x = Some r \<Longrightarrow> rid r = ident x \<and> rhub r = h \<and> rver r = version x"
    and m: "\<And>i v. map_of m i = Some v \<longleftrightarrow> (\<exists>r \<in> rows db. rhub r = h \<and> rid r = i \<and> rver r = v)"
    and loop: "diff_loop ident version skip row data m = Inr (batch, rest)"
    and d: "distinct (map ident (kept_objects ident skip data))"
    and up: "tb_Upsert T batch db = Some db1"
    and del: "rows db' = {r \<in> rows db1. \<not> (rhub r = h \<and> rid r \<in> fst ` set rest)}"
  shows "(\<lambda>r. (rid r, rver r)) ` {r \<in> rows db'. rhub r = h} =
           (\<lambda>x. (ident x, version x)) ` set (kept_objects ident skip data)"
    and "{r \<in> rows db'. rhub r \<noteq> h} =
           {r \<in> rows db. rhub r \<noteq> h \<and> rid r \<notin> ident ` set (kept_objects ident skip data)}"
proof -
  let ?K = "kept_objects ident skip data"
  let ?N = "filter (\<lambda>x. map_of m (ident x) \<noteq> Some (version x)) ?K"
  from diff_loop_spec [OF loop d] have b: "batch = map (the \<circ> row) ?N"
    and some: "\<And>x. x \<in> set ?K \<Longrightarrow> row x \<noteq> None"
    and rest: "fst ` set rest = fst ` set m - ident ` set ?K" by auto
  have sel: "rid (the (row x)) = ident x \<and> rhub (the (row x)) = h \<and> rver (the (row x)) = version x" if "x \<in> set ?K" for x
    using some [OF that] build by auto
  have ids: "map rid batch = map ident ?N"
    using sel by (auto simp: b)
  have dist: "distinct (map rid batch)"
    unfolding ids using d by (rule distinct_map_filter)
  have keys: "rid ` set batch = ident ` set ?N"
    using arg_cong [OF ids, of set] by simp
  have "fst ` set m = rid ` {r \<in> rows db. rhub r = h}"
    using m by (force simp: dom_map_of_conv_image_fst [symmetric] dom_def)
  moreover have "rid r \<in> ident ` set ?K" if "r \<in> set batch" for r
    using that keys by auto
  ultimately have rows': "rows db' = {r \<in> rows db. rid r \<notin> ident ` set ?N \<and> (rhub r = h \<longrightarrow> rid r \<in> ident ` set ?K)} \<union> set batch"
    unfolding del rest table_upsert [OF T up dist] keys by blast
  have idK: "inj_on ident (set ?K)" using d by (simp add: distinct_map)
  have old: "\<exists>s \<in> rows db. rhub s = h \<and> rid s = ident x \<and> rver s = version x" if "x \<in> set ?K - set ?N" for x
    using that m by auto
  have B: "set batch = (the \<circ> row) ` set ?N" by (simp add: b)
  show "(\<lambda>r. (rid r, rver r)) ` {r \<in> rows db'. rhub r = h} = (\<lambda>x. (ident x, version x)) ` set ?K"
    by (rule diff_view(1) [OF inj idK _ B _ old rows']) (use sel in auto)
  show "{r \<in> rows db'. rhub r \<noteq> h} = {r \<in> rows db. rhub r \<noteq> h \<and> rid r \<notin> ident ` set ?K}"
    by (rule diff_view(2) [OF inj idK _ B _ old rows']) (use sel in auto)
qed

text \<open>The batch has one row per object, so an upsert keeps the primary key unique.\<close>

lemma upsert_inj:
  assumes T: "table_laws T rows key" and "tb_Upsert T rs db = Some db'" "distinct (map key rs)" "inj_on key (rows db)"
  shows "inj_on key (rows db')"
proof -
  have "inj_on key {r \<in> rows db. key r \<notin> key ` set rs}" by (rule inj_on_subset [OF assms(4)]) auto
  moreover have "inj_on key (set rs)" using assms(3) by (simp add: distinct_map)
  ultimately show ?thesis
    unfolding table_upsert [OF T assms(2,3)] inj_on_Un by auto
qed

lemma diff_batch:
  assumes loop: "diff_loop ident version skip row data m = Inr (batch, rest)"
    and d: "distinct (map ident (kept_objects ident skip data))"
    and build: "\<And>x r. row x = Some r \<Longrightarrow> rid r = ident x"
  shows "distinct (map rid batch)" and "rid ` set batch \<subseteq> ident ` set (kept_objects ident skip data)"
proof -
  let ?N = "filter (\<lambda>x. map_of m (ident x) \<noteq> Some (version x)) (kept_objects ident skip data)"
  from diff_loop_spec [OF loop d] build have ids: "map rid batch = map ident ?N" by fastforce
  show "distinct (map rid batch)" unfolding ids using d by (rule distinct_map_filter)
  show "rid ` set batch \<subseteq> ident ` set (kept_objects ident skip data)"
    using arg_cong [OF ids, of set] by auto
qed

section \<open>Managed clusters\<close>

abbreviation cluster_ident :: "cluster_object \<Rightarrow> string" where
  "cluster_ident c \<equiv> cluster_id_of (co_ClusterClaims c)"

text \<open>The clusters of a bundle that have an identifier already.\<close>

abbreviation claimed :: "cluster_object list \<Rightarrow> cluster_object list" where
  "claimed data \<equiv> kept_objects cluster_ident (\<lambda>i. i = []) data"

lemma managedCluster_row_Some:
  "managedCluster_row marshal h c = Some r \<Longrightarrow>
   mc_ClusterID r = cluster_ident c \<and> mc_LeafHubName r = h \<and> marshal c = Some (mc_Payload r)"
  by (auto simp: managedCluster_row_def)

lemma managedCluster_run:
  assumes "managedCluster_handleEvent T marshal version_at h (Some data) db = (None, db')"
  obtains m batch rest db1 where "getClusterIdToVersionMap T version_at h db = Some m"
    and "diff_loop cluster_ident co_ResourceVersion (\<lambda>i. i = []) (managedCluster_row marshal h) data m = Inr (batch, rest)"
    and "tb_Upsert T batch db = Some db1"
    and "for_each (\<lambda>i. exec (tb_Delete T (\<lambda>r. where_eq h (mc_LeafHubName r) \<and> where_eq i (mc_ClusterID r)))) (map fst rest) db1 = (None, db')"
  using assms by (auto simp: managedCluster_handleEvent_def act_ok split: option.splits sum.splits prod.splits)

lemma cluster_versions:
  assumes T: "table_laws T rows key" and inj: "inj_on mc_ClusterID (rows db)" and h: "h \<noteq> []"
    and get: "getClusterIdToVersionMap T version_at h db = Some m"
  shows "map_of m i = Some v \<longleftrightarrow> (\<exists>r \<in> rows db. mc_LeafHubName r = h \<and> mc_ClusterID r = i \<and> version_at (mc_Payload r) = v)"
    and "fst ` set m = mc_ClusterID ` {r \<in> rows db. mc_LeafHubName r = h}"
proof -
  from get obtain rs where f: "tb_Find T (\<lambda>r. where_eq h (mc_LeafHubName r)) db = Some rs"
    and m: "m = fold (\<lambda>r m. AList.update (mc_ClusterID r) (version_at (mc_Payload r)) m) rs []"
    by (auto simp: getClusterIdToVersionMap_def)
  have rs: "set rs = {r \<in> rows db. mc_LeafHubName r = h}" using table_find [OF T f] h by simp
  show "map_of m i = Some v \<longleftrightarrow>
      (\<exists>r \<in> rows db. mc_LeafHubName r = h \<and> mc_ClusterID r = i \<and> version_at (mc_Payload r) = v)"
    unfolding m by (rule hub_versions [OF inj rs])
  show "fst ` set m = mc_ClusterID ` {r \<in> rows db. mc_LeafHubName r = h}"
    by (simp add: m version_map_keys rs)
qed

lemma managedCluster_rows:
  assumes T: "table_laws T rows mc_ClusterID" and inj: "inj_on mc_ClusterID (rows db)" and h: "h \<noteq> []"
    and named: "[] \<notin> mc_ClusterID ` rows db"
    and codec: "\<forall>c p. marshal c = Some p \<longrightarrow> version_at p = co_ResourceVersion c"
    and d: "distinct (map cluster_ident (claimed data))"
    and run: "managedCluster_handleEvent T marshal version_at h (Some data) db = (None, db')"
  shows "(\<lambda>r. (mc_ClusterID r, version_at (mc_Payload r))) ` {r \<in> rows db'. mc_LeafHubName r = h} =
           (\<lambda>c. (cluster_ident c, co_ResourceVersion c)) ` set (claimed data)"
    and "{r \<in> rows db'. mc_LeafHubName r \<noteq> h} =
           {r \<in> rows db. mc_LeafHubName r \<noteq> h \<and> mc_ClusterID r \<notin> cluster_ident ` set (claimed data)}"
proof -
  from run obtain m batch rest db1 where get: "getClusterIdToVersionMap T version_at h db = Some m"
    and loop: "diff_loop cluster_ident co_ResourceVersion (\<lambda>i. i = []) (managedCluster_row marshal h) data m = Inr (batch, rest)"
    and up: "tb_Upsert T batch db = Some db1"
    and del: "for_each (\<lambda>i. exec (tb_Delete T (\<lambda>r. where_eq h (mc_LeafHubName r) \<and> where_eq i (mc_ClusterID r)))) (map fst rest) db1 = (None, db')"
    by (rule managedCluster_run)
  have "fst ` set rest \<subseteq> fst ` set m" using diff_loop_spec [OF loop d] by auto
  then have "[] \<notin> fst ` set rest" using named by (auto simp: cluster_versions(2) [OF T inj h get])
  then have del': "rows db' = {r \<in> rows db1. \<not> (mc_LeafHubName r = h \<and> mc_ClusterID r \<in> fst ` set rest)}"
    using for_each_delete [OF T del] h by (force simp: where_eq_def image_iff)
  have build: "mc_ClusterID r = cluster_ident c \<and> mc_LeafHubName r = h \<and> version_at (mc_Payload r) = co_ResourceVersion c"
    if "managedCluster_row marshal h c = Some r" for c r
    using managedCluster_row_Some [OF that] codec by auto
  note sync = diff_sync_rows [OF T inj, where rhub = mc_LeafHubName and rver = "\<lambda>r. version_at (mc_Payload r)",
      OF build cluster_versions(1) [OF T inj h get] loop d up del']
  show "(\<lambda>r. (mc_ClusterID r, version_at (mc_Payload r))) ` {r \<in> rows db'. mc_LeafHubName r = h} =
           (\<lambda>c. (cluster_ident c, co_ResourceVersion c)) ` set (claimed data)"
    by (rule sync(1))
  show "{r \<in> rows db'. mc_LeafHubName r \<noteq> h} =
           {r \<in> rows db. mc_LeafHubName r \<noteq> h \<and> mc_ClusterID r \<notin> cluster_ident ` set (claimed data)}"
    by (rule sync(2))
qed

definition good_clusters ::
    "('j ManagedCluster, 'db) table \<times> ('db \<Rightarrow> 'j ManagedCluster set) \<times> (cluster_object \<Rightarrow> 'j option) \<times> ('j \<Rightarrow> string) \<times> string
       \<Rightarrow> cluster_object list \<Rightarrow> bool" where
  "good_clusters c data = (case c of (T, rows, marshal, version_at, h) \<Rightarrow>
     table_laws T rows mc_ClusterID \<and> h \<noteq> [] \<and> (\<forall>c p. marshal c = Some p \<longrightarrow> version_at p = co_ResourceVersion c) \<and>
     distinct (map cluster_ident (claimed data)))"

definition good_cluster_rows ::
    "('j ManagedCluster, 'db) table \<times> ('db \<Rightarrow> 'j ManagedCluster set) \<times> (cluster_object \<Rightarrow> 'j option) \<times> ('j \<Rightarrow> string) \<times> string
       \<Rightarrow> 'db \<Rightarrow> bool" where
  "good_cluster_rows c db = (case c of (T, rows, marshal, version_at, h) \<Rightarrow>
     inj_on mc_ClusterID (rows db) \<and> [] \<notin> mc_ClusterID ` rows db)"

lemma keeps_key_delete:
  assumes "table_laws T rows key"
  shows "act_keeps (\<lambda>db. inj_on f (rows db) \<and> x \<notin> g ` rows db) (exec (tb_Delete T P))"
  by (rule keeps_exec) (auto simp: table_delete [OF assms] inj_on_def)

lemma keeps_key_upsert:
  assumes T: "table_laws T rows key" and d: "distinct (map key rs)" and x: "x \<notin> key ` set rs"
  shows "act_keeps (\<lambda>db. inj_on key (rows db) \<and> x \<notin> key ` rows db) (exec (tb_Upsert T rs))"
proof (rule keeps_exec, elim conjE, rule conjI)
  fix db db'
  assume "tb_Upsert T rs db = Some db'" "inj_on key (rows db)" "x \<notin> key ` rows db"
  then show "inj_on key (rows db')" "x \<notin> key ` rows db'"
    using upsert_inj [OF T _ d] table_upsert [OF T _ d] x by auto
qed

lemma keeps_managedCluster:
  assumes T: "table_laws T rows mc_ClusterID" and d: "distinct (map cluster_ident (claimed data))"
  shows "act_keeps (\<lambda>db. inj_on mc_ClusterID (rows db) \<and> [] \<notin> mc_ClusterID ` rows db)
           (managedCluster_handleEvent T marshal version_at h (Some data))"
proof -
  let ?I = "\<lambda>db. inj_on mc_ClusterID (rows db) \<and> [] \<notin> mc_ClusterID ` rows db"
  have "act_keeps ?I (and_then (exec (tb_Upsert T batch))
           (transaction (for_each (\<lambda>i. exec (tb_Delete T
              (\<lambda>r. where_eq h (mc_LeafHubName r) \<and> where_eq i (mc_ClusterID r)))) ids)))"
    if loop: "diff_loop cluster_ident co_ResourceVersion (\<lambda>i. i = []) (managedCluster_row marshal h) data m = Inr (batch, rest)"
    for m batch rest ids
  proof -
    have build: "mc_ClusterID r = cluster_ident c" if "managedCluster_row marshal h c = Some r" for c r
      using managedCluster_row_Some [OF that] by simp
    note batch = diff_batch [where rid = mc_ClusterID, OF loop d build]
    have "[] \<notin> mc_ClusterID ` set batch" using batch(2) by (auto simp: kept_objects_def)
    then show ?thesis
      by (intro keeps_intros keeps_key_delete [OF T] keeps_key_upsert [OF T batch(1)])
  qed
  then show ?thesis
    unfolding act_keeps_def managedCluster_handleEvent_def
    by (auto split: option.splits sum.splits)
qed

interpretation managed_clusters: hub_sync
  "\<lambda>(T, rows, marshal, version_at, h) data. managedCluster_handleEvent T marshal version_at h (Some data)"
  "\<lambda>(T, rows, marshal, version_at, h) db.
     (\<lambda>r. (mc_ClusterID r, version_at (mc_Payload r))) ` {r \<in> rows db. mc_LeafHubName r = h}"
  "\<lambda>(T, rows, marshal, version_at, h) data. (\<lambda>c. (cluster_ident c, co_ResourceVersion c)) ` set (claimed data)"
  good_clusters good_cluster_rows
proof (unfold_locales, goal_cases)
  case (1 c db data db')
  obtain T rows marshal version_at h where c: "c = (T, rows, marshal, version_at, h)" by (cases c)
  with 1 show ?case
    using managedCluster_rows(1) [of T rows db h marshal version_at data db']
    by (simp add: good_clusters_def good_cluster_rows_def)
next
  case (2 c data)
  obtain T rows marshal version_at h where c: "c = (T, rows, marshal, version_at, h)" by (cases c)
  with 2 show ?case
    using keeps_managedCluster [of T rows data marshal version_at h]
    by (simp add: good_clusters_def good_cluster_rows_def [abs_def])
qed

section \<open>Local policies\<close>

lemma localPolicy_rows:
  assumes T: "table_laws T rows lp_PolicyID" and inj: "inj_on lp_PolicyID (rows db)" and h: "h \<noteq> []"
    and named: "\<forall>r \<in> rows db. lp_PolicyID r \<noteq> [] \<and> uid_at (lp_Payload r) = lp_PolicyID r"
    and codec: "\<forall>x p. marshal x = Some p \<longrightarrow> version_at p = po_ResourceVersion x"
    and d: "distinct (map po_UID data)"
    and run: "localPolicySpec_handleEvent T marshal uid_at version_at h (Some data) db = (None, db')"
  shows "(\<lambda>r. (lp_PolicyID r, version_at (lp_Payload r))) ` {r \<in> rows db'. lp_LeafHubName r = h} =
           (\<lambda>x. (po_UID x, po_ResourceVersion x)) ` set data"
    and "{r \<in> rows db'. lp_LeafHubName r \<noteq> h} =
           {r \<in> rows db. lp_LeafHubName r \<noteq> h \<and> lp_PolicyID r \<notin> po_UID ` set data}"
proof -
  from run obtain rs batch rest db1 where f: "tb_Find T (\<lambda>r. where_eq h (lp_LeafHubName r)) db = Some rs"
    and loop: "diff_loop po_UID po_ResourceVersion (\<lambda>_. False) (localPolicy_row marshal h) data
        (fold (\<lambda>r m. AList.update (uid_at (lp_Payload r)) (version_at (lp_Payload r)) m) rs []) = Inr (batch, rest)"
      (is "diff_loop _ _ _ _ _ ?m = _")
    and up: "tb_Upsert T batch db = Some db1"
    and del: "for_each (\<lambda>i. exec (tb_Delete T (\<lambda>r. where_eq i (lp_PolicyID r)))) (map fst rest) db1 = (None, db')"
    by (auto simp: localPolicySpec_handleEvent_def getPolicyIdToVersionMap_def act_ok split: option.splits sum.splits prod.splits)
  have rs: "set rs = {r \<in> rows db. lp_LeafHubName r = h}" using table_find [OF T f] h by simp
  have K: "kept_objects po_UID (\<lambda>_. False) data = data" by (simp add: kept_objects_def)
  with d have d': "distinct (map po_UID (kept_objects po_UID (\<lambda>_. False) data))" by simp
  have "inj_on (\<lambda>r. uid_at (lp_Payload r)) (rows db)" using inj named by (simp add: inj_on_def)
  from hub_versions [OF this rs, where g = "\<lambda>r. version_at (lp_Payload r)"] have m: "map_of ?m i = Some v \<longleftrightarrow>
      (\<exists>r \<in> rows db. lp_LeafHubName r = h \<and> lp_PolicyID r = i \<and> version_at (lp_Payload r) = v)" for i v
    using named by auto
  have build: "lp_PolicyID r = po_UID x \<and> lp_LeafHubName r = h \<and> version_at (lp_Payload r) = po_ResourceVersion x"
    if "localPolicy_row marshal h x = Some r" for x r
    using that codec by (auto simp: localPolicy_row_def)
  have keys: "lp_PolicyID ` set batch \<subseteq> po_UID ` set data" "distinct (map lp_PolicyID batch)"
    using diff_batch [OF loop d', of lp_PolicyID] build K by auto
  have "(\<lambda>r. uid_at (lp_Payload r)) ` set rs = lp_PolicyID ` set rs" using named rs by auto
  then have rest: "fst ` set rest = lp_PolicyID ` {r \<in> rows db. lp_LeafHubName r = h} - po_UID ` set data"
    using diff_loop_spec [OF loop d'] K by (simp add: version_map_keys rs)
  then have "[] \<notin> fst ` set rest" using named by auto
  then have "rows db' = {r \<in> rows db1. lp_PolicyID r \<notin> fst ` set rest}"
    using for_each_delete [OF T del] by (force simp: where_eq_def image_iff)
  moreover have "lp_LeafHubName r = h" if r: "r \<in> rows db1" "lp_PolicyID r \<in> fst ` set rest" for r
  proof -
    from r(2) rest keys(1) have "r \<notin> set batch" by blast
    with r(1) have "r \<in> rows db" unfolding table_upsert [OF T up keys(2)] by blast
    with r(2) rest inj show ?thesis by (auto dest: inj_onD)
  qed
  ultimately have del': "rows db' = {r \<in> rows db1. \<not> (lp_LeafHubName r = h \<and> lp_PolicyID r \<in> fst ` set rest)}"
    by blast
  note sync = diff_sync_rows [OF T inj, where rhub = lp_LeafHubName and rver = "\<lambda>r. version_at (lp_Payload r)",
      OF build m loop d' up del', unfolded K]
  show "(\<lambda>r. (lp_PolicyID r, version_at (lp_Payload r))) ` {r \<in> rows db'. lp_LeafHubName r = h} =
           (\<lambda>x. (po_UID x, po_ResourceVersion x)) ` set data"
    by (rule sync(1))
  show "{r \<in> rows db'. lp_LeafHubName r \<noteq> h} =
           {r \<in> rows db. lp_LeafHubName r \<noteq> h \<and> lp_PolicyID r \<notin> po_UID ` set data}"
    by (rule sync(2))
qed

section \<open>Generic objects\<close>

definition object_row :: "(generic_object \<Rightarrow> 'j option) \<Rightarrow> string \<Rightarrow> generic_object \<Rightarrow> 'j generic_row" where
  "object_row marshal h x = \<lparr>gr_ID = getGenericObjectUID x, gr_LeafHubName = h, gr_Payload = the (marshal x)\<rparr>"

lemma dao_Insert_rows:
  assumes T: "table_laws T rows key" and run: "dao_Insert T marshal h (getGenericObjectUID x) x db = (None, db')"
  shows "rows db' = insert (object_row marshal h x) (rows db)"
  using run table_insert [OF T] by (auto simp: dao_Insert_def exec_ok object_row_def split: option.splits)

lemma dao_Update_rows:
  assumes T: "table_laws T rows key" and run: "dao_Update T marshal h (getGenericObjectUID x) x db = (None, db')"
    and old: "\<exists>r \<in> rows db. gr_LeafHubName r = h \<and> gr_ID r = getGenericObjectUID x"
  shows "rows db' = insert (object_row marshal h x) {r \<in> rows db. \<not> (gr_LeafHubName r = h \<and> gr_ID r = getGenericObjectUID x)}"
proof -
  from run obtain p where p: "marshal x = Some p"
    and up: "tb_Update T (\<lambda>r. gr_LeafHubName r = h \<and> gr_ID r = getGenericObjectUID x) (\<lambda>r. r\<lparr>gr_Payload := p\<rparr>) db = Some db'"
    by (auto simp: dao_Update_def exec_ok split: option.splits)
  have "(\<lambda>r. r\<lparr>gr_Payload := p\<rparr>) ` {r \<in> rows db. gr_LeafHubName r = h \<and> gr_ID r = getGenericObjectUID x} =
      {object_row marshal h x}"
    using old p by (auto simp: object_row_def image_iff)
  with table_update [OF T up] show ?thesis by auto
qed

text \<open>One object handled: its row replaces what the hub had under its identifier.\<close>

lemma generic_step_set:
  assumes "hub q = h" "idf q = u" "u \<notin> U"
    and R1: "R1 = insert q {r \<in> R. \<not> (hub r = h \<and> idf r = u)}"
  shows "{r \<in> R1. \<not> (hub r = h \<and> (idf r \<in> U \<or> idf r \<in> M - {u}))} \<union> N =
         {r \<in> R. \<not> (hub r = h \<and> (idf r \<in> insert u U \<or> idf r \<in> M))} \<union> insert q N"
  using assms by auto

lemma generic_loop_rows:
  assumes T: "table_laws T rows key"
    and "generic_loop T marshal h data m db = (None, db')"
    and "distinct (map getGenericObjectUID data)" "\<forall>x \<in> set data. go_ResourceVersion x \<noteq> []"
    and "\<forall>e \<in> set m. snd e = []"
    and "\<forall>x \<in> set data. getGenericObjectUID x \<in> fst ` set m \<longleftrightarrow>
           (\<exists>r \<in> rows db. gr_LeafHubName r = h \<and> gr_ID r = getGenericObjectUID x)"
  shows "rows db' =
           {r \<in> rows db. \<not> (gr_LeafHubName r = h \<and> (gr_ID r \<in> getGenericObjectUID ` set data \<or> gr_ID r \<in> fst ` set m))}
           \<union> object_row marshal h ` set data"
  using assms(2-)
proof (induction data arbitrary: m db)
  case Nil
  from for_each_delete [OF T Nil.prems(1) [unfolded generic_loop.simps dao_Delete_def]] show ?case by auto
next
  case (Cons x data)
  let ?u = "getGenericObjectUID x" and ?q = "object_row marshal h x"
  have "map_of m ?u = Some v \<Longrightarrow> v = []" for v
    using Cons.prems(4) by (fastforce dest: map_of_SomeD)
  then obtain db1 where rec: "generic_loop T marshal h data (AList.delete ?u m) db1 = (None, db')"
    and rows1: "rows db1 = insert ?q {r \<in> rows db. \<not> (gr_LeafHubName r = h \<and> gr_ID r = ?u)}"
  proof (cases "map_of m ?u")
    case None
    then have new: "?u \<notin> fst ` set m" by (simp add: map_of_eq_None_iff)
    then have "AList.delete ?u m = m" by (rule delete_id)
    with None Cons.prems(1) obtain db1 where i: "dao_Insert T marshal h ?u x db = (None, db1)"
      and rec: "generic_loop T marshal h data (AList.delete ?u m) db1 = (None, db')" by (auto simp: Let_def and_then_ok)
    have "{r \<in> rows db. \<not> (gr_LeafHubName r = h \<and> gr_ID r = ?u)} = rows db" using new Cons.prems(5) by auto
    with dao_Insert_rows [OF T i] that [OF rec] show thesis by simp
  next
    case (Some v)
    then have "?u \<in> fst ` set m" by (metis map_of_eq_None_iff option.distinct(1))
    then have old: "\<exists>r \<in> rows db. gr_LeafHubName r = h \<and> gr_ID r = ?u" using Cons.prems(5) by simp
    from Some Cons.prems(1,3) \<open>\<And>v. map_of m ?u = Some v \<Longrightarrow> v = []\<close> obtain db1
      where u: "dao_Update T marshal h ?u x db = (None, db1)"
        and rec: "generic_loop T marshal h data (AList.delete ?u m) db1 = (None, db')" by (auto simp: Let_def and_then_ok)
    from that [OF rec dao_Update_rows [OF T u old]] show thesis .
  qed
  have d: "?u \<notin> getGenericObjectUID ` set data" "distinct (map getGenericObjectUID data)" using Cons.prems(2) by auto
  have q: "gr_LeafHubName ?q = h" "gr_ID ?q = ?u" by (simp_all add: object_row_def)
  have "rows db' = {r \<in> rows db1. \<not> (gr_LeafHubName r = h \<and>
        (gr_ID r \<in> getGenericObjectUID ` set data \<or> gr_ID r \<in> fst ` set (AList.delete ?u m)))} \<union> object_row marshal h ` set data"
  proof (rule Cons.IH [OF rec d(2)])
    show "\<forall>y \<in> set data. go_ResourceVersion y \<noteq> []" using Cons.prems(3) by simp
    show "\<forall>e \<in> set (AList.delete ?u m). snd e = []" using Cons.prems(4) by (auto simp: AList.delete_eq)
    show "\<forall>y \<in> set data. getGenericObjectUID y \<in> fst ` set (AList.delete ?u m) \<longleftrightarrow>
        (\<exists>r \<in> rows db1. gr_LeafHubName r = h \<and> gr_ID r = getGenericObjectUID y)"
      using Cons.prems(5) d(1) q unfolding rows1 keys_delete by auto
  qed
  from this [unfolded keys_delete generic_step_set [of gr_LeafHubName ?q h gr_ID, OF q d(1) rows1]] show ?case by simp
qed

lemma generic_rows:
  assumes T: "table_laws T rows key" and d: "distinct (map getGenericObjectUID data)"
    and v: "\<forall>x \<in> set data. go_ResourceVersion x \<noteq> []"
    and run: "generic_handleEvent T marshal h (Some data) db = (None, db')"
  shows "rows db' = {r \<in> rows db. gr_LeafHubName r \<noteq> h} \<union> object_row marshal h ` set data"
proof -
  from run obtain rs where f: "tb_Find T (\<lambda>r. gr_LeafHubName r = h) db = Some rs"
    and loop: "generic_loop T marshal h data (fold (\<lambda>r m. AList.update (gr_ID r) [] m) rs []) db = (None, db')"
    by (auto simp: generic_handleEvent_def GetIdToVersionByHub_def split: option.splits)
  have rs: "set rs = {r \<in> rows db. gr_LeafHubName r = h}" by (rule table_find [OF T f])
  let ?m = "fold (\<lambda>r m. AList.update (gr_ID r) ([] :: string) m) rs []"
  have "distinct (map fst ?m)"
    by (induction rs rule: rev_induct) (simp_all add: distinct_update)
  have k: "fst ` set ?m = gr_ID ` {r \<in> rows db. gr_LeafHubName r = h}" by (simp add: version_map_keys rs)
  have "rows db' = {r \<in> rows db. \<not> (gr_LeafHubName r = h \<and> (gr_ID r \<in> getGenericObjectUID ` set data \<or> gr_ID r \<in> fst ` set ?m))}
           \<union> object_row marshal h ` set data"
  proof (rule generic_loop_rows [OF T loop d v])
    show "\<forall>e \<in> set ?m. snd e = []"
    proof
      fix e assume "e \<in> set ?m"
      with \<open>distinct (map fst ?m)\<close> have "map_of ?m (fst e) = Some (snd e)" by simp
      from version_map_Some [OF this] show "snd e = []" by auto
    qed
    show "\<forall>x \<in> set data. getGenericObjectUID x \<in> fst ` set ?m \<longleftrightarrow>
           (\<exists>r \<in> rows db. gr_LeafHubName r = h \<and> gr_ID r = getGenericObjectUID x)"
      unfolding k by (auto intro: rev_image_eqI)
  qed
  then show ?thesis unfolding k by auto
qed

section \<open>Hubs\<close>

lemma hubInfo_rows:
  assumes T: "table_laws T rows leaf_hub_key" and h: "h \<noteq> []"
    and run: "hubClusterInfo_handleEvent T marshal h (Some info) db = (None, db')"
  shows "\<exists>p. marshal info = Some p \<and>
           rows db' = {r \<in> rows db. lh_LeafHubName r \<noteq> h} \<union>
             {\<lparr>lh_LeafHubName = h, lh_ClusterID = (if hi_ClusterId info = [] then DefaultClusterId else hi_ClusterId info), lh_Payload = p\<rparr>}"
proof -
  let ?cid = "if hi_ClusterId info = [] then DefaultClusterId else hi_ClusterId info"
  from run obtain found p where f: "tb_Find T (\<lambda>r. where_eq h (lh_LeafHubName r)) db = Some found"
    and p: "marshal info = Some p"
    by (auto simp: hubClusterInfo_handleEvent_def Let_def split: option.splits)
  let ?new = "\<lparr>lh_LeafHubName = h, lh_ClusterID = ?cid, lh_Payload = p\<rparr>"
  have found: "set found = {r \<in> rows db. lh_LeafHubName r = h}" using table_find [OF T f] h by simp
  show ?thesis
  proof (cases "found = []")
    case True
    with run f p have "tb_Upsert T [?new] db = Some db'"
      by (simp add: hubClusterInfo_handleEvent_def exec_ok Let_def split: if_splits)
    from table_upsert [OF T this] have "rows db' = {r \<in> rows db. leaf_hub_key r \<noteq> leaf_hub_key ?new} \<union> {?new}" by simp
    moreover have "{r \<in> rows db. leaf_hub_key r \<noteq> leaf_hub_key ?new} = {r \<in> rows db. lh_LeafHubName r \<noteq> h}"
      using found True by (auto simp: leaf_hub_key_def)
    ultimately show ?thesis using p by blast
  next
    case False
    with run f p h have "tb_Update T (\<lambda>r. lh_LeafHubName r = h) (\<lambda>r. r\<lparr>lh_LeafHubName := h, lh_ClusterID := ?cid, lh_Payload := p\<rparr>) db = Some db'"
      by (simp add: hubClusterInfo_handleEvent_def exec_ok Let_def split: if_splits)
    from table_update [OF T this] have rows': "rows db' = {r \<in> rows db. lh_LeafHubName r \<noteq> h} \<union>
        (\<lambda>r. r\<lparr>lh_LeafHubName := h, lh_ClusterID := ?cid, lh_Payload := p\<rparr>) ` {r \<in> rows db. lh_LeafHubName r = h}" .
    have "(\<lambda>r. r\<lparr>lh_LeafHubName := h, lh_ClusterID := ?cid, lh_Payload := p\<rparr>) ` {r \<in> rows db. lh_LeafHubName r = h} = {?new}"
    proof -
      have "(\<lambda>r. r\<lparr>lh_LeafHubName := h, lh_ClusterID := ?cid, lh_Payload := p\<rparr>) = (\<lambda>_. ?new)" by (rule ext) simp
      then show ?thesis using False unfolding found [symmetric] by (simp only: image_constant_conv) simp
    qed
    with p rows' show ?thesis by (intro exI conjI) simp_all
  qed
qed

section \<open>Events\<close>

lemma managedClusterEvent_rows:
  assumes T: "table_laws T rows key" and run: "managedClusterEvent_handleEvent T h (Some es) db = (None, db')"
  shows "rows db \<subseteq> rows db' \<and> rows db' \<subseteq> rows db \<union> set es \<and> key ` rows db' = key ` rows db \<union> key ` set es"
proof (cases "es = []")
  case True
  with run show ?thesis by (simp add: managedClusterEvent_handleEvent_def)
next
  case False
  with run have "tb_InsertIgnore T es db = Some db'" by (simp add: managedClusterEvent_handleEvent_def exec_ok)
  from table_ignore [OF T this] show ?thesis .
qed

lemma replicatedPolicyEvent_rows:
  assumes T: "table_laws T rows key"
    and run: "localReplicatedPolicyEvent_handleEvent T sourceJSONB h (Some es) db = (None, db')"
  shows "rows db \<subseteq> rows db' \<and> rows db' \<subseteq> rows db \<union> replicated_event_row sourceJSONB h ` set es \<and>
         key ` rows db' = key ` rows db \<union> key ` replicated_event_row sourceJSONB h ` set es"
proof (cases "es = []")
  case True
  with run show ?thesis by (simp add: localReplicatedPolicyEvent_handleEvent_def)
next
  case False
  with run have "tb_InsertIgnore T (map (replicated_event_row sourceJSONB h) es) db = Some db'"
    by (simp add: localReplicatedPolicyEvent_handleEvent_def exec_ok)
  from table_ignore [OF T this] show ?thesis by simp
qed

section \<open>Properties\<close>

definition ex_clusters :: "cluster_object list" where
  "ex_clusters = [\<lparr>co_ClusterClaims = [(''product'', ''x''), (''id.k8s.io'', ''c1'')], co_ResourceVersion = ''7''\<rparr>,
     \<lparr>co_ClusterClaims = [], co_ResourceVersion = ''3''\<rparr>]"

definition ex_marshal :: "cluster_object \<Rightarrow> string option" where
  "ex_marshal c = Some (co_ResourceVersion c)"

definition ex_cluster_rows :: "string ManagedCluster list" where
  "ex_cluster_rows = [\<lparr>mc_LeafHubName = ''h1'', mc_ClusterID = ''c1'', mc_Payload = ''6'', mc_Error = ErrorNone\<rparr>,
     \<lparr>mc_LeafHubName = ''h1'', mc_ClusterID = ''c2'', mc_Payload = ''1'', mc_Error = ErrorNone\<rparr>,
     \<lparr>mc_LeafHubName = ''h2'', mc_ClusterID = ''c3'', mc_Payload = ''1'', mc_Error = ErrorNone\<rparr>]"

definition ex_cluster_after :: "string ManagedCluster list" where
  "ex_cluster_after = [\<lparr>mc_LeafHubName = ''h2'', mc_ClusterID = ''c3'', mc_Payload = ''1'', mc_Error = ErrorNone\<rparr>,
     \<lparr>mc_LeafHubName = ''h1'', mc_ClusterID = ''c1'', mc_Payload = ''7'', mc_Error = ErrorNone\<rparr>]"

lemma ex_cluster_run:
  "managedCluster_handleEvent (mem_table mc_ClusterID) ex_marshal (\<lambda>p. p) ''h1'' (Some ex_clusters) ex_cluster_rows =
     (None, ex_cluster_after)"
  by code_simp

text \<open>
  C33: After any sequence of attempts to handle managed cluster bundles of a hub, failed or not, an attempt
  that succeeds leaves for the hub exactly the clusters of its bundle that have an identifier,
  each in the version of the bundle. Of the other hubs it takes away the clusters that the bundle
  lists, and nothing else.
\<close>

theorem managed_clusters_follow_bundle:
  assumes "table_laws T rows mc_ClusterID" "h \<noteq> []"
    and "\<forall>c p. marshal c = Some p \<longrightarrow> version_at p = co_ResourceVersion c"
    and "inj_on mc_ClusterID (rows db0)" "[] \<notin> mc_ClusterID ` rows db0"
    and "\<forall>b \<in> set bs. distinct (map cluster_ident (claimed b))" "distinct (map cluster_ident (claimed data))"
    and "db = fold (\<lambda>b db. snd (managedCluster_handleEvent T marshal version_at h (Some b) db)) bs db0"
    and "managedCluster_handleEvent T marshal version_at h (Some data) db = (None, db')"
  shows "(\<lambda>r. (mc_ClusterID r, version_at (mc_Payload r))) ` {r \<in> rows db'. mc_LeafHubName r = h} =
           (\<lambda>c. (cluster_id_of (co_ClusterClaims c), co_ResourceVersion c)) `
             {c \<in> set data. cluster_id_of (co_ClusterClaims c) \<noteq> []} \<and>
         {r \<in> rows db'. mc_LeafHubName r \<noteq> h} =
           {r \<in> rows db. mc_LeafHubName r \<noteq> h \<and>
              mc_ClusterID r \<notin> (\<lambda>c. cluster_id_of (co_ClusterClaims c)) ` {c \<in> set data. cluster_id_of (co_ClusterClaims c) \<noteq> []}}"
proof -
  let ?c = "(T, rows, marshal, version_at, h)"
  have K: "set (claimed data) = {c \<in> set data. cluster_ident c \<noteq> []}" by (auto simp: kept_objects_def)
  have db: "db = managed_clusters.attempts ?c bs db0"
    using assms(8) by (simp add: managed_clusters.attempts_def)
  have good: "good_cluster_rows ?c db"
    unfolding db using assms by (intro managed_clusters.attempts_good) (auto simp: good_clusters_def good_cluster_rows_def)
  note rows = managedCluster_rows [OF assms(1) _ assms(2) _ assms(3,7,9)]
  show ?thesis
    using rows good unfolding K [symmetric] by (simp add: good_cluster_rows_def)
qed

theorem managed_clusters_follow_bundle_witness:
  "(\<lambda>r. (mc_ClusterID r, mc_Payload r)) ` {r \<in> set ex_cluster_after. mc_LeafHubName r = ''h1''} =
     (\<lambda>c. (cluster_id_of (co_ClusterClaims c), co_ResourceVersion c)) `
       {c \<in> set ex_clusters. cluster_id_of (co_ClusterClaims c) \<noteq> []}"
  using managed_clusters_follow_bundle [OF mem_table_laws, of "''h1''" ex_marshal "\<lambda>p. p" ex_cluster_rows "[]" ex_clusters
      ex_cluster_rows ex_cluster_after] ex_cluster_run
  by (simp add: ex_marshal_def ex_cluster_rows_def ex_clusters_def kept_objects_def inj_on_def)

text \<open>
  A local policy bundle that is handled without an error leaves for the hub exactly the policies of the
  bundle, each in the version of the bundle, although the deletion names the policy and not the
  hub: the policies deleted are those of the hub. Of other hubs it takes away only the policies that the bundle lists.
\<close>

theorem local_policies_follow_bundle:
  assumes "table_laws T rows lp_PolicyID" "inj_on lp_PolicyID (rows db)" "h \<noteq> []"
    and "\<forall>r \<in> rows db. lp_PolicyID r \<noteq> [] \<and> uid_at (lp_Payload r) = lp_PolicyID r"
    and "\<forall>x p. marshal x = Some p \<longrightarrow> version_at p = po_ResourceVersion x"
    and "distinct (map po_UID data)"
    and "localPolicySpec_handleEvent T marshal uid_at version_at h (Some data) db = (None, db')"
  shows "(\<lambda>r. (lp_PolicyID r, version_at (lp_Payload r))) ` {r \<in> rows db'. lp_LeafHubName r = h} =
           (\<lambda>x. (po_UID x, po_ResourceVersion x)) ` set data \<and>
         {r \<in> rows db'. lp_LeafHubName r \<noteq> h} =
           {r \<in> rows db. lp_LeafHubName r \<noteq> h \<and> lp_PolicyID r \<notin> po_UID ` set data}"
  using localPolicy_rows [OF assms] by simp

theorem local_policies_follow_bundle_witness:
  "(\<lambda>r. (lp_PolicyID r, snd (lp_Payload r))) ` {r \<in> set (snd (localPolicySpec_handleEvent (mem_table lp_PolicyID)
       (\<lambda>x. Some (po_UID x, po_ResourceVersion x)) fst snd ''h1''
       (Some [\<lparr>po_UID = ''p2'', po_ResourceVersion = ''5''\<rparr>])
       [\<lparr>lp_LeafHubName = ''h1'', lp_Payload = (''p1'', ''4''), lp_PolicyID = ''p1''\<rparr>])). lp_LeafHubName r = ''h1''} = {(''p2'', ''5'')}"
proof -
  let ?T = "mem_table lp_PolicyID :: ((string \<times> string) LocalSpecPolicy, (string \<times> string) LocalSpecPolicy list) table"
  let ?new = "\<lparr>lp_LeafHubName = ''h1'', lp_Payload = (''p2'', ''5''), lp_PolicyID = ''p2''\<rparr>"
  have run: "localPolicySpec_handleEvent ?T (\<lambda>x. Some (po_UID x, po_ResourceVersion x)) fst snd ''h1''
       (Some [\<lparr>po_UID = ''p2'', po_ResourceVersion = ''5''\<rparr>])
       [\<lparr>lp_LeafHubName = ''h1'', lp_Payload = (''p1'', ''4''), lp_PolicyID = ''p1''\<rparr>] = (None, [?new])"
    by code_simp
  from local_policies_follow_bundle [OF mem_table_laws _ _ _ _ _ run] show ?thesis
    unfolding run by simp
qed

text \<open>
  A bundle of generic objects that is handled without an error leaves for the hub exactly the objects of the
  bundle with their current payload, and leaves the rows of the other hubs alone. The version
  that the query returns is always empty, so every object is written again each time,
  changed or not; the condition excludes objects whose own version is empty.
\<close>

theorem generic_objects_follow_bundle:
  assumes "table_laws T rows key" "distinct (map getGenericObjectUID data)"
    and "\<forall>x \<in> set data. go_ResourceVersion x \<noteq> []"
    and "generic_handleEvent T marshal h (Some data) db = (None, db')"
  shows "rows db' = {r \<in> rows db. gr_LeafHubName r \<noteq> h} \<union>
     (\<lambda>x. \<lparr>gr_ID = getGenericObjectUID x, gr_LeafHubName = h, gr_Payload = the (marshal x)\<rparr>) ` set data"
  using generic_rows [OF assms] by (simp add: object_row_def [abs_def])

theorem generic_objects_follow_bundle_witness:
  "set (snd (generic_handleEvent (mem_table gr_ID) (\<lambda>x. Some (go_UID x)) ''h1''
       (Some [\<lparr>go_Annotations = [], go_UID = ''u1'', go_ResourceVersion = ''9''\<rparr>])
       [\<lparr>gr_ID = ''u1'', gr_LeafHubName = ''h1'', gr_Payload = ''old''\<rparr>])) =
   {\<lparr>gr_ID = ''u1'', gr_LeafHubName = ''h1'', gr_Payload = ''u1''\<rparr>}"
proof -
  let ?T = "mem_table gr_ID :: (string generic_row, string generic_row list) table"
  let ?new = "\<lparr>gr_ID = ''u1'', gr_LeafHubName = ''h1'', gr_Payload = ''u1''\<rparr>"
  have run: "generic_handleEvent ?T (\<lambda>x. Some (go_UID x)) ''h1''
       (Some [\<lparr>go_Annotations = [], go_UID = ''u1'', go_ResourceVersion = ''9''\<rparr>])
       [\<lparr>gr_ID = ''u1'', gr_LeafHubName = ''h1'', gr_Payload = ''old''\<rparr>] = (None, [?new])"
    by code_simp
  from generic_objects_follow_bundle [OF mem_table_laws _ _ run] show ?thesis
    unfolding run by (simp add: getGenericObjectUID_def)
qed

text \<open>
  Hub information that is handled without an error leaves exactly one row for the hub, with the identifier of the
  event, or the default one for an agent that sends none, and changes no row of another hub.
\<close>

theorem hub_info_single_row:
  assumes "table_laws T rows leaf_hub_key" "h \<noteq> []"
    and "hubClusterInfo_handleEvent T marshal h (Some info) db = (None, db')"
  shows "\<exists>p. marshal info = Some p \<and>
           rows db' = {r \<in> rows db. lh_LeafHubName r \<noteq> h} \<union>
             {\<lparr>lh_LeafHubName = h, lh_ClusterID = (if hi_ClusterId info = [] then DefaultClusterId else hi_ClusterId info),
               lh_Payload = p\<rparr>}"
  using assms by (rule hubInfo_rows)

theorem hub_info_single_row_witness:
  "set (snd (hubClusterInfo_handleEvent (mem_table leaf_hub_key) (\<lambda>i. Some (hi_ConsoleURL i)) ''h1''
       (Some \<lparr>hi_ConsoleURL = ''u'', hi_GrafanaURL = [], hi_ClusterId = ''id1''\<rparr>)
       [\<lparr>lh_LeafHubName = ''h1'', lh_ClusterID = DefaultClusterId, lh_Payload = []\<rparr>])) =
   {\<lparr>lh_LeafHubName = ''h1'', lh_ClusterID = ''id1'', lh_Payload = ''u''\<rparr>}"
proof -
  let ?T = "mem_table leaf_hub_key :: (string LeafHub, string LeafHub list) table"
  have run: "hubClusterInfo_handleEvent ?T (\<lambda>i. Some (hi_ConsoleURL i)) ''h1''
       (Some \<lparr>hi_ConsoleURL = ''u'', hi_GrafanaURL = [], hi_ClusterId = ''id1''\<rparr>)
       [\<lparr>lh_LeafHubName = ''h1'', lh_ClusterID = DefaultClusterId, lh_Payload = []\<rparr>] =
       (None, [\<lparr>lh_LeafHubName = ''h1'', lh_ClusterID = ''id1'', lh_Payload = ''u''\<rparr>])"
    by code_simp
  from hub_info_single_row [OF mem_table_laws _ run] show ?thesis
    unfolding run by simp
qed

text \<open>
  The handlers of managed cluster events and of replicated policy events only append: no row that is
  there is changed or removed, every new row is an event of the bundle, and afterwards the table
  has a row for the key of every event. A managed cluster event is stored with the hub name
  in its payload, whichever hub sent it.
\<close>

theorem event_handlers_append_only:
  assumes "table_laws T rows cluster_event_key" "table_laws T' rows' policy_event_key"
  shows "(managedClusterEvent_handleEvent T h (Some es) d = (None, d') \<longrightarrow>
            rows d \<subseteq> rows d' \<and> rows d' \<subseteq> rows d \<union> set es \<and>
            cluster_event_key ` rows d' = cluster_event_key ` rows d \<union> cluster_event_key ` set es) \<and>
         (localReplicatedPolicyEvent_handleEvent T' sourceJSONB h (Some ps) e = (None, e') \<longrightarrow>
            rows' e \<subseteq> rows' e' \<and> rows' e' \<subseteq> rows' e \<union> replicated_event_row sourceJSONB h ` set ps \<and>
            policy_event_key ` rows' e' = policy_event_key ` rows' e \<union> policy_event_key ` replicated_event_row sourceJSONB h ` set ps)"
  by (rule conjI; rule impI)
    (erule managedClusterEvent_rows [OF assms(1)], erule replicatedPolicyEvent_rows [OF assms(2)])

definition ex_event :: ManagedClusterEvent where
  "ex_event = \<lparr>ce_EventNamespace = ''ns'', ce_EventName = ''e1'', ce_ClusterName = ''c1'', ce_ClusterID = ''i1'',
     ce_LeafHubName = ''h1'', ce_Message = [], ce_Reason = [], ce_ReportingController = [], ce_ReportingInstance = [],
     ce_EventType = ''Normal'', ce_CreatedAt = 5\<rparr>"

theorem event_handlers_append_only_witness:
  "managedClusterEvent_handleEvent (mem_table cluster_event_key) ''h2'' (Some [ex_event]) [] = (None, [ex_event]) \<and>
   cluster_event_key ` set [ex_event] = cluster_event_key ` set [] \<union> cluster_event_key ` set [ex_event]"
proof -
  have run: "managedClusterEvent_handleEvent (mem_table cluster_event_key) ''h2'' (Some [ex_event]) [] = (None, [ex_event])"
    by code_simp
  have "cluster_event_key ` set [ex_event] = cluster_event_key ` set [] \<union> cluster_event_key ` set [ex_event]"
    by (rule event_handlers_append_only [OF mem_table_laws mem_table_laws, THEN conjunct1, THEN mp, OF run, THEN conjunct2, THEN conjunct2])
  with run show ?thesis ..
qed

end
