(* ===== verification/AgentEmitter.thy ===== *)
theory AgentEmitter
  imports Metadata
begin

text \<open>
  \<^verbatim>\<open>agent/pkg/status/generic/generic_emitter.go\<close> and \<^verbatim>\<open>agent/pkg/spec/syncers/resync_syncer.go\<close>:
  how the agent of a hub numbers the events that it sends.

  Two emitters may share a version (the complete compliance emitter points to the version of
  the compliance emitter), and the resync table points to the versions of all emitters, so
  versions live in a store and are referred to by their address. What an emitter does after
  sending is a function on the payload and on a state \<open>'w\<close> of the agent.
\<close>

section \<open>Definitions\<close>

type_synonym vref = nat
type_synonym vstore = "vref \<Rightarrow> Version"

record ('p, 'w) genericEmitter =
  em_eventType :: string
  em_currentVersion :: vref
  em_lastSentVersion :: Version
  em_topic :: string
  em_dependencyVersion :: "vref option"
  em_postSend :: "('p \<times> 'w \<Rightarrow> 'p \<times> 'w) option"

datatype ('p, 'w) EmitterOption =
    WithTopic string
  | WithDependencyVersion vref
  | WithVersion vref
  | WithPostSend "'p \<times> 'w \<Rightarrow> 'p \<times> 'w"

fun apply_option :: "('p, 'w) EmitterOption \<Rightarrow> ('p, 'w) genericEmitter \<Rightarrow> ('p, 'w) genericEmitter" where
  "apply_option (WithTopic topic) g = g\<lparr>em_topic := topic\<rparr>"
| "apply_option (WithDependencyVersion version) g = g\<lparr>em_dependencyVersion := Some version\<rparr>"
| "apply_option (WithVersion version) g = g\<lparr>em_currentVersion := version\<rparr>"
| "apply_option (WithPostSend f) g = g\<lparr>em_postSend := Some f\<rparr>"

definition applyOptions :: "('p, 'w) EmitterOption list \<Rightarrow> ('p, 'w) genericEmitter \<Rightarrow> ('p, 'w) genericEmitter" where
  "applyOptions opts g = fold apply_option opts g"

text \<open>The resync table is nil until the first emitter is registered.\<close>

type_synonym resync_table = "(string, vref) gomap option"

definition EnableResync :: "string \<Rightarrow> vref \<Rightarrow> resync_table \<Rightarrow> resync_table" where
  "EnableResync evtType syncVersion registered =
     Some (AList.update evtType syncVersion (case registered of None \<Rightarrow> [] | Some m \<Rightarrow> m))"

definition GetEventVersion :: "string \<Rightarrow> resync_table \<Rightarrow> vref option" where
  "GetEventVersion evtType registered = (case registered of None \<Rightarrow> None | Some m \<Rightarrow> map_of m evtType)"

text \<open>\<open>fresh\<close> is the address of the version that the constructor allocates.\<close>

definition NewGenericEmitter ::
    "vref \<Rightarrow> string \<Rightarrow> ('p, 'w) EmitterOption list \<Rightarrow> vstore \<times> resync_table
       \<Rightarrow> ('p, 'w) genericEmitter \<times> vstore \<times> resync_table" where
  "NewGenericEmitter fresh eventType opts s =
     (let (vs, registered) = s;
          vs1 = vs(fresh := NewVersion);
          e0 = applyOptions opts \<lparr>em_eventType = eventType, em_currentVersion = fresh, em_lastSentVersion = NewVersion,
                 em_topic = [], em_dependencyVersion = None, em_postSend = None\<rparr>;
          e1 = e0\<lparr>em_lastSentVersion := vs1 (em_currentVersion e0)\<rparr>
      in (e1, vs1, EnableResync eventType (em_currentVersion e1) registered))"

definition ShouldSend :: "vstore \<Rightarrow> ('p, 'w) genericEmitter \<Rightarrow> bool" where
  "ShouldSend vs h = NewerThan (vs (em_currentVersion h)) (Some (em_lastSentVersion h))"

definition PostSend ::
    "('p, 'w) genericEmitter \<Rightarrow> vstore \<Rightarrow> 'p \<Rightarrow> 'w \<Rightarrow> ('p, 'w) genericEmitter \<times> vstore \<times> 'p \<times> 'w" where
  "PostSend h vs data w =
     (let (data1, w1) = (case em_postSend h of None \<Rightarrow> (data, w) | Some f \<Rightarrow> f (data, w));
          vs1 = vs(em_currentVersion h := Next (vs (em_currentVersion h)))
      in (h\<lparr>em_lastSentVersion := vs1 (em_currentVersion h)\<rparr>, vs1, data1, w1))"

definition PostUpdate :: "('p, 'w) genericEmitter \<Rightarrow> vstore \<Rightarrow> vstore" where
  "PostUpdate h vs = vs(em_currentVersion h := Incr (vs (em_currentVersion h)))"

text \<open>
  \<open>encode\<close> stands for \<^verbatim>\<open>SetData\<close>: the encoded payload and whether there was no error. The identifier
  that the SDK gives the event is an argument.
\<close>

definition ToCloudEvent ::
    "('p \<Rightarrow> 'd \<times> bool) \<Rightarrow> string \<Rightarrow> string \<Rightarrow> vstore \<Rightarrow> ('p, 'w) genericEmitter \<Rightarrow> 'p \<Rightarrow> 'd Event \<times> bool" where
  "ToCloudEvent encode leafHubName uuid vs g payload =
     (let exts = [ExtVersion \<mapsto> ExtString (version_String (vs (em_currentVersion g)))];
          exts1 = (case em_dependencyVersion g of
                     None \<Rightarrow> exts
                   | Some d \<Rightarrow> exts(ExtDependencyVersion \<mapsto> ExtString (version_String (vs d))));
          (data, ok) = encode payload
      in (\<lparr>evt_Type = em_eventType g, evt_Source = leafHubName, evt_ID = uuid, evt_Extensions = exts1, evt_Data = data\<rparr>, ok))"

text \<open>
  \<^verbatim>\<open>resyncer.Sync\<close>. The decoded list of event types is an argument, \<^const>\<open>None\<close> for a decoding
  error. A type that is not registered ends the loop without an error.
\<close>

fun resync_loop :: "string list \<Rightarrow> (string, vref) gomap \<Rightarrow> vstore \<Rightarrow> vstore" where
  "resync_loop [] registered vs = vs"
| "resync_loop (eventType # eventTypes) registered vs =
     (case map_of registered eventType of
        None \<Rightarrow> vs
      | Some resyncVersion \<Rightarrow> resync_loop eventTypes registered (vs(resyncVersion := Incr (vs resyncVersion))))"

datatype resync_error = UnmarshalError

definition resync_Sync ::
    "string list option \<Rightarrow> resync_table \<Rightarrow> vstore \<Rightarrow> resync_error option \<times> vstore" where
  "resync_Sync payload registered vs =
     (case registered of
        None \<Rightarrow> (None, vs)
      | Some m \<Rightarrow>
          (case payload of
             None \<Rightarrow> (Some UnmarshalError, vs)
           | Some eventTypes \<Rightarrow> (None, resync_loop eventTypes m vs)))"

section \<open>What the manager reads back\<close>

lemma ToCloudEvent_version:
  assumes "ToCloudEvent encode h uuid vs g p = (evt, ok)"
  shows "getVersionFromEvent evt ExtVersion = Inr (Some (vs (em_currentVersion g)))"
    and "getVersionFromEvent evt ExtDependencyVersion = Inr (map_option vs (em_dependencyVersion g))"
  using assms
  by (auto simp: ToCloudEvent_def getVersionFromEvent_def ExtVersion_def ExtDependencyVersion_def Let_def
      split: prod.splits option.splits)

end
