(* ===== verification/AgentHandlers.thy ===== *)
theory AgentHandlers
  imports AgentEmitter StatusHandlers
begin

text \<open>
  The handlers of \<^verbatim>\<open>agent/pkg/status\<close> that keep the payload of the next event: the generic handler, the
  two compliance handlers and the policy event handler, with the time filter that the latter uses.

  A Kubernetes object is a record with the metadata that the agent reads and the status of a
  policy. An update may write to the object it is given (the tweak function of the generic
  handler does), and the syncer passes the same object to every handler, so \<open>Update\<close> returns the
  object beside the payload.
\<close>

section \<open>Objects\<close>

record history_event =
  he_EventName :: string
  he_Message :: string
  he_LastTimestamp :: int

record policy_detail =
  pd_ComplianceState :: string
  pd_History :: "history_event list"

record kobject =
  ko_IsPolicy :: bool
  ko_Namespace :: string
  ko_Name :: string
  ko_UID :: string
  ko_Generation :: int
  ko_ResourceVersion :: string
  ko_Labels :: "(string, string) gomap"
  ko_Annotations :: "(string, string) gomap"
  ko_Deleting :: bool
  ko_Finalizers :: "string list"
  ko_OwnerReferences :: "string list"
  ko_ManagedFields :: "string list"
  ko_Status :: "(string \<times> string) list"
  ko_StatusNil :: bool
  ko_Details :: "policy_detail list"

text \<open>
  \<open>ko_Status\<close> is the list \<^verbatim>\<open>policy.Status.Status\<close> of cluster names with compliance states, empty
  when \<open>ko_StatusNil\<close>.
\<close>

definition HasAnnotation :: "kobject \<Rightarrow> string \<Rightarrow> bool" where
  "HasAnnotation obj key = (map_of (ko_Annotations obj) key \<noteq> None)"

definition HasLabel :: "kobject \<Rightarrow> string \<Rightarrow> bool" where
  "HasLabel obj key = (map_of (ko_Labels obj) key \<noteq> None)"

definition PolicyEventRootPolicyNameLabelKey :: string where
  "PolicyEventRootPolicyNameLabelKey = ''policy.open-cluster-management.io/root-policy''"

definition PolicyEventClusterNameLabelKey :: string where
  "PolicyEventClusterNameLabelKey = ''policy.open-cluster-management.io/cluster-name''"

section \<open>String slices\<close>

fun ContainsString :: "string list \<Rightarrow> string \<Rightarrow> bool" where
  "ContainsString [] s = False"
| "ContainsString (item # items) s = (if item = s then True else ContainsString items s)"

fun ContainSubStrings :: "string list \<Rightarrow> string list \<Rightarrow> bool" where
  "ContainSubStrings allStrings [] = True"
| "ContainSubStrings allStrings (item # subStrings) =
     (if \<not> ContainsString allStrings item then False else ContainSubStrings allStrings subStrings)"

definition Merge :: "string list list \<Rightarrow> string list" where
  "Merge slices = foldl (@) [] slices"

definition slices_Equal :: "string list \<Rightarrow> string list \<Rightarrow> bool" where
  "slices_Equal a b = (if length a \<noteq> length b then False else ContainSubStrings a b)"

section \<open>The generic handler\<close>

type_synonym update_filter = "kobject \<Rightarrow> bool"

record genericHandler =
  gh_eventData :: "kobject list"
  gh_isSpec :: bool
  gh_tweakFunc :: "(kobject \<Rightarrow> kobject) option"
  gh_shouldUpdate :: "update_filter option"

fun getObjectIndexByUID :: "string \<Rightarrow> kobject list \<Rightarrow> nat option" where
  "getObjectIndexByUID uid [] = None"
| "getObjectIndexByUID uid (object # objects) =
     (if ko_UID object = uid then Some 0 else map_option Suc (getObjectIndexByUID uid objects))"

fun getObjectIndexByName :: "kobject \<Rightarrow> kobject list \<Rightarrow> nat option" where
  "getObjectIndexByName obj [] = None"
| "getObjectIndexByName obj (object # objects) =
     (if ko_Namespace object = ko_Namespace obj \<and> ko_Name object = ko_Name obj then Some 0
      else map_option Suc (getObjectIndexByName obj objects))"

definition getObjectIndexByObj :: "kobject \<Rightarrow> kobject list \<Rightarrow> nat option" where
  "getObjectIndexByObj obj objects =
     (if length (ko_UID obj) > 0 then getObjectIndexByUID (ko_UID obj) objects else getObjectIndexByName obj objects)"

definition remove_at :: "nat \<Rightarrow> 'a list \<Rightarrow> 'a list" where
  "remove_at index xs = take index xs @ drop (index + 1) xs"

definition allowed :: "update_filter option \<Rightarrow> kobject \<Rightarrow> bool" where
  "allowed shouldUpdate obj = (case shouldUpdate of None \<Rightarrow> True | Some f \<Rightarrow> f obj)"

text \<open>The tweak function writes to the object after it was stored: both are the same object.\<close>

definition genericHandler_Update :: "kobject \<Rightarrow> genericHandler \<Rightarrow> bool \<times> genericHandler \<times> kobject" where
  "genericHandler_Update obj h =
     (if \<not> allowed (gh_shouldUpdate h) obj then (False, h, obj)
      else case getObjectIndexByUID (ko_UID obj) (gh_eventData h) of
             None \<Rightarrow> (True, h\<lparr>gh_eventData := gh_eventData h @ [obj]\<rparr>, obj)
           | Some index \<Rightarrow>
               let old = gh_eventData h ! index
               in if gh_isSpec h \<and> ko_Generation old = ko_Generation obj then (False, h, obj)
                  else if ko_ResourceVersion obj = ko_ResourceVersion old then (False, h, obj)
                  else let obj1 = (case gh_tweakFunc h of None \<Rightarrow> obj | Some f \<Rightarrow> f obj)
                       in (True, h\<lparr>gh_eventData := (gh_eventData h)[index := obj1]\<rparr>, obj1))"

definition genericHandler_Delete :: "kobject \<Rightarrow> genericHandler \<Rightarrow> bool \<times> genericHandler" where
  "genericHandler_Delete obj h =
     (if \<not> allowed (gh_shouldUpdate h) obj then (False, h)
      else case getObjectIndexByObj obj (gh_eventData h) of
             None \<Rightarrow> (False, h)
           | Some index \<Rightarrow> (True, h\<lparr>gh_eventData := remove_at index (gh_eventData h)\<rparr>))"

definition cleanPolicy :: "kobject \<Rightarrow> kobject" where
  "cleanPolicy policy = policy\<lparr>ko_Status := [], ko_StatusNil := True, ko_Details := []\<rparr>"

section \<open>The compliance handler\<close>

record Compliance_payload = ComplianceData +
  cp_NamespacedName :: string

record complianceHandler =
  ch_eventData :: "Compliance_payload list"
  ch_shouldUpdate :: update_filter

definition extractPolicyIdentity :: "kobject \<Rightarrow> string" where
  "extractPolicyIdentity obj =
     (case map_of (ko_Annotations obj) OriginOwnerReferenceAnnotation of
        Some v \<Rightarrow> v | None \<Rightarrow> ko_UID obj)"

definition namespaced_name :: "kobject \<Rightarrow> string" where
  "namespaced_name obj = ko_Namespace obj @ ''/'' @ ko_Name obj"

definition clusters_in :: "(string \<Rightarrow> bool) \<Rightarrow> kobject \<Rightarrow> string list" where
  "clusters_in P policy = map fst (filter (\<lambda>cs. P (snd cs)) (ko_Status policy))"

definition other_state :: "string \<Rightarrow> bool" where
  "other_state s = (s \<noteq> ''Compliant'' \<and> s \<noteq> ''NonCompliant'' \<and> s \<noteq> ''Pending'')"

text \<open>Compliant, non compliant, unknown and pending clusters, in this order.\<close>

definition getClusterStatus :: "kobject \<Rightarrow> string list \<times> string list \<times> string list \<times> string list" where
  "getClusterStatus policy =
     (clusters_in (\<lambda>s. s = ''Compliant'') policy, clusters_in (\<lambda>s. s = ''NonCompliant'') policy,
      clusters_in other_state policy, clusters_in (\<lambda>s. s = ''Pending'') policy)"

fun payload_index :: "('p \<Rightarrow> bool) \<Rightarrow> 'p list \<Rightarrow> nat option" where
  "payload_index P [] = None"
| "payload_index P (x # xs) = (if P x then Some 0 else map_option Suc (payload_index P xs))"

definition getIndexByPolicyID :: "string \<Rightarrow> Compliance_payload list \<Rightarrow> nat option" where
  "getIndexByPolicyID uid compliances = payload_index (\<lambda>c. cd_PolicyID c = uid) compliances"

definition getCompliancesIndexByObj :: "kobject \<Rightarrow> Compliance_payload list \<Rightarrow> nat option" where
  "getCompliancesIndexByObj obj compliances =
     (let uid = extractPolicyIdentity obj
      in if length uid > 0 then payload_index (\<lambda>c. uid = cd_PolicyID c) compliances
         else payload_index (\<lambda>c. cp_NamespacedName c = namespaced_name obj) compliances)"

definition getNewCompliance :: "string \<Rightarrow> kobject \<Rightarrow> Compliance_payload" where
  "getNewCompliance originPolicyID policy =
     (let (comp, nonComp, unknown, pending) = getClusterStatus policy
      in \<lparr>cd_PolicyID = originPolicyID, cd_CompliantClusters = comp, cd_NonCompliantClusters = nonComp,
          cd_UnknownComplianceClusters = unknown, cd_PendingComplianceClusters = pending,
          cp_NamespacedName = namespaced_name policy\<rparr>)"

definition updatePayloadIfChanged :: "nat \<Rightarrow> kobject \<Rightarrow> complianceHandler \<Rightarrow> bool \<times> complianceHandler" where
  "updatePayloadIfChanged objectIndex policy h =
     (let (newCompliant, newNonCompliant, newUnknown, newPending) = getClusterStatus policy;
          allClusters = Merge [newCompliant, newNonCompliant, newUnknown, newPending];
          cached = ch_eventData h ! objectIndex;
          clusterListChanged =
            (length (cd_CompliantClusters cached) + length (cd_NonCompliantClusters cached) +
               length (cd_UnknownComplianceClusters cached) + length (cd_PendingComplianceClusters cached) \<noteq> length allClusters \<or>
             \<not> ContainSubStrings allClusters (cd_CompliantClusters cached) \<or>
             \<not> ContainSubStrings allClusters (cd_NonCompliantClusters cached) \<or>
             \<not> ContainSubStrings allClusters (cd_UnknownComplianceClusters cached) \<or>
             \<not> ContainSubStrings allClusters (cd_PendingComplianceClusters cached));
          cached1 = cached\<lparr>cd_CompliantClusters := newCompliant, cd_NonCompliantClusters := newNonCompliant,
                      cd_UnknownComplianceClusters := newUnknown, cd_PendingComplianceClusters := newPending\<rparr>
      in (clusterListChanged, h\<lparr>ch_eventData := (ch_eventData h)[objectIndex := cached1]\<rparr>))"

definition complianceHandler_Update :: "kobject \<Rightarrow> complianceHandler \<Rightarrow> bool \<times> complianceHandler" where
  "complianceHandler_Update obj h =
     (if \<not> ch_shouldUpdate h obj then (False, h)
      else if \<not> ko_IsPolicy obj then (False, h)
      else let policyID = extractPolicyIdentity obj
           in case getIndexByPolicyID policyID (ch_eventData h) of
                None \<Rightarrow>
                  let compliance = getNewCompliance policyID obj
                  in if length (cd_CompliantClusters compliance) = 0 \<and> length (cd_NonCompliantClusters compliance) = 0 \<and>
                        length (cd_UnknownComplianceClusters compliance) = 0 \<and> length (cd_PendingComplianceClusters compliance) = 0
                     then (False, h)
                     else (True, h\<lparr>ch_eventData := ch_eventData h @ [compliance]\<rparr>)
              | Some index \<Rightarrow> updatePayloadIfChanged index obj h)"

definition complianceHandler_Delete :: "kobject \<Rightarrow> complianceHandler \<Rightarrow> bool \<times> complianceHandler" where
  "complianceHandler_Delete obj h =
     (if \<not> ch_shouldUpdate h obj then (False, h)
      else case getCompliancesIndexByObj obj (ch_eventData h) of
             None \<Rightarrow> (False, h)
           | Some index \<Rightarrow> (True, h\<lparr>ch_eventData := remove_at index (ch_eventData h)\<rparr>))"

section \<open>The complete compliance handler\<close>

record Complete_payload = CompleteCompliance +
  cq_NamespacedName :: string

record completeComplianceHandler =
  cl_eventData :: "Complete_payload list"
  cl_shouldUpdate :: update_filter

definition newCompleteCompliance :: "string \<Rightarrow> kobject \<Rightarrow> Complete_payload" where
  "newCompleteCompliance originPolicyID policy =
     \<lparr>cc_PolicyID = originPolicyID,
      cc_NonCompliantClusters = clusters_in (\<lambda>s. s = ''NonCompliant'') policy,
      cc_UnknownComplianceClusters = clusters_in other_state policy,
      cc_PendingComplianceClusters = clusters_in (\<lambda>s. s = ''Pending'') policy,
      cq_NamespacedName = namespaced_name policy\<rparr>"

definition getPayloadIndexByUID :: "string \<Rightarrow> Complete_payload list \<Rightarrow> nat option" where
  "getPayloadIndexByUID uid completes = payload_index (\<lambda>c. cc_PolicyID c = uid) completes"

definition getPayloadIndexByObj :: "kobject \<Rightarrow> Complete_payload list \<Rightarrow> nat option" where
  "getPayloadIndexByObj obj completes =
     (let uid = extractPolicyIdentity obj
      in if length uid > 0 then payload_index (\<lambda>c. uid = cc_PolicyID c) completes
         else payload_index (\<lambda>c. cq_NamespacedName c = namespaced_name obj) completes)"

definition nothing_listed :: "Complete_payload \<Rightarrow> bool" where
  "nothing_listed c = (length (cc_NonCompliantClusters c) = 0 \<and> length (cc_UnknownComplianceClusters c) = 0 \<and>
     length (cc_PendingComplianceClusters c) = 0)"

definition completeHandler_Update :: "kobject \<Rightarrow> completeComplianceHandler \<Rightarrow> bool \<times> completeComplianceHandler" where
  "completeHandler_Update obj h =
     (if \<not> ko_IsPolicy obj then (False, h)
      else if \<not> cl_shouldUpdate h obj then (False, h)
      else if ko_StatusNil obj then (False, h)
      else let originPolicyID = extractPolicyIdentity obj;
               newComplete = newCompleteCompliance originPolicyID obj
           in case getPayloadIndexByUID originPolicyID (cl_eventData h) of
                None \<Rightarrow> if nothing_listed newComplete then (False, h)
                        else (True, h\<lparr>cl_eventData := cl_eventData h @ [newComplete]\<rparr>)
              | Some index \<Rightarrow>
                  let old = cl_eventData h ! index
                  in if slices_Equal (cc_NonCompliantClusters old) (cc_NonCompliantClusters newComplete) \<and>
                        slices_Equal (cc_PendingComplianceClusters old) (cc_PendingComplianceClusters newComplete) \<and>
                        slices_Equal (cc_UnknownComplianceClusters old) (cc_UnknownComplianceClusters newComplete)
                     then (False, h)
                     else let updated = old\<lparr>cc_NonCompliantClusters := cc_NonCompliantClusters newComplete,
                                  cc_UnknownComplianceClusters := cc_UnknownComplianceClusters newComplete,
                                  cc_PendingComplianceClusters := cc_PendingComplianceClusters newComplete\<rparr>;
                              data = (cl_eventData h)[index := updated]
                          in (True, h\<lparr>cl_eventData := (if nothing_listed updated then remove_at index data else data)\<rparr>))"

text \<open>A deletion never asks for an event: the compliance bundle is sent instead.\<close>

definition completeHandler_Delete :: "kobject \<Rightarrow> completeComplianceHandler \<Rightarrow> bool \<times> completeComplianceHandler" where
  "completeHandler_Delete obj h =
     (if \<not> ko_IsPolicy obj then (False, h)
      else if \<not> cl_shouldUpdate h obj then (False, h)
      else case getPayloadIndexByObj obj (cl_eventData h) of
             None \<Rightarrow> (False, h)
           | Some index \<Rightarrow> (False, h\<lparr>cl_eventData := remove_at index (cl_eventData h)\<rparr>))"

end
