(* ===== verification/AgentSyncer.thy ===== *)
theory AgentSyncer
  imports AgentHandlers
begin

text \<open>
  The policy event handler with its time filter (\<^verbatim>\<open>status_event_handler.go\<close>, \<^verbatim>\<open>time_filter.go\<close>), and
  the two syncers of \<^verbatim>\<open>agent/pkg/status/generic\<close> that reconcile objects into payloads and send
  the payloads as events.

  The Kubernetes client is a parameter: the answer of \<^verbatim>\<open>Get\<close> is an argument of the reconcilers, and
  \<open>upd\<close> is \<^verbatim>\<open>Update\<close> on a state \<open>'k\<close> of the API server. Times are integers, in nanoseconds
  since the first of January of the year 1, the zero time of Go.
\<close>

section \<open>The time filter\<close>

record time_filter =
  tf_topicName :: string
  tf_eventTimeCache :: "(string, int) gomap"
  tf_lastEventTimeCache :: "(string, int) gomap"

definition DeltaDuration :: int where
  "DeltaDuration = 3 * 1000000000"

definition CacheTime :: "string \<Rightarrow> int \<Rightarrow> time_filter \<Rightarrow> time_filter" where
  "CacheTime key new tf =
     (case map_of (tf_eventTimeCache tf) key of
        Some old \<Rightarrow> if old < new then tf\<lparr>tf_eventTimeCache := AList.update key new (tf_eventTimeCache tf)\<rparr> else tf
      | None \<Rightarrow> tf\<lparr>tf_eventTimeCache := AList.update key new (tf_eventTimeCache tf)\<rparr>)"

definition Newer :: "string \<Rightarrow> int \<Rightarrow> time_filter \<Rightarrow> bool" where
  "Newer key val tf =
     (case map_of (tf_eventTimeCache tf) key of
        None \<Rightarrow> True
      | Some old \<Rightarrow> let older = old - DeltaDuration in val > older)"

definition RegisterTimeFilter :: "string \<Rightarrow> time_filter \<Rightarrow> time_filter" where
  "RegisterTimeFilter key tf =
     tf\<lparr>tf_eventTimeCache := AList.update key 0 (tf_eventTimeCache tf),
        tf_lastEventTimeCache := AList.update key 0 (tf_lastEventTimeCache tf)\<rparr>"

definition cacheKey :: "time_filter \<Rightarrow> string \<Rightarrow> string" where
  "cacheKey tf key = tf_topicName tf @ ''--'' @ key"

text \<open>\<open>parse_time\<close> and \<open>format_time\<close> are Go's \<^verbatim>\<open>time.Parse\<close> and \<^verbatim>\<open>Format\<close> with the layout of the cache.\<close>

definition loadEventTimeCacheFromConfigMap ::
    "(string \<Rightarrow> int option) \<Rightarrow> (string, string) gomap \<Rightarrow> string \<Rightarrow> time_filter \<Rightarrow> bool \<times> time_filter" where
  "loadEventTimeCacheFromConfigMap parse_time cmData key tf =
     (case map_of cmData (cacheKey tf key) of
        None \<Rightarrow> (True, tf)
      | Some val \<Rightarrow>
          (case parse_time val of
             None \<Rightarrow> (False, tf)
           | Some timeVal \<Rightarrow> (True, tf\<lparr>tf_eventTimeCache := AList.update key timeVal (tf_eventTimeCache tf)\<rparr>)))"

text \<open>The loop over the cache; a key that is not found has the zero time as its last time.\<close>

fun refresh_last :: "(string, int) gomap \<Rightarrow> bool \<Rightarrow> (string, int) gomap \<Rightarrow> bool \<times> (string, int) gomap" where
  "refresh_last [] upd_needed last_cache = (upd_needed, last_cache)"
| "refresh_last ((key, currentTime) # cache) upd_needed last_cache =
     (let found = (map_of last_cache key \<noteq> None);
          lastTime = (case map_of last_cache key of None \<Rightarrow> 0 | Some t \<Rightarrow> t);
          (u1, l1) = (if \<not> found then (True, AList.update key currentTime last_cache) else (upd_needed, last_cache));
          (u2, l2) = (if lastTime < currentTime then (True, AList.update key currentTime l1) else (u1, l1))
      in refresh_last cache u2 l2)"

text \<open>
  \<^verbatim>\<open>periodicSync\<close> of the filter; \<open>cm\<close> is the data of the config map that \<^verbatim>\<open>Get\<close> returns. The result
  is the new filter, and the data to write when the cache changed and the map was found.
\<close>

definition filter_periodicSync ::
    "(int \<Rightarrow> string) \<Rightarrow> (string, string) gomap option \<Rightarrow> time_filter \<Rightarrow> time_filter \<times> (string, string) gomap option" where
  "filter_periodicSync format_time cm tf =
     (let (update_needed, l) = refresh_last (tf_eventTimeCache tf) False (tf_lastEventTimeCache tf);
          tf1 = tf\<lparr>tf_lastEventTimeCache := l\<rparr>
      in (tf1, if \<not> update_needed then None
               else map_option (\<lambda>data. fold (\<lambda>(key, val). AList.update (cacheKey tf1 key) (format_time val)) l data) cm))"

section \<open>Policy events\<close>

record 's policyStatusEventHandler =
  ps_name :: string
  ps_payload :: "'s ReplicatedPolicyEvent list"
  ps_shouldUpdate :: update_filter

text \<open>
  \<^verbatim>\<open>(\w+);\<close>: the leftmost match is the first maximal run of word characters that a semicolon follows.
\<close>

definition word_char :: "char \<Rightarrow> bool" where
  "word_char c =
     (let n = (of_char c :: nat)
      in (97 \<le> n \<and> n \<le> 122) \<or> (65 \<le> n \<and> n \<le> 90) \<or> (48 \<le> n \<and> n \<le> 57) \<or> n = 95)"

fun find_word :: "string \<Rightarrow> string \<Rightarrow> string option" where
  "find_word acc [] = None"
| "find_word acc (c # cs) =
     (if word_char c then find_word (acc @ [c]) cs
      else if c = CHR '';'' \<and> acc \<noteq> [] then Some acc
      else find_word [] cs)"

text \<open>The match has no white space, so trimming it changes nothing.\<close>

definition GetComplianceState :: "string \<Rightarrow> string \<Rightarrow> string" where
  "GetComplianceState message defaultVal =
     (case find_word [] message of Some firstWord \<Rightarrow> firstWord | None \<Rightarrow> defaultVal)"

text \<open>
  \<open>get_policy\<close> and \<open>get_cluster\<close> are the client's \<^verbatim>\<open>Get\<close>: the identifier of the policy of a
  namespace and name, and the identifier and claims of a managed cluster.
\<close>

definition GetRootPolicy :: "(string \<Rightarrow> string \<Rightarrow> string option) \<Rightarrow> string \<Rightarrow> string option" where
  "GetRootPolicy get_policy namespacedName =
     (let parts = split_on CHR ''.'' namespacedName
      in if length parts < 2 then None else get_policy (parts ! 0) (parts ! 1))"

fun claim_or :: "string \<Rightarrow> (string \<times> string) list \<Rightarrow> string" where
  "claim_or uid [] = uid"
| "claim_or uid ((name, v) # claims) = (if name = ''id.k8s.io'' then v else claim_or uid claims)"

definition GetClusterId :: "(string \<Rightarrow> (string \<times> (string \<times> string) list) option) \<Rightarrow> string \<Rightarrow> string option" where
  "GetClusterId get_cluster clusterName = map_option (\<lambda>(uid, claims). claim_or uid claims) (get_cluster clusterName)"

record policy_client =
  pc_get_policy :: "string \<Rightarrow> string \<Rightarrow> string option"
  pc_get_cluster :: "string \<Rightarrow> (string \<times> (string \<times> string) list) option"

definition GetRootPolicyAndClusterInfo :: "policy_client \<Rightarrow> kobject \<Rightarrow> (string \<times> string \<times> string) option" where
  "GetRootPolicyAndClusterInfo c replicatedPolicy =
     (let rootName = (case map_of (ko_Labels replicatedPolicy) PolicyEventRootPolicyNameLabelKey of
                        None \<Rightarrow> [] | Some n \<Rightarrow> n)
      in case GetRootPolicy (pc_get_policy c) rootName of
           None \<Rightarrow> None
         | Some rootUID \<Rightarrow>
             (case map_of (ko_Labels replicatedPolicy) PolicyEventClusterNameLabelKey of
                None \<Rightarrow> None
              | Some clusterName \<Rightarrow>
                  map_option (\<lambda>clusterID. (rootUID, clusterID, clusterName)) (GetClusterId (pc_get_cluster c) clusterName)))"

text \<open>\<open>source\<close> is the fixed event source of these events.\<close>

definition status_event ::
    "'s \<Rightarrow> kobject \<Rightarrow> string \<times> string \<times> string \<Rightarrow> string \<Rightarrow> history_event \<Rightarrow> 's ReplicatedPolicyEvent" where
  "status_event source policy info detailState evt =
     (let (rootUID, clusterID, clusterName) = info
      in \<lparr>be_EventName = he_EventName evt, be_EventNamespace = ko_Namespace policy, be_Message = he_Message evt,
          be_Reason = ''PolicyStatusSync'', be_Count = 1, be_Source = source, be_CreatedAt = he_LastTimestamp evt,
          pe_PolicyID = rootUID, pe_ClusterID = clusterID, pe_ClusterName = clusterName,
          pe_Compliance = GetComplianceState (he_Message evt) detailState\<rparr>)"

definition statusHandler_Update ::
    "policy_client \<Rightarrow> 's \<Rightarrow> time_filter \<Rightarrow> kobject \<Rightarrow> 's policyStatusEventHandler \<Rightarrow> bool \<times> 's policyStatusEventHandler" where
  "statusHandler_Update c source tf obj h =
     (if \<not> ps_shouldUpdate h obj then (False, h)
      else if \<not> ko_IsPolicy obj then (False, h)
      else case GetRootPolicyAndClusterInfo c obj of
             None \<Rightarrow> (False, h)
           | Some info \<Rightarrow>
               let evts = concat (map (\<lambda>detail. map (status_event source obj info (pd_ComplianceState detail))
                            (filter (\<lambda>evt. Newer (ps_name h) (he_LastTimestamp evt) tf) (pd_History detail))) (ko_Details obj))
               in (evts \<noteq> [], h\<lparr>ps_payload := ps_payload h @ evts\<rparr>))"

definition statusHandler_postSend ::
    "string \<Rightarrow> 's policyStatusEventHandler \<times> time_filter \<Rightarrow> 's policyStatusEventHandler \<times> time_filter" where
  "statusHandler_postSend name s =
     (let (h, tf) = s
      in (h\<lparr>ps_payload := []\<rparr>, fold (\<lambda>evt. CacheTime name (be_CreatedAt evt)) (ps_payload h) tf))"

section \<open>Finalizers\<close>

definition GlobalHubGlobalResourceLabel :: string where
  "GlobalHubGlobalResourceLabel = ''global-hub.open-cluster-management.io/global-resource''"

definition GlobalHubCleanupFinalizer :: string where
  "GlobalHubCleanupFinalizer = ''global-hub.open-cluster-management.io/resource-cleanup''"

definition GlobalHubFinalizerRemovingDeadline :: string where
  "GlobalHubFinalizerRemovingDeadline = ''global-hub.open-cluster-management.io/finalizer-removing-deadline''"

datatype update_result = UpdateOk | Modified | UpdateError

datatype finalizer_error = BadDeadline | UpdateFailed

type_synonym 'k updater = "kobject \<Rightarrow> 'k \<Rightarrow> update_result \<times> 'k"

definition enableCleanUpFinalizer :: "kobject \<Rightarrow> bool" where
  "enableCleanUpFinalizer obj =
     (HasLabel obj GlobalHubGlobalResourceLabel \<or> HasAnnotation obj OriginOwnerReferenceAnnotation)"

definition cleanObject :: "kobject \<Rightarrow> kobject" where
  "cleanObject object = object\<lparr>ko_ManagedFields := [], ko_Finalizers := [], ko_OwnerReferences := []\<rparr>"

text \<open>A conflict of the update is not an error; the controller sees the object again.\<close>

definition put_finalizer :: "'k updater \<Rightarrow> string \<Rightarrow> kobject \<Rightarrow> 'k \<Rightarrow> finalizer_error option \<times> 'k" where
  "put_finalizer upd finalizer obj k =
     (if finalizer \<in> set (ko_Finalizers obj) then (None, k)
      else case upd (obj\<lparr>ko_Finalizers := ko_Finalizers obj @ [finalizer]\<rparr>) k of
             (UpdateError, k1) \<Rightarrow> (Some UpdateFailed, k1)
           | (_, k1) \<Rightarrow> (None, k1))"

definition addFinalizer :: "'k updater \<Rightarrow> int \<Rightarrow> kobject \<Rightarrow> string \<Rightarrow> 'k \<Rightarrow> finalizer_error option \<times> 'k" where
  "addFinalizer upd now obj finalizer k =
     (case map_of (ko_Labels obj) GlobalHubFinalizerRemovingDeadline of
        Some val \<Rightarrow>
          (case ParseInt val of
             (Some _, _) \<Rightarrow> (Some BadDeadline, k)
           | (None, deadline) \<Rightarrow>
               if now < deadline then (None, k)
               else put_finalizer upd finalizer
                      (obj\<lparr>ko_Labels := AList.delete GlobalHubFinalizerRemovingDeadline (ko_Labels obj)\<rparr>) k)
      | None \<Rightarrow> put_finalizer upd finalizer obj k)"

definition removeFinalizer :: "'k updater \<Rightarrow> kobject \<Rightarrow> string \<Rightarrow> 'k \<Rightarrow> finalizer_error option \<times> 'k" where
  "removeFinalizer upd obj finalizer k =
     (if finalizer \<notin> set (ko_Finalizers obj) then (None, k)
      else case upd (obj\<lparr>ko_Finalizers := removeAll finalizer (ko_Finalizers obj)\<rparr>) k of
             (UpdateOk, k1) \<Rightarrow> (None, k1)
           | (_, k1) \<Rightarrow> (Some UpdateFailed, k1))"

section \<open>Several events from one kind of object\<close>

datatype 's Handler =
    HGeneric genericHandler
  | HCompliance complianceHandler
  | HComplete completeComplianceHandler
  | HStatusEvent "'s policyStatusEventHandler"

text \<open>What an update reads beside the payload: the client, the event source and the time filter.\<close>

record 's update_env =
  ue_client :: policy_client
  ue_source :: 's
  ue_filter :: time_filter

fun handler_Update :: "'s update_env \<Rightarrow> kobject \<Rightarrow> 's Handler \<Rightarrow> bool \<times> 's Handler \<times> kobject" where
  "handler_Update env obj (HGeneric h) = (let (u, h1, obj1) = genericHandler_Update obj h in (u, HGeneric h1, obj1))"
| "handler_Update env obj (HCompliance h) = (let (u, h1) = complianceHandler_Update obj h in (u, HCompliance h1, obj))"
| "handler_Update env obj (HComplete h) = (let (u, h1) = completeHandler_Update obj h in (u, HComplete h1, obj))"
| "handler_Update env obj (HStatusEvent h) =
     (let (u, h1) = statusHandler_Update (ue_client env) (ue_source env) (ue_filter env) obj h in (u, HStatusEvent h1, obj))"

fun handler_Delete :: "kobject \<Rightarrow> 's Handler \<Rightarrow> bool \<times> 's Handler" where
  "handler_Delete obj (HGeneric h) = map_prod id HGeneric (genericHandler_Delete obj h)"
| "handler_Delete obj (HCompliance h) = map_prod id HCompliance (complianceHandler_Delete obj h)"
| "handler_Delete obj (HComplete h) = map_prod id HComplete (completeHandler_Delete obj h)"
| "handler_Delete obj (HStatusEvent h) = (False, HStatusEvent h)"

record 's EmitterHandler =
  eh_Emitter :: "('s Handler, time_filter) genericEmitter"
  eh_Handler :: "'s Handler"

text \<open>\<open>updateObject\<close>: the object that one handler has written to is what the next one reads.\<close>

fun updateObject ::
    "'s update_env \<Rightarrow> kobject \<Rightarrow> 's EmitterHandler list \<Rightarrow> vstore \<Rightarrow> 's EmitterHandler list \<times> vstore \<times> kobject" where
  "updateObject env obj [] vs = ([], vs, obj)"
| "updateObject env obj (e # es) vs =
     (let (u, h1, obj1) = handler_Update env obj (eh_Handler e);
          vs1 = (if u then PostUpdate (eh_Emitter e) vs else vs);
          (es1, vs2, obj2) = updateObject env obj1 es vs1
      in (e\<lparr>eh_Handler := h1\<rparr> # es1, vs2, obj2))"

fun deleteObject :: "kobject \<Rightarrow> 's EmitterHandler list \<Rightarrow> vstore \<Rightarrow> 's EmitterHandler list \<times> vstore" where
  "deleteObject obj [] vs = ([], vs)"
| "deleteObject obj (e # es) vs =
     (let (u, h1) = handler_Delete obj (eh_Handler e);
          vs1 = (if u then PostUpdate (eh_Emitter e) vs else vs);
          (es1, vs2) = deleteObject obj es vs1
      in (e\<lparr>eh_Handler := h1\<rparr> # es1, vs2))"

text \<open>
  \<^verbatim>\<open>syncEvents\<close>. \<open>send i evt\<close> says whether the producer accepted the event of the emitter at
  position \<open>i\<close>. An encoding error is only logged. The result has the events that were sent.
\<close>

fun syncEvents ::
    "('s Handler \<Rightarrow> 'd \<times> bool) \<Rightarrow> string \<Rightarrow> (nat \<Rightarrow> 'd Event \<Rightarrow> bool) \<Rightarrow> nat \<Rightarrow> 's EmitterHandler list
       \<Rightarrow> vstore \<Rightarrow> time_filter \<Rightarrow> 's EmitterHandler list \<times> vstore \<times> time_filter \<times> 'd Event list" where
  "syncEvents encode leafHubName send i [] vs tf = ([], vs, tf, [])"
| "syncEvents encode leafHubName send i (e # es) vs tf =
     (if ShouldSend vs (eh_Emitter e) then
        let (evt0, ok) = ToCloudEvent encode leafHubName [] vs (eh_Emitter e) (eh_Handler e);
            evt = evt0\<lparr>evt_Source := leafHubName\<rparr>
        in if send i evt then
             let (em1, vs1, h1, tf1) = PostSend (eh_Emitter e) vs (eh_Handler e) tf;
                 (es1, vs2, tf2, sent) = syncEvents encode leafHubName send (Suc i) es vs1 tf1
             in (\<lparr>eh_Emitter = em1, eh_Handler = h1\<rparr> # es1, vs2, tf2, evt # sent)
           else
             let (es1, vs2, tf2, sent) = syncEvents encode leafHubName send (Suc i) es vs tf
             in (e # es1, vs2, tf2, sent)
      else
        let (es1, vs2, tf2, sent) = syncEvents encode leafHubName send (Suc i) es vs tf
        in (e # es1, vs2, tf2, sent))"

datatype get_result = NotFound | GetError | Found kobject

datatype reconcile_result = Done | Requeue

definition empty_object :: "string \<Rightarrow> string \<Rightarrow> kobject" where
  "empty_object ns n =
     \<lparr>ko_IsPolicy = True, ko_Namespace = ns, ko_Name = n, ko_UID = [], ko_Generation = 0, ko_ResourceVersion = [],
      ko_Labels = [], ko_Annotations = [], ko_Deleting = False, ko_Finalizers = [], ko_OwnerReferences = [],
      ko_ManagedFields = [], ko_Status = [], ko_StatusNil = True, ko_Details = []\<rparr>"

definition finalizer_result :: "finalizer_error option \<times> 'k \<Rightarrow> reconcile_result \<times> 'k" where
  "finalizer_result r = (case r of (None, k) \<Rightarrow> (Done, k) | (Some _, k) \<Rightarrow> (Requeue, k))"

definition multiEvent_Reconcile ::
    "'s update_env \<Rightarrow> 'k updater \<Rightarrow> int \<Rightarrow> string \<times> string \<Rightarrow> get_result \<Rightarrow> 's EmitterHandler list \<Rightarrow> vstore \<Rightarrow> 'k
       \<Rightarrow> reconcile_result \<times> 's EmitterHandler list \<times> vstore \<times> 'k" where
  "multiEvent_Reconcile env upd now request got es vs k =
     (case got of
        NotFound \<Rightarrow>
          let (es1, vs1) = deleteObject (empty_object (fst request) (snd request)) es vs
          in (Done, es1, vs1, k)
      | GetError \<Rightarrow> (Requeue, es, vs, k)
      | Found object \<Rightarrow>
          if ko_Deleting object then
            let (es1, vs1) = deleteObject object es vs
            in if \<not> enableCleanUpFinalizer object then (Done, es1, vs1, k)
               else let (res, k1) = finalizer_result (removeFinalizer upd object GlobalHubCleanupFinalizer k)
                    in (res, es1, vs1, k1)
          else
            let object1 = cleanObject object;
                (es1, vs1, object2) = updateObject env object1 es vs
            in if \<not> enableCleanUpFinalizer object2 then (Done, es1, vs1, k)
               else let (res, k1) = finalizer_result (addFinalizer upd now object2 GlobalHubCleanupFinalizer k)
                    in (res, es1, vs1, k1))"

section \<open>One event from several kinds of objects\<close>

text \<open>
  \<^verbatim>\<open>multi_object_syncer.go\<close>. All handlers share one payload of type \<open>'p\<close>; a controller has an update and
  a deletion on it. With no controller there is no payload.
\<close>

record ('p, 'w) object_syncer =
  os_emitter :: "('p option, 'w) genericEmitter"
  os_payload :: 'p
  os_hasControllers :: bool

definition syncEvent ::
    "('p option \<Rightarrow> 'd \<times> bool) \<Rightarrow> string \<Rightarrow> ('d Event \<Rightarrow> bool) \<Rightarrow> ('p, 'w) object_syncer \<Rightarrow> vstore \<Rightarrow> 'w
       \<Rightarrow> ('p, 'w) object_syncer \<times> vstore \<times> 'w \<times> 'd Event option" where
  "syncEvent encode leafHubName send s vs w =
     (let eventData = (if os_hasControllers s then Some (os_payload s) else None)
      in if ShouldSend vs (os_emitter s) then
           let (evt, ok) = ToCloudEvent encode leafHubName [] vs (os_emitter s) eventData
           in if \<not> ok then (s, vs, w, None)
              else if \<not> send evt then (s, vs, w, None)
              else let (em1, vs1, data1, w1) = PostSend (os_emitter s) vs eventData w
                   in (s\<lparr>os_emitter := em1, os_payload := (case data1 of None \<Rightarrow> os_payload s | Some p \<Rightarrow> p)\<rparr>, vs1, w1, Some evt)
         else (s, vs, w, None))"

definition updateObjectAndFinalizer ::
    "(kobject \<Rightarrow> 'p \<Rightarrow> bool \<times> 'p) \<Rightarrow> 'k updater \<Rightarrow> int \<Rightarrow> kobject \<Rightarrow> ('p, 'w) object_syncer \<Rightarrow> vstore \<Rightarrow> 'k
       \<Rightarrow> finalizer_error option \<times> ('p, 'w) object_syncer \<times> vstore \<times> 'k" where
  "updateObjectAndFinalizer update upd now object s vs k =
     (let (err, k1) = (if enableCleanUpFinalizer object then addFinalizer upd now object GlobalHubCleanupFinalizer k
                       else (None, k))
      in case err of
           Some e \<Rightarrow> (Some e, s, vs, k1)
         | None \<Rightarrow>
             let (u, p1) = update object (os_payload s)
             in (None, s\<lparr>os_payload := p1\<rparr>, if u then PostUpdate (os_emitter s) vs else vs, k1))"

definition deleteObjectAndFinalizer ::
    "(kobject \<Rightarrow> 'p \<Rightarrow> bool \<times> 'p) \<Rightarrow> 'k updater \<Rightarrow> kobject \<Rightarrow> ('p, 'w) object_syncer \<Rightarrow> vstore \<Rightarrow> 'k
       \<Rightarrow> finalizer_error option \<times> ('p, 'w) object_syncer \<times> vstore \<times> 'k" where
  "deleteObjectAndFinalizer delete upd object s vs k =
     (let (u, p1) = delete object (os_payload s);
          s1 = s\<lparr>os_payload := p1\<rparr>;
          vs1 = (if u then PostUpdate (os_emitter s) vs else vs)
      in if enableCleanUpFinalizer object
         then let (err, k1) = removeFinalizer upd object GlobalHubCleanupFinalizer k in (err, s1, vs1, k1)
         else (None, s1, vs1, k))"

definition object_Reconcile ::
    "(kobject \<Rightarrow> 'p \<Rightarrow> bool \<times> 'p) \<Rightarrow> (kobject \<Rightarrow> 'p \<Rightarrow> bool \<times> 'p) \<Rightarrow> 'k updater \<Rightarrow> int \<Rightarrow> string \<times> string \<Rightarrow> get_result
       \<Rightarrow> ('p, 'w) object_syncer \<Rightarrow> vstore \<Rightarrow> 'k \<Rightarrow> reconcile_result \<times> ('p, 'w) object_syncer \<times> vstore \<times> 'k" where
  "object_Reconcile update delete upd now request got s vs k =
     (let finish = (\<lambda>(err, s1, vs1, k1). ((case err of None \<Rightarrow> Done | Some _ \<Rightarrow> Requeue), s1, vs1, k1))
      in case got of
           NotFound \<Rightarrow> finish (deleteObjectAndFinalizer delete upd (empty_object (fst request) (snd request)) s vs k)
         | GetError \<Rightarrow> (Requeue, s, vs, k)
         | Found object \<Rightarrow>
             if ko_Deleting object then finish (deleteObjectAndFinalizer delete upd object s vs k)
             else finish (updateObjectAndFinalizer update upd now object s vs k))"

end
