(* ===== verification/AgentProps.thy ===== *)
theory AgentProps
  imports AgentSyncer PipelineProps ComplianceSync "HOL-Library.Sublist"
begin

text \<open>
  Properties of the agent's side, and of agent and manager together: the versions that an
  emitter gives its events are accepted by the conflation of the manager, and the bundles that the
  compliance handler builds have the form on which the manager's handler relies.
\<close>

section \<open>The life of an emitter\<close>

text \<open>
  What happens to a syncer between two restarts of the agent: a handler changes the payload and
  reports it, a resync asks for the event again, or the syncer comes round and the producer
  accepts the event or not.
\<close>

datatype 'p agent_op = Changed 'p | Resync | Tick bool

fun agent_run ::
    "('p option \<Rightarrow> 'd \<times> bool) \<Rightarrow> string \<Rightarrow> 'p agent_op list \<Rightarrow> ('p, 'w) object_syncer \<Rightarrow> vstore \<Rightarrow> 'w \<Rightarrow> 'd Event list" where
  "agent_run encode hub [] s vs w = []"
| "agent_run encode hub (Changed p # ops) s vs w =
     agent_run encode hub ops (s\<lparr>os_payload := p\<rparr>) (PostUpdate (os_emitter s) vs) w"
| "agent_run encode hub (Resync # ops) s vs w =
     agent_run encode hub ops s
       (snd (resync_Sync (Some [em_eventType (os_emitter s)])
               (EnableResync (em_eventType (os_emitter s)) (em_currentVersion (os_emitter s)) None) vs)) w"
| "agent_run encode hub (Tick accepted # ops) s vs w =
     (case syncEvent encode hub (\<lambda>_. accepted) s vs w of
        (s1, vs1, w1, None) \<Rightarrow> agent_run encode hub ops s1 vs1 w1
      | (s1, vs1, w1, Some evt) \<Rightarrow> evt # agent_run encode hub ops s1 vs1 w1)"

lemma resync_bumps:
  "snd (resync_Sync (Some [t]) (EnableResync t r None) vs) = vs(r := Incr (vs r))"
  by (simp add: resync_Sync_def EnableResync_def)

lemma syncEvent_cases:
  fixes s :: "('p, 'w) object_syncer"
  assumes "syncEvent encode hub send s vs w = (s1, vs1, w1, o1)"
  obtains (quiet) "o1 = None" "s1 = s" "vs1 = vs"
    | (sent) evt where "o1 = Some evt" "em_lastSentVersion (os_emitter s) < vs (em_currentVersion (os_emitter s))"
        "em_currentVersion (os_emitter s1) = em_currentVersion (os_emitter s)"
        "vs1 = vs(em_currentVersion (os_emitter s) := Next (vs (em_currentVersion (os_emitter s))))"
        "em_lastSentVersion (os_emitter s1) = Next (vs (em_currentVersion (os_emitter s)))"
        "getVersionFromEvent evt ExtVersion = Inr (Some (vs (em_currentVersion (os_emitter s))))"
  using assms ToCloudEvent_version(1) [of encode hub "[]" vs "os_emitter s"]
  by (auto simp: syncEvent_def Let_def ShouldSend_def NewerThan_less PostSend_def
      split: if_splits prod.splits)

text \<open>The version that the manager reads from an event.\<close>

definition event_version :: "'d Event \<Rightarrow> Version" where
  "event_version evt = (case getVersionFromEvent evt ExtVersion of Inr (Some v) \<Rightarrow> v | _ \<Rightarrow> NewVersion)"

text \<open>
  The n-th event that is sent has generation n, and its value is above that of the version sent
  last.
\<close>

lemma u64_Suc: "unat w + 1 < 2 ^ 64 \<Longrightarrow> unat (w + 1) = unat w + 1 \<and> w \<le> w + 1" for w :: u64
  by (simp add: unat_word_ariths word_le_nat_alt)

lemma Incr_value:
  assumes "unat (Value v) + Suc n < 2 ^ 64"
  shows "unat (Value (Incr v)) + n < 2 ^ 64" "Value v \<le> Value (Incr v)" "Generation (Incr v) = Generation v"
  using u64_Suc [of "Value v"] assms by (simp_all add: Incr_def)

lemma agent_run_versions:
  assumes "unat (Value (vs (em_currentVersion (os_emitter s)))) + length ops < 2 ^ 64" "k + length ops < 2 ^ 64"
    and "Generation (vs (em_currentVersion (os_emitter s))) = of_nat k"
    and "Generation (em_lastSentVersion (os_emitter s)) = of_nat k"
    and "Value (em_lastSentVersion (os_emitter s)) \<le> Value (vs (em_currentVersion (os_emitter s)))"
  shows "(let sent = map event_version (agent_run encode hub ops s vs w)
          in map Generation sent = map of_nat [k ..< k + length sent] \<and> length sent \<le> length ops \<and>
             (sent \<noteq> [] \<longrightarrow> Value (em_lastSentVersion (os_emitter s)) < Value (hd sent)))"
  using assms
proof (induction encode hub ops s vs w arbitrary: k rule: agent_run.induct)
  case (1 encode hub s vs w)
  then show ?case by simp
next
  case (2 encode hub p ops s vs w)
  let ?v = "vs (em_currentVersion (os_emitter s))"
  define vs1 where "vs1 = PostUpdate (os_emitter s) vs"
  have vs1: "vs1 (em_currentVersion (os_emitter s)) = Incr ?v" by (simp add: vs1_def PostUpdate_def)
  have v: "unat (Value ?v) + Suc (length ops) < 2 ^ 64" using "2.prems"(1) by simp
  have "Value (em_lastSentVersion (os_emitter s)) \<le> Value (Incr ?v)"
    using "2.prems"(5) Incr_value(2) [OF v] by (rule order_trans)
  with Incr_value [OF v] "2.prems" "2.IH" [of k, folded vs1_def] show ?case
    by (simp add: vs1 Let_def vs1_def [symmetric])
next
  case (3 encode hub ops s vs w)
  let ?v = "vs (em_currentVersion (os_emitter s))"
  define vs1 where "vs1 = snd (resync_Sync (Some [em_eventType (os_emitter s)])
               (EnableResync (em_eventType (os_emitter s)) (em_currentVersion (os_emitter s)) None) vs)"
  have vs1: "vs1 (em_currentVersion (os_emitter s)) = Incr ?v" by (simp add: vs1_def resync_bumps)
  have v: "unat (Value ?v) + Suc (length ops) < 2 ^ 64" using "3.prems"(1) by simp
  have "Value (em_lastSentVersion (os_emitter s)) \<le> Value (Incr ?v)"
    using "3.prems"(5) Incr_value(2) [OF v] by (rule order_trans)
  with Incr_value [OF v] "3.prems" "3.IH" [of k, folded vs1_def] show ?case
    by (simp add: vs1 Let_def vs1_def [symmetric])
next
  case (4 encode hub accepted ops s vs w)
  let ?r = "em_currentVersion (os_emitter s)"
  obtain s1 vs1 w1 o1 where e: "syncEvent encode hub (\<lambda>_. accepted) s vs w = (s1, vs1, w1, o1)" by (metis prod_cases4)
  from e show ?case
  proof (cases rule: syncEvent_cases)
    case quiet
    with "4.IH"(1) [OF e [symmetric] refl refl quiet(1), of k] e "4.prems" show ?thesis
      by (simp add: Let_def le_SucI)
  next
    case (sent evt)
    have ih: "let sent = map event_version (agent_run encode hub ops s1 vs1 w1)
        in map Generation sent = map of_nat [Suc k ..< Suc k + length sent] \<and> length sent \<le> length ops \<and>
           (sent \<noteq> [] \<longrightarrow> Value (em_lastSentVersion (os_emitter s1)) < Value (hd sent))"
    proof (rule "4.IH"(2) [OF e [symmetric] refl refl sent(1)])
      have cur: "vs1 (em_currentVersion (os_emitter s1)) = Next (vs ?r)" using sent(3,4) by simp
      show "unat (Value (vs1 (em_currentVersion (os_emitter s1)))) + length ops < 2 ^ 64" "Suc k + length ops < 2 ^ 64"
        "Generation (vs1 (em_currentVersion (os_emitter s1))) = of_nat (Suc k)"
        "Generation (em_lastSentVersion (os_emitter s1)) = of_nat (Suc k)"
        "Value (em_lastSentVersion (os_emitter s1)) \<le> Value (vs1 (em_currentVersion (os_emitter s1)))"
        using "4.prems" unfolding cur sent(5) by (simp_all add: Next_def)
    qed
    have "event_version evt = vs ?r" using sent(6) by (simp add: event_version_def)
    moreover have "Value (em_lastSentVersion (os_emitter s)) < Value (vs ?r)"
      using sent(2) "4.prems"(3,4) by (auto simp: less_Version_ext_def less_eq_Version_ext_def)
    moreover have "[k ..< k + Suc n] = k # [Suc k ..< Suc k + n]" for n
      by (simp add: upt_conv_Cons del: upt_Suc)
    ultimately show ?thesis
      using ih e sent(1) "4.prems"(3) by (simp add: Let_def del: upt_Suc)
  qed
qed

section \<open>Agent and manager\<close>

text \<open>Whether an element of the manager accepts each of the versions, delivered one after the other.\<close>

fun accepted_all :: "Version list \<Rightarrow> Version \<Rightarrow> bool" where
  "accepted_all [] known = True"
| "accepted_all (v # vs) known = (accepts_spec v known \<and> accepted_all vs (conflate_spec v known))"

lemma accepted_increasing:
  "sorted_wrt (<) vs \<Longrightarrow> \<forall>v \<in> set vs. known < v \<and> \<not> InitGen v \<Longrightarrow> accepted_all vs known"
proof (induction vs arbitrary: known)
  case Nil
  then show ?case by simp
next
  case (Cons v vs)
  from Cons.prems have "conflate_spec v known = v" by (simp add: conflate_spec_def max_def less_imp_le)
  with Cons show ?case by (simp add: accepts_spec_def)
qed

lemma accepted_from_first:
  assumes "sorted_wrt (<) (v # vs)" "InitGen v" "NewVersion < v" "\<forall>x \<in> set vs. \<not> InitGen x"
  shows "accepted_all (v # vs) known"
  using assms by (auto simp: accepts_spec_def conflate_spec_def intro: accepted_increasing)

lemma generation_less: "Generation a < Generation b \<Longrightarrow> a < b" for a b :: Version
  by (auto simp: less_Version_ext_def less_eq_Version_ext_def)

lemma generations_sorted:
  fixes vs :: "Version list"
  assumes "map Generation vs = map of_nat [k ..< k + length vs]" "k + length vs \<le> 2 ^ 64"
  shows "sorted_wrt (<) vs" and "i < length vs \<Longrightarrow> Generation (vs ! i) = of_nat (k + i)"
proof -
  have nth: "Generation (vs ! i) = of_nat (k + i)" if "i < length vs" for i
    using arg_cong [OF assms(1), of "\<lambda>l. l ! i"] that by simp
  then show "i < length vs \<Longrightarrow> Generation (vs ! i) = of_nat (k + i)" by blast
  have "(of_nat (k + i) :: u64) < of_nat (k + j)" if "i < j" "j < length vs" for i j
    using that assms(2) by (simp add: word_less_nat_alt unat_of_nat del: of_nat_add)
  then show "sorted_wrt (<) vs"
    by (auto simp: sorted_wrt_iff_nth_less nth simp del: of_nat_add intro!: generation_less)
qed

lemma subseq_sorted:
  "subseq xs ys \<Longrightarrow> sorted_wrt P (map f ys) \<Longrightarrow> sorted_wrt P (map f xs) \<and> set xs \<subseteq> set ys"
  by (induction rule: list_emb.induct) auto

lemma new_emitter:
  assumes "NewGenericEmitter fresh ty opts (vs0, reg) = (em, vs, reg')" "vs (em_currentVersion em) = NewVersion"
  shows "em_lastSentVersion em = NewVersion"
  using assms by (auto simp: NewGenericEmitter_def Let_def)


definition ex_emitter :: "(unit option, unit) genericEmitter" where
  "ex_emitter = \<lparr>em_eventType = ''t'', em_currentVersion = 0, em_lastSentVersion = NewVersion, em_topic = [],
     em_dependencyVersion = None, em_postSend = None\<rparr>"

definition ex_syncer :: "(unit, unit) object_syncer" where
  "ex_syncer = \<lparr>os_emitter = ex_emitter, os_payload = (), os_hasControllers = True\<rparr>"

lemma ex_agent_run:
  "\<exists>e es. agent_run (\<lambda>_. ((), True)) ''h1'' [Changed (), Tick False, Tick True, Resync, Tick True] ex_syncer
     ((\<lambda>_. NewVersion)(0 := NewVersion)) () = e # es \<and> length es = 1"
  by (simp add: ex_syncer_def ex_emitter_def syncEvent_def PostUpdate_def PostSend_def ShouldSend_def ToCloudEvent_def
      resync_bumps NewerThan_def Equals_def Incr_def Next_def NewVersion_def Let_def)


end
