(* ===== verification/AgentBundle.thy ===== *)
theory AgentBundle
  imports AgentHandlers ComplianceSync
begin

text \<open>
  The compliance handler of the agent and the compliance handler of the manager together. The
  payload that the agent keeps is related to the rows that the manager should have for the hub:
  an update of a policy replaces the rows of the policy and a deletion removes them.
\<close>

section \<open>The rows that a history of objects stands for\<close>

datatype policy_op = Upd kobject | Del kobject

fun handler_run :: "policy_op list \<Rightarrow> complianceHandler \<Rightarrow> complianceHandler" where
  "handler_run [] h = h"
| "handler_run (Upd obj # ops) h = handler_run ops (snd (complianceHandler_Update obj h))"
| "handler_run (Del obj # ops) h = handler_run ops (snd (complianceHandler_Delete obj h))"

definition status_of :: "string \<Rightarrow> ComplianceStatus" where
  "status_of s = (if s = ''Compliant'' then Compliant else if s = ''NonCompliant'' then NonCompliant
                  else if s = ''Pending'' then Pending else Unknown)"

definition object_rows :: "string \<Rightarrow> kobject \<Rightarrow> ComplianceRow set" where
  "object_rows hub obj = (\<lambda>(c, s). compliance_row hub (extractPolicyIdentity obj) (status_of s) c) ` set (ko_Status obj)"

text \<open>
  \<open>name_of\<close> gives the namespaced name of a policy from its identity. A deletion that has only the
  name (the object was not found) removes the rows of the policy with this name.
\<close>

fun rows_step :: "(string \<Rightarrow> string) \<Rightarrow> update_filter \<Rightarrow> string \<Rightarrow> policy_op \<Rightarrow> ComplianceRow set \<Rightarrow> ComplianceRow set" where
  "rows_step name_of should hub (Upd obj) R =
     (if should obj \<and> ko_IsPolicy obj then {r \<in> R. cr_PolicyID r \<noteq> extractPolicyIdentity obj} \<union> object_rows hub obj else R)"
| "rows_step name_of should hub (Del obj) R =
     (if \<not> should obj then R
      else if extractPolicyIdentity obj \<noteq> [] then {r \<in> R. cr_PolicyID r \<noteq> extractPolicyIdentity obj}
      else {r \<in> R. name_of (cr_PolicyID r) \<noteq> namespaced_name obj})"

definition rows_run :: "(string \<Rightarrow> string) \<Rightarrow> update_filter \<Rightarrow> string \<Rightarrow> policy_op list \<Rightarrow> ComplianceRow set \<Rightarrow> ComplianceRow set" where
  "rows_run name_of should hub ops R = fold (rows_step name_of should hub) ops R"

text \<open>An object as the API server stores it: it has an identity, and its status names every cluster once.\<close>

fun wf_op :: "(string \<Rightarrow> string) \<Rightarrow> policy_op \<Rightarrow> bool" where
  "wf_op name_of (Upd obj) \<longleftrightarrow> extractPolicyIdentity obj \<noteq> [] \<and> namespaced_name obj = name_of (extractPolicyIdentity obj) \<and>
     distinct (map fst (ko_Status obj)) \<and> [] \<notin> fst ` set (ko_Status obj)"
| "wf_op name_of (Del obj) \<longleftrightarrow> True"

section \<open>Positions in a payload\<close>

lemma payload_index_None: "payload_index P xs = None \<longleftrightarrow> (\<forall>x \<in> set xs. \<not> P x)"
  by (induction xs) auto

lemma payload_index_Some:
  "payload_index P xs = Some i \<Longrightarrow> \<exists>ys x zs. xs = ys @ x # zs \<and> i = length ys \<and> P x \<and> (\<forall>y \<in> set ys. \<not> P y)"
proof (induction xs arbitrary: i)
  case Nil
  then show ?case by simp
next
  case (Cons a xs)
  show ?case
  proof (cases "P a")
    case True
    with Cons.prems show ?thesis by (intro exI [of _ "[]"]) auto
  next
    case False
    with Cons.prems obtain j where "payload_index P xs = Some j" "i = Suc j" by auto
    with Cons.IH [of j] obtain ys x zs where "xs = ys @ x # zs \<and> j = length ys \<and> P x \<and> (\<forall>y \<in> set ys. \<not> P y)" by blast
    with \<open>i = Suc j\<close> False show ?thesis by (intro exI [of _ "a # ys"]) auto
  qed
qed

lemma remove_at_append [simp]: "remove_at (length ys) (ys @ x # zs) = ys @ zs"
  by (simp add: remove_at_def)

section \<open>Clusters by state\<close>

lemma set_clusters_in: "set (clusters_in P obj) = {c. \<exists>s. (c, s) \<in> set (ko_Status obj) \<and> P s}"
  by (force simp: clusters_in_def)

lemma distinct_clusters_in: "distinct (map fst (ko_Status obj)) \<Longrightarrow> distinct (clusters_in P obj)"
  by (simp add: clusters_in_def distinct_map_filter)

text \<open>The entry that the handler has for a policy once it has seen the object.\<close>

definition entry_of :: "kobject \<Rightarrow> ComplianceData \<Rightarrow> bool" where
  "entry_of obj e \<longleftrightarrow>
     cd_PolicyID e = extractPolicyIdentity obj \<and>
     cd_CompliantClusters e = clusters_in (\<lambda>s. s = ''Compliant'') obj \<and>
     cd_NonCompliantClusters e = clusters_in (\<lambda>s. s = ''NonCompliant'') obj \<and>
     cd_UnknownComplianceClusters e = clusters_in other_state obj \<and>
     cd_PendingComplianceClusters e = clusters_in (\<lambda>s. s = ''Pending'') obj"

lemma entry_rows: "entry_of obj e \<Longrightarrow> set (event_rows hub e) = object_rows hub obj"
  unfolding entry_of_def event_rows_def object_rows_def
  by (auto simp: set_clusters_in status_of_def other_state_def image_iff split: if_splits) (force)+

lemma entry_clusters: "entry_of obj e \<Longrightarrow> set (event_clusters e) = fst ` set (ko_Status obj)"
  unfolding entry_of_def event_clusters_def
  by (auto simp: set_clusters_in other_state_def image_iff) (force)+

lemma clusters_in_disjoint:
  assumes "distinct (map fst (ko_Status obj))" "\<And>s. P s \<Longrightarrow> \<not> Q s"
  shows "set (clusters_in P obj) \<inter> set (clusters_in Q obj) = {}"
proof (intro equals0I)
  fix c assume "c \<in> set (clusters_in P obj) \<inter> set (clusters_in Q obj)"
  then obtain s t where "(c, s) \<in> set (ko_Status obj)" "(c, t) \<in> set (ko_Status obj)" "P s" "Q t"
    by (auto simp: set_clusters_in)
  with assms eq_key_imp_eq_value show False by metis
qed

lemma entry_distinct:
  assumes "entry_of obj e" "distinct (map fst (ko_Status obj))"
  shows "distinct (event_clusters e)"
proof -
  note d = clusters_in_disjoint [OF assms(2)]
  let ?c = "\<lambda>s. set (clusters_in (\<lambda>t. t = s) obj)" and ?u = "set (clusters_in other_state obj)"
  have "?c ''Compliant'' \<inter> ?c ''NonCompliant'' = {}" "?c ''Compliant'' \<inter> ?c ''Pending'' = {}" "?c ''NonCompliant'' \<inter> ?c ''Pending'' = {}"
    by (rule d, simp)+
  moreover have "?c ''Compliant'' \<inter> ?u = {}" "?c ''NonCompliant'' \<inter> ?u = {}" "?u \<inter> ?c ''Pending'' = {}"
    by (rule d, simp add: other_state_def)+
  ultimately show ?thesis
    using assms(1) unfolding entry_of_def event_clusters_def
    by (simp add: distinct_clusters_in [OF assms(2)] Int_Un_distrib)
qed

section \<open>The payload and its rows\<close>

definition payload_rows :: "string \<Rightarrow> Compliance_payload list \<Rightarrow> ComplianceRow set" where
  "payload_rows hub d = bundle_rows hub (map ComplianceData.truncate d)"

definition payload_ok :: "(string \<Rightarrow> string) \<Rightarrow> Compliance_payload list \<Rightarrow> bool" where
  "payload_ok name_of d \<longleftrightarrow> wf_bundle (map ComplianceData.truncate d) \<and> named_bundle (map ComplianceData.truncate d) \<and>
     (\<forall>e \<in> set d. cp_NamespacedName e = name_of (cd_PolicyID e))"

lemma truncate_sel [simp]:
  "cd_PolicyID (ComplianceData.truncate e) = cd_PolicyID e"
  "cd_CompliantClusters (ComplianceData.truncate e) = cd_CompliantClusters e"
  "cd_NonCompliantClusters (ComplianceData.truncate e) = cd_NonCompliantClusters e"
  "cd_UnknownComplianceClusters (ComplianceData.truncate e) = cd_UnknownComplianceClusters e"
  "cd_PendingComplianceClusters (ComplianceData.truncate e) = cd_PendingComplianceClusters e"
  by (simp_all add: ComplianceData.truncate_def)

lemma payload_rows_simps [simp]:
  "payload_rows hub [] = {}"
  "payload_rows hub (e # d) = set (event_rows hub (ComplianceData.truncate e)) \<union> payload_rows hub d"
  "payload_rows hub (d @ d') = payload_rows hub d \<union> payload_rows hub d'"
  by (auto simp: payload_rows_def bundle_rows_def)

lemma payload_rows_policy: "r \<in> payload_rows hub d \<Longrightarrow> cr_LeafHubName r = hub \<and> cr_PolicyID r \<in> cd_PolicyID ` set d"
  by (induction d) (auto dest: event_rows_sel)

lemma payload_rows_other: "p \<notin> cd_PolicyID ` set d \<Longrightarrow> r \<in> payload_rows hub d \<Longrightarrow> cr_PolicyID r \<noteq> p"
  by (metis payload_rows_policy)

lemma payload_ok_ids: "payload_ok name_of d \<Longrightarrow> distinct (map cd_PolicyID d)"
  by (simp add: payload_ok_def wf_bundle_def comp_def)

lemma payload_ok_remove: "payload_ok name_of (ys @ x # zs) \<Longrightarrow> payload_ok name_of (ys @ zs)"
  by (auto simp: payload_ok_def wf_bundle_def named_bundle_def)

lemma payload_ok_insert:
  assumes "payload_ok name_of (ys @ zs)" "wf_op name_of (Upd obj)" "entry_of obj (ComplianceData.truncate e)"
    and "cp_NamespacedName e = namespaced_name obj" "extractPolicyIdentity obj \<notin> cd_PolicyID ` set (ys @ zs)"
  shows "payload_ok name_of (ys @ e # zs)"
proof -
  from assms(3) have "cd_PolicyID e = extractPolicyIdentity obj" by (simp add: entry_of_def)
  with assms(1,2,4,5) entry_clusters [OF assms(3)] entry_distinct [OF assms(3)] show ?thesis
    by (auto simp: payload_ok_def wf_bundle_def named_bundle_def)
qed

text \<open>Replacing the entry of a policy replaces its rows, and removing it removes them.\<close>

lemma rows_without:
  assumes "payload_ok name_of (ys @ x # zs)"
  shows "payload_rows hub (ys @ zs) = {r \<in> payload_rows hub (ys @ x # zs). cr_PolicyID r \<noteq> cd_PolicyID x}"
proof -
  from payload_ok_ids [OF assms] have "cd_PolicyID x \<notin> cd_PolicyID ` set (ys @ zs)" by auto
  then show ?thesis
    using payload_rows_other [of "cd_PolicyID x" "ys @ zs" _ hub] event_rows_sel [of _ hub "ComplianceData.truncate x"] by auto
qed

lemma rows_with:
  assumes "entry_of obj (ComplianceData.truncate e)"
  shows "payload_rows hub (ys @ e # zs) = payload_rows hub (ys @ zs) \<union> object_rows hub obj"
  using entry_rows [OF assms, of hub] by auto

lemma entry_new: "entry_of obj (ComplianceData.truncate (getNewCompliance (extractPolicyIdentity obj) obj))"
  by (simp add: entry_of_def getNewCompliance_def getClusterStatus_def)

lemma update_changed:
  assumes "ch_eventData h = ys @ x # zs" "cd_PolicyID x = extractPolicyIdentity obj"
  obtains x' where "snd (updatePayloadIfChanged (length ys) obj h) = h\<lparr>ch_eventData := ys @ x' # zs\<rparr>"
    "entry_of obj (ComplianceData.truncate x')" "cp_NamespacedName x' = cp_NamespacedName x"
proof -
  let ?x = "x\<lparr>cd_CompliantClusters := clusters_in (\<lambda>s. s = ''Compliant'') obj,
       cd_NonCompliantClusters := clusters_in (\<lambda>s. s = ''NonCompliant'') obj,
       cd_UnknownComplianceClusters := clusters_in other_state obj,
       cd_PendingComplianceClusters := clusters_in (\<lambda>s. s = ''Pending'') obj\<rparr>"
  show ?thesis
    by (rule that [of ?x])
      (use assms in \<open>simp_all add: updatePayloadIfChanged_def getClusterStatus_def entry_of_def Let_def\<close>)
qed

text \<open>One operation: the payload stays well formed and its rows follow the specification.\<close>

definition refines :: "(string \<Rightarrow> string) \<Rightarrow> string \<Rightarrow> complianceHandler \<Rightarrow> ComplianceRow set \<Rightarrow> bool" where
  "refines name_of hub h R \<longleftrightarrow> payload_ok name_of (ch_eventData h) \<and> payload_rows hub (ch_eventData h) = R"

lemma no_rows: "entry_of obj (ComplianceData.truncate e) \<Longrightarrow> cd_CompliantClusters e = [] \<Longrightarrow> cd_NonCompliantClusters e = [] \<Longrightarrow>
   cd_UnknownComplianceClusters e = [] \<Longrightarrow> cd_PendingComplianceClusters e = [] \<Longrightarrow> object_rows hub obj = {}"
  using entry_rows [of obj "ComplianceData.truncate e" hub] by (simp add: event_rows_def)

lemma Update_refines:
  assumes "refines name_of hub h R" "wf_op name_of (Upd obj)"
  shows "refines name_of hub (snd (complianceHandler_Update obj h)) (rows_step name_of (ch_shouldUpdate h) hub (Upd obj) R)"
proof (cases "ch_shouldUpdate h obj \<and> ko_IsPolicy obj")
  case False
  with assms show ?thesis by (auto simp: complianceHandler_Update_def)
next
  case go: True
  let ?p = "extractPolicyIdentity obj"
  from assms(1) have ok: "payload_ok name_of (ch_eventData h)" and R: "payload_rows hub (ch_eventData h) = R"
    by (auto simp: refines_def)
  show ?thesis
  proof (cases "getIndexByPolicyID ?p (ch_eventData h)")
    case None
    then have new: "?p \<notin> cd_PolicyID ` set (ch_eventData h)"
      by (auto simp: getIndexByPolicyID_def payload_index_None)
    then have keep: "{r \<in> R. cr_PolicyID r \<noteq> ?p} = R"
      using payload_rows_other [of ?p "ch_eventData h" _ hub] R by auto
    let ?e = "getNewCompliance ?p obj"
    have "cp_NamespacedName ?e = namespaced_name obj" by (simp add: getNewCompliance_def getClusterStatus_def)
    with payload_ok_insert [where ys = "ch_eventData h" and zs = "[]", OF _ assms(2) entry_new] ok new
    have "payload_ok name_of (ch_eventData h @ [?e])" by simp
    with go None keep R ok rows_with [OF entry_new, where hub = hub and ys = "ch_eventData h" and zs = "[]"] no_rows [OF entry_new, where hub = hub] show ?thesis
      by (auto simp: complianceHandler_Update_def refines_def Let_def)
  next
    case (Some i)
    then obtain ys x zs where s: "ch_eventData h = ys @ x # zs" "i = length ys" "cd_PolicyID x = ?p"
      by (auto simp: getIndexByPolicyID_def dest!: payload_index_Some)
    from update_changed [OF s(1,3)] obtain x' where x': "snd (updatePayloadIfChanged i obj h) = h\<lparr>ch_eventData := ys @ x' # zs\<rparr>"
      "entry_of obj (ComplianceData.truncate x')" "cp_NamespacedName x' = cp_NamespacedName x" unfolding s(2) by metis
    have ids: "?p \<notin> cd_PolicyID ` set (ys @ zs)" using payload_ok_ids [OF ok] s by auto
    have "cp_NamespacedName x' = namespaced_name obj" using ok s assms(2) x'(3) by (auto simp: payload_ok_def)
    with payload_ok_insert [OF payload_ok_remove [OF ok [unfolded s(1)]] assms(2) x'(2) _ ids]
    have "payload_ok name_of (ys @ x' # zs)" by simp
    moreover have "payload_rows hub (ys @ x' # zs) = {r \<in> R. cr_PolicyID r \<noteq> ?p} \<union> object_rows hub obj"
      unfolding rows_with [OF x'(2)] rows_without [OF ok [unfolded s(1)]] by (simp add: R [unfolded s(1), symmetric] s(3) del: payload_rows_simps)
    ultimately show ?thesis using go Some x'(1) by (simp add: complianceHandler_Update_def refines_def)
  qed
qed

lemma Delete_refines:
  assumes "refines name_of hub h R" "inj name_of"
  shows "refines name_of hub (snd (complianceHandler_Delete obj h)) (rows_step name_of (ch_shouldUpdate h) hub (Del obj) R)"
proof -
  let ?p = "extractPolicyIdentity obj"
  define P where "P c \<longleftrightarrow> (if ?p \<noteq> [] then ?p = cd_PolicyID c else cp_NamespacedName c = namespaced_name obj)"
    for c :: Compliance_payload
  have idx: "getCompliancesIndexByObj obj (ch_eventData h) = payload_index P (ch_eventData h)"
    by (simp add: getCompliancesIndexByObj_def P_def [abs_def] Let_def)
  from assms(1) have ok: "payload_ok name_of (ch_eventData h)" and R: "payload_rows hub (ch_eventData h) = R"
    by (auto simp: refines_def)
  have gone: "rows_step name_of (ch_shouldUpdate h) hub (Del obj) R = {r \<in> R. \<not> Q (cr_PolicyID r)}"
    if "ch_shouldUpdate h obj" "\<And>q. Q q \<longleftrightarrow> (if ?p \<noteq> [] then ?p = q else name_of q = namespaced_name obj)" for Q
    using that by auto
  have names: "P c \<longleftrightarrow> (if ?p \<noteq> [] then ?p = cd_PolicyID c else name_of (cd_PolicyID c) = namespaced_name obj)"
    if "c \<in> set (ch_eventData h)" for c
    using that ok by (auto simp: P_def payload_ok_def)
  define Q where "Q q \<longleftrightarrow> (if ?p \<noteq> [] then ?p = q else name_of q = namespaced_name obj)" for q
  show ?thesis
  proof (cases "ch_shouldUpdate h obj")
    case False
    with assms show ?thesis by (simp add: complianceHandler_Delete_def)
  next
    case should: True
    note gone = gone [OF should, of Q, OF Q_def]
    show ?thesis
    proof (cases "payload_index P (ch_eventData h)")
      case None
      then have "\<not> Q (cd_PolicyID c)" if "c \<in> set (ch_eventData h)" for c
        using that names by (auto simp: payload_index_None Q_def)
      then have "{r \<in> R. \<not> Q (cr_PolicyID r)} = R"
        using payload_rows_policy [of _ hub "ch_eventData h"] R by fastforce
      with None should ok R show ?thesis unfolding gone by (simp add: complianceHandler_Delete_def idx refines_def)
    next
      case (Some i)
      then obtain ys x zs where s: "ch_eventData h = ys @ x # zs" "i = length ys" "P x" by (auto dest!: payload_index_Some)
      then have "Q q \<longleftrightarrow> q = cd_PolicyID x" for q
        using names [of x] injD [OF assms(2)] by (auto simp: Q_def split: if_splits)
      then have "rows_step name_of (ch_shouldUpdate h) hub (Del obj) R = {r \<in> R. cr_PolicyID r \<noteq> cd_PolicyID x}"
        unfolding gone by simp
      with Some should s payload_ok_remove [OF ok [unfolded s(1)]] rows_without [OF ok [unfolded s(1)], of hub] R [unfolded s(1)]
        idx [unfolded s(1)]
      show ?thesis by (simp add: complianceHandler_Delete_def refines_def del: rows_step.simps payload_rows_simps)
    qed
  qed
qed

lemma shouldUpdate_kept [simp]:
  "ch_shouldUpdate (snd (complianceHandler_Update obj h)) = ch_shouldUpdate h"
  "ch_shouldUpdate (snd (complianceHandler_Delete obj h)) = ch_shouldUpdate h"
  by (auto simp: complianceHandler_Update_def complianceHandler_Delete_def updatePayloadIfChanged_def Let_def
      split: prod.splits option.splits)

lemma handler_run_refines:
  assumes "refines name_of hub h R" "inj name_of" "\<forall>x \<in> set ops. wf_op name_of x"
  shows "refines name_of hub (handler_run ops h) (rows_run name_of (ch_shouldUpdate h) hub ops R)"
  using assms
proof (induction ops h arbitrary: R rule: handler_run.induct)
  case (1 h)
  then show ?case by (simp add: rows_run_def)
next
  case (2 obj ops h)
  from "2.prems" have "refines name_of hub (snd (complianceHandler_Update obj h))
      (rows_step name_of (ch_shouldUpdate h) hub (Upd obj) R)"
    by (intro Update_refines) (auto simp del: rows_step.simps)
  from "2.IH" [OF this] "2.prems" show ?case by (simp add: rows_run_def del: rows_step.simps)
next
  case (3 obj ops h)
  from "3.IH" [OF Delete_refines [OF "3.prems"(1,2), of obj]] "3.prems" show ?case
    by (simp add: rows_run_def del: rows_step.simps)
qed


definition ex_policy :: "string \<Rightarrow> (string \<times> string) list \<Rightarrow> kobject" where
  "ex_policy n st = \<lparr>ko_IsPolicy = True, ko_Namespace = ''ns'', ko_Name = n, ko_UID = n, ko_Generation = 1, ko_ResourceVersion = ''1'',
      ko_Labels = [], ko_Annotations = [], ko_Deleting = False, ko_Finalizers = [], ko_OwnerReferences = [],
      ko_ManagedFields = [], ko_Status = st, ko_StatusNil = False, ko_Details = []\<rparr>"

definition ex_ops :: "policy_op list" where
  "ex_ops = [Upd (ex_policy ''p1'' [(''c1'', ''Compliant''), (''c2'', ''Pending'')]), Upd (ex_policy ''p2'' [(''c1'', ''Compliant'')]),
     Upd (ex_policy ''p1'' [(''c1'', ''NonCompliant''), (''c3'', ''Compliant'')]), Del ((ex_policy ''p2'' [])\<lparr>ko_UID := []\<rparr>)]"

definition ex_compliance_handler :: complianceHandler where
  "ex_compliance_handler = \<lparr>ch_eventData = [], ch_shouldUpdate = \<lambda>_. True\<rparr>"

definition ex_name :: "string \<Rightarrow> string" where
  "ex_name p = ''ns/'' @ p"

lemma ex_agent_ok: "inj ex_name" "\<forall>x \<in> set ex_ops. wf_op ex_name x" "ch_eventData ex_compliance_handler = []"
  by (simp_all add: ex_name_def inj_def ex_ops_def ex_policy_def ex_compliance_handler_def extractPolicyIdentity_def
      namespaced_name_def)

lemma ex_agent_bundle: "map ComplianceData.truncate (ch_eventData (handler_run ex_ops ex_compliance_handler)) = ex_bundle"
  by code_simp


section \<open>What an update reports\<close>

text \<open>The clusters of each policy, without their states.\<close>

definition cluster_view :: "complianceHandler \<Rightarrow> string \<Rightarrow> string set" where
  "cluster_view h p = (\<Union>e \<in> {e \<in> set (ch_eventData h). cd_PolicyID e = p}. set (event_clusters (ComplianceData.truncate e)))"

lemma ContainsString_iff: "ContainsString xs s \<longleftrightarrow> s \<in> set xs"
  by (induction xs) auto

lemma ContainSubStrings_iff: "ContainSubStrings xs ys \<longleftrightarrow> set ys \<subseteq> set xs"
  by (induction ys) (auto simp: ContainsString_iff)

lemma same_length_subset:
  "distinct xs \<Longrightarrow> distinct ys \<Longrightarrow> (length xs = length ys \<and> set xs \<subseteq> set ys) \<longleftrightarrow> set xs = set ys"
  by (metis card_subset_eq distinct_card finite_set order_refl)

lemma slices_Equal_iff: "distinct xs \<Longrightarrow> distinct ys \<Longrightarrow> slices_Equal xs ys \<longleftrightarrow> set xs = set ys"
  using same_length_subset [of ys xs] by (auto simp: slices_Equal_def ContainSubStrings_iff)

lemma changed_iff:
  assumes "entry_of obj e'" "distinct (map fst (ko_Status obj))" "distinct (event_clusters (ComplianceData.truncate (ch_eventData h ! i)))"
  shows "fst (updatePayloadIfChanged i obj h) \<longleftrightarrow> set (event_clusters (ComplianceData.truncate (ch_eventData h ! i))) \<noteq> set (event_clusters e')"
proof -
  let ?x = "ComplianceData.truncate (ch_eventData h ! i)"
  have "fst (updatePayloadIfChanged i obj h) \<longleftrightarrow>
      \<not> (length (event_clusters ?x) = length (event_clusters e') \<and> set (event_clusters ?x) \<subseteq> set (event_clusters e'))"
    using assms(1) by (auto simp: updatePayloadIfChanged_def getClusterStatus_def entry_of_def event_clusters_def
        Merge_def ContainSubStrings_iff Let_def)
  then show ?thesis using same_length_subset [OF assms(3) entry_distinct [OF assms(1,2)]] by simp
qed

lemma cluster_view_split:
  assumes "ch_eventData h = ys @ x # zs" "distinct (map cd_PolicyID (ch_eventData h))"
  shows "cluster_view h p = (if p = cd_PolicyID x then set (event_clusters (ComplianceData.truncate x))
                             else cluster_view (h\<lparr>ch_eventData := ys @ zs\<rparr>) p)"
  using assms by (auto simp: cluster_view_def) (metis image_eqI)+

text \<open>
  An update of the compliance handler asks for a compliance event exactly when the set of
  clusters of some policy changes. A change of a cluster's state alone is not reported here; it is
  what the complete compliance event is for.
\<close>

theorem compliance_update_reports_changes:
  assumes "payload_ok name_of (ch_eventData h)" "wf_op name_of (Upd obj)"
  shows "fst (complianceHandler_Update obj h) \<longleftrightarrow> cluster_view (snd (complianceHandler_Update obj h)) \<noteq> cluster_view h"
proof (cases "ch_shouldUpdate h obj \<and> ko_IsPolicy obj")
  case False
  then show ?thesis by (auto simp: complianceHandler_Update_def)
next
  case go: True
  let ?p = "extractPolicyIdentity obj" and ?h' = "snd (complianceHandler_Update obj h)"
  show ?thesis
  proof (cases "getIndexByPolicyID ?p (ch_eventData h)")
    case None
    then have new: "\<forall>e \<in> set (ch_eventData h). cd_PolicyID e \<noteq> ?p"
      by (auto simp: getIndexByPolicyID_def payload_index_None)
    let ?e = "getNewCompliance ?p obj"
    show ?thesis
    proof (cases "event_clusters (ComplianceData.truncate ?e) = []")
      case True
      with go None show ?thesis by (simp add: complianceHandler_Update_def event_clusters_def Let_def)
    next
      case False
      have "cluster_view h ?p = {}" using new by (auto simp: cluster_view_def)
      moreover have "cluster_view (h\<lparr>ch_eventData := ch_eventData h @ [?e]\<rparr>) ?p \<noteq> {}"
        using False by (auto simp: cluster_view_def getNewCompliance_def getClusterStatus_def)
      moreover have "complianceHandler_Update obj h = (True, h\<lparr>ch_eventData := ch_eventData h @ [?e]\<rparr>)"
        using go None False by (auto simp: complianceHandler_Update_def event_clusters_def Let_def)
      ultimately show ?thesis by auto
    qed
  next
    case (Some i)
    then obtain ys x zs where s: "ch_eventData h = ys @ x # zs" "i = length ys" "cd_PolicyID x = ?p"
      by (auto simp: getIndexByPolicyID_def dest!: payload_index_Some)
    from update_changed [OF s(1,3)] obtain x' where x': "snd (updatePayloadIfChanged i obj h) = h\<lparr>ch_eventData := ys @ x' # zs\<rparr>"
      "entry_of obj (ComplianceData.truncate x')" unfolding s(2) by metis
    have ids: "distinct (map cd_PolicyID (ch_eventData h))" by (rule payload_ok_ids [OF assms(1)])
    have id': "cd_PolicyID x' = ?p" using x'(2) by (simp add: entry_of_def)
    have "distinct (event_clusters (ComplianceData.truncate (ch_eventData h ! i)))"
      using assms(1) s by (auto simp: payload_ok_def wf_bundle_def)
    with changed_iff [OF x'(2), of h i] assms(2) have flag: "fst (updatePayloadIfChanged i obj h) \<longleftrightarrow>
        set (event_clusters (ComplianceData.truncate x)) \<noteq> set (event_clusters (ComplianceData.truncate x'))"
      by (simp add: s)
    have "cluster_view ?h' p = (if p = ?p then set (event_clusters (ComplianceData.truncate x')) else cluster_view h p)" for p
      using cluster_view_split [of ?h' ys x' zs p] cluster_view_split [OF s(1) ids, of p] go Some x'(1) ids id' s
      by (simp add: complianceHandler_Update_def)
    then have "cluster_view ?h' \<noteq> cluster_view h \<longleftrightarrow> set (event_clusters (ComplianceData.truncate x')) \<noteq> cluster_view h ?p"
      by (auto simp: fun_eq_iff)
    with flag cluster_view_split [OF s(1) ids, of ?p] s(3) go Some show ?thesis
      by (auto simp: complianceHandler_Update_def)
  qed
qed

definition ex_full_handler :: complianceHandler where
  "ex_full_handler = ex_compliance_handler\<lparr>ch_eventData := [getNewCompliance ''p1'' (ex_policy ''p1'' [(''c1'', ''Compliant'')])]\<rparr>"

lemma ex_full_ok: "payload_ok ex_name (ch_eventData ex_full_handler)"
  by (simp add: payload_ok_def wf_bundle_def named_bundle_def ex_full_handler_def ex_name_def getNewCompliance_def
      getClusterStatus_def clusters_in_def ex_policy_def event_clusters_def namespaced_name_def other_state_def)

lemma ex_full_reports:
  "\<not> fst (complianceHandler_Update (ex_policy ''p1'' [(''c1'', ''Pending'')]) ex_full_handler)"
  "fst (complianceHandler_Update (ex_policy ''p1'' [(''c1'', ''Pending''), (''c2'', ''Pending'')]) ex_full_handler)"
  by code_simp+

theorem compliance_update_reports_changes_witness:
  "cluster_view (snd (complianceHandler_Update (ex_policy ''p1'' [(''c1'', ''Pending'')]) ex_full_handler)) = cluster_view ex_full_handler \<and>
   cluster_view (snd (complianceHandler_Update (ex_policy ''p1'' [(''c1'', ''Pending''), (''c2'', ''Pending'')]) ex_full_handler))
     \<noteq> cluster_view ex_full_handler"
proof -
  have "wf_op ex_name (Upd (ex_policy ''p1'' [(''c1'', ''Pending'')]))"
    "wf_op ex_name (Upd (ex_policy ''p1'' [(''c1'', ''Pending''), (''c2'', ''Pending'')]))"
    by (simp_all add: ex_policy_def ex_name_def extractPolicyIdentity_def namespaced_name_def)
  from this [THEN compliance_update_reports_changes [OF ex_full_ok]] ex_full_reports show ?thesis by simp
qed

end
