(* ===== verification/AgentPolicy.thy ===== *)
theory AgentPolicy
  imports Registration AgentSyncer
begin

text \<open>
  \<^verbatim>\<open>agent/pkg/status/syncers/policies/policy_syncer.go\<close>: the six events that the agent makes from policies,
  and the syncer that they run in. The states that the syncer reaches are an inductive predicate;
  its steps are the reconciliation of an object, a resync request and a round of sending.
\<close>

section \<open>Launching the syncer\<close>

text \<open>\<^verbatim>\<open>strings.Replace(s, prefix, "", -1)\<close> for a prefix that is not empty.\<close>

fun remove_all :: "string \<Rightarrow> nat \<Rightarrow> string \<Rightarrow> string" where
  "remove_all old n [] = []"
| "remove_all old n (c # cs) =
     (if 0 < n then remove_all old (n - 1) cs
      else if take (length old) (c # cs) = old then remove_all old (length old - 1) cs
      else c # remove_all old 0 cs)"

definition event_name :: "EventType \<Rightarrow> string" where
  "event_name eventType = remove_all EventTypePrefix 0 (event_type eventType)"

text \<open>The two settings of the agent's config map that the filters of the handlers read.\<close>

record agent_config =
  ac_AggregationLevel :: string
  ac_EnableLocalPolicy :: string

definition localComplianceShouldUpdate :: "agent_config \<Rightarrow> update_filter" where
  "localComplianceShouldUpdate cfg obj =
     (ac_AggregationLevel cfg = ''full'' \<and> ac_EnableLocalPolicy cfg = ''true'' \<and>
      \<not> HasAnnotation obj OriginOwnerReferenceAnnotation \<and> \<not> HasLabel obj PolicyEventRootPolicyNameLabelKey)"

definition statusEventShouldUpdate :: "agent_config \<Rightarrow> update_filter" where
  "statusEventShouldUpdate cfg obj =
     (ac_EnableLocalPolicy cfg = ''true'' \<and>
      \<not> HasAnnotation obj OriginOwnerReferenceAnnotation \<and> HasLabel obj PolicyEventRootPolicyNameLabelKey)"

definition policySpecShouldUpdate :: "agent_config \<Rightarrow> update_filter" where
  "policySpecShouldUpdate cfg obj =
     (ac_EnableLocalPolicy cfg = ''true'' \<and>
      \<not> HasAnnotation obj OriginOwnerReferenceAnnotation \<and> \<not> HasLabel obj PolicyEventRootPolicyNameLabelKey)"

definition complianceShouldUpdate :: "agent_config \<Rightarrow> update_filter" where
  "complianceShouldUpdate cfg obj =
     (ac_AggregationLevel cfg = ''full'' \<and>
      HasAnnotation obj OriginOwnerReferenceAnnotation \<and> \<not> HasLabel obj PolicyEventRootPolicyNameLabelKey)"

definition NewPolicyStatusEventHandler ::
    "EventType \<Rightarrow> update_filter \<Rightarrow> time_filter \<Rightarrow> 's policyStatusEventHandler \<times> time_filter" where
  "NewPolicyStatusEventHandler eventType shouldUpdate tf =
     (let name = event_name eventType
      in (\<lparr>ps_name = name, ps_payload = [], ps_shouldUpdate = shouldUpdate\<rparr>, RegisterTimeFilter name tf))"

definition status_post_send :: "string \<Rightarrow> 's Handler \<times> time_filter \<Rightarrow> 's Handler \<times> time_filter" where
  "status_post_send name s =
     (case s of
        (HStatusEvent h, tf) \<Rightarrow> map_prod HStatusEvent id (statusHandler_postSend name (h, tf))
      | _ \<Rightarrow> s)"

definition NewPolicyStatusEventEmitter ::
    "vref \<Rightarrow> EventType \<Rightarrow> vstore \<times> resync_table \<Rightarrow> ('s Handler, time_filter) genericEmitter \<times> vstore \<times> resync_table" where
  "NewPolicyStatusEventEmitter fresh eventType =
     NewGenericEmitter fresh (event_type eventType) [WithPostSend (status_post_send (event_name eventType))]"

record 's policy_syncer =
  py_emitters :: "'s EmitterHandler list"
  py_versions :: vstore
  py_resync :: resync_table
  py_filter :: time_filter

text \<open>Addresses 0 and 5 are the two compliance versions; the others are those of \<^const>\<open>NewGenericEmitter\<close>.\<close>

definition LaunchPolicySyncer :: "agent_config \<Rightarrow> vstore \<Rightarrow> resync_table \<Rightarrow> time_filter \<Rightarrow> 's policy_syncer" where
  "LaunchPolicySyncer cfg vs registered tf =
     (let vs = vs(0 := NewVersion);
          localComplianceHandler = \<lparr>ch_eventData = [], ch_shouldUpdate = localComplianceShouldUpdate cfg\<rparr>;
          (localComplianceEmitter, s) = NewGenericEmitter 1 (event_type LocalComplianceType) [WithVersion 0] (vs, registered);
          localCompleteHandler = \<lparr>cl_eventData = [], cl_shouldUpdate = localComplianceShouldUpdate cfg\<rparr>;
          (localCompleteEmitter, s) = NewGenericEmitter 2 (event_type LocalCompleteComplianceType) [WithDependencyVersion 0] s;
          (localStatusEventHandler, tf) = NewPolicyStatusEventHandler LocalReplicatedPolicyEventType (statusEventShouldUpdate cfg) tf;
          (localStatusEventEmitter, s) = NewPolicyStatusEventEmitter 3 LocalReplicatedPolicyEventType s;
          localPolicySpecHandler = \<lparr>gh_eventData = [], gh_isSpec = True, gh_tweakFunc = Some cleanPolicy,
              gh_shouldUpdate = Some (policySpecShouldUpdate cfg)\<rparr>;
          (localPolicySpecEmitter, s) = NewGenericEmitter 4 (event_type LocalPolicySpecType) [] s;
          s = ((fst s)(5 := NewVersion), snd s);
          globalComplianceHandler = \<lparr>ch_eventData = [], ch_shouldUpdate = complianceShouldUpdate cfg\<rparr>;
          (globalComplianceEmitter, s) = NewGenericEmitter 6 (event_type ComplianceType) [WithVersion 5] s;
          globalCompleteHandler = \<lparr>cl_eventData = [], cl_shouldUpdate = complianceShouldUpdate cfg\<rparr>;
          (globalCompleteEmitter, s) = NewGenericEmitter 7 (event_type CompleteComplianceType) [WithDependencyVersion 5] s
      in \<lparr>py_emitters =
            [\<lparr>eh_Emitter = localPolicySpecEmitter, eh_Handler = HGeneric localPolicySpecHandler\<rparr>,
             \<lparr>eh_Emitter = localComplianceEmitter, eh_Handler = HCompliance localComplianceHandler\<rparr>,
             \<lparr>eh_Emitter = localCompleteEmitter, eh_Handler = HComplete localCompleteHandler\<rparr>,
             \<lparr>eh_Emitter = localStatusEventEmitter, eh_Handler = HStatusEvent localStatusEventHandler\<rparr>,
             \<lparr>eh_Emitter = globalComplianceEmitter, eh_Handler = HCompliance globalComplianceHandler\<rparr>,
             \<lparr>eh_Emitter = globalCompleteEmitter, eh_Handler = HComplete globalCompleteHandler\<rparr>],
          py_versions = fst s, py_resync = snd s, py_filter = tf\<rparr>)"

section \<open>Running the syncer\<close>

text \<open>No counter of an event value wraps around in a step.\<close>

definition no_wrap :: "vstore \<Rightarrow> vstore \<Rightarrow> bool" where
  "no_wrap vs vs' \<longleftrightarrow> (\<forall>r. Value (vs r) \<le> Value (vs' r))"

definition py_update :: "policy_client \<Rightarrow> 's \<Rightarrow> kobject \<Rightarrow> 's policy_syncer \<Rightarrow> 's policy_syncer" where
  "py_update c source obj s =
     (let (es, vs, obj1) = updateObject \<lparr>ue_client = c, ue_source = source, ue_filter = py_filter s\<rparr> obj (py_emitters s) (py_versions s)
      in s\<lparr>py_emitters := es, py_versions := vs\<rparr>)"

definition py_delete :: "kobject \<Rightarrow> 's policy_syncer \<Rightarrow> 's policy_syncer" where
  "py_delete obj s =
     (let (es, vs) = deleteObject obj (py_emitters s) (py_versions s) in s\<lparr>py_emitters := es, py_versions := vs\<rparr>)"

definition py_resync_request :: "string list option \<Rightarrow> 's policy_syncer \<Rightarrow> 's policy_syncer" where
  "py_resync_request payload s = s\<lparr>py_versions := snd (resync_Sync payload (py_resync s) (py_versions s))\<rparr>"

definition py_round ::
    "('s Handler \<Rightarrow> 'd \<times> bool) \<Rightarrow> string \<Rightarrow> (nat \<Rightarrow> 'd Event \<Rightarrow> bool) \<Rightarrow> 's policy_syncer \<Rightarrow> 's policy_syncer \<times> 'd Event list" where
  "py_round encode hub send s =
     (let (es, vs, tf, sent) = syncEvents encode hub send 0 (py_emitters s) (py_versions s) (py_filter s)
      in (s\<lparr>py_emitters := es, py_versions := vs, py_filter := tf\<rparr>, sent))"

inductive py_step :: "('s Handler \<Rightarrow> 'd \<times> bool) \<Rightarrow> string \<Rightarrow> 's policy_syncer \<Rightarrow> 's policy_syncer \<Rightarrow> bool"
  for encode :: "'s Handler \<Rightarrow> 'd \<times> bool" and hub :: string where
  step_update: "no_wrap (py_versions s) (py_versions (py_update c source obj s)) \<Longrightarrow> py_step encode hub s (py_update c source obj s)"
| step_delete: "no_wrap (py_versions s) (py_versions (py_delete obj s)) \<Longrightarrow> py_step encode hub s (py_delete obj s)"
| step_resync: "no_wrap (py_versions s) (py_versions (py_resync_request payload s)) \<Longrightarrow> py_step encode hub s (py_resync_request payload s)"
| step_round: "py_round encode hub send s = (s', sent) \<Longrightarrow> py_step encode hub s s'"

definition py_reachable :: "('s Handler \<Rightarrow> 'd \<times> bool) \<Rightarrow> string \<Rightarrow> agent_config \<Rightarrow> 's policy_syncer \<Rightarrow> bool" where
  "py_reachable encode hub cfg s \<longleftrightarrow> (\<exists>vs registered tf. (py_step encode hub)\<^sup>*\<^sup>* (LaunchPolicySyncer cfg vs registered tf) s)"

section \<open>Rounds\<close>

text \<open>The version of an emitter between two rounds: ahead of what was sent in its value alone.\<close>

definition emitter_inv :: "('p, 'w) genericEmitter \<Rightarrow> vstore \<Rightarrow> bool" where
  "emitter_inv em vs \<longleftrightarrow> Generation (vs (em_currentVersion em)) = Generation (em_lastSentVersion em) \<and>
     Value (em_lastSentVersion em) \<le> Value (vs (em_currentVersion em))"

lemma emitter_inv_new:
  "NewGenericEmitter fresh ty opts s = (em, vs, reg) \<Longrightarrow> emitter_inv em vs"
  by (auto simp: NewGenericEmitter_def emitter_inv_def Let_def split: prod.splits)

lemma emitter_inv_PostUpdate:
  "emitter_inv em vs \<Longrightarrow> Value (vs (em_currentVersion em)) \<noteq> - 1 \<Longrightarrow> emitter_inv em (PostUpdate em vs)"
  using u64_succ_greater [of "Value (vs (em_currentVersion em))"]
  by (auto simp: emitter_inv_def PostUpdate_def Incr_def)

lemma emitter_inv_PostSend:
  "PostSend em vs d w = (em1, vs1, d1, w1) \<Longrightarrow> emitter_inv em1 vs1"
  by (auto simp: emitter_inv_def PostSend_def Let_def split: prod.splits)

lemma emitter_inv_idle:
  "emitter_inv em vs \<Longrightarrow> \<not> ShouldSend vs em \<Longrightarrow> Value (vs (em_currentVersion em)) = Value (em_lastSentVersion em)"
  by (auto simp: emitter_inv_def ShouldSend_def NewerThan_less less_Version_ext_def less_eq_Version_ext_def)

text \<open>After a round in which sending does not fail, the current and the last sent version have the same value.\<close>

lemma syncEvents_head:
  assumes "syncEvents encode hub send i (e # es) vs tf = (es', vs', tf', sent)" "emitter_inv (eh_Emitter e) vs" "\<And>evt. send i evt"
  obtains e1 vs1 tf1 es1 sent1 where "syncEvents encode hub send (Suc i) es vs1 tf1 = (es1, vs', tf', sent1)"
    "es' = e1 # es1" "Value (vs1 (em_currentVersion (eh_Emitter e))) = Value (em_lastSentVersion (eh_Emitter e1))"
    "set sent \<subseteq> set sent1 \<union> {evt. evt_Type evt = em_eventType (eh_Emitter e)}"
proof (cases "ShouldSend vs (eh_Emitter e)")
  case False
  with assms(1) obtain es1 where "syncEvents encode hub send (Suc i) es vs tf = (es1, vs', tf', sent)" "es' = e # es1"
    by (auto split: prod.splits)
  with emitter_inv_idle [OF assms(2) False] show ?thesis by (intro that [of vs tf es1 sent e]) auto
next
  case True
  obtain em1 vs1 h1 tf1 where p: "PostSend (eh_Emitter e) vs (eh_Handler e) tf = (em1, vs1, h1, tf1)" by (metis prod_cases4)
  obtain es1 vs2 tf2 sent1 where r: "syncEvents encode hub send (Suc i) es vs1 tf1 = (es1, vs2, tf2, sent1)" by (metis prod_cases4)
  obtain evt0 ok where c: "ToCloudEvent encode hub [] vs (eh_Emitter e) (eh_Handler e) = (evt0, ok)" by fastforce
  have "evt_Type evt0 = em_eventType (eh_Emitter e)"
    using c by (auto simp: ToCloudEvent_def Let_def split: prod.splits)
  moreover have "Value (vs1 (em_currentVersion (eh_Emitter e))) = Value (em_lastSentVersion em1)"
    using p by (auto simp: PostSend_def Let_def split: prod.splits)
  ultimately show ?thesis
    using assms(1,3) True p r c by (intro that [of vs1 tf1 es1 sent1 "\<lparr>eh_Emitter = em1, eh_Handler = h1\<rparr>"]) auto
qed

text \<open>What a step never changes of an emitter: its type, its version and its dependency.\<close>

definition emitter_shape :: "'s EmitterHandler \<Rightarrow> string \<times> vref \<times> vref option" where
  "emitter_shape e = (em_eventType (eh_Emitter e), em_currentVersion (eh_Emitter e), em_dependencyVersion (eh_Emitter e))"

lemma emitter_inv_cong:
  "vs' (em_currentVersion em) = vs (em_currentVersion em) \<Longrightarrow> emitter_inv em vs' = emitter_inv em vs"
  by (simp add: emitter_inv_def)

lemma emitter_inv_mono:
  "emitter_inv em vs \<Longrightarrow> \<forall>r. Generation (vs' r) = Generation (vs r) \<Longrightarrow> no_wrap vs vs' \<Longrightarrow> emitter_inv em vs'"
  unfolding emitter_inv_def no_wrap_def by (auto intro: order_trans)

lemma updateObject_keeps:
  "updateObject env obj es vs = (es', vs', obj') \<Longrightarrow>
   map eh_Emitter es' = map eh_Emitter es \<and> (\<forall>r. Generation (vs' r) = Generation (vs r))"
proof (induction es arbitrary: obj vs es' vs' obj')
  case Nil
  then show ?case by simp
next
  case (Cons e es)
  obtain u h1 obj1 where h: "handler_Update env obj (eh_Handler e) = (u, h1, obj1)" by (metis prod_cases3)
  define vs1 where "vs1 = (if u then PostUpdate (eh_Emitter e) vs else vs)"
  obtain es1 vs2 obj2 where r: "updateObject env obj1 es vs1 = (es1, vs2, obj2)" by (metis prod_cases3)
  have "\<forall>r. Generation (vs1 r) = Generation (vs r)" by (simp add: vs1_def PostUpdate_def Incr_def)
  with Cons.prems Cons.IH [OF r] h r show ?case by (auto simp: vs1_def [symmetric])
qed

lemma deleteObject_keeps:
  "deleteObject obj es vs = (es', vs') \<Longrightarrow>
   map eh_Emitter es' = map eh_Emitter es \<and> (\<forall>r. Generation (vs' r) = Generation (vs r))"
proof (induction es arbitrary: vs es' vs')
  case Nil
  then show ?case by simp
next
  case (Cons e es)
  obtain u h1 where h: "handler_Delete obj (eh_Handler e) = (u, h1)" by fastforce
  define vs1 where "vs1 = (if u then PostUpdate (eh_Emitter e) vs else vs)"
  obtain es1 vs2 where r: "deleteObject obj es vs1 = (es1, vs2)" by fastforce
  have "\<forall>r. Generation (vs1 r) = Generation (vs r)" by (simp add: vs1_def PostUpdate_def Incr_def)
  with Cons.prems Cons.IH [OF r] h r show ?case by (auto simp: vs1_def [symmetric])
qed

lemma resync_keeps: "\<forall>r. Generation (snd (resync_Sync payload registered vs) r) = Generation (vs r)"
proof -
  have upd: "Generation ((vs(x := Incr (vs x))) r) = Generation (vs r)" for vs :: vstore and x r by (simp add: Incr_def)
  have "Generation (resync_loop ts m vs r) = Generation (vs r)" for ts m r
    by (induction ts m vs rule: resync_loop.induct) (simp_all add: upd del: fun_upd_apply split: option.splits)
  then show ?thesis by (simp add: resync_Sync_def split: option.splits)
qed

text \<open>One emitter in a round: either it is left alone or it has sent its event.\<close>

lemma syncEvents_Cons:
  assumes "syncEvents encode hub send i (e # es) vs tf = (es', vs', tf', sent)"
  obtains e1 vs1 tf1 es1 sent0 sent1 where "syncEvents encode hub send (Suc i) es vs1 tf1 = (es1, vs', tf', sent1)"
    "es' = e1 # es1" "sent = sent0 @ sent1" "emitter_shape e1 = emitter_shape e"
    "\<forall>r. r \<noteq> em_currentVersion (eh_Emitter e) \<longrightarrow> vs1 r = vs r"
    "emitter_inv (eh_Emitter e) vs \<Longrightarrow> emitter_inv (eh_Emitter e1) vs1"
    "\<forall>evt \<in> set sent0. evt_Type evt = em_eventType (eh_Emitter e)"
proof (cases "ShouldSend vs (eh_Emitter e)")
  case False
  with assms obtain es1 where "syncEvents encode hub send (Suc i) es vs tf = (es1, vs', tf', sent)" "es' = e # es1"
    by (auto split: prod.splits)
  then show ?thesis by (intro that [of vs tf es1 sent e "[]"]) auto
next
  case True
  obtain evt0 ok where c: "ToCloudEvent encode hub [] vs (eh_Emitter e) (eh_Handler e) = (evt0, ok)" by fastforce
  have ty: "evt_Type evt0 = em_eventType (eh_Emitter e)"
    using c by (auto simp: ToCloudEvent_def Let_def split: prod.splits)
  show ?thesis
  proof (cases "send i (evt0\<lparr>evt_Source := hub\<rparr>)")
    case False
    with assms True c obtain es1 where "syncEvents encode hub send (Suc i) es vs tf = (es1, vs', tf', sent)" "es' = e # es1"
      by (auto split: prod.splits)
    then show ?thesis by (intro that [of vs tf es1 sent e "[]"]) auto
  next
    case sent: True
    obtain em1 vs1 h1 tf1 where p: "PostSend (eh_Emitter e) vs (eh_Handler e) tf = (em1, vs1, h1, tf1)" by (metis prod_cases4)
    obtain es1 vs2 tf2 sent1 where r: "syncEvents encode hub send (Suc i) es vs1 tf1 = (es1, vs2, tf2, sent1)" by (metis prod_cases4)
    have "emitter_shape \<lparr>eh_Emitter = em1, eh_Handler = h1\<rparr> = emitter_shape e"
      "\<forall>r. r \<noteq> em_currentVersion (eh_Emitter e) \<longrightarrow> vs1 r = vs r"
      using p by (auto simp: PostSend_def emitter_shape_def Let_def split: prod.splits)
    with assms True c sent p r ty emitter_inv_PostSend [OF p] show ?thesis
      by (intro that [of vs1 tf1 es1 sent1 "\<lparr>eh_Emitter = em1, eh_Handler = h1\<rparr>" "[evt0\<lparr>evt_Source := hub\<rparr>]"]) auto
  qed
qed

abbreviation emitter_type :: "'s EmitterHandler \<Rightarrow> string" where
  "emitter_type e \<equiv> em_eventType (eh_Emitter e)"

abbreviation emitter_ref :: "'s EmitterHandler \<Rightarrow> vref" where
  "emitter_ref e \<equiv> em_currentVersion (eh_Emitter e)"

lemma shape_sel:
  assumes "emitter_shape e1 = emitter_shape e"
  shows "emitter_type e1 = emitter_type e" "emitter_ref e1 = emitter_ref e"
    "em_dependencyVersion (eh_Emitter e1) = em_dependencyVersion (eh_Emitter e)"
  using assms by (simp_all add: emitter_shape_def)

lemma syncEvents_keeps:
  assumes "syncEvents encode hub send i es vs tf = (es', vs', tf', sent)"
  shows "map emitter_shape es' = map emitter_shape es"
    and "\<forall>r. r \<notin> emitter_ref ` set es \<longrightarrow> vs' r = vs r"
    and "\<forall>evt \<in> set sent. evt_Type evt \<in> emitter_type ` set es"
  using assms
proof (induction es arbitrary: i vs tf es' vs' tf' sent)
  case Nil
  { case 1 then show ?case by simp }
  { case 2 then show ?case by simp }
  { case 3 then show ?case by simp }
next
  case (Cons e es)
  { case 1
    obtain e1 vs1 tf1 es1 sent1 where r: "syncEvents encode hub send (Suc i) es vs1 tf1 = (es1, vs', tf', sent1)"
      and "es' = e1 # es1" "emitter_shape e1 = emitter_shape e"
      by (rule syncEvents_Cons [OF 1])
    with Cons.IH(1) [OF r] show ?case by simp }
  { case 2
    obtain vs1 tf1 es1 sent1 where r: "syncEvents encode hub send (Suc i) es vs1 tf1 = (es1, vs', tf', sent1)"
      and "\<forall>r. r \<noteq> emitter_ref e \<longrightarrow> vs1 r = vs r"
      by (rule syncEvents_Cons [OF 2])
    with Cons.IH(2) [OF r] show ?case by simp }
  { case 3
    obtain vs1 tf1 es1 sent0 sent1 where r: "syncEvents encode hub send (Suc i) es vs1 tf1 = (es1, vs', tf', sent1)"
      and "sent = sent0 @ sent1" "\<forall>evt \<in> set sent0. evt_Type evt = emitter_type e"
      by (rule syncEvents_Cons [OF 3])
    with Cons.IH(3) [OF r] show ?case by auto }
qed

lemma syncEvents_inv:
  assumes "syncEvents encode hub send i es vs tf = (es', vs', tf', sent)"
    and "distinct (map emitter_ref es)" "\<forall>e \<in> set es. emitter_inv (eh_Emitter e) vs"
  shows "\<forall>e \<in> set es'. emitter_inv (eh_Emitter e) vs'"
  using assms
proof (induction es arbitrary: i vs tf es' vs' tf' sent)
  case Nil
  then show ?case by simp
next
  case (Cons e es)
  obtain e1 vs1 tf1 es1 sent1 where r: "syncEvents encode hub send (Suc i) es vs1 tf1 = (es1, vs', tf', sent1)"
    and e1: "es' = e1 # es1" "emitter_shape e1 = emitter_shape e" "emitter_inv (eh_Emitter e1) vs1"
    and vs1: "\<forall>r. r \<noteq> emitter_ref e \<longrightarrow> vs1 r = vs r"
    using Cons.prems(3) by (auto intro: syncEvents_Cons [OF Cons.prems(1)])
  have "\<forall>e \<in> set es1. emitter_inv (eh_Emitter e) vs'"
  proof (rule Cons.IH [OF r])
    show "distinct (map emitter_ref es)" using Cons.prems(2) by simp
    show "\<forall>x \<in> set es. emitter_inv (eh_Emitter x) vs1"
    proof
      fix x assume x: "x \<in> set es"
      with Cons.prems(2) have "emitter_ref x \<noteq> emitter_ref e" by (auto simp: image_iff)
      with vs1 have "vs1 (emitter_ref x) = vs (emitter_ref x)" by simp
      with emitter_inv_cong Cons.prems(3) x show "emitter_inv (eh_Emitter x) vs1" by (metis list.set_intros(2))
    qed
  qed
  moreover have "vs' (emitter_ref e1) = vs1 (emitter_ref e1)"
    using syncEvents_keeps(2) [OF r] Cons.prems(2) shape_sel(2) [OF e1(2)] by auto
  ultimately show ?case using e1 emitter_inv_cong [of vs' "eh_Emitter e1" vs1] by simp
qed

text \<open>A round over the emitters before a position, then over the others.\<close>

lemma syncEvents_append:
  "syncEvents encode hub send i (ps @ es) vs tf = (es', vs', tf', sent) \<Longrightarrow>
   \<exists>ps' vs1 tf1 sent0 es1 sent1. syncEvents encode hub send i ps vs tf = (ps', vs1, tf1, sent0) \<and>
     syncEvents encode hub send (i + length ps) es vs1 tf1 = (es1, vs', tf', sent1) \<and>
     es' = ps' @ es1 \<and> sent = sent0 @ sent1"
proof (induction ps arbitrary: i vs tf es' sent)
  case Nil
  then show ?case by simp
next
  case (Cons p ps)
  then show ?case
    by (auto simp: Let_def split: if_splits prod.splits dest!: Cons.IH)
qed

section \<open>The invariant of the policy syncer\<close>

definition policy_shapes :: "(string \<times> vref \<times> vref option) list" where
  "policy_shapes =
     [(event_type LocalPolicySpecType, 4, None), (event_type LocalComplianceType, 0, None),
      (event_type LocalCompleteComplianceType, 2, Some 0), (event_type LocalReplicatedPolicyEventType, 3, None),
      (event_type ComplianceType, 5, None), (event_type CompleteComplianceType, 7, Some 5)]"

definition py_inv :: "'s policy_syncer \<Rightarrow> bool" where
  "py_inv s \<longleftrightarrow> map emitter_shape (py_emitters s) = policy_shapes \<and>
     (\<forall>e \<in> set (py_emitters s). emitter_inv (eh_Emitter e) (py_versions s))"

lemma shapes_distinct:
  assumes "map emitter_shape es = policy_shapes"
  shows "distinct (map emitter_ref es)" "distinct (map emitter_type es)"
proof -
  from assms have "map (fst \<circ> snd) (map emitter_shape es) = [4, 0, 2, 3, 5, 7]" by (simp add: policy_shapes_def)
  then have "map emitter_ref es = [4, 0, 2, 3, 5, 7]" by (simp add: emitter_shape_def comp_def)
  then show "distinct (map emitter_ref es)" by simp
  from assms have "map fst (map emitter_shape es) = map event_type [LocalPolicySpecType, LocalComplianceType,
      LocalCompleteComplianceType, LocalReplicatedPolicyEventType, ComplianceType, CompleteComplianceType]"
    by (simp add: policy_shapes_def)
  then have "map emitter_type es = map event_type [LocalPolicySpecType, LocalComplianceType,
      LocalCompleteComplianceType, LocalReplicatedPolicyEventType, ComplianceType, CompleteComplianceType]"
    by (simp add: emitter_shape_def comp_def)
  then show "distinct (map emitter_type es)" by (simp add: event_type_def)
qed

lemma launch_inv: "py_inv (LaunchPolicySyncer cfg vs registered tf)"
  by (simp add: py_inv_def LaunchPolicySyncer_def NewGenericEmitter_def NewPolicyStatusEventEmitter_def
      NewPolicyStatusEventHandler_def applyOptions_def emitter_shape_def policy_shapes_def emitter_inv_def Let_def)

lemma shape_of_emitters: "map eh_Emitter es' = map eh_Emitter es \<Longrightarrow> map emitter_shape es' = map emitter_shape es"
  by (simp add: list_eq_iff_nth_eq emitter_shape_def)

lemma py_inv_mono:
  assumes "py_inv s" "map eh_Emitter es = map eh_Emitter (py_emitters s)"
    and "\<forall>r. Generation (vs r) = Generation (py_versions s r)" "no_wrap (py_versions s) vs"
  shows "py_inv (s\<lparr>py_emitters := es, py_versions := vs\<rparr>)"
proof -
  have "eh_Emitter ` set es = eh_Emitter ` set (py_emitters s)" using assms(2) by (metis list.set_map)
  moreover have "\<forall>em \<in> eh_Emitter ` set (py_emitters s). emitter_inv em vs"
    using assms(1,3,4) by (auto simp: py_inv_def intro: emitter_inv_mono)
  ultimately have "\<forall>em \<in> eh_Emitter ` set es. emitter_inv em vs" by simp
  with assms(1) shape_of_emitters [OF assms(2)] show ?thesis by (simp add: py_inv_def)
qed

lemma py_step_inv: "py_step encode hub s s' \<Longrightarrow> py_inv s \<Longrightarrow> py_inv s'"
proof (induction rule: py_step.induct)
  case (step_update s c source obj)
  obtain es vs obj1 where u: "updateObject \<lparr>ue_client = c, ue_source = source, ue_filter = py_filter s\<rparr> obj (py_emitters s)
      (py_versions s) = (es, vs, obj1)" by (metis prod_cases3)
  with updateObject_keeps [OF u] py_inv_mono [OF step_update(2), of es vs] step_update(1) show ?case by (simp add: py_update_def)
next
  case (step_delete s obj)
  obtain es vs where d: "deleteObject obj (py_emitters s) (py_versions s) = (es, vs)" by fastforce
  with deleteObject_keeps [OF d] py_inv_mono [OF step_delete(2), of es vs] step_delete(1) show ?case by (simp add: py_delete_def)
next
  case (step_resync s payload)
  with py_inv_mono [OF step_resync(2) refl resync_keeps, of payload "py_resync s"] show ?case by (simp add: py_resync_request_def)
next
  case (step_round send s s' sent)
  obtain es vs tf sent1 where r: "syncEvents encode hub send 0 (py_emitters s) (py_versions s) (py_filter s) = (es, vs, tf, sent1)"
    by (metis prod_cases4)
  from step_round(2) have sh: "map emitter_shape (py_emitters s) = policy_shapes"
    and inv: "\<forall>e \<in> set (py_emitters s). emitter_inv (eh_Emitter e) (py_versions s)" by (auto simp: py_inv_def)
  from syncEvents_keeps(1) [OF r] syncEvents_inv [OF r shapes_distinct(1) [OF sh] inv] sh step_round(1) r show ?case
    by (auto simp: py_inv_def py_round_def)
qed

lemma py_reachable_inv: "py_reachable encode hub cfg s \<Longrightarrow> py_inv s"
  unfolding py_reachable_def
  by (elim exE) (erule rtranclp_induct, rule launch_inv, rule py_step_inv)

text \<open>
  The dependency of a pair of neighbours: a complete event that is sent in a round carries the
  value of the compliance version that was sent last.
\<close>

lemma dependency_pair:
  assumes r: "syncEvents encode hub send i (ps @ c # d # qs) vs tf = (es', vs', tf', sent)"
    and dist: "distinct (map emitter_ref (ps @ c # d # qs))" "distinct (map emitter_type (ps @ c # d # qs))"
    and inv: "emitter_inv (eh_Emitter c) vs" and ok: "\<And>evt. send (i + length ps) evt"
    and dep: "em_dependencyVersion (eh_Emitter d) = Some (emitter_ref c)"
    and evt: "evt \<in> set sent" "evt_Type evt = emitter_type d"
  shows "\<exists>v. getVersionFromEvent evt ExtDependencyVersion = Inr (Some v) \<and>
           Value v = Value (em_lastSentVersion (eh_Emitter (es' ! length ps)))"
proof -
  from syncEvents_append [OF r] obtain ps' vs1 tf1 sent0 es1 sent1
    where p: "syncEvents encode hub send i ps vs tf = (ps', vs1, tf1, sent0)"
      and q: "syncEvents encode hub send (i + length ps) (c # d # qs) vs1 tf1 = (es1, vs', tf', sent1)"
      and es': "es' = ps' @ es1" "sent = sent0 @ sent1" by blast
  have "vs1 (emitter_ref c) = vs (emitter_ref c)" using syncEvents_keeps(2) [OF p] dist(1) by auto
  with inv have inv1: "emitter_inv (eh_Emitter c) vs1" using emitter_inv_cong by blast
  from q inv1 ok obtain c' vs2 tf2 es2 sent2
    where s: "syncEvents encode hub send (Suc (i + length ps)) (d # qs) vs2 tf2 = (es2, vs', tf', sent2)" "es1 = c' # es2"
      and v: "Value (vs2 (emitter_ref c)) = Value (em_lastSentVersion (eh_Emitter c'))"
      and sub: "set sent1 \<subseteq> set sent2 \<union> {evt. evt_Type evt = emitter_type c}"
    by (rule syncEvents_head) (simp_all del: syncEvents.simps)
  have "emitter_type d \<notin> emitter_type ` set ps" using dist(2) by simp
  then have "evt \<notin> set sent0" using bspec [OF syncEvents_keeps(3) [OF p], of evt] unfolding evt(2) by blast
  with evt es'(2) sub dist(2) have m: "evt \<in> set sent2" by auto
  have rest: "evt \<notin> set sent3" if "syncEvents encode hub send j qs vs3 tf3 = (es3, vs', tf', sent3)" for j vs3 tf3 es3 sent3
    using bspec [OF syncEvents_keeps(3) [OF that], of evt] dist(2) unfolding evt(2) by auto
  obtain evt0 w where ce: "ToCloudEvent encode hub [] vs2 (eh_Emitter d) (eh_Handler d) = (evt0, w)" by fastforce
  from s(1) m rest ce have "evt = evt0\<lparr>evt_Source := hub\<rparr>"
    by (auto simp: Let_def split: if_splits prod.splits)
  moreover have "length ps' = length ps" using syncEvents_keeps(1) [OF p] by (metis length_map)
  ultimately show ?thesis
    using ToCloudEvent_version(2) [OF ce] dep v es'(1) s(2) by (simp add: getVersionFromEvent_def nth_append)
qed

section \<open>Properties of the policy syncer\<close>

lemma policy_emitters_split:
  assumes "py_inv s"
  obtains e0 c d e3 gc gd where "py_emitters s = [e0, c, d, e3, gc, gd]"
    "em_dependencyVersion (eh_Emitter d) = Some (emitter_ref c)" "emitter_type d = event_type LocalCompleteComplianceType"
    "em_dependencyVersion (eh_Emitter gd) = Some (emitter_ref gc)" "emitter_type gd = event_type CompleteComplianceType"
proof -
  from assms have "map emitter_shape (py_emitters s) = policy_shapes" by (simp add: py_inv_def)
  then obtain e0 c d e3 gc gd where "py_emitters s = [e0, c, d, e3, gc, gd]"
    and "emitter_shape c = (event_type LocalComplianceType, 0, None)"
      "emitter_shape d = (event_type LocalCompleteComplianceType, 2, Some 0)"
      "emitter_shape gc = (event_type ComplianceType, 5, None)"
      "emitter_shape gd = (event_type CompleteComplianceType, 7, Some 5)"
    by (auto simp: policy_shapes_def map_eq_Cons_conv)
  then show ?thesis by (intro that [of e0 c d e3 gc gd]) (auto simp: emitter_shape_def)
qed


definition ex_config :: agent_config where
  "ex_config = \<lparr>ac_AggregationLevel = ''full'', ac_EnableLocalPolicy = ''true''\<rparr>"

definition ex_filter :: time_filter where
  "ex_filter = \<lparr>tf_topicName = ''status'', tf_eventTimeCache = [], tf_lastEventTimeCache = []\<rparr>"

definition ex_launched :: "unit policy_syncer" where
  "ex_launched = LaunchPolicySyncer ex_config (\<lambda>_. NewVersion) None ex_filter"

definition ex_resynced :: "unit policy_syncer" where
  "ex_resynced = py_resync_request (Some [event_type LocalComplianceType, event_type LocalCompleteComplianceType]) ex_launched"

definition ex_encode :: "unit Handler \<Rightarrow> unit \<times> bool" where
  "ex_encode h = ((), True)"

lemma ex_launch_versions: "py_versions ex_launched r = NewVersion"
  "py_resync ex_launched = Some [(event_type LocalComplianceType, 0), (event_type LocalCompleteComplianceType, 2),
     (event_type LocalReplicatedPolicyEventType, 3), (event_type LocalPolicySpecType, 4), (event_type ComplianceType, 5),
     (event_type CompleteComplianceType, 7)]"
  by (simp_all add: ex_launched_def LaunchPolicySyncer_def NewGenericEmitter_def NewPolicyStatusEventEmitter_def
      NewPolicyStatusEventHandler_def applyOptions_def EnableResync_def Let_def)

lemma ex_reach: "py_reachable ex_encode ''h1'' ex_config ex_resynced"
proof -
  have "py_step ex_encode ''h1'' ex_launched ex_resynced"
    unfolding ex_resynced_def
    by (rule step_resync)
      (simp add: no_wrap_def py_resync_request_def resync_Sync_def ex_launch_versions NewVersion_def Incr_def)
  then show ?thesis unfolding py_reachable_def ex_launched_def by blast
qed

lemma ex_round: "map evt_Type (snd (py_round ex_encode ''h1'' (\<lambda>_ _. True) ex_resynced)) =
    [event_type LocalComplianceType, event_type LocalCompleteComplianceType]"
  by code_simp


text \<open>
  A change of the specification of a local policy hides its status from the compliance
  handler. The tweak of the policy spec handler, which comes first, empties the status of the object
  that all handlers share, so the compliance handler finds no cluster: it asks for an event in
  which the policy has no cluster, whatever the status of the policy is.
\<close>

theorem spec_update_hides_status:
  assumes "updateObject env obj (s # c # es) vs = (s' # c' # es', vs', obj')"
    and "eh_Handler s = HGeneric g" "gh_tweakFunc g = Some cleanPolicy" "allowed (gh_shouldUpdate g) obj"
    and "getObjectIndexByUID (ko_UID obj) (gh_eventData g) = Some i"
    and "ko_Generation (gh_eventData g ! i) \<noteq> ko_Generation obj" "ko_ResourceVersion (gh_eventData g ! i) \<noteq> ko_ResourceVersion obj"
    and "eh_Handler c = HCompliance h" "ch_shouldUpdate h (cleanPolicy obj)" "ko_IsPolicy obj"
    and "getIndexByPolicyID (extractPolicyIdentity obj) (ch_eventData h) = Some j" "j < length (ch_eventData h)"
  shows "\<exists>h' e. eh_Handler c' = HCompliance h' \<and> e = ch_eventData h' ! j \<and> cd_CompliantClusters e = [] \<and>
           cd_NonCompliantClusters e = [] \<and> cd_UnknownComplianceClusters e = [] \<and> cd_PendingComplianceClusters e = []"
proof -
  have clean: "ko_IsPolicy (cleanPolicy obj)" "extractPolicyIdentity (cleanPolicy obj) = extractPolicyIdentity obj"
    "getClusterStatus (cleanPolicy obj) = ([], [], [], [])"
    using assms(10) by (simp_all add: cleanPolicy_def extractPolicyIdentity_def getClusterStatus_def clusters_in_def split: option.splits)
  have "handler_Update env obj (eh_Handler s) = (True, HGeneric (g\<lparr>gh_eventData := (gh_eventData g)[i := cleanPolicy obj]\<rparr>), cleanPolicy obj)"
    using assms(2-7) by (simp add: genericHandler_Update_def Let_def)
  moreover have "eh_Handler c' = HCompliance (snd (updatePayloadIfChanged j (cleanPolicy obj) h))"
    using assms(1,8,9,11) clean calculation
    by (auto simp: complianceHandler_Update_def Let_def split: prod.splits)
  ultimately show ?thesis
    using assms(12) clean(3) by (simp add: updatePayloadIfChanged_def Let_def)
qed

definition ex_object :: "int \<Rightarrow> string \<Rightarrow> kobject" where
  "ex_object gen rv = (empty_object ''ns'' ''p'')\<lparr>ko_UID := ''u1'', ko_Generation := gen, ko_ResourceVersion := rv,
     ko_Status := [(''c1'', ''Compliant'')], ko_StatusNil := False\<rparr>"

definition ex_env :: "unit update_env" where
  "ex_env = \<lparr>ue_client = \<lparr>pc_get_policy = \<lambda>_ _. None, pc_get_cluster = \<lambda>_. None\<rparr>, ue_source = (), ue_filter = ex_filter\<rparr>"

definition ex_seen :: "unit EmitterHandler list" where
  "ex_seen =
     [(py_emitters ex_launched ! 0)\<lparr>eh_Handler := HGeneric \<lparr>gh_eventData = [ex_object 1 ''1''], gh_isSpec = True,
        gh_tweakFunc = Some cleanPolicy, gh_shouldUpdate = Some (policySpecShouldUpdate ex_config)\<rparr>\<rparr>,
      (py_emitters ex_launched ! 1)\<lparr>eh_Handler := HCompliance \<lparr>ch_eventData = [getNewCompliance ''u1'' (ex_object 1 ''1'')],
        ch_shouldUpdate = localComplianceShouldUpdate ex_config\<rparr>\<rparr>]"

theorem spec_update_hides_status_witness:
  "\<exists>s' c' vs' obj' h' e. updateObject ex_env (ex_object 2 ''2'') ex_seen (\<lambda>_. NewVersion) = ([s', c'], vs', obj') \<and>
     eh_Handler c' = HCompliance h' \<and> e = ch_eventData h' ! 0 \<and> cd_CompliantClusters e = [] \<and>
     cd_NonCompliantClusters e = [] \<and> cd_UnknownComplianceClusters e = [] \<and> cd_PendingComplianceClusters e = []"
proof -
  obtain s c where sc: "ex_seen = [s, c]"
    "eh_Handler s = HGeneric \<lparr>gh_eventData = [ex_object 1 ''1''], gh_isSpec = True, gh_tweakFunc = Some cleanPolicy,
       gh_shouldUpdate = Some (policySpecShouldUpdate ex_config)\<rparr>"
    "eh_Handler c = HCompliance \<lparr>ch_eventData = [getNewCompliance ''u1'' (ex_object 1 ''1'')], ch_shouldUpdate = localComplianceShouldUpdate ex_config\<rparr>"
    by (simp add: ex_seen_def)
  obtain es' vs' obj' where u: "updateObject ex_env (ex_object 2 ''2'') [s, c] (\<lambda>_. NewVersion) = (es', vs', obj')"
    by (metis prod_cases3)
  with updateObject_keeps [OF u] obtain s' c' where r: "updateObject ex_env (ex_object 2 ''2'') [s, c] (\<lambda>_. NewVersion) = ([s', c'], vs', obj')"
    by (auto simp: map_eq_Cons_conv simp del: updateObject.simps)
  have "\<exists>h' e. eh_Handler c' = HCompliance h' \<and> e = ch_eventData h' ! 0 \<and> cd_CompliantClusters e = [] \<and>
     cd_NonCompliantClusters e = [] \<and> cd_UnknownComplianceClusters e = [] \<and> cd_PendingComplianceClusters e = []"
    by (rule spec_update_hides_status [OF r sc(2) _ _ _ _ _ sc(3), where i = 0])
      (simp_all add: allowed_def policySpecShouldUpdate_def localComplianceShouldUpdate_def ex_config_def ex_object_def
        empty_object_def HasAnnotation_def HasLabel_def cleanPolicy_def extractPolicyIdentity_def getIndexByPolicyID_def
        getNewCompliance_def getClusterStatus_def)
  with r sc(1) show ?thesis by metis
qed

text \<open>The metadata that the finalizer code reads is not touched by the handlers.\<close>

definition tweaks_policies :: "'s EmitterHandler list \<Rightarrow> bool" where
  "tweaks_policies es \<longleftrightarrow> (\<forall>e \<in> set es. \<forall>g. eh_Handler e = HGeneric g \<longrightarrow> gh_tweakFunc g \<in> {None, Some cleanPolicy})"

lemma handler_Update_meta:
  assumes "handler_Update env obj h = (u, h', obj')" "\<And>g. h = HGeneric g \<Longrightarrow> gh_tweakFunc g \<in> {None, Some cleanPolicy}"
  shows "ko_Finalizers obj' = ko_Finalizers obj \<and> ko_OwnerReferences obj' = ko_OwnerReferences obj \<and>
    ko_Labels obj' = ko_Labels obj \<and> ko_Annotations obj' = ko_Annotations obj"
  using assms
  by (cases h) (auto simp: genericHandler_Update_def cleanPolicy_def Let_def split: if_splits option.splits prod.splits)

lemma updateObject_meta:
  "updateObject env obj es vs = (es', vs', obj') \<Longrightarrow> tweaks_policies es \<Longrightarrow>
   ko_Finalizers obj' = ko_Finalizers obj \<and> ko_OwnerReferences obj' = ko_OwnerReferences obj \<and>
   ko_Labels obj' = ko_Labels obj \<and> ko_Annotations obj' = ko_Annotations obj"
proof (induction es arbitrary: obj vs es' vs' obj')
  case Nil
  then show ?case by simp
next
  case (Cons e es)
  obtain u h1 obj1 where h: "handler_Update env obj (eh_Handler e) = (u, h1, obj1)" by (metis prod_cases3)
  obtain es1 vs2 obj2 where r: "updateObject env obj1 es (if u then PostUpdate (eh_Emitter e) vs else vs) = (es1, vs2, obj2)"
    by (metis prod_cases3)
  have "tweaks_policies es" using Cons.prems(2) by (simp add: tweaks_policies_def)
  with Cons.IH [OF r] handler_Update_meta [OF h] Cons.prems h r show ?case by (simp add: tweaks_policies_def)
qed

text \<open>
  Reconciling a policy that the global hub manages writes it back with no owner reference and
  with the cleanup finalizer as its only finalizer, whatever owner references and finalizers it
  had: the object is cleaned for the payload before the finalizer is added to it.
\<close>

theorem reconcile_strips_metadata:
  assumes "multiEvent_Reconcile env (\<lambda>obj written. (UpdateOk, written @ [obj])) now request (Found object) es vs [] = (res, es', vs', written)"
    and "\<not> ko_Deleting object" "enableCleanUpFinalizer object" "tweaks_policies es"
    and "map_of (ko_Labels object) GlobalHubFinalizerRemovingDeadline = None"
  shows "\<exists>obj. written = [obj] \<and> ko_Finalizers obj = [GlobalHubCleanupFinalizer] \<and> ko_OwnerReferences obj = []"
proof -
  obtain es1 vs1 obj2 where u: "updateObject env (cleanObject object) es vs = (es1, vs1, obj2)" by (metis prod_cases3)
  from updateObject_meta [OF u assms(4)] have m: "ko_Finalizers obj2 = []" "ko_OwnerReferences obj2 = []"
    "ko_Labels obj2 = ko_Labels object" "ko_Annotations obj2 = ko_Annotations object"
    by (simp_all add: cleanObject_def)
  then have "enableCleanUpFinalizer obj2"
    using assms(3) by (simp add: enableCleanUpFinalizer_def HasLabel_def HasAnnotation_def)
  with assms(1,2,5) u m show ?thesis
    by (auto simp: multiEvent_Reconcile_def addFinalizer_def put_finalizer_def finalizer_result_def split: prod.splits)
qed

theorem reconcile_strips_metadata_witness:
  "let object = (ex_object 1 ''1'')\<lparr>ko_Finalizers := [''other''], ko_OwnerReferences := [''owner''],
       ko_Annotations := [(OriginOwnerReferenceAnnotation, ''g1'')]\<rparr>;
       written = snd (snd (snd (multiEvent_Reconcile ex_env (\<lambda>obj written. (UpdateOk, written @ [obj])) 0 (''ns'', ''p'') (Found object)
         ([] :: unit EmitterHandler list) (\<lambda>_. NewVersion) [])))
   in \<exists>obj. written = [obj] \<and> ko_Finalizers obj = [GlobalHubCleanupFinalizer] \<and> ko_OwnerReferences obj = []"
proof -
  let ?object = "(ex_object 1 ''1'')\<lparr>ko_Finalizers := [''other''], ko_OwnerReferences := [''owner''],
       ko_Annotations := [(OriginOwnerReferenceAnnotation, ''g1'')]\<rparr>"
  obtain res es' vs' written where r: "multiEvent_Reconcile ex_env (\<lambda>obj written. (UpdateOk, written @ [obj])) 0 (''ns'', ''p'')
      (Found ?object) ([] :: unit EmitterHandler list) (\<lambda>_. NewVersion) [] = (res, es', vs', written)" by (metis prod_cases4)
  have "\<exists>obj. written = [obj] \<and> ko_Finalizers obj = [GlobalHubCleanupFinalizer] \<and> ko_OwnerReferences obj = []"
    by (rule reconcile_strips_metadata [OF r])
      (simp_all add: ex_object_def empty_object_def enableCleanUpFinalizer_def HasAnnotation_def tweaks_policies_def)
  with r show ?thesis by (simp add: Let_def)
qed

end
