(* ===== verification/LabelPatch.thy ===== *)
theory LabelPatch
  imports Compliance
begin

text \<open>
  \<^verbatim>\<open>manager/pkg/restapis/managedclusters/patch.go\<close>: how a JSON patch of the labels of a managed cluster
  becomes a row of the table \<^verbatim>\<open>spec.managed_clusters_labels\<close>. A row has the labels to set and the keys
  to delete; the manager sends it to the hub of the cluster (theory \<open>LabelSync\<close>) and the agent applies
  it (theory \<open>AgentLabels\<close>).

  A Go map from strings to the empty struct is a list without repetition. Beside the statements of
  \<open>Database\<close> the code reads how many rows an update has changed.
\<close>

section \<open>The table\<close>

record ('row, 'db) counted_table = "('row, 'db) table" +
  tb_RowsAffected :: "('row \<Rightarrow> bool) \<Rightarrow> 'db \<Rightarrow> nat"

definition counted_laws :: "('row, 'db) counted_table \<Rightarrow> ('db \<Rightarrow> 'row set) \<Rightarrow> ('row \<Rightarrow> 'k) \<Rightarrow> bool" where
  "counted_laws T rows key \<longleftrightarrow> table_laws (table.truncate T) rows key \<and>
     (\<forall>P db. tb_RowsAffected T P db = 0 \<longleftrightarrow> {r \<in> rows db. P r} = {})"

definition mem_counted :: "('row \<Rightarrow> 'k) \<Rightarrow> ('row, 'row list) counted_table" where
  "mem_counted key = table.extend (mem_table key) \<lparr>tb_RowsAffected = (\<lambda>P db. length (filter P db))\<rparr>"

text \<open>
  A JSON column is what it decodes to, \<^const>\<open>None\<close> if it does not decode. The columns that the program
  writes always decode.
\<close>

record ManagedClusterLabel =
  ml_ID :: string
  ml_LeafHubName :: string
  ml_ManagedClusterName :: string
  ml_Labels :: "(string, string) gomap option"
  ml_DeletedLabelKeys :: "string list option"
  ml_Version :: int
  ml_UpdatedAt :: int

section \<open>Reading a patch\<close>

record label_patch =
  pa_Op :: string
  pa_Path :: string
  pa_Value :: string

datatype patch_error = OnlyPatchOfLabelsIsImplemented | OnlyAddOrRemoveAreImplemented

definition TrimPrefix :: "string \<Rightarrow> string \<Rightarrow> string" where
  "TrimPrefix s pre = (if take (length pre) s = pre then drop (length pre) s else s)"

text \<open>\<^verbatim>\<open>strings.Replace(rawLabel, "~1", "/", 1)\<close>\<close>

fun replace_first :: "string \<Rightarrow> string" where
  "replace_first [] = []"
| "replace_first [c] = [c]"
| "replace_first (c # d # cs) = (if c = CHR ''~'' \<and> d = CHR ''1'' then CHR ''/'' # cs else c # replace_first (d # cs))"

fun getLabels :: "label_patch list \<Rightarrow> (string, string) gomap \<Rightarrow> string list \<Rightarrow> patch_error + (string, string) gomap \<times> string list" where
  "getLabels [] labelsToAdd labelsToRemove = Inr (labelsToAdd, labelsToRemove)"
| "getLabels (aPatch # patches) labelsToAdd labelsToRemove =
     (let rawLabel = TrimPrefix (pa_Path aPatch) ''/metadata/labels/''
      in if rawLabel = pa_Path aPatch then Inl OnlyPatchOfLabelsIsImplemented
         else let label = replace_first rawLabel
              in if pa_Op aPatch = ''add'' then
                   getLabels patches (AList.update label (pa_Value aPatch) labelsToAdd) (removeAll label labelsToRemove)
                 else if pa_Op aPatch = ''remove'' then
                   getLabels patches (AList.delete label labelsToAdd) (List.insert label labelsToRemove)
                 else Inl OnlyAddOrRemoveAreImplemented)"

section \<open>Updating the row\<close>

datatype update_error = LockFailed | StatementFailed | UnmarshalFailed | OptimisticConcurrencyWriteFailed

definition new_labels_to_remove :: "(string, string) gomap \<Rightarrow> string list \<Rightarrow> string list \<Rightarrow> string list" where
  "new_labels_to_remove labelsToAdd labelsToRemove existLabelsToRemove =
     fold List.insert labelsToRemove
       (fold (\<lambda>key. if map_of labelsToAdd key = None then List.insert key else (\<lambda>m. m)) existLabelsToRemove [])"

definition new_labels_to_add :: "(string, string) gomap \<Rightarrow> string list \<Rightarrow> (string, string) gomap \<Rightarrow> (string, string) gomap" where
  "new_labels_to_add labelsToAdd labelsToRemove existLabelsToAdd =
     fold (\<lambda>(key, value). AList.update key value) labelsToAdd
       (fold (\<lambda>(key, value). if key \<notin> set labelsToRemove then AList.update key value else (\<lambda>m. m)) existLabelsToAdd [])"

text \<open>
  The condition is a struct, in which GORM skips the fields with a zero value: an identifier that is
  empty and, in the code's use, the version 0.
\<close>

definition version_matches :: "string \<Rightarrow> int \<Rightarrow> ManagedClusterLabel \<Rightarrow> bool" where
  "version_matches clusterID existVersion r =
     (where_eq clusterID (ml_ID r) \<and> (existVersion = 0 \<or> ml_Version r = existVersion))"

definition updateRow ::
    "(ManagedClusterLabel, 'db) counted_table \<Rightarrow> int \<Rightarrow> string \<Rightarrow> (string, string) gomap \<Rightarrow> (string, string) gomap
       \<Rightarrow> string list \<Rightarrow> string list \<Rightarrow> int \<Rightarrow> 'db \<Rightarrow> update_error option \<times> 'db" where
  "updateRow T now clusterID labelsToAdd existLabelsToAdd labelsToRemove existLabelsToRemove existVersion db =
     (let newLabelsToRemove = new_labels_to_remove labelsToAdd labelsToRemove existLabelsToRemove;
          newLabelsToAdd = new_labels_to_add labelsToAdd labelsToRemove existLabelsToAdd;
          affected = tb_RowsAffected T (version_matches clusterID existVersion) db
      in case tb_Update T (version_matches clusterID existVersion)
                (\<lambda>r. r\<lparr>ml_Labels := Some newLabelsToAdd, ml_DeletedLabelKeys := Some newLabelsToRemove,
                        ml_Version := existVersion + 1, ml_UpdatedAt := now\<rparr>) db of
           None \<Rightarrow> (Some StatementFailed, db)
         | Some db1 \<Rightarrow> (if affected = 0 then Some OptimisticConcurrencyWriteFailed else None, db1))"

text \<open>
  What an attempt meets: whether the lock is taken (it is not needed when backup is disabled), the
  time, and what other writers do before it and between its read and its write.
\<close>

record 'db attempt =
  at_locked :: bool
  at_now :: int
  at_before :: "'db \<Rightarrow> 'db"
  at_between :: "'db \<Rightarrow> 'db"

definition updateLabels ::
    "(ManagedClusterLabel, 'db) counted_table \<Rightarrow> string \<Rightarrow> string \<Rightarrow> string \<Rightarrow> (string, string) gomap \<Rightarrow> string list
       \<Rightarrow> 'db attempt \<Rightarrow> 'db \<Rightarrow> update_error option \<times> 'db" where
  "updateLabels T clusterID leafHubName managedClusterName labelsToAdd labelsToRemove a db0 =
     (let db = at_before a db0
      in if labelsToAdd = [] \<and> labelsToRemove = [] then (None, db)
         else if \<not> at_locked a then (Some LockFailed, db)
         else case tb_Find T (\<lambda>r. where_eq clusterID (ml_ID r)) db of
                None \<Rightarrow> (Some StatementFailed, db)
              | Some [] \<Rightarrow>
                  (case tb_Insert T \<lparr>ml_ID = clusterID, ml_LeafHubName = leafHubName, ml_ManagedClusterName = managedClusterName,
                       ml_Labels = Some labelsToAdd, ml_DeletedLabelKeys = Some labelsToRemove, ml_Version = 0,
                       ml_UpdatedAt = at_now a\<rparr> (at_between a db) of
                     None \<Rightarrow> (Some StatementFailed, at_between a db)
                   | Some db1 \<Rightarrow> (None, db1))
              | Some (row # _) \<Rightarrow>
                  (case (ml_Labels row, ml_DeletedLabelKeys row) of
                     (Some existLabels, Some existLabelsToRemoveSlice) \<Rightarrow>
                       updateRow T (at_now a) clusterID labelsToAdd existLabels labelsToRemove existLabelsToRemoveSlice
                         (ml_Version row) (at_between a db)
                   | _ \<Rightarrow> (Some UnmarshalFailed, db)))"

definition optimisticConcurrencyRetryAttempts :: nat where
  "optimisticConcurrencyRetryAttempts = 5"

text \<open>The retry loop; the list has what each attempt meets.\<close>

fun retry_update ::
    "('db attempt \<Rightarrow> 'db \<Rightarrow> update_error option \<times> 'db) \<Rightarrow> nat \<Rightarrow> 'db attempt list \<Rightarrow> update_error option \<Rightarrow> 'db
       \<Rightarrow> update_error option \<times> 'db" where
  "retry_update upd 0 as err db = (err, db)"
| "retry_update upd (Suc n) [] err db = (err, db)"
| "retry_update upd (Suc n) (a # as) err db =
     (case upd a db of
        (None, db1) \<Rightarrow> (None, db1)
      | (Some e, db1) \<Rightarrow> retry_update upd n as (Some e) db1)"

text \<open>
  The request handler. \<open>lookup\<close> is the query on the status table for hub and name of the cluster,
  \<open>patches\<close> the decoded body. The result has the status codes that are written: none when the lookup
  fails, the framework's 400 when the body does not decode.
\<close>

definition PatchManagedCluster ::
    "(ManagedClusterLabel, 'db) counted_table \<Rightarrow> (string \<Rightarrow> (string \<times> string) option) \<Rightarrow> string \<Rightarrow> label_patch list option
       \<Rightarrow> 'db attempt list \<Rightarrow> 'db \<Rightarrow> nat list \<times> 'db" where
  "PatchManagedCluster T lookup clusterID body as db =
     (case lookup clusterID of
        None \<Rightarrow> ([], db)
      | Some (leafHubName, managedClusterName) \<Rightarrow>
          (case body of
             None \<Rightarrow> ([400], db)
           | Some patches \<Rightarrow>
               (case getLabels patches [] [] of
                  Inl _ \<Rightarrow> ([501], db)
                | Inr (labelsToAdd, labelsToRemove) \<Rightarrow>
                    (case retry_update (updateLabels T clusterID leafHubName managedClusterName labelsToAdd labelsToRemove)
                            optimisticConcurrencyRetryAttempts as None db of
                       (Some _, db1) \<Rightarrow> ([500, 200], db1)
                     | (None, db1) \<Rightarrow> ([200], db1)))))"

section \<open>What a row means for the labels of a cluster\<close>

text \<open>The labels are set, then the deleted keys are removed.\<close>

definition overlay :: "(string, string) gomap \<Rightarrow> string list \<Rightarrow> (string \<rightharpoonup> string) \<Rightarrow> (string \<rightharpoonup> string)" where
  "overlay labels deleted m = (m ++ map_of labels) |` (- set deleted)"

text \<open>A patch operation on the labels, as in RFC 6902.\<close>

definition apply_patch :: "label_patch \<Rightarrow> (string \<rightharpoonup> string) \<Rightarrow> (string \<rightharpoonup> string)" where
  "apply_patch p m =
     (let label = replace_first (TrimPrefix (pa_Path p) ''/metadata/labels/'')
      in if pa_Op p = ''add'' then m(label \<mapsto> pa_Value p) else m(label := None))"

text \<open>No key is both set and deleted, and no key is listed twice.\<close>

definition disjoint_spec :: "(string, string) gomap \<Rightarrow> string list \<Rightarrow> bool" where
  "disjoint_spec labels deleted \<longleftrightarrow> distinct (map fst labels) \<and> distinct deleted \<and> fst ` set labels \<inter> set deleted = {}"

lemma getLabels_correct:
  assumes "getLabels patches add rem = Inr (add', rem')" "disjoint_spec add rem"
  shows "disjoint_spec add' rem' \<and> overlay add' rem' m = fold apply_patch patches (overlay add rem m)"
  using assms
proof (induction patches add rem rule: getLabels.induct)
  case (1 add rem)
  then show ?case by simp
next
  case (2 p patches add rem)
  let ?k = "replace_first (TrimPrefix (pa_Path p) ''/metadata/labels/'')"
  from "2.prems"(1) have path: "TrimPrefix (pa_Path p) ''/metadata/labels/'' \<noteq> pa_Path p" by (auto simp: Let_def)
  show ?case
  proof (cases "pa_Op p = ''add''")
    case True
    have dis: "disjoint_spec (AList.update ?k (pa_Value p) add) (removeAll ?k rem)"
      using "2.prems"(2) by (auto simp: disjoint_spec_def distinct_update dom_update distinct_removeAll)
    have ov: "overlay (AList.update ?k (pa_Value p) add) (removeAll ?k rem) m = apply_patch p (overlay add rem m)"
      using True by (auto simp: overlay_def apply_patch_def update_conv' restrict_map_def map_add_def Let_def fun_eq_iff)
    have "getLabels patches (AList.update ?k (pa_Value p) add) (removeAll ?k rem) = Inr (add', rem')"
      using "2.prems"(1) path True by (simp add: Let_def)
    with "2.IH"(1) [OF refl path refl True _ dis] ov show ?thesis by simp
  next
    case False
    with "2.prems"(1) path have op: "pa_Op p = ''remove''" by (auto simp: Let_def split: if_splits)
    have dis: "disjoint_spec (AList.delete ?k add) (List.insert ?k rem)"
      using "2.prems"(2) by (auto simp: disjoint_spec_def AList.distinct_delete keys_delete)
    have ov: "overlay (AList.delete ?k add) (List.insert ?k rem) m = apply_patch p (overlay add rem m)"
      using False by (auto simp: overlay_def apply_patch_def delete_conv' restrict_map_def map_add_def Let_def fun_eq_iff)
    have "getLabels patches (AList.delete ?k add) (List.insert ?k rem) = Inr (add', rem')"
      using "2.prems"(1) path op by (simp add: Let_def)
    with "2.IH"(2) [OF refl path refl False op _ dis] ov show ?thesis by simp
  qed
qed

lemma map_of_fold_update_if:
  "distinct (map fst xs) \<Longrightarrow>
   map_of (fold (\<lambda>(k, v). if P k then AList.update k v else (\<lambda>m. m)) xs acc) =
     map_of acc ++ (map_of xs |` {k. P k})"
proof (induction xs arbitrary: acc)
  case Nil
  then show ?case by simp
next
  case (Cons x xs)
  obtain k v where x: "x = (k, v)" by fastforce
  with Cons.prems have "map_of xs k = None" by (simp add: map_of_eq_None_iff)
  with Cons x show ?case
    by (auto simp: update_conv' map_add_def restrict_map_def fun_eq_iff split: option.splits)
qed

lemma distinct_fold_update:
  "distinct (map fst acc) \<Longrightarrow> distinct (map fst (fold (\<lambda>(k, v). if P k then AList.update k v else (\<lambda>m. m)) xs acc))"
  by (induction xs arbitrary: acc) (auto simp: distinct_update)

lemma set_fold_insert:
  "set (fold (\<lambda>k. if P k then List.insert k else (\<lambda>m. m)) xs acc) = set acc \<union> {k \<in> set xs. P k}"
  by (induction xs arbitrary: acc) auto

lemma distinct_fold_insert:
  "distinct acc \<Longrightarrow> distinct (fold (\<lambda>k. if P k then List.insert k else (\<lambda>m. m)) xs acc)"
  by (induction xs arbitrary: acc) auto

lemma new_add_map:
  assumes "distinct (map fst add)" "distinct (map fst exist)"
  shows "map_of (new_labels_to_add add rem exist) = (map_of exist |` (- set rem)) ++ map_of add"
    and "distinct (map fst (new_labels_to_add add rem exist))"
proof -
  let ?e = "fold (\<lambda>(k, v). if k \<notin> set rem then AList.update k v else (\<lambda>m. m)) exist []"
  have e: "map_of ?e = map_of exist |` (- set rem)" "distinct (map fst ?e)"
    using map_of_fold_update_if [OF assms(2), of "\<lambda>k. k \<notin> set rem" "[]"]
      distinct_fold_update [of "[]" "\<lambda>k. k \<notin> set rem" exist] by (simp_all add: Compl_eq)
  from map_of_fold_update_if [OF assms(1), of "\<lambda>_. True" ?e] distinct_fold_update [OF e(2), of "\<lambda>_. True" add] e
  show "map_of (new_labels_to_add add rem exist) = (map_of exist |` (- set rem)) ++ map_of add"
    and "distinct (map fst (new_labels_to_add add rem exist))"
    by (simp_all add: new_labels_to_add_def restrict_map_def)
qed

lemma new_rem_set:
  "set (new_labels_to_remove add rem exist) = set rem \<union> {k \<in> set exist. map_of add k = None}"
  "distinct (new_labels_to_remove add rem exist)"
  using set_fold_insert [of "\<lambda>_. True" rem] distinct_fold_insert [of _ "\<lambda>_. True" rem]
    set_fold_insert [of "\<lambda>k. map_of add k = None" exist "[]"] distinct_fold_insert [of "[]" "\<lambda>k. map_of add k = None" exist]
  by (auto simp: new_labels_to_remove_def)

lemma updateRow_overlay:
  assumes "disjoint_spec add rem" "disjoint_spec L D"
  shows "disjoint_spec (new_labels_to_add add rem L) (new_labels_to_remove add rem D)"
    and "overlay (new_labels_to_add add rem L) (new_labels_to_remove add rem D) m = overlay add rem (overlay L D m)"
proof -
  from assms have d: "distinct (map fst add)" "distinct (map fst L)" by (simp_all add: disjoint_spec_def)
  note n = new_add_map [OF d, of rem] new_rem_set [of add rem D]
  have dom: "dom (map_of add) \<inter> set rem = {}" "dom (map_of L) \<inter> set D = {}"
    using assms by (simp_all add: disjoint_spec_def dom_map_of_conv_image_fst)
  have "fst ` set (new_labels_to_add add rem L) = dom ((map_of L |` (- set rem)) ++ map_of add)"
    using n(1) by (metis dom_map_of_conv_image_fst)
  also have "\<dots> \<inter> (set rem \<union> {k \<in> set D. map_of add k = None}) = {}"
    using dom(1) domI [THEN disjoint_iff [THEN iffD1, OF dom(2), rule_format]] by (auto simp: restrict_map_def split: if_splits)
  finally show "disjoint_spec (new_labels_to_add add rem L) (new_labels_to_remove add rem D)"
    using n by (simp add: disjoint_spec_def)
  show "overlay (new_labels_to_add add rem L) (new_labels_to_remove add rem D) m = overlay add rem (overlay L D m)"
    unfolding overlay_def n using dom by (auto simp: fun_eq_iff restrict_map_def map_add_def split: option.splits)
qed

section \<open>Properties\<close>

text \<open>What a table says about a cluster; a cluster without a row has nothing to set or to delete.\<close>

definition has_spec :: "ManagedClusterLabel set \<Rightarrow> string \<Rightarrow> (string, string) gomap \<Rightarrow> string list \<Rightarrow> bool" where
  "has_spec R cid L D \<longleftrightarrow>
     (\<exists>r \<in> R. ml_ID r = cid \<and> ml_Labels r = Some L \<and> ml_DeletedLabelKeys r = Some D) \<or>
     ((\<forall>r \<in> R. ml_ID r \<noteq> cid) \<and> L = [] \<and> D = [])"

lemma counted_table_laws:
  assumes "counted_laws T rows key"
  shows "tb_Find T P db = Some rs \<Longrightarrow> set rs = {r \<in> rows db. P r}"
    and "tb_Insert T r db = Some db' \<Longrightarrow> rows db' = insert r (rows db)"
    and "tb_Update T P f db = Some db' \<Longrightarrow> rows db' = {r \<in> rows db. \<not> P r} \<union> f ` {r \<in> rows db. P r}"
    and "tb_RowsAffected T P db = 0 \<longleftrightarrow> {r \<in> rows db. P r} = {}"
  using assms table_find [of "table.truncate T" rows key P db rs] table_insert [of "table.truncate T" rows key r db db']
    table_update [of "table.truncate T" rows key P f db db']
  by (simp_all add: counted_laws_def table.truncate_def)

lemma updateRow_rows:
  assumes T: "counted_laws T rows ml_ID" and u: "inj_on ml_ID (rows db)" and r: "r \<in> rows db" "ml_ID r \<noteq> []"
    and run: "updateRow T now (ml_ID r) add L rem D (ml_Version r) db = (None, db')"
  shows "rows db' = (rows db - {r}) \<union> {r\<lparr>ml_Labels := Some (new_labels_to_add add rem L),
      ml_DeletedLabelKeys := Some (new_labels_to_remove add rem D), ml_Version := ml_Version r + 1, ml_UpdatedAt := now\<rparr>}"
proof -
  from run have "tb_Update T (version_matches (ml_ID r) (ml_Version r)) (\<lambda>s. s\<lparr>ml_Labels := Some (new_labels_to_add add rem L),
      ml_DeletedLabelKeys := Some (new_labels_to_remove add rem D), ml_Version := ml_Version r + 1, ml_UpdatedAt := now\<rparr>) db = Some db'"
    by (auto simp: updateRow_def Let_def split: option.splits if_splits)
  from counted_table_laws(3) [OF T this]
  have "rows db' = {s \<in> rows db. \<not> version_matches (ml_ID r) (ml_Version r) s} \<union> (\<lambda>s. s\<lparr>ml_Labels := Some (new_labels_to_add add rem L),
      ml_DeletedLabelKeys := Some (new_labels_to_remove add rem D), ml_Version := ml_Version r + 1, ml_UpdatedAt := now\<rparr>)
      ` {s \<in> rows db. version_matches (ml_ID r) (ml_Version r) s}" .
  moreover have "{s \<in> rows db. version_matches (ml_ID r) (ml_Version r) s} = {r}"
    using u r by (auto simp: version_matches_def inj_on_def)
  moreover have "{s \<in> rows db. \<not> version_matches (ml_ID r) (ml_Version r) s} = rows db - {r}"
    using calculation(2) by auto
  ultimately show ?thesis by simp
qed


lemma mem_counted_laws: "counted_laws (mem_counted key) set key"
  using mem_table_laws [of key]
  by (auto simp: counted_laws_def mem_counted_def table.defs filter_empty_conv mem_table_def)

definition ex_label_rows :: "ManagedClusterLabel list" where
  "ex_label_rows = [\<lparr>ml_ID = ''id1'', ml_LeafHubName = ''h1'', ml_ManagedClusterName = ''c1'', ml_Labels = Some [(''env'', ''dev'')],
     ml_DeletedLabelKeys = Some [''old''], ml_Version = 3, ml_UpdatedAt = 10\<rparr>]"

definition ex_patches :: "label_patch list" where
  "ex_patches = [\<lparr>pa_Op = ''add'', pa_Path = ''/metadata/labels/old'', pa_Value = ''x''\<rparr>,
     \<lparr>pa_Op = ''remove'', pa_Path = ''/metadata/labels/env'', pa_Value = []\<rparr>]"

definition ex_attempt :: "ManagedClusterLabel list attempt" where
  "ex_attempt = \<lparr>at_locked = True, at_now = 20, at_before = (\<lambda>x. x), at_between = (\<lambda>x. x)\<rparr>"

lemma ex_patch_run:
  "getLabels ex_patches [] [] = Inr ([(''old'', ''x'')], [''env''])"
  "fst (updateLabels (mem_counted ml_ID) ''id1'' ''h1'' ''c1'' [(''old'', ''x'')] [''env''] ex_attempt ex_label_rows) = None"
  by code_simp+


text \<open>
  When another writer changes the row of the cluster between the read and the write of a
  request, the write is refused and the table keeps the other writer's row, provided that the
  version read was not 0. At version 0 the condition on the version is left out, and the request
  overwrites what the other writer wrote with labels computed from the row it had read.
\<close>

theorem optimistic_lock_skips_version_zero:
  assumes "counted_laws T rows ml_ID" "cid \<noteq> []" "at_before a = (\<lambda>x. x)" "at_locked a" "add \<noteq> [] \<or> rem \<noteq> []"
    and "tb_Find T (\<lambda>r. where_eq cid (ml_ID r)) db = Some (r # rs)" "ml_Labels r = Some L" "ml_DeletedLabelKeys r = Some D"
    and "s \<in> rows (at_between a db)" "ml_ID s = cid" "ml_Version s \<noteq> ml_Version r" "inj_on ml_ID (rows (at_between a db))"
    and "updateLabels T cid hub name add rem a db = (err, db')"
  shows "(ml_Version r \<noteq> 0 \<longrightarrow> err \<noteq> None \<and> rows db' = rows (at_between a db)) \<and>
         (ml_Version r = 0 \<and> err = None \<longrightarrow>
            s\<lparr>ml_Labels := Some (new_labels_to_add add rem L), ml_DeletedLabelKeys := Some (new_labels_to_remove add rem D),
              ml_Version := 1, ml_UpdatedAt := at_now a\<rparr> \<in> rows db')"
proof -
  let ?db = "at_between a db" and ?P = "version_matches cid (ml_Version r)"
  let ?f = "\<lambda>s. s\<lparr>ml_Labels := Some (new_labels_to_add add rem L), ml_DeletedLabelKeys := Some (new_labels_to_remove add rem D),
     ml_Version := ml_Version r + 1, ml_UpdatedAt := at_now a\<rparr>"
  have run: "updateRow T (at_now a) cid add L rem D (ml_Version r) ?db = (err, db')"
    using assms(3-8,13) by (auto simp: updateLabels_def Let_def)
  have no: "{x \<in> rows ?db. ?P x} = {}" if "ml_Version r \<noteq> 0"
    using assms(2,9-12) that by (auto simp: version_matches_def inj_on_def)
  show ?thesis
  proof (cases "tb_Update T ?P ?f ?db")
    case None
    with run show ?thesis by (auto simp: updateRow_def Let_def)
  next
    case (Some db1)
    note R = counted_table_laws(3) [OF assms(1) Some]
    have "err \<noteq> None \<and> rows db' = rows ?db" if "ml_Version r \<noteq> 0"
    proof -
      have "{x \<in> rows ?db. \<not> ?P x} = rows ?db" using no [OF that] by auto
      then have "rows db1 = rows ?db" using R no [OF that] by simp
      moreover have "tb_RowsAffected T ?P ?db = 0" using counted_table_laws(4) [OF assms(1)] no [OF that] by simp
      ultimately show ?thesis using run Some by (auto simp: updateRow_def Let_def)
    qed
    moreover have "?f s \<in> rows db'" if "ml_Version r = 0"
    proof -
      have "?P s" using assms(2,10) that by (simp add: version_matches_def)
      with R assms(9) run Some show ?thesis by (auto simp: updateRow_def Let_def)
    qed
    ultimately show ?thesis by auto
  qed
qed

definition ex_zero_rows :: "ManagedClusterLabel list" where
  "ex_zero_rows = map (\<lambda>r. r\<lparr>ml_Version := 0\<rparr>) ex_label_rows"

definition ex_race :: "ManagedClusterLabel list attempt" where
  "ex_race = ex_attempt\<lparr>at_between := map (\<lambda>r. r\<lparr>ml_Labels := Some [(''other'', ''y'')], ml_Version := 1\<rparr>)\<rparr>"

lemma ex_race_run:
  "fst (updateLabels (mem_counted ml_ID) ''id1'' ''h1'' ''c1'' [(''old'', ''x'')] [''env''] ex_race ex_zero_rows) = None"
  by code_simp

theorem optimistic_lock_skips_version_zero_witness:
  "\<exists>s \<in> set (snd (updateLabels (mem_counted ml_ID) ''id1'' ''h1'' ''c1'' [(''old'', ''x'')] [''env''] ex_race ex_zero_rows)).
     ml_Labels s = Some (new_labels_to_add [(''old'', ''x'')] [''env''] [(''env'', ''dev'')])"
proof -
  let ?r = "hd ex_zero_rows" and ?s = "hd (at_between ex_race ex_zero_rows)"
  note d = ex_race_def ex_zero_rows_def ex_label_rows_def ex_attempt_def
  obtain db' where r: "updateLabels (mem_counted ml_ID) ''id1'' ''h1'' ''c1'' [(''old'', ''x'')] [''env''] ex_race ex_zero_rows = (None, db')"
    using ex_race_run by (metis prod.collapse)
  have "(ml_Version ?r \<noteq> 0 \<longrightarrow> (None :: update_error option) \<noteq> None \<and> set db' = set (at_between ex_race ex_zero_rows)) \<and>
      (ml_Version ?r = 0 \<and> (None :: update_error option) = None \<longrightarrow>
        ?s\<lparr>ml_Labels := Some (new_labels_to_add [(''old'', ''x'')] [''env''] [(''env'', ''dev'')]),
          ml_DeletedLabelKeys := Some (new_labels_to_remove [(''old'', ''x'')] [''env''] [''old'']),
          ml_Version := 1, ml_UpdatedAt := at_now ex_race\<rparr> \<in> set db')"
    by (rule optimistic_lock_skips_version_zero [OF mem_counted_laws _ _ _ _ _ _ _ _ _ _ _ r, where rs = "[]"])
      (simp_all add: d mem_counted_def mem_table_def table.defs)
  then have "?s\<lparr>ml_Labels := Some (new_labels_to_add [(''old'', ''x'')] [''env''] [(''env'', ''dev'')]),
          ml_DeletedLabelKeys := Some (new_labels_to_remove [(''old'', ''x'')] [''env''] [''old'']),
          ml_Version := 1, ml_UpdatedAt := at_now ex_race\<rparr> \<in> set db'" by (simp add: d)
  then show ?thesis unfolding r snd_conv by (rule bexI [rotated]) simp
qed

end
