(* ===== verification/LabelSync.thy ===== *)
theory LabelSync
  imports LabelPatch
begin

text \<open>
  The manager's side of label specifications: \<^verbatim>\<open>managedcluster_labels_syncer.go\<close>, which sends the rows of
  the label table to the hubs, and \<^verbatim>\<open>managedcluster_labels_watcher.go\<close>, which removes keys from the rows
  once the status of the cluster no longer has them and fills in missing hub names; both under
  \<^verbatim>\<open>manager/pkg/spec/syncers\<close>. Times are integers, 0 is the zero time of Go.
\<close>

section \<open>Bundles\<close>

record ManagedClusterLabelsSpec =
  ls_ClusterName :: string
  ls_Labels :: "(string, string) gomap"
  ls_DeletedLabelKeys :: "string list"
  ls_UpdateTimestamp :: int
  ls_Version :: int

record ManagedClusterLabelsSpecBundle =
  lb_Objects :: "ManagedClusterLabelsSpec list"
  lb_LeafHubName :: string

text \<open>The largest update time, 0 for an empty table; a failure of the query is not reported.\<close>

definition GetLastUpdateTimestamp :: "('row, 'db, 'm) table_scheme \<Rightarrow> ('row \<Rightarrow> int) \<Rightarrow> ('row \<Rightarrow> bool) \<Rightarrow> 'db \<Rightarrow> int" where
  "GetLastUpdateTimestamp T updated_at selected db =
     (case tb_Find T selected db of None \<Rightarrow> 0 | Some rs \<Rightarrow> foldr max (map updated_at rs) 0)"

definition label_spec :: "ManagedClusterLabel \<Rightarrow> ManagedClusterLabelsSpec option" where
  "label_spec r =
     (case (ml_Labels r, ml_DeletedLabelKeys r) of
        (Some labels, Some deletedKeys) \<Rightarrow>
          Some \<lparr>ls_ClusterName = ml_ManagedClusterName r, ls_Labels = labels, ls_DeletedLabelKeys = deletedKeys,
                 ls_UpdateTimestamp = ml_UpdatedAt r, ls_Version = ml_Version r\<rparr>
      | _ \<Rightarrow> None)"

fun getManagedClusterLabelBundleByRows ::
    "ManagedClusterLabel list \<Rightarrow> (string, ManagedClusterLabelsSpecBundle) gomap \<Rightarrow> (string, ManagedClusterLabelsSpecBundle) gomap option" where
  "getManagedClusterLabelBundleByRows [] m = Some m"
| "getManagedClusterLabelBundleByRows (r # rows) m =
     (let hub = ml_LeafHubName r;
          bundle = (case map_of m hub of None \<Rightarrow> \<lparr>lb_Objects = [], lb_LeafHubName = hub\<rparr> | Some b \<Rightarrow> b)
      in case label_spec r of
           None \<Rightarrow> None
         | Some spec \<Rightarrow>
             getManagedClusterLabelBundleByRows rows (AList.update hub (bundle\<lparr>lb_Objects := lb_Objects bundle @ [spec]\<rparr>) m))"

text \<open>All rows of the hubs that have a row newer than the time; the subquery is a query of its own.\<close>

definition getUpdatedManagedClusterLabelsBundles ::
    "(ManagedClusterLabel, 'db, 'm) table_scheme \<Rightarrow> int \<Rightarrow> 'db \<Rightarrow> (string, ManagedClusterLabelsSpecBundle) gomap option" where
  "getUpdatedManagedClusterLabelsBundles T timestamp db =
     (case tb_Find T (\<lambda>r. timestamp < ml_UpdatedAt r) db of
        None \<Rightarrow> None
      | Some updated \<Rightarrow>
          (case tb_Find T (\<lambda>r. ml_LeafHubName r \<in> ml_LeafHubName ` set updated \<and> ml_LeafHubName r \<noteq> []) db of
             None \<Rightarrow> None
           | Some rows \<Rightarrow> getManagedClusterLabelBundleByRows rows []))"

text \<open>The bundles are sent until one fails; the result has those that were sent.\<close>

fun send_bundles ::
    "(ManagedClusterLabelsSpecBundle \<Rightarrow> bool) \<Rightarrow> (string, ManagedClusterLabelsSpecBundle) gomap
       \<Rightarrow> bool \<times> (string \<times> ManagedClusterLabelsSpecBundle) list" where
  "send_bundles send [] = (True, [])"
| "send_bundles send ((leafHubName, bundle) # m) =
     (if send bundle then let (ok, sent) = send_bundles send m in (ok, (leafHubName, bundle) # sent)
      else (False, []))"

datatype label_sync_error = ReadFailed | SendFailed

definition syncManagedClusterLabelsBundles ::
    "(ManagedClusterLabel, 'db, 'm) table_scheme \<Rightarrow> (ManagedClusterLabelsSpecBundle \<Rightarrow> bool) \<Rightarrow> int \<Rightarrow> 'db
       \<Rightarrow> (label_sync_error + bool) \<times> int \<times> (string \<times> ManagedClusterLabelsSpecBundle) list" where
  "syncManagedClusterLabelsBundles T send lastSync db =
     (let lastUpdateTimestamp = GetLastUpdateTimestamp T ml_UpdatedAt (\<lambda>_. True) db
      in if \<not> lastUpdateTimestamp > lastSync then (Inr False, lastSync, [])
         else case getUpdatedManagedClusterLabelsBundles T lastSync db of
                None \<Rightarrow> (Inl ReadFailed, lastSync, [])
              | Some bundles \<Rightarrow>
                  (case send_bundles send bundles of
                     (False, sent) \<Rightarrow> (Inl SendFailed, lastSync, sent)
                   | (True, sent) \<Rightarrow> (Inr True, lastUpdateTimestamp, sent)))"

section \<open>The watcher\<close>

definition getLabelBundleWithDeletedKey ::
    "(ManagedClusterLabel, 'db, 'm) table_scheme \<Rightarrow> 'db \<Rightarrow> (string, ManagedClusterLabelsSpecBundle) gomap option" where
  "getLabelBundleWithDeletedKey T db =
     Option.bind (tb_Find T (\<lambda>r. ml_DeletedLabelKeys r \<noteq> Some [] \<and> ml_LeafHubName r \<noteq> []) db)
       (\<lambda>rows. getManagedClusterLabelBundleByRows rows [])"

definition updateDeletedKeysToLabelTable ::
    "(ManagedClusterLabel, 'db) counted_table \<Rightarrow> int \<Rightarrow> int \<Rightarrow> string \<Rightarrow> string \<Rightarrow> string list \<Rightarrow> 'db \<Rightarrow> update_error option \<times> 'db" where
  "updateDeletedKeysToLabelTable T now readVersion leafHubName managedClusterName deletedLabelKeys db =
     (let P = (\<lambda>r. ml_LeafHubName r = leafHubName \<and> ml_ManagedClusterName r = managedClusterName \<and> ml_Version r = readVersion);
          affected = tb_RowsAffected T P db
      in case tb_Update T P (\<lambda>r. r\<lparr>ml_UpdatedAt := now, ml_DeletedLabelKeys := Some deletedLabelKeys, ml_Version := readVersion + 1\<rparr>) db of
           None \<Rightarrow> (Some StatementFailed, db)
         | Some db1 \<Rightarrow> (if affected = 0 then Some OptimisticConcurrencyWriteFailed else None, db1))"

text \<open>
  \<open>status_labels hub cluster\<close> is the query for the labels of a cluster in the status table, \<^const>\<open>None\<close> for an
  error; a cluster that is not there has no labels. One row is handled by \<open>trim_spec\<close>, which also tells
  whether there was no error.
\<close>

definition trim_spec ::
    "(ManagedClusterLabel, 'db) counted_table \<Rightarrow> (string \<Rightarrow> string \<Rightarrow> (string, string) gomap option) \<Rightarrow> int
       \<Rightarrow> string \<Rightarrow> ManagedClusterLabelsSpec \<Rightarrow> 'db \<Rightarrow> bool \<times> 'db" where
  "trim_spec T status_labels now leafHubName spec db =
     (case status_labels leafHubName (ls_ClusterName spec) of
        None \<Rightarrow> (False, db)
      | Some labelsStatus \<Rightarrow>
          let deletedLabelKeysStillInStatus = filter (\<lambda>key. map_of labelsStatus key \<noteq> None) (ls_DeletedLabelKeys spec)
          in if length deletedLabelKeysStillInStatus = length (ls_DeletedLabelKeys spec) then (True, db)
             else case updateDeletedKeysToLabelTable T now (ls_Version spec) leafHubName (ls_ClusterName spec)
                         deletedLabelKeysStillInStatus db of
                    (Some _, db1) \<Rightarrow> (False, db1)
                  | (None, db1) \<Rightarrow> (True, db1))"

fun trim_specs ::
    "(ManagedClusterLabelsSpec \<Rightarrow> 'db \<Rightarrow> bool \<times> 'db) \<Rightarrow> ManagedClusterLabelsSpec list \<Rightarrow> bool \<Rightarrow> 'db \<Rightarrow> bool \<times> 'db" where
  "trim_specs trim [] result db = (result, db)"
| "trim_specs trim (spec # specs) result db =
     (let (ok, db1) = trim spec db in trim_specs trim specs (result \<and> ok) db1)"

fun trim_bundles ::
    "(string \<Rightarrow> ManagedClusterLabelsSpec \<Rightarrow> 'db \<Rightarrow> bool \<times> 'db) \<Rightarrow> (string, ManagedClusterLabelsSpecBundle) gomap \<Rightarrow> bool \<Rightarrow> 'db \<Rightarrow> bool \<times> 'db" where
  "trim_bundles trim [] result db = (result, db)"
| "trim_bundles trim ((_, bundle) # m) result db =
     (let (ok, db1) = trim_specs (trim (lb_LeafHubName bundle)) (lb_Objects bundle) result db in trim_bundles trim m ok db1)"

definition updateDeletedLabelsByManagedCluster ::
    "(ManagedClusterLabel, 'db) counted_table \<Rightarrow> (string \<Rightarrow> string \<Rightarrow> (string, string) gomap option) \<Rightarrow> int \<Rightarrow> bool \<Rightarrow> 'db \<Rightarrow> bool \<times> 'db" where
  "updateDeletedLabelsByManagedCluster T status_labels now locked db =
     (case getLabelBundleWithDeletedKey T db of
        None \<Rightarrow> (False, db)
      | Some m \<Rightarrow> if \<not> locked then (False, db) else trim_bundles (trim_spec T status_labels now) m True db)"

definition updateLeafHubNameByClusterName ::
    "(ManagedClusterLabel, 'db) counted_table \<Rightarrow> int \<Rightarrow> bool \<Rightarrow> int \<Rightarrow> string \<Rightarrow> string \<Rightarrow> 'db \<Rightarrow> update_error option \<times> 'db" where
  "updateLeafHubNameByClusterName T now locked readVersion managedClusterName leafHubName db =
     (if \<not> locked then (Some LockFailed, db)
      else let P = (\<lambda>r. ml_ManagedClusterName r = managedClusterName \<and> ml_Version r = readVersion);
               affected = tb_RowsAffected T P db
           in case tb_Update T P (\<lambda>r. r\<lparr>ml_UpdatedAt := now, ml_LeafHubName := leafHubName, ml_Version := readVersion + 1\<rparr>) db of
                None \<Rightarrow> (Some StatementFailed, db)
              | Some db1 \<Rightarrow> (if affected = 0 then Some OptimisticConcurrencyWriteFailed else None, db1))"

text \<open>\<open>hub_of\<close> is the query for the hub of a cluster name; an error leaves the entry for the next time.\<close>

fun fill_names ::
    "(ManagedClusterLabel, 'db) counted_table \<Rightarrow> (string \<Rightarrow> string option) \<Rightarrow> int \<Rightarrow> bool \<Rightarrow> (string \<times> int) list \<Rightarrow> 'db \<Rightarrow> 'db" where
  "fill_names T hub_of now locked [] db = db"
| "fill_names T hub_of now locked ((clusterName, version) # entities) db =
     (case hub_of clusterName of
        None \<Rightarrow> fill_names T hub_of now locked entities db
      | Some leafHubName \<Rightarrow>
          fill_names T hub_of now locked entities (snd (updateLeafHubNameByClusterName T now locked version clusterName leafHubName db)))"

definition fillMissingLeafHubNames ::
    "(ManagedClusterLabel, 'db) counted_table \<Rightarrow> (string \<Rightarrow> string option) \<Rightarrow> int \<Rightarrow> bool \<Rightarrow> 'db \<Rightarrow> 'db" where
  "fillMissingLeafHubNames T hub_of now locked db =
     (case tb_Find T (\<lambda>r. ml_LeafHubName r = []) db of
        None \<Rightarrow> db
      | Some rows \<Rightarrow> fill_names T hub_of now locked (map (\<lambda>r. (ml_ManagedClusterName r, ml_Version r)) rows) db)"

section \<open>What a synchronisation sends\<close>

text \<open>The bundle of a hub has the rows of the hub, in the order in which they were read.\<close>

definition bundle_of :: "string \<Rightarrow> ManagedClusterLabel list \<Rightarrow> ManagedClusterLabelsSpecBundle" where
  "bundle_of hub rows = \<lparr>lb_Objects = map (the \<circ> label_spec) (filter (\<lambda>r. ml_LeafHubName r = hub) rows), lb_LeafHubName = hub\<rparr>"

definition bundles_of :: "ManagedClusterLabel list \<Rightarrow> string \<Rightarrow> ManagedClusterLabelsSpecBundle option" where
  "bundles_of rows hub = (if hub \<in> ml_LeafHubName ` set rows then Some (bundle_of hub rows) else None)"

lemma bundles_step:
  fixes m :: "(string, ManagedClusterLabelsSpecBundle) gomap"
  assumes "map_of m = bundles_of seen" "label_spec r = Some spec"
    and "b = (case map_of m (ml_LeafHubName r) of None \<Rightarrow> \<lparr>lb_Objects = [], lb_LeafHubName = ml_LeafHubName r\<rparr> | Some b \<Rightarrow> b)"
  shows "map_of (AList.update (ml_LeafHubName r) (b\<lparr>lb_Objects := lb_Objects b @ [spec]\<rparr>) m) = bundles_of (seen @ [r])"
proof -
  have "b = bundle_of (ml_LeafHubName r) seen"
    using assms(3) unfolding assms(1) by (auto simp: bundles_of_def bundle_of_def filter_empty_conv image_iff)
  then show ?thesis
    using assms(1,2) by (auto simp: update_conv' fun_eq_iff bundles_of_def bundle_of_def)
qed

lemma bundles_by_rows:
  "getManagedClusterLabelBundleByRows rows m = Some m' \<Longrightarrow> map_of m = bundles_of seen \<Longrightarrow>
   map_of m' = bundles_of (seen @ rows) \<and> (\<forall>r \<in> set rows. label_spec r \<noteq> None)"
proof (induction rows arbitrary: m seen)
  case Nil
  then show ?case by simp
next
  case (Cons r rows)
  define b where "b = (case map_of m (ml_LeafHubName r) of None \<Rightarrow> \<lparr>lb_Objects = [], lb_LeafHubName = ml_LeafHubName r\<rparr> | Some b \<Rightarrow> b)"
  from Cons.prems(1) obtain spec where s: "label_spec r = Some spec"
    and run: "getManagedClusterLabelBundleByRows rows (AList.update (ml_LeafHubName r) (b\<lparr>lb_Objects := lb_Objects b @ [spec]\<rparr>) m) = Some m'"
    by (auto simp: Let_def b_def split: option.splits)
  from Cons.IH [OF run bundles_step [OF Cons.prems(2) s b_def]] s show ?case by simp
qed

lemma send_bundles_ok: "send_bundles send m = (True, sent) \<Longrightarrow> sent = m"
  by (induction m arbitrary: sent) (auto split: if_splits prod.splits)

lemma foldr_max: "x \<in> set xs \<Longrightarrow> x \<le> foldr max xs (0 :: int)" "foldr max xs (0 :: int) \<in> insert 0 (set xs)"
  by (induction xs) (auto simp: max_def)

text \<open>
  When a synchronisation has sent its bundles, the bundle of each hub with a row that is newer than
  the last synchronisation has all rows of the hub and only those, and the time that is
  remembered is not below that of any row.
\<close>

lemma sync_sends_rows:
  assumes T: "table_laws (table.truncate T) rows key"
    and run: "syncManagedClusterLabelsBundles T send lastSync db = (Inr True, lastSync', sent)" and nonneg: "0 \<le> lastSync"
  shows "map_of sent hub = Some b \<Longrightarrow> lb_LeafHubName b = hub \<and>
      (\<exists>rs. set rs = {r \<in> rows db. ml_LeafHubName r = hub} \<and> lb_Objects b = map (the \<circ> label_spec) rs \<and> (\<forall>r \<in> set rs. label_spec r \<noteq> None))"
    and "r \<in> rows db \<Longrightarrow> lastSync < ml_UpdatedAt r \<Longrightarrow> ml_LeafHubName r \<noteq> [] \<Longrightarrow> map_of sent (ml_LeafHubName r) \<noteq> None"
    and "r \<in> rows db \<Longrightarrow> ml_UpdatedAt r \<le> lastSync'"
proof -
  have find: "set rs = {r \<in> rows db. P r}" if "tb_Find T P db = Some rs" for P rs
    using table_find [OF T] that by (simp add: table.truncate_def)
  from run obtain updated rs m where u: "tb_Find T (\<lambda>r. lastSync < ml_UpdatedAt r) db = Some updated"
    and r: "tb_Find T (\<lambda>r. ml_LeafHubName r \<in> ml_LeafHubName ` set updated \<and> ml_LeafHubName r \<noteq> []) db = Some rs"
    and m: "getManagedClusterLabelBundleByRows rs [] = Some sent"
    and last: "lastSync' = GetLastUpdateTimestamp T ml_UpdatedAt (\<lambda>_. True) db" "lastSync < lastSync'"
    by (auto simp: syncManagedClusterLabelsBundles_def getUpdatedManagedClusterLabelsBundles_def Let_def
        split: if_splits option.splits prod.splits bool.splits dest: send_bundles_ok)
  have "map_of [] = bundles_of []" by (simp add: bundles_of_def fun_eq_iff)
  from bundles_by_rows [OF m this] have sent: "map_of sent = bundles_of rs" and ok: "\<forall>r \<in> set rs. label_spec r \<noteq> None" by simp_all
  note fu = find [OF u] and fr = find [OF r]
  show "lb_LeafHubName b = hub \<and>
      (\<exists>rs. set rs = {r \<in> rows db. ml_LeafHubName r = hub} \<and> lb_Objects b = map (the \<circ> label_spec) rs \<and> (\<forall>r \<in> set rs. label_spec r \<noteq> None))"
    if "map_of sent hub = Some b"
  proof -
    from that sent have b: "hub \<in> ml_LeafHubName ` set rs" "b = bundle_of hub rs" by (auto simp: bundles_of_def split: if_splits)
    then have "set (filter (\<lambda>r. ml_LeafHubName r = hub) rs) = {r \<in> rows db. ml_LeafHubName r = hub}" using fr by auto
    with b(2) ok show ?thesis by (intro conjI exI [of _ "filter (\<lambda>r. ml_LeafHubName r = hub) rs"]) (auto simp: bundle_of_def)
  qed
  show "map_of sent (ml_LeafHubName r) \<noteq> None" if "r \<in> rows db" "lastSync < ml_UpdatedAt r" "ml_LeafHubName r \<noteq> []" for r
    using that fu fr unfolding sent by (auto simp: bundles_of_def)
  show "ml_UpdatedAt r \<le> lastSync'" if "r \<in> rows db" for r
  proof (cases "tb_Find T (\<lambda>_. True) db")
    case None
    with last nonneg show ?thesis by (simp add: GetLastUpdateTimestamp_def)
  next
    case (Some all)
    with find [OF Some] that last foldr_max(1) [of "ml_UpdatedAt r" "map ml_UpdatedAt all"] show ?thesis
      by (simp add: GetLastUpdateTimestamp_def)
  qed
qed

end
