(* ===== verification/AgentLabels.thy ===== *)
theory AgentLabels
  imports LabelSync "HOL-Library.Multiset"
begin

text \<open>
  \<^verbatim>\<open>agent/pkg/spec/syncers/clusterlabel_syncer.go\<close>: how the agent applies a bundle of label specifications to the
  managed clusters of its hub, and the label path from the table of the manager to a cluster.

  The client of the hub's API server is a parameter: \<open>get\<close> reads a cluster and \<open>upd\<close> writes it, which fails
  if the cluster was changed since it was read. The jobs of a bundle run on a pool of workers, so their
  order is an argument.
\<close>

section \<open>Applying a bundle\<close>

record managed_cluster =
  mc_Name :: string
  mc_Labels :: "(string, string) gomap"
  mc_ManagedFields :: "(string \<times> string list) list"

datatype cluster_get = ClusterNotFound | ClusterGetError | ClusterFound managed_cluster

record 'k cluster_api =
  ca_Get :: "string \<Rightarrow> 'k \<Rightarrow> cluster_get"
  ca_Update :: "managed_cluster \<Rightarrow> 'k \<Rightarrow> bool \<times> 'k"

record managedClusterLabelsBundleSyncer =
  cs_latestBundle :: "ManagedClusterLabelsSpecBundle option"
  cs_managedClusterToTimestampMap :: "(string, int) gomap"

definition hohFieldManager :: string where
  "hohFieldManager = ''mgh-agent''"

text \<open>The entry is the manager with the label fields it owns; the time and the version of the entry are left out.\<close>

fun replace_entry :: "string \<times> string list \<Rightarrow> (string \<times> string list) list \<Rightarrow> (string \<times> string list) list" where
  "replace_entry new [] = [new]"
| "replace_entry new (entry # entries) = (if fst entry = fst new then new # entries else entry # replace_entry new entries)"

definition updateManagedFieldEntry :: "managed_cluster \<Rightarrow> ManagedClusterLabelsSpec \<Rightarrow> managed_cluster" where
  "updateManagedFieldEntry managedCluster spec =
     managedCluster\<lparr>mc_ManagedFields := replace_entry (hohFieldManager, map (\<lambda>key. ''f:'' @ key) (map fst (ls_Labels spec)))
        (mc_ManagedFields managedCluster)\<rparr>"

definition getManagedClusterLastProcessedTimestamp :: "managedClusterLabelsBundleSyncer \<Rightarrow> string \<Rightarrow> int" where
  "getManagedClusterLastProcessedTimestamp s name =
     (case map_of (cs_managedClusterToTimestampMap s) name of Some t \<Rightarrow> t | None \<Rightarrow> 0)"

definition managedClusterMarkUpdated ::
    "ManagedClusterLabelsSpec \<Rightarrow> managedClusterLabelsBundleSyncer \<Rightarrow> managedClusterLabelsBundleSyncer" where
  "managedClusterMarkUpdated spec s =
     s\<lparr>cs_managedClusterToTimestampMap :=
         AList.update (ls_ClusterName spec) (ls_UpdateTimestamp spec) (cs_managedClusterToTimestampMap s)\<rparr>"

definition set_labels :: "ManagedClusterLabelsSpec \<Rightarrow> managed_cluster \<Rightarrow> managed_cluster" where
  "set_labels spec c =
     c\<lparr>mc_Labels := fold AList.delete (ls_DeletedLabelKeys spec)
          (fold (\<lambda>(key, value). AList.update key value) (ls_Labels spec) (mc_Labels c))\<rparr>"

definition updateManagedCluster ::
    "'k cluster_api \<Rightarrow> ManagedClusterLabelsSpec \<Rightarrow> managedClusterLabelsBundleSyncer \<times> 'k \<Rightarrow> managedClusterLabelsBundleSyncer \<times> 'k" where
  "updateManagedCluster api spec sk =
     (let (s, k) = sk
      in case ca_Get api (ls_ClusterName spec) k of
           ClusterNotFound \<Rightarrow> (managedClusterMarkUpdated spec s, k)
         | ClusterGetError \<Rightarrow> (s, k)
         | ClusterFound c \<Rightarrow>
             (case ca_Update api (updateManagedFieldEntry (set_labels spec c) spec) k of
                (False, k1) \<Rightarrow> (s, k1)
              | (True, k1) \<Rightarrow> (managedClusterMarkUpdated spec s, k1)))"

text \<open>
  \<^verbatim>\<open>handleBundle\<close>: the entries that are newer than what was processed are submitted, and the bundle is done
  when all of them have run, in some order.
\<close>

definition submitted :: "managedClusterLabelsBundleSyncer \<Rightarrow> ManagedClusterLabelsSpecBundle \<Rightarrow> ManagedClusterLabelsSpec list" where
  "submitted s b = filter (\<lambda>spec. getManagedClusterLastProcessedTimestamp s (ls_ClusterName spec) < ls_UpdateTimestamp spec) (lb_Objects b)"

definition handleBundle ::
    "'k cluster_api \<Rightarrow> (ManagedClusterLabelsSpec list \<Rightarrow> ManagedClusterLabelsSpec list)
       \<Rightarrow> managedClusterLabelsBundleSyncer \<times> 'k \<Rightarrow> managedClusterLabelsBundleSyncer \<times> 'k" where
  "handleBundle api order sk =
     (case cs_latestBundle (fst sk) of
        None \<Rightarrow> sk
      | Some b \<Rightarrow> fold (updateManagedCluster api) (order (submitted (fst sk) b)) sk)"

definition labels_Sync ::
    "'k cluster_api \<Rightarrow> (ManagedClusterLabelsSpec list \<Rightarrow> ManagedClusterLabelsSpec list) \<Rightarrow> ManagedClusterLabelsSpecBundle option
       \<Rightarrow> managedClusterLabelsBundleSyncer \<times> 'k \<Rightarrow> bool \<times> managedClusterLabelsBundleSyncer \<times> 'k" where
  "labels_Sync api order payload sk =
     (case payload of
        None \<Rightarrow> (False, sk)
      | Some bundle \<Rightarrow> (True, handleBundle api order ((fst sk)\<lparr>cs_latestBundle := Some bundle\<rparr>, snd sk)))"

section \<open>What the API server promises\<close>

definition cluster_laws :: "'k cluster_api \<Rightarrow> ('k \<Rightarrow> string \<rightharpoonup> managed_cluster) \<Rightarrow> bool" where
  "cluster_laws api view \<longleftrightarrow>
     (\<forall>n k. ca_Get api n k = ClusterNotFound \<longrightarrow> view k n = None) \<and>
     (\<forall>n k c. ca_Get api n k = ClusterFound c \<longrightarrow> view k n = Some c \<and> mc_Name c = n) \<and>
     (\<forall>c k k'. ca_Update api c k = (True, k') \<longrightarrow> view k' = (view k)(mc_Name c \<mapsto> c)) \<and>
     (\<forall>c k k'. ca_Update api c k = (False, k') \<longrightarrow> view k' = view k)"

definition labels_view :: "('k \<Rightarrow> string \<rightharpoonup> managed_cluster) \<Rightarrow> 'k \<Rightarrow> string \<Rightarrow> (string \<rightharpoonup> string) option" where
  "labels_view view k n = map_option (map_of \<circ> mc_Labels) (view k n)"

lemma fold_delete: "map_of (fold AList.delete ks m) = map_of m |` (- set ks)"
  by (induction ks arbitrary: m) (auto simp: delete_conv' restrict_map_def fun_eq_iff)

lemma set_labels_overlay:
  assumes "distinct (map fst (ls_Labels spec))"
  shows "map_of (mc_Labels (set_labels spec c)) = overlay (ls_Labels spec) (ls_DeletedLabelKeys spec) (map_of (mc_Labels c))"
  using map_of_fold_update_if [OF assms, of "\<lambda>_. True" "mc_Labels c"]
  by (simp add: set_labels_def fold_delete overlay_def restrict_map_def)

lemma set_labels_name [simp]:
  "mc_Name (updateManagedFieldEntry (set_labels spec c) spec) = mc_Name c"
  "mc_Labels (updateManagedFieldEntry (set_labels spec c) spec) = mc_Labels (set_labels spec c)"
  by (simp_all add: updateManagedFieldEntry_def set_labels_def)

text \<open>
  One job: it either is marked as processed and has set the labels of its cluster, or it is not marked
  and has changed nothing. The labels and marks of the other clusters never change.
\<close>

definition processed :: "ManagedClusterLabelsSpec \<Rightarrow> managedClusterLabelsBundleSyncer \<Rightarrow> bool" where
  "processed spec s \<longleftrightarrow> map_of (cs_managedClusterToTimestampMap s) (ls_ClusterName spec) = Some (ls_UpdateTimestamp spec)"

definition overlay_of :: "ManagedClusterLabelsSpec \<Rightarrow> (string \<rightharpoonup> string) \<Rightarrow> (string \<rightharpoonup> string)" where
  "overlay_of spec = overlay (ls_Labels spec) (ls_DeletedLabelKeys spec)"

definition never_fails :: "'k cluster_api \<Rightarrow> bool" where
  "never_fails api \<longleftrightarrow> (\<forall>n k. ca_Get api n k \<noteq> ClusterGetError) \<and> (\<forall>c k. fst (ca_Update api c k))"

lemma job_effect:
  assumes A: "cluster_laws api view" and d: "distinct (map fst (ls_Labels spec))"
    and run: "updateManagedCluster api spec (s, k) = (s', k')"
  shows "(processed spec s' \<and> labels_view view k' (ls_ClusterName spec) = map_option (overlay_of spec) (labels_view view k (ls_ClusterName spec)))
       \<or> (\<not> never_fails api \<and> s' = s \<and> labels_view view k' (ls_ClusterName spec) = labels_view view k (ls_ClusterName spec))"
    and "n \<noteq> ls_ClusterName spec \<Longrightarrow> labels_view view k' n = labels_view view k n \<and>
       map_of (cs_managedClusterToTimestampMap s') n = map_of (cs_managedClusterToTimestampMap s) n"
proof -
  have mark: "processed spec (managedClusterMarkUpdated spec s)"
    "n \<noteq> ls_ClusterName spec \<Longrightarrow> map_of (cs_managedClusterToTimestampMap (managedClusterMarkUpdated spec s)) n =
       map_of (cs_managedClusterToTimestampMap s) n" for n
    by (simp_all add: processed_def managedClusterMarkUpdated_def update_conv')
  have ok: "view k1 = (view k)(mc_Name c \<mapsto> c)" if "ca_Update api c k = (True, k1)" for c k1
    using A that by (simp add: cluster_laws_def)
  have bad: "view k1 = view k" if "ca_Update api c k = (False, k1)" for c k1
    using A that by (simp add: cluster_laws_def)
  consider (missing) "ca_Get api (ls_ClusterName spec) k = ClusterNotFound" "view k (ls_ClusterName spec) = None"
    | (error) "ca_Get api (ls_ClusterName spec) k = ClusterGetError"
    | (found) c where "ca_Get api (ls_ClusterName spec) k = ClusterFound c" "view k (ls_ClusterName spec) = Some c" "mc_Name c = ls_ClusterName spec"
    using A by (cases "ca_Get api (ls_ClusterName spec) k") (auto simp: cluster_laws_def)
  then have "((processed spec s' \<and> labels_view view k' (ls_ClusterName spec) = map_option (overlay_of spec) (labels_view view k (ls_ClusterName spec)))
       \<or> (\<not> never_fails api \<and> s' = s \<and> labels_view view k' (ls_ClusterName spec) = labels_view view k (ls_ClusterName spec))) \<and>
     (n \<noteq> ls_ClusterName spec \<longrightarrow> labels_view view k' n = labels_view view k n \<and>
       map_of (cs_managedClusterToTimestampMap s') n = map_of (cs_managedClusterToTimestampMap s) n)"
  proof cases
    case missing
    with run mark show ?thesis by (auto simp: updateManagedCluster_def labels_view_def)
  next
    case error
    then have "\<not> never_fails api" by (auto simp: never_fails_def)
    with error run show ?thesis by (auto simp: updateManagedCluster_def)
  next
    case (found c)
    let ?c = "updateManagedFieldEntry (set_labels spec c) spec"
    obtain r k1 where u: "ca_Update api ?c k = (r, k1)" by fastforce
    show ?thesis
    proof (cases r)
      case True
      with found u run have r: "s' = managedClusterMarkUpdated spec s" "k' = k1" by (auto simp: updateManagedCluster_def)
      have v: "view k' = (view k)(ls_ClusterName spec \<mapsto> ?c)" using ok [of ?c k1] u True found r by simp
      have "labels_view view k' (ls_ClusterName spec) = map_option (overlay_of spec) (labels_view view k (ls_ClusterName spec))"
        using v found(2) set_labels_overlay [OF d] by (simp add: labels_view_def overlay_of_def)
      with mark r v show ?thesis by (simp add: labels_view_def)
    next
      case False
      with found u run have r: "s' = s" "k' = k1" by (auto simp: updateManagedCluster_def)
      have "\<not> never_fails api" using u False by (auto simp: never_fails_def) (metis fst_conv)
      with r bad [of ?c k1] u False show ?thesis by (simp add: labels_view_def)
    qed
  qed
  then show "(processed spec s' \<and> labels_view view k' (ls_ClusterName spec) = map_option (overlay_of spec) (labels_view view k (ls_ClusterName spec)))
       \<or> (\<not> never_fails api \<and> s' = s \<and> labels_view view k' (ls_ClusterName spec) = labels_view view k (ls_ClusterName spec))"
    and "n \<noteq> ls_ClusterName spec \<Longrightarrow> labels_view view k' n = labels_view view k n \<and>
       map_of (cs_managedClusterToTimestampMap s') n = map_of (cs_managedClusterToTimestampMap s) n"
    by blast+
qed

text \<open>All jobs of a bundle; each of the two outcomes of a job stays as it is while the others run.\<close>

lemma jobs_effect:
  assumes A: "cluster_laws api view" and "\<forall>spec \<in> set specs. distinct (map fst (ls_Labels spec))" "distinct (map ls_ClusterName specs)"
    and run: "fold (updateManagedCluster api) specs (s, k) = (s', k')"
  shows "spec \<in> set specs \<Longrightarrow>
      (processed spec s' \<and> labels_view view k' (ls_ClusterName spec) = map_option (overlay_of spec) (labels_view view k (ls_ClusterName spec)))
       \<or> (\<not> never_fails api \<and> map_of (cs_managedClusterToTimestampMap s') (ls_ClusterName spec) = map_of (cs_managedClusterToTimestampMap s) (ls_ClusterName spec)
           \<and> labels_view view k' (ls_ClusterName spec) = labels_view view k (ls_ClusterName spec))"
    and "n \<notin> ls_ClusterName ` set specs \<Longrightarrow> labels_view view k' n = labels_view view k n \<and>
       map_of (cs_managedClusterToTimestampMap s') n = map_of (cs_managedClusterToTimestampMap s) n"
  using assms(2-4)
proof (induction specs arbitrary: s k n spec)
  case Nil
  { case 1 then show ?case by simp }
  { case 2 then show ?case by simp }
next
  case (Cons x specs)
  { case 1
    obtain s1 k1 where x: "updateManagedCluster api x (s, k) = (s1, k1)" by fastforce
    from 1 have rest: "fold (updateManagedCluster api) specs (s1, k1) = (s', k')" "ls_ClusterName x \<notin> ls_ClusterName ` set specs"
      "\<forall>spec \<in> set specs. distinct (map fst (ls_Labels spec))" "distinct (map ls_ClusterName specs)" "distinct (map fst (ls_Labels x))"
      by (simp_all add: x)
    note j = job_effect [OF A rest(5) x]
    show ?case
    proof (cases "spec = x")
      case True
      from Cons.IH(2) [OF rest(2,3,4,1)] have keep: "labels_view view k' (ls_ClusterName x) = labels_view view k1 (ls_ClusterName x)"
        "map_of (cs_managedClusterToTimestampMap s') (ls_ClusterName x) = map_of (cs_managedClusterToTimestampMap s1) (ls_ClusterName x)" by auto
      then have "processed x s' \<longleftrightarrow> processed x s1" by (simp add: processed_def)
      with j(1) keep show ?thesis unfolding True by auto
    next
      case False
      with 1 have s: "spec \<in> set specs" by simp
      then have "ls_ClusterName spec \<noteq> ls_ClusterName x" using rest(2) by (metis image_eqI)
      from j(2) [OF this] Cons.IH(1) [OF s rest(3,4,1)] show ?thesis by simp
    qed }
  { case 2
    obtain s1 k1 where x: "updateManagedCluster api x (s, k) = (s1, k1)" by fastforce
    from 2 have "n \<notin> ls_ClusterName ` set specs" "n \<noteq> ls_ClusterName x" "fold (updateManagedCluster api) specs (s1, k1) = (s', k')"
      "\<forall>spec \<in> set specs. distinct (map fst (ls_Labels spec))" "distinct (map ls_ClusterName specs)" "distinct (map fst (ls_Labels x))"
      by (simp_all add: x)
    with Cons.IH(2) [where n = n and s = s1 and k = k1] job_effect(2) [OF A _ x, of n] show ?case by simp }
qed

section \<open>From the table of the manager to the clusters of a hub\<close>

text \<open>The rows of the table, as a patch leaves them.\<close>

definition label_rows_ok :: "ManagedClusterLabel set \<Rightarrow> bool" where
  "label_rows_ok R \<longleftrightarrow> (\<forall>r \<in> R. \<forall>L D. ml_Labels r = Some L \<and> ml_DeletedLabelKeys r = Some D \<longrightarrow> disjoint_spec L D)"


text \<open>An API server that keeps its clusters in a list.\<close>

definition mem_api :: "managed_cluster list cluster_api" where
  "mem_api = \<lparr>ca_Get = (\<lambda>n k. case filter (\<lambda>c. mc_Name c = n) k of [] \<Rightarrow> ClusterNotFound | c # _ \<Rightarrow> ClusterFound c),
     ca_Update = (\<lambda>c k. (True, c # filter (\<lambda>x. mc_Name x \<noteq> mc_Name c) k))\<rparr>"

definition mem_view :: "managed_cluster list \<Rightarrow> string \<rightharpoonup> managed_cluster" where
  "mem_view k n = (case filter (\<lambda>c. mc_Name c = n) k of [] \<Rightarrow> None | c # _ \<Rightarrow> Some c)"

lemma mem_api_laws: "cluster_laws mem_api mem_view"
proof -
  have "filter (\<lambda>x. mc_Name x = n) (filter (\<lambda>x. mc_Name x \<noteq> mc_Name c) k) =
      (if n = mc_Name c then [] else filter (\<lambda>x. mc_Name x = n) k)" for n and c :: managed_cluster and k :: "managed_cluster list"
    by (induction k) auto
  then have upd: "mem_view (c # filter (\<lambda>x. mc_Name x \<noteq> mc_Name c) k) = (mem_view k)(mc_Name c \<mapsto> c)" for c k
    by (simp add: mem_view_def fun_eq_iff)
  have found: "mc_Name c = n" if "filter (\<lambda>c. mc_Name c = n) k = c # cs" for c cs n and k :: "managed_cluster list"
    using that by (auto simp: filter_eq_Cons_iff)
  have get: "ca_Get mem_api n k = (case mem_view k n of None \<Rightarrow> ClusterNotFound | Some c \<Rightarrow> ClusterFound c)" for n k
    by (simp add: mem_api_def mem_view_def split: list.splits)
  have name: "mc_Name c = n" if "mem_view k n = Some c" for n k c
    using that unfolding mem_view_def by (cases "filter (\<lambda>c. mc_Name c = n) k") (simp_all, metis found)
  have "ca_Update mem_api c k = (True, c # filter (\<lambda>x. mc_Name x \<noteq> mc_Name c) k)" for c k by (simp add: mem_api_def)
  then show ?thesis
    unfolding cluster_laws_def get using upd name by (auto split: option.splits)
qed

definition ex_clusters :: "managed_cluster list" where
  "ex_clusters = [\<lparr>mc_Name = ''c1'', mc_Labels = [(''old'', ''1''), (''a'', ''b'')], mc_ManagedFields = []\<rparr>]"

definition ex_label_syncer :: managedClusterLabelsBundleSyncer where
  "ex_label_syncer = \<lparr>cs_latestBundle = None, cs_managedClusterToTimestampMap = []\<rparr>"

lemma ex_label_sync:
  "syncManagedClusterLabelsBundles (mem_counted ml_ID) (\<lambda>_. True) 0 ex_label_rows =
     (Inr True, 10, [(''h1'', bundle_of ''h1'' ex_label_rows)])"
  by code_simp


section \<open>Trimming\<close>

text \<open>
  Trimming has no effect on the cluster. A row that the watcher writes has fewer keys to delete,
  and for a cluster whose labels are those that the status table has, the trimmed row gives the
  same labels as the row before; the row stays consistent, its version is raised and no row but
  those of this cluster and version changes.
\<close>

theorem trimming_keeps_effect:
  assumes "counted_laws T rows ml_ID" "trim_spec T status_labels now hub spec db = (ok, db')"
    and "status_labels hub (ls_ClusterName spec) = Some labelsStatus" "disjoint_spec (ls_Labels spec) (ls_DeletedLabelKeys spec)"
    and "r \<in> rows db" "ml_LeafHubName r = hub" "label_spec r = Some spec"
  shows "\<exists>r' \<in> rows db'. \<exists>spec'. label_spec r' = Some spec' \<and> ml_ID r' = ml_ID r \<and> ml_LeafHubName r' = hub \<and>
           ls_ClusterName spec' = ls_ClusterName spec \<and> ls_Version spec \<le> ls_Version spec' \<and>
           disjoint_spec (ls_Labels spec') (ls_DeletedLabelKeys spec') \<and>
           set (ls_DeletedLabelKeys spec') \<subseteq> set (ls_DeletedLabelKeys spec) \<and>
           overlay_of spec' (map_of labelsStatus) = overlay_of spec (map_of labelsStatus)"
proof -
  let ?still = "filter (\<lambda>key. map_of labelsStatus key \<noteq> None) (ls_DeletedLabelKeys spec)"
  let ?P = "\<lambda>s. ml_LeafHubName s = hub \<and> ml_ManagedClusterName s = ls_ClusterName spec \<and> ml_Version s = ls_Version spec"
  let ?f = "\<lambda>s. s\<lparr>ml_UpdatedAt := now, ml_DeletedLabelKeys := Some ?still, ml_Version := ls_Version spec + 1\<rparr>"
  have r: "?P r" "ml_Labels r = Some (ls_Labels spec)"
    using assms(6,7) by (auto simp: label_spec_def split: option.splits)
  consider (kept) "r \<in> rows db'" | (trimmed) "?f r \<in> rows db'"
  proof (cases "length ?still = length (ls_DeletedLabelKeys spec) \<or> tb_Update T ?P ?f db = None")
    case True
    with assms(2,3) have "db' = db" by (auto simp: trim_spec_def updateDeletedKeysToLabelTable_def Let_def split: if_splits)
    with assms(5) that show ?thesis by blast
  next
    case False
    then obtain db1 where u: "tb_Update T ?P ?f db = Some db1" by auto
    with False assms(2,3) have "db' = db1"
      by (auto simp: trim_spec_def updateDeletedKeysToLabelTable_def Let_def split: if_splits)
    with counted_table_laws(3) [OF assms(1) u] r assms(5) have "?f r \<in> rows db'" by auto
    with that show ?thesis by blast
  qed
  then show ?thesis
  proof cases
    case kept
    with assms(4,6,7) show ?thesis by (intro bexI [of _ r] exI [of _ spec]) auto
  next
    case trimmed
    let ?spec = "spec\<lparr>ls_DeletedLabelKeys := ?still, ls_UpdateTimestamp := now, ls_Version := ls_Version spec + 1\<rparr>"
    have "label_spec (?f r) = Some ?spec"
      using assms(7) r by (auto simp: label_spec_def split: option.splits)
    moreover have "overlay_of ?spec (map_of labelsStatus) = overlay_of spec (map_of labelsStatus)"
    proof -
      have "fst ` set (ls_Labels spec) \<inter> set (ls_DeletedLabelKeys spec) = {}" using assms(4) by (simp add: disjoint_spec_def)
      then have "map_of (ls_Labels spec) key = None" if "key \<in> set (ls_DeletedLabelKeys spec)" for key
        using that by (auto simp: map_of_eq_None_iff)
      then show ?thesis by (auto simp: overlay_of_def overlay_def restrict_map_def fun_eq_iff map_add_def)
    qed
    ultimately show ?thesis
      using trimmed assms(4,6) by (intro bexI [of _ "?f r"] exI [of _ ?spec]) (auto simp: disjoint_spec_def)
  qed
qed

theorem trimming_keeps_effect_witness:
  "\<exists>r' \<in> set (snd (trim_spec (mem_counted ml_ID) (\<lambda>_ _. Some []) 30 ''h1'' (the (label_spec (hd ex_label_rows))) ex_label_rows)). \<exists>spec'.
     label_spec r' = Some spec' \<and> ls_Version (the (label_spec (hd ex_label_rows))) \<le> ls_Version spec' \<and>
     overlay_of spec' Map.empty = overlay_of (the (label_spec (hd ex_label_rows))) Map.empty"
proof -
  let ?spec = "the (label_spec (hd ex_label_rows))"
  obtain ok db' where run: "trim_spec (mem_counted ml_ID) (\<lambda>_ _. Some []) 30 ''h1'' ?spec ex_label_rows = (ok, db')" by fastforce
  have "\<exists>r' \<in> set db'. \<exists>spec'. label_spec r' = Some spec' \<and> ml_ID r' = ml_ID (hd ex_label_rows) \<and> ml_LeafHubName r' = ''h1'' \<and>
           ls_ClusterName spec' = ls_ClusterName ?spec \<and> ls_Version ?spec \<le> ls_Version spec' \<and>
           disjoint_spec (ls_Labels spec') (ls_DeletedLabelKeys spec') \<and>
           set (ls_DeletedLabelKeys spec') \<subseteq> set (ls_DeletedLabelKeys ?spec) \<and>
           overlay_of spec' (map_of []) = overlay_of ?spec (map_of [])"
    by (rule trimming_keeps_effect [OF mem_counted_laws run]) (simp_all add: ex_label_rows_def label_spec_def disjoint_spec_def)
  with run show ?thesis by auto
qed

end
