(* ===== verification/HubManagement.thy ===== *)
theory HubManagement
  imports StatusHandlers Registration
begin

text \<open>
  \<^verbatim>\<open>manager/pkg/processes/hubmanagement/hub_management.go\<close>: a hub whose heartbeat is too old becomes inactive and
  its data is deleted; an inactive hub whose heartbeat is recent again is asked to send everything
  and becomes active.

  Five tables share one database, so the tables come together with views of their rows, and a
  statement on one table leaves the others as they are. A statement may fail at one attempt and
  succeed at the next: each attempt of a polling loop has its own tables. Times are integers.
\<close>

section \<open>Tables\<close>

record hub_heartbeat = LeafHubHeartbeat +
  hb_Status :: string

record ('j, 'db) hub_tables =
  ht_ManagedCluster :: "('j ManagedCluster, 'db) table"
  ht_LeafHub :: "('j LeafHub, 'db) table"
  ht_LocalSpecPolicy :: "('j LocalSpecPolicy, 'db) table"
  ht_LocalStatusCompliance :: "(ComplianceRow, 'db) table"
  ht_LeafHubHeartbeat :: "(hub_heartbeat, 'db) table"

record ('j, 'db) hub_views =
  hv_ManagedCluster :: "'db \<Rightarrow> 'j ManagedCluster set"
  hv_LeafHub :: "'db \<Rightarrow> 'j LeafHub set"
  hv_LocalSpecPolicy :: "'db \<Rightarrow> 'j LocalSpecPolicy set"
  hv_LocalStatusCompliance :: "'db \<Rightarrow> ComplianceRow set"
  hv_LeafHubHeartbeat :: "'db \<Rightarrow> hub_heartbeat set"

definition HubActive :: string where
  "HubActive = ''active''"

definition HubInactive :: string where
  "HubInactive = ''inactive''"

text \<open>\<^verbatim>\<open>ActiveTimeout\<close>, in seconds.\<close>

definition ActiveTimeout :: int where
  "ActiveTimeout = 5 * 60"

section \<open>Operations\<close>

definition cleanup :: "('j, 'db) hub_tables \<Rightarrow> string \<Rightarrow> 'db act" where
  "cleanup T hubName = transaction
     (and_then (exec (tb_Delete (ht_ManagedCluster T) (\<lambda>r. where_eq hubName (mc_LeafHubName r))))
     (and_then (exec (tb_Delete (ht_LeafHub T) (\<lambda>r. where_eq hubName (lh_LeafHubName r))))
     (and_then (exec (tb_Delete (ht_LocalSpecPolicy T) (\<lambda>r. where_eq hubName (lp_LeafHubName r))))
     (and_then (exec (tb_Delete (ht_LocalStatusCompliance T) (\<lambda>r. where_eq hubName (cr_LeafHubName r))))
        (exec (tb_Update (ht_LeafHubHeartbeat T) (\<lambda>r. hb_Name r = hubName) (\<lambda>r. r\<lparr>hb_Status := HubInactive\<rparr>)))))))"

text \<open>
  \<^verbatim>\<open>wait.PollUntilContextTimeout\<close>, where the condition never returns an error: the attempts are made one after the
  other until one succeeds, and the timeout is an error.
\<close>

fun poll :: "('t \<Rightarrow> 'a \<Rightarrow> bool \<times> 'a) \<Rightarrow> 't list \<Rightarrow> 'a \<Rightarrow> bool \<times> 'a" where
  "poll attempt [] s = (False, s)"
| "poll attempt (t # ts) s =
     (case attempt t s of (True, s1) \<Rightarrow> (True, s1) | (False, s1) \<Rightarrow> poll attempt ts s1)"

definition cleanup_attempt :: "string \<Rightarrow> ('j, 'db) hub_tables \<Rightarrow> 'db \<Rightarrow> bool \<times> 'db" where
  "cleanup_attempt hubName T db = (case cleanup T hubName db of (None, db1) \<Rightarrow> (True, db1) | (Some _, db1) \<Rightarrow> (False, db1))"

fun inactive :: "(string \<Rightarrow> ('j, 'db) hub_tables list) \<Rightarrow> hub_heartbeat list \<Rightarrow> 'db \<Rightarrow> bool \<times> 'db" where
  "inactive attempts [] db = (True, db)"
| "inactive attempts (hub # hubs) db =
     (case poll (cleanup_attempt (hb_Name hub)) (attempts (hb_Name hub)) db of
        (False, db1) \<Rightarrow> (False, db1)
      | (True, db1) \<Rightarrow> inactive attempts hubs db1)"

definition resyncResources :: "string list" where
  "resyncResources = map event_type [HubClusterInfoType, ManagedClusterType, LocalPolicySpecType, LocalComplianceType]"

definition utils_ToCloudEvent :: "string \<Rightarrow> string \<Rightarrow> string \<Rightarrow> 'd \<Rightarrow> 'd Event" where
  "utils_ToCloudEvent evtType source clusterName data =
     \<lparr>evt_Type = evtType, evt_Source = source, evt_ID = [], evt_Extensions = [''clustername'' \<mapsto> ExtString clusterName], evt_Data = data\<rparr>"

definition resync :: "(string list Event \<Rightarrow> bool) \<Rightarrow> string \<Rightarrow> bool \<times> string list Event list" where
  "resync SendEvent hubName =
     (let e = utils_ToCloudEvent ''Resync'' ''global-hub'' hubName resyncResources
      in if SendEvent e then (True, [e]) else (False, []))"

text \<open>An attempt to reactivate a hub has its own producer and tables; the state includes the events sent so far.\<close>

definition reactive_attempt ::
    "string \<Rightarrow> (string list Event \<Rightarrow> bool) \<times> ('j, 'db) hub_tables \<Rightarrow> 'db \<times> string list Event list \<Rightarrow> bool \<times> 'db \<times> string list Event list" where
  "reactive_attempt hubName st s =
     (let (SendEvent, T) = st; (db, sent) = s
      in case resync SendEvent hubName of
           (False, _) \<Rightarrow> (False, db, sent)
         | (True, e) \<Rightarrow>
             (case tb_Update (ht_LeafHubHeartbeat T) (\<lambda>r. hb_Name r = hubName) (\<lambda>r. r\<lparr>hb_Status := HubActive\<rparr>) db of
                None \<Rightarrow> (False, db, sent @ e)
              | Some db1 \<Rightarrow> (True, db1, sent @ e)))"

fun reactive ::
    "(string \<Rightarrow> ((string list Event \<Rightarrow> bool) \<times> ('j, 'db) hub_tables) list) \<Rightarrow> hub_heartbeat list
       \<Rightarrow> 'db \<times> string list Event list \<Rightarrow> bool \<times> 'db \<times> string list Event list" where
  "reactive attempts [] s = (True, s)"
| "reactive attempts (hub # hubs) s =
     (case poll (reactive_attempt (hb_Name hub)) (attempts (hb_Name hub)) s of
        (False, s1) \<Rightarrow> (False, s1)
      | (True, s1) \<Rightarrow> reactive attempts hubs s1)"

definition hub_update ::
    "('j, 'db) hub_tables \<Rightarrow> (string \<Rightarrow> ('j, 'db) hub_tables list)
       \<Rightarrow> (string \<Rightarrow> ((string list Event \<Rightarrow> bool) \<times> ('j, 'db) hub_tables) list) \<Rightarrow> int \<Rightarrow> int \<Rightarrow> 'db
       \<Rightarrow> bool \<times> 'db \<times> string list Event list" where
  "hub_update T inactive_attempts reactive_attempts activeTimeout now db =
     (let thresholdTime = now - activeTimeout
      in case tb_Find (ht_LeafHubHeartbeat T) (\<lambda>r. hb_LastUpdateAt r < thresholdTime \<and> hb_Status r = HubActive) db of
           None \<Rightarrow> (False, db, [])
         | Some expiredHubs \<Rightarrow>
             (case inactive inactive_attempts expiredHubs db of
                (False, db1) \<Rightarrow> (False, db1, [])
              | (True, db1) \<Rightarrow>
                  (case tb_Find (ht_LeafHubHeartbeat T) (\<lambda>r. thresholdTime < hb_LastUpdateAt r \<and> hb_Status r = HubInactive) db1 of
                     None \<Rightarrow> (False, db1, [])
                   | Some reactiveHubs \<Rightarrow> reactive reactive_attempts reactiveHubs (db1, []))))"

text \<open>\<^verbatim>\<open>Start\<close> begins with a resync of all hubs.\<close>

definition hub_Start :: "(string list Event \<Rightarrow> bool) \<Rightarrow> bool \<times> string list Event list" where
  "hub_Start SendEvent = resync SendEvent ''broadcast''"

section \<open>What the database promises\<close>

type_synonym 'j data_rows = "'j ManagedCluster set \<times> 'j LeafHub set \<times> 'j LocalSpecPolicy set \<times> ComplianceRow set"

definition data_view :: "('j, 'db) hub_views \<Rightarrow> 'db \<Rightarrow> 'j data_rows" where
  "data_view V db = (hv_ManagedCluster V db, hv_LeafHub V db, hv_LocalSpecPolicy V db, hv_LocalStatusCompliance V db)"

definition hub_laws :: "('j, 'db) hub_tables \<Rightarrow> ('j, 'db) hub_views \<Rightarrow> bool" where
  "hub_laws T V \<longleftrightarrow>
     (\<forall>P db db'. tb_Delete (ht_ManagedCluster T) P db = Some db' \<longrightarrow>
        data_view V db' = (let (c, h, p, s) = data_view V db in ({r \<in> c. \<not> P r}, h, p, s)) \<and> hv_LeafHubHeartbeat V db' = hv_LeafHubHeartbeat V db) \<and>
     (\<forall>P db db'. tb_Delete (ht_LeafHub T) P db = Some db' \<longrightarrow>
        data_view V db' = (let (c, h, p, s) = data_view V db in (c, {r \<in> h. \<not> P r}, p, s)) \<and> hv_LeafHubHeartbeat V db' = hv_LeafHubHeartbeat V db) \<and>
     (\<forall>P db db'. tb_Delete (ht_LocalSpecPolicy T) P db = Some db' \<longrightarrow>
        data_view V db' = (let (c, h, p, s) = data_view V db in (c, h, {r \<in> p. \<not> P r}, s)) \<and> hv_LeafHubHeartbeat V db' = hv_LeafHubHeartbeat V db) \<and>
     (\<forall>P db db'. tb_Delete (ht_LocalStatusCompliance T) P db = Some db' \<longrightarrow>
        data_view V db' = (let (c, h, p, s) = data_view V db in (c, h, p, {r \<in> s. \<not> P r})) \<and> hv_LeafHubHeartbeat V db' = hv_LeafHubHeartbeat V db) \<and>
     (\<forall>P f db db'. tb_Update (ht_LeafHubHeartbeat T) P f db = Some db' \<longrightarrow>
        data_view V db' = data_view V db \<and>
        hv_LeafHubHeartbeat V db' = (\<lambda>r. if P r then f r else r) ` hv_LeafHubHeartbeat V db) \<and>
     (\<forall>P db rs. tb_Find (ht_LeafHubHeartbeat T) P db = Some rs \<longrightarrow> set rs = {r \<in> hv_LeafHubHeartbeat V db. P r})"

text \<open>The data that is left when some hubs are removed.\<close>

definition without_hubs :: "string set \<Rightarrow> 'j data_rows \<Rightarrow> 'j data_rows" where
  "without_hubs H d =
     (let (c, h, p, s) = d
      in ({r \<in> c. mc_LeafHubName r \<notin> H}, {r \<in> h. lh_LeafHubName r \<notin> H}, {r \<in> p. lp_LeafHubName r \<notin> H}, {r \<in> s. cr_LeafHubName r \<notin> H}))"

definition set_status :: "string set \<Rightarrow> string \<Rightarrow> hub_heartbeat \<Rightarrow> hub_heartbeat" where
  "set_status H st r = (if hb_Name r \<in> H then r\<lparr>hb_Status := st\<rparr> else r)"

lemma without_hubs_insert: "without_hubs H (without_hubs {h} d) = without_hubs (insert h H) d"
  by (cases d) (auto simp: without_hubs_def)

lemma without_hubs_none [simp]: "without_hubs {} d = d"
  by (cases d) (simp add: without_hubs_def)

lemma set_status_insert: "set_status H st (set_status {h} st r) = set_status (insert h H) st r"
  by (auto simp: set_status_def)

lemma set_status_none [simp]: "set_status {} st r = r"
  by (simp add: set_status_def)

lemma cleanup_ok:
  assumes L: "hub_laws T V" and h: "h \<noteq> []" and run: "cleanup T h db = (None, db')"
  shows "data_view V db' = without_hubs {h} (data_view V db)"
    and "hv_LeafHubHeartbeat V db' = set_status {h} HubInactive ` hv_LeafHubHeartbeat V db"
proof -
  from run h obtain db1 db2 db3 db4 where
    d: "tb_Delete (ht_ManagedCluster T) (\<lambda>r. mc_LeafHubName r = h) db = Some db1"
       "tb_Delete (ht_LeafHub T) (\<lambda>r. lh_LeafHubName r = h) db1 = Some db2"
       "tb_Delete (ht_LocalSpecPolicy T) (\<lambda>r. lp_LeafHubName r = h) db2 = Some db3"
       "tb_Delete (ht_LocalStatusCompliance T) (\<lambda>r. cr_LeafHubName r = h) db3 = Some db4"
       "tb_Update (ht_LeafHubHeartbeat T) (\<lambda>r. hb_Name r = h) (\<lambda>r. r\<lparr>hb_Status := HubInactive\<rparr>) db4 = Some db'"
    by (auto simp: cleanup_def act_ok)
  note laws = L [unfolded hub_laws_def, THEN conjunct1, rule_format, OF d(1)]
    L [unfolded hub_laws_def, THEN conjunct2, THEN conjunct1, rule_format, OF d(2)]
    L [unfolded hub_laws_def, THEN conjunct2, THEN conjunct2, THEN conjunct1, rule_format, OF d(3)]
    L [unfolded hub_laws_def, THEN conjunct2, THEN conjunct2, THEN conjunct2, THEN conjunct1, rule_format, OF d(4)]
    L [unfolded hub_laws_def, THEN conjunct2, THEN conjunct2, THEN conjunct2, THEN conjunct2, THEN conjunct1, rule_format, OF d(5)]
  show "data_view V db' = without_hubs {h} (data_view V db)"
    using laws by (cases "data_view V db") (simp add: without_hubs_def)
  show "hv_LeafHubHeartbeat V db' = set_status {h} HubInactive ` hv_LeafHubHeartbeat V db"
    using laws by (simp add: set_status_def)
qed

lemma cleanup_error: "cleanup T h db = (Some e, db') \<Longrightarrow> db' = db"
  unfolding cleanup_def by (rule transaction_error)

lemma poll_cleanup:
  assumes "\<forall>T \<in> set ts. hub_laws T V" "h \<noteq> []" "poll (cleanup_attempt h) ts db = (ok, db')"
  shows "if ok then data_view V db' = without_hubs {h} (data_view V db) \<and>
                hv_LeafHubHeartbeat V db' = set_status {h} HubInactive ` hv_LeafHubHeartbeat V db
         else db' = db"
  using assms(1,3)
proof (induction ts)
  case Nil
  then show ?case by simp
next
  case (Cons T ts)
  show ?case
  proof (cases "cleanup T h db")
    case (Pair e db1)
    show ?thesis
    proof (cases e)
      case None
      with Pair Cons.prems cleanup_ok [of T V h db db1] assms(2) show ?thesis by (auto simp: cleanup_attempt_def)
    next
      case (Some x)
      with Pair have "db1 = db" using cleanup_error [of T h db x db1] by simp
      with Pair Some Cons show ?thesis by (simp add: cleanup_attempt_def)
    qed
  qed
qed

lemma inactive_ok:
  assumes "\<forall>h. \<forall>T \<in> set (attempts h). hub_laws T V" "[] \<notin> hb_Name ` set hubs" "inactive attempts hubs db = (True, db')"
  shows "data_view V db' = without_hubs (hb_Name ` set hubs) (data_view V db) \<and>
         hv_LeafHubHeartbeat V db' = set_status (hb_Name ` set hubs) HubInactive ` hv_LeafHubHeartbeat V db"
  using assms(2,3)
proof (induction hubs arbitrary: db)
  case Nil
  then show ?case by simp
next
  case (Cons hub hubs)
  from Cons.prems(2) obtain db1 where p: "poll (cleanup_attempt (hb_Name hub)) (attempts (hb_Name hub)) db = (True, db1)"
    and rest: "inactive attempts hubs db1 = (True, db')"
    by (auto split: prod.splits bool.splits)
  from poll_cleanup [OF _ _ p, of V] assms(1) Cons.prems(1)
  have one: "data_view V db1 = without_hubs {hb_Name hub} (data_view V db)"
    "hv_LeafHubHeartbeat V db1 = set_status {hb_Name hub} HubInactive ` hv_LeafHubHeartbeat V db"
    by (metis image_insert insertCI list.simps(15))+
  from Cons.IH [OF _ rest] Cons.prems(1) one show ?case
    by (simp add: without_hubs_insert set_status_insert image_image)
qed

definition resync_event :: "string \<Rightarrow> string list Event" where
  "resync_event h = utils_ToCloudEvent ''Resync'' ''global-hub'' h resyncResources"

lemma poll_reactive:
  assumes "\<forall>st \<in> set ts. hub_laws (snd st) V" "poll (reactive_attempt h) ts (db, sent) = (ok, db', sent')"
  shows "data_view V db' = data_view V db \<and> set sent \<subseteq> set sent' \<and> set sent' \<subseteq> insert (resync_event h) (set sent) \<and>
     (ok \<longrightarrow> hv_LeafHubHeartbeat V db' = set_status {h} HubActive ` hv_LeafHubHeartbeat V db \<and> resync_event h \<in> set sent')"
  using assms
proof (induction ts arbitrary: sent)
  case Nil
  then show ?case by auto
next
  case (Cons st ts)
  obtain SendEvent T where st: "st = (SendEvent, T)" by fastforce
  with Cons.prems(1) have L: "hub_laws T V" by simp
  have upd: "data_view V db1 = data_view V db \<and> hv_LeafHubHeartbeat V db1 = set_status {h} HubActive ` hv_LeafHubHeartbeat V db"
    if "tb_Update (ht_LeafHubHeartbeat T) (\<lambda>r. hb_Name r = h) (\<lambda>r. r\<lparr>hb_Status := HubActive\<rparr>) db = Some db1" for db1
    using L that by (simp add: hub_laws_def set_status_def)
  show ?case
  proof (cases "SendEvent (resync_event h)")
    case False
    then have "reactive_attempt h st (db, sent) = (False, db, sent)"
      by (simp add: st reactive_attempt_def resync_def resync_event_def Let_def)
    with Cons.prems have "poll (reactive_attempt h) ts (db, sent) = (ok, db', sent')" by simp
    from Cons.IH [OF _ this] Cons.prems(1) show ?thesis by auto
  next
    case sends: True
    show ?thesis
    proof (cases "tb_Update (ht_LeafHubHeartbeat T) (\<lambda>r. hb_Name r = h) (\<lambda>r. r\<lparr>hb_Status := HubActive\<rparr>) db")
      case None
      with sends have "reactive_attempt h st (db, sent) = (False, db, sent @ [resync_event h])"
        by (simp add: st reactive_attempt_def resync_def resync_event_def Let_def)
      with Cons.prems have "poll (reactive_attempt h) ts (db, sent @ [resync_event h]) = (ok, db', sent')" by simp
      from Cons.IH [OF _ this] Cons.prems(1) show ?thesis by auto
    next
      case (Some db1)
      with sends have "reactive_attempt h st (db, sent) = (True, db1, sent @ [resync_event h])"
        by (simp add: st reactive_attempt_def resync_def resync_event_def Let_def)
      with Cons.prems upd [OF Some] show ?thesis by auto
    qed
  qed
qed

lemma reactive_ok:
  assumes "\<forall>h. \<forall>st \<in> set (attempts h). hub_laws (snd st) V" "reactive attempts hubs (db, sent) = (True, db', sent')"
  shows "data_view V db' = data_view V db \<and> set sent' = resync_event ` hb_Name ` set hubs \<union> set sent \<and>
         hv_LeafHubHeartbeat V db' = set_status (hb_Name ` set hubs) HubActive ` hv_LeafHubHeartbeat V db"
  using assms(2)
proof (induction hubs arbitrary: db sent)
  case Nil
  then show ?case by simp
next
  case (Cons hub hubs)
  from Cons.prems obtain db1 sent1 where p: "poll (reactive_attempt (hb_Name hub)) (attempts (hb_Name hub)) (db, sent) = (True, db1, sent1)"
    and rest: "reactive attempts hubs (db1, sent1) = (True, db', sent')"
    by (auto split: prod.splits bool.splits)
  from poll_reactive [OF _ p, of V] assms(1)
  have one: "data_view V db1 = data_view V db" "set sent1 = insert (resync_event (hb_Name hub)) (set sent)"
    "hv_LeafHubHeartbeat V db1 = set_status {hb_Name hub} HubActive ` hv_LeafHubHeartbeat V db"
    by auto
  from Cons.IH [OF rest] one show ?case
    by (simp add: set_status_insert image_image)
qed

section \<open>Properties\<close>

definition expired :: "int \<Rightarrow> hub_heartbeat set \<Rightarrow> string set" where
  "expired threshold R = hb_Name ` {r \<in> R. hb_LastUpdateAt r < threshold \<and> hb_Status r = HubActive}"

definition returned :: "int \<Rightarrow> hub_heartbeat set \<Rightarrow> string set" where
  "returned threshold R = hb_Name ` {r \<in> R. threshold < hb_LastUpdateAt r \<and> hb_Status r = HubInactive}"

text \<open>
  C18: A round of the hub management that ends without an error: exactly the hubs that were active and
  whose heartbeat is too old lose their clusters, their hub information, their policies and their
  compliances and become inactive; exactly the inactive hubs whose heartbeat is recent become active,
  and to each of them, and to nobody else, a request to send everything again is sent. All other
  data and states stay as they are. Attempts that fail on the way leave no trace.
\<close>

theorem hub_status_follows_heartbeat:
  assumes "hub_laws T V" "\<forall>h. \<forall>t \<in> set (ia h). hub_laws t V" "\<forall>h. \<forall>st \<in> set (ra h). hub_laws (snd st) V"
    and "inj_on hb_Name (hv_LeafHubHeartbeat V db)" "[] \<notin> hb_Name ` hv_LeafHubHeartbeat V db"
    and "hub_update T ia ra timeout now db = (True, db', sent)"
  shows "let R = hv_LeafHubHeartbeat V db; gone = expired (now - timeout) R; back = returned (now - timeout) R
         in data_view V db' = without_hubs gone (data_view V db) \<and>
            hv_LeafHubHeartbeat V db' = (\<lambda>r. set_status back HubActive (set_status gone HubInactive r)) ` R \<and>
            set sent = resync_event ` back"
proof -
  let ?R = "hv_LeafHubHeartbeat V db" and ?t = "now - timeout"
  from assms(6) obtain eh db1 rh where e: "tb_Find (ht_LeafHubHeartbeat T) (\<lambda>r. hb_LastUpdateAt r < ?t \<and> hb_Status r = HubActive) db = Some eh"
    and i: "inactive ia eh db = (True, db1)"
    and f: "tb_Find (ht_LeafHubHeartbeat T) (\<lambda>r. ?t < hb_LastUpdateAt r \<and> hb_Status r = HubInactive) db1 = Some rh"
    and r: "reactive ra rh (db1, []) = (True, db', sent)"
    by (auto simp: hub_update_def Let_def split: option.splits prod.splits bool.splits)
  have find: "set rs = {r \<in> hv_LeafHubHeartbeat V d. P r}" if "tb_Find (ht_LeafHubHeartbeat T) P d = Some rs" for P d rs
    using assms(1) that by (simp add: hub_laws_def)
  have gone: "hb_Name ` set eh = expired ?t ?R" using find [OF e] by (simp add: expired_def)
  have "[] \<notin> hb_Name ` set eh" using find [OF e] assms(5) by auto
  note one = inactive_ok [OF assms(2) this i, unfolded gone]
  have returns: "hb_Name ` set rh = returned ?t ?R"
  proof -
    have "set rh = {r \<in> set_status (expired ?t ?R) HubInactive ` ?R. ?t < hb_LastUpdateAt r \<and> hb_Status r = HubInactive}"
      using find [OF f] one by simp
    also have "\<dots> = {r \<in> ?R. ?t < hb_LastUpdateAt r \<and> hb_Status r = HubInactive}"
    proof -
      have late: "hb_LastUpdateAt r < ?t" if "r \<in> ?R" "hb_Name r \<in> expired ?t ?R" for r
        using that assms(4) by (auto simp: expired_def inj_on_def)
      have "set_status (expired ?t ?R) HubInactive r = r" if "r \<in> ?R" "\<not> hb_LastUpdateAt r < ?t" for r
        using late that by (auto simp: set_status_def)
      moreover have "hb_LastUpdateAt (set_status H st r) = hb_LastUpdateAt r" for H st r by (simp add: set_status_def)
      ultimately show ?thesis by force
    qed
    finally show ?thesis by (simp add: returned_def)
  qed
  from reactive_ok [OF assms(3) r] one returns show ?thesis
    by (simp add: Let_def image_image)
qed

section \<open>A database in memory\<close>

text \<open>A table that is one part of a database.\<close>

definition part_table :: "('db \<Rightarrow> 'p) \<Rightarrow> ('p \<Rightarrow> 'db \<Rightarrow> 'db) \<Rightarrow> ('row, 'p) table \<Rightarrow> ('row, 'db) table" where
  "part_table get put T =
     \<lparr>tb_Find = (\<lambda>P db. tb_Find T P (get db)),
      tb_Upsert = (\<lambda>rs db. map_option (\<lambda>x. put x db) (tb_Upsert T rs (get db))),
      tb_InsertIgnore = (\<lambda>rs db. map_option (\<lambda>x. put x db) (tb_InsertIgnore T rs (get db))),
      tb_Insert = (\<lambda>r db. map_option (\<lambda>x. put x db) (tb_Insert T r (get db))),
      tb_Delete = (\<lambda>P db. map_option (\<lambda>x. put x db) (tb_Delete T P (get db))),
      tb_Update = (\<lambda>P f db. map_option (\<lambda>x. put x db) (tb_Update T P f (get db)))\<rparr>"

record mem_db =
  md_ManagedCluster :: "unit ManagedCluster list"
  md_LeafHub :: "unit LeafHub list"
  md_LocalSpecPolicy :: "unit LocalSpecPolicy list"
  md_LocalStatusCompliance :: "ComplianceRow list"
  md_LeafHubHeartbeat :: "hub_heartbeat list"

definition mem_tables :: "(unit, mem_db) hub_tables" where
  "mem_tables =
     \<lparr>ht_ManagedCluster = part_table md_ManagedCluster (\<lambda>x. md_ManagedCluster_update (\<lambda>_. x)) (mem_table mc_ClusterID),
      ht_LeafHub = part_table md_LeafHub (\<lambda>x. md_LeafHub_update (\<lambda>_. x)) (mem_table leaf_hub_key),
      ht_LocalSpecPolicy = part_table md_LocalSpecPolicy (\<lambda>x. md_LocalSpecPolicy_update (\<lambda>_. x)) (mem_table lp_PolicyID),
      ht_LocalStatusCompliance = part_table md_LocalStatusCompliance (\<lambda>x. md_LocalStatusCompliance_update (\<lambda>_. x)) (mem_table compliance_key),
      ht_LeafHubHeartbeat = part_table md_LeafHubHeartbeat (\<lambda>x. md_LeafHubHeartbeat_update (\<lambda>_. x)) (mem_table hb_Name)\<rparr>"

definition mem_views :: "(unit, mem_db) hub_views" where
  "mem_views = \<lparr>hv_ManagedCluster = set \<circ> md_ManagedCluster, hv_LeafHub = set \<circ> md_LeafHub, hv_LocalSpecPolicy = set \<circ> md_LocalSpecPolicy,
     hv_LocalStatusCompliance = set \<circ> md_LocalStatusCompliance, hv_LeafHubHeartbeat = set \<circ> md_LeafHubHeartbeat\<rparr>"

lemmas mem_defs = mem_tables_def mem_views_def part_table_def mem_table_def data_view_def

lemma mem_hub_laws: "hub_laws mem_tables mem_views"
  unfolding hub_laws_def by (intro conjI allI impI) (auto simp: mem_defs)

text \<open>The first attempt fails at its last statement.\<close>

definition flaky_tables :: "(unit, mem_db) hub_tables" where
  "flaky_tables = mem_tables\<lparr>ht_LeafHubHeartbeat := (ht_LeafHubHeartbeat mem_tables)\<lparr>tb_Update := (\<lambda>_ _ _. None)\<rparr>\<rparr>"

lemma flaky_hub_laws: "hub_laws flaky_tables mem_views"
  unfolding hub_laws_def by (intro conjI allI impI) (auto simp: flaky_tables_def mem_defs)

definition ex_hub_db :: mem_db where
  "ex_hub_db =
     \<lparr>md_ManagedCluster = [\<lparr>mc_LeafHubName = ''h1'', mc_ClusterID = ''c1'', mc_Payload = (), mc_Error = ''none''\<rparr>],
      md_LeafHub = [\<lparr>lh_LeafHubName = ''h1'', lh_ClusterID = ''x'', lh_Payload = ()\<rparr>, \<lparr>lh_LeafHubName = ''h2'', lh_ClusterID = ''y'', lh_Payload = ()\<rparr>],
      md_LocalSpecPolicy = [], md_LocalStatusCompliance = [],
      md_LeafHubHeartbeat = [\<lparr>hb_Name = ''h1'', hb_LastUpdateAt = 100, hb_Status = HubActive\<rparr>,
        \<lparr>hb_Name = ''h2'', hb_LastUpdateAt = 900, hb_Status = HubInactive\<rparr>]\<rparr>"

lemma ex_hub_run:
  "hub_update mem_tables (\<lambda>_. [flaky_tables, mem_tables]) (\<lambda>_. [((\<lambda>_. True), mem_tables)]) ActiveTimeout 1000 ex_hub_db =
     (True, ex_hub_db\<lparr>md_ManagedCluster := [], md_LeafHub := tl (md_LeafHub ex_hub_db),
        md_LeafHubHeartbeat := [\<lparr>hb_Name = ''h1'', hb_LastUpdateAt = 100, hb_Status = HubInactive\<rparr>,
          \<lparr>hb_Name = ''h2'', hb_LastUpdateAt = 900, hb_Status = HubActive\<rparr>]\<rparr>, [resync_event ''h2''])"
  by (simp add: hub_update_def ActiveTimeout_def ex_hub_db_def flaky_tables_def mem_defs HubActive_def HubInactive_def
      cleanup_attempt_def cleanup_def transaction_def and_then_def exec_def reactive_attempt_def resync_def resync_event_def)

theorem hub_status_follows_heartbeat_witness:
  "let db' = fst (snd (hub_update mem_tables (\<lambda>_. [flaky_tables, mem_tables]) (\<lambda>_. [((\<lambda>_. True), mem_tables)]) ActiveTimeout 1000 ex_hub_db))
   in data_view mem_views db' = without_hubs (expired 700 (set (md_LeafHubHeartbeat ex_hub_db))) (data_view mem_views ex_hub_db)"
proof -
  have inj: "inj_on hb_Name (hv_LeafHubHeartbeat mem_views ex_hub_db)" "[] \<notin> hb_Name ` hv_LeafHubHeartbeat mem_views ex_hub_db"
    by (simp_all add: mem_views_def ex_hub_db_def)
  have laws: "\<forall>h :: string. \<forall>t \<in> set [flaky_tables, mem_tables]. hub_laws t mem_views"
    "\<forall>h :: string. \<forall>st \<in> set [((\<lambda>_. True), mem_tables)]. hub_laws (snd st) mem_views"
    using mem_hub_laws flaky_hub_laws by simp_all
  from hub_status_follows_heartbeat [OF mem_hub_laws laws inj ex_hub_run]
  show ?thesis unfolding ex_hub_run by (simp add: Let_def mem_views_def ActiveTimeout_def)
qed

end
