(* ===== verification/Retention.thy ===== *)
theory Retention
  imports HubManagement
begin

text \<open>
  \<^verbatim>\<open>manager/pkg/processes/cronjob/task/data_retention.go\<close>: the job that creates the partitions of the next month, drops those
  that are too old and removes records that were deleted softly long ago.

  A month is the number of months since the year 0, so \<^verbatim>\<open>AddDate(0, n, 0)\<close> on the first day of a month adds
  \<open>n\<close>. A time is its month with the rest of the time, and is before the first day of a month if its
  month is smaller. The SQL statements are parameters.
\<close>

section \<open>Names of partitions\<close>

definition RetentionTables :: "string list" where
  "RetentionTables = [''status.managed_clusters'', ''status.leaf_hubs'', ''local_spec.policies'']"

definition PartitionTables :: "string list" where
  "PartitionTables = [''event.local_policies'', ''event.local_root_policies'', ''history.local_compliance'', ''event.managed_clusters'']"

definition pad :: "nat \<Rightarrow> string \<Rightarrow> string" where
  "pad n s = replicate (n - length s) CHR ''0'' @ s"

text \<open>The layout \<^verbatim>\<open>2006_01\<close>.\<close>

definition month_Format :: "int \<Rightarrow> string" where
  "month_Format m = pad 4 (dec (nat (m div 12))) @ ''_'' @ pad 2 (dec (nat (m mod 12) + 1))"

definition partition_name :: "string \<Rightarrow> int \<Rightarrow> string" where
  "partition_name tableName m = tableName @ ''_'' @ month_Format m"

section \<open>The job\<close>

type_synonym timestamp = "int \<times> nat"

record retention_log =
  rl_Name :: string
  rl_StartAt :: int
  rl_MinPartition :: string
  rl_MaxPartition :: string
  rl_MinDeletion :: "timestamp option"
  rl_Error :: bool

record 'db retention_ops =
  ro_CreatePartition :: "string \<Rightarrow> string \<Rightarrow> int \<Rightarrow> int \<Rightarrow> 'db \<Rightarrow> 'db option"
  ro_DropTable :: "string \<Rightarrow> 'db \<Rightarrow> 'db option"
  ro_DeleteBefore :: "string \<Rightarrow> int \<Rightarrow> 'db \<Rightarrow> 'db option"
  ro_PartitionNames :: "string \<Rightarrow> 'db \<Rightarrow> string list option"
  ro_MinDeletion :: "string \<Rightarrow> 'db \<Rightarrow> timestamp option option"
  ro_Log :: "retention_log \<Rightarrow> 'db \<Rightarrow> 'db option"
  ro_DeleteHeartbeats :: "int \<Rightarrow> 'db \<Rightarrow> 'db option"

definition updatePartitionTables :: "'db retention_ops \<Rightarrow> string \<Rightarrow> int \<Rightarrow> int \<Rightarrow> 'db act" where
  "updatePartitionTables R tableName createTime deleteTime =
     and_then (exec (ro_CreatePartition R (partition_name tableName createTime) tableName createTime (createTime + 1)))
              (exec (ro_DropTable R (partition_name tableName deleteTime)))"

definition deleteExpiredRecords :: "'db retention_ops \<Rightarrow> string \<Rightarrow> int \<Rightarrow> 'db act" where
  "deleteExpiredRecords R tableName minDate = exec (ro_DeleteBefore R tableName minDate)"

text \<open>A name without exactly one dot is refused; the names come back in ascending order.\<close>

definition getMinMaxPartitions :: "'db retention_ops \<Rightarrow> string \<Rightarrow> 'db \<Rightarrow> (string \<times> string) option" where
  "getMinMaxPartitions R tableName db =
     (if length (split_on CHR ''.'' tableName) \<noteq> 2 then None
      else case ro_PartitionNames R tableName db of
             None \<Rightarrow> None
           | Some [] \<Rightarrow> Some ([], [])
           | Some tables \<Rightarrow> Some (hd tables, last tables))"

definition traceDataRetentionLog :: "'db retention_ops \<Rightarrow> string \<Rightarrow> int \<Rightarrow> bool \<Rightarrow> bool \<Rightarrow> 'db act" where
  "traceDataRetentionLog R tableName startTime failed is_partition db =
     (let entry = \<lparr>rl_Name = tableName, rl_StartAt = startTime, rl_MinPartition = [], rl_MaxPartition = [], rl_MinDeletion = None, rl_Error = failed\<rparr>
      in if is_partition then
           (case getMinMaxPartitions R tableName db of
              None \<Rightarrow> (Some DbError, db)
            | Some (minPartition, maxPartition) \<Rightarrow>
                exec (ro_Log R (entry\<lparr>rl_MinPartition := minPartition, rl_MaxPartition := maxPartition\<rparr>)) db)
         else
           exec (ro_Log R (case ro_MinDeletion R tableName db of Some (Some t) \<Rightarrow> entry\<lparr>rl_MinDeletion := Some t\<rparr> | _ \<Rightarrow> entry)) db)"

text \<open>A step of the job on one table: an error of the log entry is not an error of the job.\<close>

definition traced :: "'db retention_ops \<Rightarrow> int \<Rightarrow> bool \<Rightarrow> (string \<Rightarrow> 'db act) \<Rightarrow> string \<Rightarrow> 'db act" where
  "traced R currentMonth is_partition work tableName db =
     (let (err, db1) = work tableName db;
          (_, db2) = traceDataRetentionLog R tableName currentMonth (err \<noteq> None) is_partition db1
      in (err, db2))"

text \<open>The result says whether the job failed, which the gauge of the job shows; a failed lock leaves the gauge alone.\<close>

definition DataRetention :: "'db retention_ops \<Rightarrow> int \<Rightarrow> int \<Rightarrow> bool \<Rightarrow> 'db act" where
  "DataRetention R currentMonth retentionMonth locked db =
     (if \<not> locked then (Some DbError, db)
      else
        let createMonth = currentMonth + 1;
            deleteMonth = currentMonth - (retentionMonth + 1);
            minTime = currentMonth - retentionMonth
        in and_then (for_each (traced R currentMonth True (\<lambda>t. updatePartitionTables R t createMonth deleteMonth)) PartitionTables)
          (and_then (for_each (traced R currentMonth False (\<lambda>t. deleteExpiredRecords R t minTime)) RetentionTables)
            (exec (ro_DeleteHeartbeats R minTime))) db)"

section \<open>What the database promises\<close>

text \<open>
  The names of the existing partitions, the deletion times of the records of a table (\<^const>\<open>None\<close> for
  a live record), and the heartbeats. The statements change only what they name.
\<close>

record 'db retention_view =
  rv_partitions :: "'db \<Rightarrow> string set"
  rv_records :: "'db \<Rightarrow> string \<Rightarrow> (string \<times> timestamp option) set"
  rv_heartbeats :: "'db \<Rightarrow> (timestamp \<times> string) set"

definition expired_record :: "int \<Rightarrow> string \<times> timestamp option \<Rightarrow> bool" where
  "expired_record m r = (case snd r of None \<Rightarrow> False | Some t \<Rightarrow> fst t < m)"

definition retention_laws :: "'db retention_ops \<Rightarrow> 'db retention_view \<Rightarrow> bool" where
  "retention_laws R V \<longleftrightarrow>
     (\<forall>n t a b db db'. ro_CreatePartition R n t a b db = Some db' \<longrightarrow>
        rv_partitions V db' = insert n (rv_partitions V db) \<and> rv_records V db' = rv_records V db \<and> rv_heartbeats V db' = rv_heartbeats V db) \<and>
     (\<forall>n db db'. ro_DropTable R n db = Some db' \<longrightarrow>
        rv_partitions V db' = rv_partitions V db - {n} \<and> rv_records V db' = rv_records V db \<and> rv_heartbeats V db' = rv_heartbeats V db) \<and>
     (\<forall>t m db db'. ro_DeleteBefore R t m db = Some db' \<longrightarrow>
        rv_partitions V db' = rv_partitions V db \<and>
        rv_records V db' = (rv_records V db)(t := {r \<in> rv_records V db t. \<not> expired_record m r}) \<and> rv_heartbeats V db' = rv_heartbeats V db) \<and>
     (\<forall>l db db'. ro_Log R l db = Some db' \<longrightarrow>
        rv_partitions V db' = rv_partitions V db \<and> rv_records V db' = rv_records V db \<and> rv_heartbeats V db' = rv_heartbeats V db) \<and>
     (\<forall>m db db'. ro_DeleteHeartbeats R m db = Some db' \<longrightarrow>
        rv_partitions V db' = rv_partitions V db \<and> rv_records V db' = rv_records V db \<and>
        rv_heartbeats V db' = {h \<in> rv_heartbeats V db. \<not> (fst (fst h) < m \<and> snd h = HubInactive)})"

abbreviation same_view :: "'db retention_view \<Rightarrow> 'db \<Rightarrow> 'db \<Rightarrow> bool" where
  "same_view V db db' \<equiv> rv_partitions V db' = rv_partitions V db \<and> rv_records V db' = rv_records V db \<and> rv_heartbeats V db' = rv_heartbeats V db"

lemma retention_law:
  assumes "retention_laws R V"
  shows "ro_CreatePartition R n t a b db = Some db' \<Longrightarrow>
      rv_partitions V db' = insert n (rv_partitions V db) \<and> rv_records V db' = rv_records V db \<and> rv_heartbeats V db' = rv_heartbeats V db"
    and "ro_DropTable R n db = Some db' \<Longrightarrow>
      rv_partitions V db' = rv_partitions V db - {n} \<and> rv_records V db' = rv_records V db \<and> rv_heartbeats V db' = rv_heartbeats V db"
    and "ro_DeleteBefore R t m db = Some db' \<Longrightarrow> rv_partitions V db' = rv_partitions V db \<and>
        rv_records V db' = (rv_records V db)(t := {r \<in> rv_records V db t. \<not> expired_record m r}) \<and> rv_heartbeats V db' = rv_heartbeats V db"
    and "ro_Log R l db = Some db' \<Longrightarrow> same_view V db db'"
    and "ro_DeleteHeartbeats R m db = Some db' \<Longrightarrow> rv_partitions V db' = rv_partitions V db \<and> rv_records V db' = rv_records V db \<and>
        rv_heartbeats V db' = {h \<in> rv_heartbeats V db. \<not> (fst (fst h) < m \<and> snd h = HubInactive)}"
proof -
  note L = assms [unfolded retention_laws_def]
  note L1 = L [THEN conjunct1] and R1 = L [THEN conjunct2]
  note L2 = R1 [THEN conjunct1] and R2 = R1 [THEN conjunct2]
  note L3 = R2 [THEN conjunct1] and R3 = R2 [THEN conjunct2]
  note laws = L1 L2 L3 R3 [THEN conjunct1] R3 [THEN conjunct2]
  show "ro_CreatePartition R n t a b db = Some db' \<Longrightarrow>
      rv_partitions V db' = insert n (rv_partitions V db) \<and> rv_records V db' = rv_records V db \<and> rv_heartbeats V db' = rv_heartbeats V db"
    by (rule laws(1) [rule_format])
  show "ro_DropTable R n db = Some db' \<Longrightarrow>
      rv_partitions V db' = rv_partitions V db - {n} \<and> rv_records V db' = rv_records V db \<and> rv_heartbeats V db' = rv_heartbeats V db"
    by (rule laws(2) [rule_format])
  show "ro_DeleteBefore R t m db = Some db' \<Longrightarrow> rv_partitions V db' = rv_partitions V db \<and>
        rv_records V db' = (rv_records V db)(t := {r \<in> rv_records V db t. \<not> expired_record m r}) \<and> rv_heartbeats V db' = rv_heartbeats V db"
    by (rule laws(3) [rule_format])
  show "ro_Log R l db = Some db' \<Longrightarrow> same_view V db db'"
    by (rule laws(4) [rule_format])
  show "ro_DeleteHeartbeats R m db = Some db' \<Longrightarrow> rv_partitions V db' = rv_partitions V db \<and> rv_records V db' = rv_records V db \<and>
        rv_heartbeats V db' = {h \<in> rv_heartbeats V db. \<not> (fst (fst h) < m \<and> snd h = HubInactive)}"
    by (rule laws(5) [rule_format])
qed

lemma exec_log:
  assumes "retention_laws R V" "exec (ro_Log R l) db = (err, db')"
  shows "same_view V db db'"
proof (cases "ro_Log R l db")
  case None
  with assms(2) have "db' = db" by (simp add: exec_def)
  then show ?thesis by simp
next
  case (Some db1)
  with assms(2) have "db' = db1" by (simp add: exec_def)
  with retention_law(4) [OF assms(1) Some] show ?thesis by simp
qed

lemma trace_same_view:
  assumes "retention_laws R V" "traceDataRetentionLog R t m failed p db = (err, db')"
  shows "same_view V db db'"
  using assms(2) exec_log [OF assms(1)]
  by (auto simp: traceDataRetentionLog_def Let_def split: if_splits option.splits prod.splits)

lemma traced_ok:
  assumes "retention_laws R V" "traced R m p work t db = (None, db')"
  obtains db1 where "work t db = (None, db1)" "same_view V db1 db'"
  using assms trace_same_view [OF assms(1)] by (auto simp: traced_def Let_def split: prod.splits)

text \<open>The two loops.\<close>

lemma partitions_loop:
  assumes L: "retention_laws R V"
    and "for_each (traced R m True (\<lambda>t. updatePartitionTables R t c d)) ts db = (None, db')"
    and "\<forall>t \<in> set ts. \<forall>u \<in> set ts. partition_name t c \<noteq> partition_name u d"
  shows "rv_partitions V db' = (rv_partitions V db \<union> (\<lambda>t. partition_name t c) ` set ts) - (\<lambda>t. partition_name t d) ` set ts \<and>
     rv_records V db' = rv_records V db \<and> rv_heartbeats V db' = rv_heartbeats V db"
  using assms(2,3)
proof (induction ts arbitrary: db)
  case Nil
  then show ?case by simp
next
  case (Cons t ts)
  from Cons.prems(1) obtain db1 where t: "traced R m True (\<lambda>t. updatePartitionTables R t c d) t db = (None, db1)"
    and rest: "for_each (traced R m True (\<lambda>t. updatePartitionTables R t c d)) ts db1 = (None, db')" by (auto simp: act_ok)
  from traced_ok [OF L t] obtain db2 where w: "updatePartitionTables R t c d db = (None, db2)" and v: "same_view V db2 db1" .
  from w obtain db3 where cr: "ro_CreatePartition R (partition_name t c) t c (c + 1) db = Some db3"
    and dr: "ro_DropTable R (partition_name t d) db3 = Some db2" by (auto simp: updatePartitionTables_def act_ok)
  from retention_law(1) [OF L cr] retention_law(2) [OF L dr] v have one: "rv_partitions V db1 = insert (partition_name t c) (rv_partitions V db) - {partition_name t d}"
    "rv_records V db1 = rv_records V db" "rv_heartbeats V db1 = rv_heartbeats V db" by simp_all
  from Cons.prems(2) have "partition_name t c \<notin> (\<lambda>t. partition_name t d) ` set (t # ts)"
    "\<forall>u \<in> set ts. partition_name u c \<noteq> partition_name t d" by auto
  with Cons.IH [OF rest] Cons.prems(2) one show ?case by auto
qed

lemma records_loop:
  assumes L: "retention_laws R V" and "distinct ts"
    and "for_each (traced R m False (\<lambda>t. deleteExpiredRecords R t c)) ts db = (None, db')"
  shows "rv_partitions V db' = rv_partitions V db \<and> rv_heartbeats V db' = rv_heartbeats V db \<and>
     rv_records V db' = (\<lambda>t. if t \<in> set ts then {r \<in> rv_records V db t. \<not> expired_record c r} else rv_records V db t)"
  using assms(2,3)
proof (induction ts arbitrary: db)
  case Nil
  then show ?case by simp
next
  case (Cons t ts)
  from Cons.prems(2) obtain db1 where t: "traced R m False (\<lambda>t. deleteExpiredRecords R t c) t db = (None, db1)"
    and rest: "for_each (traced R m False (\<lambda>t. deleteExpiredRecords R t c)) ts db1 = (None, db')" by (auto simp: act_ok)
  from traced_ok [OF L t] obtain db2 where w: "deleteExpiredRecords R t c db = (None, db2)" and v: "same_view V db2 db1" .
  from w have del: "ro_DeleteBefore R t c db = Some db2" by (simp add: deleteExpiredRecords_def act_ok)
  from retention_law(3) [OF L del] v have one: "rv_partitions V db1 = rv_partitions V db" "rv_heartbeats V db1 = rv_heartbeats V db"
    "rv_records V db1 = (rv_records V db)(t := {r \<in> rv_records V db t. \<not> expired_record c r})" by simp_all
  from Cons.IH [OF _ rest] Cons.prems(1) one show ?case by (auto simp: fun_eq_iff)
qed

section \<open>Partition names do not clash\<close>

lemma parse_zeros: "parse_digits mx 0 (replicate k CHR ''0'' @ s) = parse_digits mx 0 s"
proof -
  have "digit_val CHR ''0'' = Some 0" by code_simp
  then show ?thesis by (induction k) simp_all
qed

lemma pad_inject: "pad n (dec a) = pad n (dec b) \<Longrightarrow> a = b"
proof -
  assume eq: "pad n (dec a) = pad n (dec b)"
  have "parse_digits (a + b) 0 (pad n (dec a)) = Inr a" "parse_digits (a + b) 0 (pad n (dec b)) = Inr b"
    by (simp_all add: pad_def parse_zeros parse_digits_dec)
  with eq show "a = b" by (metis sum.inject(2))
qed

lemma dec_length: "n < 10 ^ k \<Longrightarrow> 0 < k \<Longrightarrow> length (dec n) \<le> k"
proof (induction k arbitrary: n)
  case 0
  then show ?case by simp
next
  case (Suc k)
  show ?case
  proof (cases "n < 10")
    case True
    then show ?thesis by (simp add: dec.simps [of n])
  next
    case False
    with Suc.prems have "n div 10 < 10 ^ k" "0 < k" by (auto simp: less_mult_imp_div_less) (cases k; auto)
    with Suc.IH [of "n div 10"] False show ?thesis by (simp add: dec.simps [of n])
  qed
qed

lemma pad_length: "length s \<le> n \<Longrightarrow> length (pad n s) = n"
  by (simp add: pad_def)

definition month_ok :: "int \<Rightarrow> bool" where
  "month_ok m \<longleftrightarrow> 0 \<le> m \<and> m < 120000"

lemma month_parts:
  assumes "month_ok m"
  shows "length (pad 4 (dec (nat (m div 12)))) = 4" "length (pad 2 (dec (nat (m mod 12) + 1))) = 2"
proof -
  have "0 \<le> m div 12" "m div 12 < 10000" using assms unfolding month_ok_def by presburger+
  then have "nat (m div 12) < 10 ^ 4" by (simp add: nat_less_iff)
  then show "length (pad 4 (dec (nat (m div 12)))) = 4" by (intro pad_length dec_length) simp_all
  have "nat (m mod 12) + 1 < 10 ^ 2" by (simp add: nat_less_iff)
  then show "length (pad 2 (dec (nat (m mod 12) + 1))) = 2" by (intro pad_length dec_length) simp_all
qed

lemma partition_name_inject:
  assumes "month_ok m" "month_ok m'" "partition_name t m = partition_name t' m'"
  shows "t = t' \<and> m = m'"
proof -
  note a = month_parts [OF assms(1)] and b = month_parts [OF assms(2)]
  have "length (month_Format m) = length (month_Format m')" using a b by (simp add: month_Format_def)
  then have "length (''_'' @ month_Format m) = length (''_'' @ month_Format m')" by simp
  from assms(3) [unfolded partition_name_def, unfolded append_eq_append_conv [OF disjI2 [OF this]]]
  have t: "t = t'" and f: "month_Format m = month_Format m'" by simp_all
  from a b have len: "length (pad 4 (dec (nat (m div 12)))) = length (pad 4 (dec (nat (m' div 12))))" by simp
  from f [unfolded month_Format_def, unfolded append_eq_append_conv [OF disjI1 [OF len]]]
  have eq: "pad 4 (dec (nat (m div 12))) = pad 4 (dec (nat (m' div 12)))"
    "pad 2 (dec (nat (m mod 12) + 1)) = pad 2 (dec (nat (m' mod 12) + 1))" by simp_all
  have d: "nat (m div 12) = nat (m' div 12)" by (rule pad_inject [OF eq(1)])
  have "nat (m mod 12) + 1 = nat (m' mod 12) + 1" by (rule pad_inject [OF eq(2)])
  then have e: "nat (m mod 12) = nat (m' mod 12)" by (rule add_right_imp_eq)
  have "0 \<le> m div 12" "0 \<le> m' div 12" using assms(1,2) unfolding month_ok_def by presburger+
  then have "m div 12 = m' div 12" using d by (rule eq_nat_nat_iff [THEN iffD1])
  moreover have "0 \<le> m mod 12" "0 \<le> m' mod 12" by simp_all
  then have "m mod 12 = m' mod 12" using e by (rule eq_nat_nat_iff [THEN iffD1])
  ultimately have "m = m'" by (metis div_mult_mod_eq)
  with t show ?thesis by simp
qed

section \<open>Properties\<close>

definition retention_window :: "int \<Rightarrow> int \<Rightarrow> string set" where
  "retention_window r m = {partition_name t j | t j. t \<in> set PartitionTables \<and> m - r \<le> j \<and> j \<le> m + 1}"

lemma DataRetention_ok:
  assumes "retention_laws R V" "0 \<le> r" "month_ok (m + 1)" "month_ok (m - (r + 1))" "DataRetention R m r locked db = (None, db')"
  shows "rv_partitions V db' = (rv_partitions V db \<union> (\<lambda>t. partition_name t (m + 1)) ` set PartitionTables) -
           (\<lambda>t. partition_name t (m - (r + 1))) ` set PartitionTables"
    and "rv_records V db' = (\<lambda>t. if t \<in> set RetentionTables then {x \<in> rv_records V db t. \<not> expired_record (m - r) x} else rv_records V db t)"
    and "rv_heartbeats V db' = {h \<in> rv_heartbeats V db. \<not> (fst (fst h) < m - r \<and> snd h = HubInactive)}"
proof -
  from assms(5) obtain db1 db2 where
    p: "for_each (traced R m True (\<lambda>t. updatePartitionTables R t (m + 1) (m - (r + 1)))) PartitionTables db = (None, db1)"
    and q: "for_each (traced R m False (\<lambda>t. deleteExpiredRecords R t (m - r))) RetentionTables db1 = (None, db2)"
    and h: "ro_DeleteHeartbeats R (m - r) db2 = Some db'"
    by (auto simp: DataRetention_def act_ok Let_def split: if_splits)
  have "partition_name t (m + 1) \<noteq> partition_name u (m - (r + 1))" for t u
    using partition_name_inject [OF assms(3,4), of t u] assms(2) by auto
  with partitions_loop [OF assms(1) p] have one: "rv_partitions V db1 = (rv_partitions V db \<union> (\<lambda>t. partition_name t (m + 1)) ` set PartitionTables) -
       (\<lambda>t. partition_name t (m - (r + 1))) ` set PartitionTables"
    "rv_records V db1 = rv_records V db" "rv_heartbeats V db1 = rv_heartbeats V db" by simp_all
  have "distinct RetentionTables" by (simp add: RetentionTables_def)
  note two = records_loop [OF assms(1) this q] and three = retention_law(5) [OF assms(1) h]
  show "rv_partitions V db' = (rv_partitions V db \<union> (\<lambda>t. partition_name t (m + 1)) ` set PartitionTables) -
           (\<lambda>t. partition_name t (m - (r + 1))) ` set PartitionTables"
    using two three unfolding one(1) by simp
  show "rv_records V db' = (\<lambda>t. if t \<in> set RetentionTables then {x \<in> rv_records V db t. \<not> expired_record (m - r) x} else rv_records V db t)"
    using two three unfolding one(2) by simp
  show "rv_heartbeats V db' = {h \<in> rv_heartbeats V db. \<not> (fst (fst h) < m - r \<and> snd h = HubInactive)}"
    using two three unfolding one(3) by simp
qed

lemma window_step:
  assumes "0 \<le> r" "month_ok (m + 1)" "month_ok (m - (r + 1))"
  shows "(retention_window r (m - 1) \<union> (\<lambda>t. partition_name t (m + 1)) ` set PartitionTables) -
           (\<lambda>t. partition_name t (m - (r + 1))) ` set PartitionTables = retention_window r m"
proof (intro equalityI subsetI)
  fix n assume n: "n \<in> (retention_window r (m - 1) \<union> (\<lambda>t. partition_name t (m + 1)) ` set PartitionTables) -
           (\<lambda>t. partition_name t (m - (r + 1))) ` set PartitionTables"
  then obtain t j where t: "n = partition_name t j" "t \<in> set PartitionTables" "m - 1 - r \<le> j" "j \<le> m + 1"
    using assms(1) by (auto simp: retention_window_def)
  with n have "j \<noteq> m - (r + 1)" by auto
  with t show "n \<in> retention_window r m" unfolding retention_window_def by (intro CollectI exI [of _ t] exI [of _ j]) auto
next
  fix n assume "n \<in> retention_window r m"
  then obtain t j where t: "n = partition_name t j" "t \<in> set PartitionTables" "m - r \<le> j" "j \<le> m + 1"
    by (auto simp: retention_window_def)
  have "month_ok j" using assms t(3,4) by (auto simp: month_ok_def)
  from partition_name_inject [OF this assms(3), of t] t have "n \<notin> (\<lambda>t. partition_name t (m - (r + 1))) ` set PartitionTables"
    by auto
  moreover have "n \<in> retention_window r (m - 1) \<union> (\<lambda>t. partition_name t (m + 1)) ` set PartitionTables"
  proof (cases "j = m + 1")
    case True
    with t show ?thesis by auto
  next
    case False
    with t have "n \<in> retention_window r (m - 1)" unfolding retention_window_def
      by (intro CollectI exI [of _ t] exI [of _ j]) auto
    then show ?thesis by simp
  qed
  ultimately show "n \<in> (retention_window r (m - 1) \<union> (\<lambda>t. partition_name t (m + 1)) ` set PartitionTables) -
           (\<lambda>t. partition_name t (m - (r + 1))) ` set PartitionTables" by simp
qed

text \<open>One successful run in each of \<open>n\<close> months from month \<open>m\<close> on.\<close>

definition monthly :: "'db retention_ops \<Rightarrow> int \<Rightarrow> int \<Rightarrow> nat \<Rightarrow> 'db act" where
  "monthly R r m n = for_each (\<lambda>i. DataRetention R (m + int i) r True) [0..<n]"

text \<open>
  C20: When the job succeeds in every month, each partitioned table has exactly the partitions of the
  retained months, the current one and the next one; after a run no record that was deleted
  softly before the retained months is left, and no record that is not deleted is removed. Names of
  partitions never clash, so dropping one drops no other; the years are those below 10000.
\<close>

theorem retention_keeps_window:
  assumes "retention_laws R V" "0 \<le> r" "month_ok (m - (r + 1))" "month_ok (m + int n)"
    and "rv_partitions V db = retention_window r (m - 1)" "monthly R r m n db = (None, db')" "0 < n"
  shows "rv_partitions V db' = retention_window r (m + int n - 1) \<and>
     (\<forall>t \<in> set RetentionTables. rv_records V db' t = {x \<in> rv_records V db t. \<not> expired_record (m + int n - 1 - r) x})"
  using assms(4,6,7)
proof (induction n arbitrary: db')
  case 0
  then show ?case by simp
next
  case (Suc n)
  let ?m = "m + int n"
  have split: "for_each f (xs @ [x]) db = (None, db') \<longleftrightarrow> (\<exists>db1. for_each f xs db = (None, db1) \<and> f x db1 = (None, db'))"
    for f :: "nat \<Rightarrow> 'a act" and xs x and db db' :: 'a
  proof (induction xs arbitrary: db)
    case Nil
    then show ?case by (simp add: and_then_ok)
  next
    case (Cons a xs)
    then show ?case by (simp add: and_then_ok) blast
  qed
  from Suc.prems(2) obtain db1 where i: "monthly R r m n db = (None, db1)" and j: "DataRetention R ?m r True db1 = (None, db')"
    by (auto simp: monthly_def split)
  have ok: "month_ok (?m + 1)" "month_ok (?m - (r + 1))" "month_ok ?m"
    using assms(2,3) Suc.prems(1) by (auto simp: month_ok_def)
  have before: "rv_partitions V db1 = retention_window r (?m - 1) \<and>
     (\<forall>t \<in> set RetentionTables. rv_records V db1 t = (if n = 0 then rv_records V db t else {x \<in> rv_records V db t. \<not> expired_record (?m - 1 - r) x}))"
  proof (cases "n = 0")
    case True
    with i assms(5) show ?thesis by (simp add: monthly_def)
  next
    case False
    with Suc.IH [OF ok(3) i] show ?thesis by simp
  qed
  have mono: "expired_record (?m - 1 - r) x \<Longrightarrow> expired_record (?m - r) x" for x
    by (auto simp: expired_record_def split: option.splits)
  note e = DataRetention_ok [OF assms(1,2) ok(1,2) j]
  have "rv_partitions V db' = retention_window r ?m"
    using e(1) before window_step [OF assms(2) ok(1,2)] by simp
  moreover have "\<forall>t \<in> set RetentionTables. rv_records V db' t = {x \<in> rv_records V db t. \<not> expired_record (?m - r) x}"
    using e(2) before mono by auto
  ultimately show ?case by (simp add: algebra_simps)
qed

section \<open>A database in memory\<close>

record mem_retention =
  mr_partitions :: "string list"
  mr_records :: "string \<Rightarrow> (string \<times> timestamp option) list"
  mr_heartbeats :: "(timestamp \<times> string) list"

definition mem_ops :: "mem_retention retention_ops" where
  "mem_ops =
     \<lparr>ro_CreatePartition = (\<lambda>n t a b db. Some (db\<lparr>mr_partitions := List.insert n (mr_partitions db)\<rparr>)),
      ro_DropTable = (\<lambda>n db. Some (db\<lparr>mr_partitions := removeAll n (mr_partitions db)\<rparr>)),
      ro_DeleteBefore = (\<lambda>t m db. Some (db\<lparr>mr_records := (mr_records db)(t := filter (\<lambda>r. \<not> expired_record m r) (mr_records db t))\<rparr>)),
      ro_PartitionNames = (\<lambda>t db. Some (mr_partitions db)),
      ro_MinDeletion = (\<lambda>t db. Some None),
      ro_Log = (\<lambda>l db. Some db),
      ro_DeleteHeartbeats = (\<lambda>m db. Some (db\<lparr>mr_heartbeats := filter (\<lambda>h. \<not> (fst (fst h) < m \<and> snd h = HubInactive)) (mr_heartbeats db)\<rparr>))\<rparr>"

definition mem_retention_view :: "mem_retention retention_view" where
  "mem_retention_view = \<lparr>rv_partitions = set \<circ> mr_partitions, rv_records = (\<lambda>db t. set (mr_records db t)), rv_heartbeats = set \<circ> mr_heartbeats\<rparr>"

lemma mem_retention_laws: "retention_laws mem_ops mem_retention_view"
  unfolding retention_laws_def by (intro conjI allI impI) (auto simp: mem_ops_def mem_retention_view_def fun_eq_iff)

definition ex_retention :: mem_retention where
  "ex_retention = \<lparr>mr_partitions = [partition_name t j. t \<leftarrow> PartitionTables, j \<leftarrow> [24298, 24299, 24300]],
     mr_records = (\<lambda>_. [(''a'', None), (''b'', Some (24298, 5))]), mr_heartbeats = []\<rparr>"

lemma ex_retention_window: "rv_partitions mem_retention_view ex_retention = retention_window 1 (24300 - 1)"
proof -
  have "{j :: int. 24298 \<le> j \<and> j \<le> 24300} = {24298, 24299, 24300}" by auto
  then have "24298 \<le> j \<and> j \<le> 24300 \<longleftrightarrow> j \<in> {24298, 24299, 24300}" for j :: int by auto
  then show ?thesis by (auto simp: mem_retention_view_def ex_retention_def retention_window_def)
qed

lemma for_each_total: "(\<And>t db. fst (f t db) = None) \<Longrightarrow> fst (for_each f ts db) = None"
proof (induction ts arbitrary: db)
  case Nil
  then show ?case by simp
next
  case (Cons t ts)
  then show ?case by (simp add: and_then_def split: prod.splits option.splits) (metis fst_conv option.distinct(1))
qed

lemma and_then_total: "(\<And>db. fst (a db) = None) \<Longrightarrow> (\<And>db. fst (b db) = None) \<Longrightarrow> fst (and_then a b db) = None"
  by (simp add: and_then_def split: prod.splits option.splits) (metis fst_conv option.distinct(1))

lemma traced_total: "(\<And>db. fst (work t db) = None) \<Longrightarrow> fst (traced R m p work t db) = None"
  by (simp add: traced_def split: prod.splits) (metis fst_conv)

lemma mem_total: "fst (DataRetention mem_ops m r True db) = None"
  unfolding DataRetention_def Let_def
  by (simp, intro and_then_total for_each_total traced_total)
    (simp_all add: updatePartitionTables_def deleteExpiredRecords_def and_then_def exec_def mem_ops_def)

lemma ex_retention_run: "fst (monthly mem_ops 1 24300 2 ex_retention) = None"
  unfolding monthly_def by (rule for_each_total) (rule mem_total)

theorem retention_keeps_window_witness:
  "rv_partitions mem_retention_view (snd (monthly mem_ops 1 24300 2 ex_retention)) = retention_window 1 24301 \<and>
   rv_records mem_retention_view (snd (monthly mem_ops 1 24300 2 ex_retention)) ''status.leaf_hubs'' = {(''a'', None)}"
proof -
  obtain db' where run: "monthly mem_ops 1 24300 2 ex_retention = (None, db')" using ex_retention_run by (metis prod.collapse)
  have "rv_partitions mem_retention_view db' = retention_window 1 (24300 + int 2 - 1) \<and>
     (\<forall>t \<in> set RetentionTables. rv_records mem_retention_view db' t =
        {x \<in> rv_records mem_retention_view ex_retention t. \<not> expired_record (24300 + int 2 - 1 - 1) x})"
    by (rule retention_keeps_window [OF mem_retention_laws _ _ _ ex_retention_window run]) (simp_all add: month_ok_def)
  then have p: "rv_partitions mem_retention_view db' = retention_window 1 24301"
    and r: "rv_records mem_retention_view db' ''status.leaf_hubs'' =
        {x \<in> rv_records mem_retention_view ex_retention ''status.leaf_hubs''. \<not> expired_record 24300 x}"
    by (simp_all add: RetentionTables_def)
  have "{x \<in> rv_records mem_retention_view ex_retention ''status.leaf_hubs''. \<not> expired_record 24300 x} = {(''a'', None)}"
    by (auto simp: mem_retention_view_def ex_retention_def expired_record_def)
  with p r run show ?thesis by simp
qed

end
