(* ===== verification/SpecPath.thy ===== *)
theory SpecPath
  imports LabelSync
begin

text \<open>
  Global resources on their way from the global hub to the table of specifications and from there to
  the transport: \<^verbatim>\<open>manager/pkg/spec/controllers/generic.go\<close>, \<^verbatim>\<open>manager/pkg/spec/specdb/gorm/spec.go\<close>,
  \<^verbatim>\<open>manager/pkg/spec/controllers/bundle\<close> and \<^verbatim>\<open>manager/pkg/spec/syncers/generic_syncer.go\<close>.

  An object has the metadata that the code reads and a body of type \<open>'x\<close>. The functions that a kind of
  object brings along (\<open>cleanObject\<close>, \<open>areEqual\<close>) are arguments, as is the client of the API server. The
  statements on a table are a record; the trigger that moves the rows of an earlier object of the same
  name to a history table is part of the insert statement.
\<close>

section \<open>Objects and rows\<close>

record 'x spec_object =
  so_Namespace :: string
  so_Name :: string
  so_UID :: string
  so_Labels :: "(string, string) gomap"
  so_Annotations :: "(string, string) gomap"
  so_Finalizers :: "string list"
  so_Deleting :: bool
  so_ResourceVersion :: string
  so_Generation :: int
  so_OwnerReferences :: "string list"
  so_ManagedFields :: "string list"
  so_Body :: 'x

record 'x spec_row =
  sr_ID :: string
  sr_Payload :: "'x spec_object"
  sr_UpdatedAt :: int
  sr_Deleted :: bool

text \<open>Query by identifier (\<open>Some None\<close>: no row), insert, update and soft deletion by name; the second to last argument is the time.\<close>

record ('x, 'db) spec_table =
  st_Query :: "string \<Rightarrow> 'db \<Rightarrow> 'x spec_object option option"
  st_Insert :: "string \<Rightarrow> 'x spec_object \<Rightarrow> int \<Rightarrow> 'db \<Rightarrow> 'db option"
  st_Update :: "string \<Rightarrow> 'x spec_object \<Rightarrow> int \<Rightarrow> 'db \<Rightarrow> 'db option"
  st_MarkDeleted :: "string \<Rightarrow> string \<Rightarrow> int \<Rightarrow> 'db \<Rightarrow> 'db option"
  st_Select :: "('x spec_row \<Rightarrow> bool) \<Rightarrow> 'db \<Rightarrow> 'x spec_row list option"

definition row_name :: "'x spec_row \<Rightarrow> string \<times> string" where
  "row_name r = (so_Namespace (sr_Payload r), so_Name (sr_Payload r))"

definition object_name :: "'x spec_object \<Rightarrow> string \<times> string" where
  "object_name x = (so_Namespace x, so_Name x)"

section \<open>The table of specifications\<close>

definition InsertSpecObject :: "('x, 'db) spec_table \<Rightarrow> bool \<Rightarrow> int \<Rightarrow> string \<Rightarrow> 'x spec_object \<Rightarrow> 'db act" where
  "InsertSpecObject T locked now objUID object db = (if \<not> locked then (Some DbError, db) else exec (st_Insert T objUID object now) db)"

definition UpdateSpecObject :: "('x, 'db) spec_table \<Rightarrow> bool \<Rightarrow> int \<Rightarrow> string \<Rightarrow> 'x spec_object \<Rightarrow> 'db act" where
  "UpdateSpecObject T locked now objUID object db = (if \<not> locked then (Some DbError, db) else exec (st_Update T objUID object now) db)"

definition DeleteSpecObject :: "('x, 'db) spec_table \<Rightarrow> bool \<Rightarrow> int \<Rightarrow> string \<Rightarrow> string \<Rightarrow> 'db act" where
  "DeleteSpecObject T locked now name namespace db = (if \<not> locked then (Some DbError, db) else exec (st_MarkDeleted T namespace name now) db)"

section \<open>The controller\<close>

datatype 'x spec_get = SpecNotFound | SpecGetError | SpecFound "'x spec_object"

datatype spec_result = SpecDone | SpecRequeue | SpecError

definition last_applied :: string where
  "last_applied = ''kubectl.kubernetes.io/last-applied-configuration''"

definition cleanInstance :: "('x spec_object \<Rightarrow> 'x spec_object) \<Rightarrow> 'x spec_object \<Rightarrow> 'x spec_object" where
  "cleanInstance cleanObject originInstance =
     cleanObject (originInstance\<lparr>so_ResourceVersion := [], so_ManagedFields := [], so_Finalizers := [], so_Generation := 0,
       so_OwnerReferences := [], so_Annotations := AList.delete last_applied (so_Annotations originInstance)\<rparr>)"

text \<open>
  \<open>upd\<close> is the client's \<^verbatim>\<open>Update\<close>: whether it succeeded and the new state of the API server. The object
  comes back with or without the finalizer, as the code leaves it in memory.
\<close>

definition removeFinalizerAndDelete ::
    "('x, 'db) spec_table \<Rightarrow> bool \<Rightarrow> int \<Rightarrow> ('x spec_object \<Rightarrow> 'k \<Rightarrow> bool \<times> 'k) \<Rightarrow> string \<Rightarrow> 'x spec_object \<Rightarrow> 'db \<times> 'k
       \<Rightarrow> bool \<times> 'x spec_object \<times> 'db \<times> 'k" where
  "removeFinalizerAndDelete T locked now upd finalizerName instance0 dk =
     (let (db, k) = dk
      in if finalizerName \<notin> set (so_Finalizers instance0) then (True, instance0, db, k)
         else case DeleteSpecObject T locked now (so_Name instance0) (so_Namespace instance0) db of
                (Some _, db1) \<Rightarrow> (False, instance0, db1, k)
              | (None, db1) \<Rightarrow>
                  let instance1 = instance0\<lparr>so_Finalizers := removeAll finalizerName (so_Finalizers instance0)\<rparr>;
                      (ok, k1) = upd instance1 k
                  in (ok, instance1, db1, k1))"

definition spec_addFinalizer ::
    "('x spec_object \<Rightarrow> 'k \<Rightarrow> bool \<times> 'k) \<Rightarrow> string \<Rightarrow> 'x spec_object \<Rightarrow> 'k \<Rightarrow> bool \<times> 'x spec_object \<times> 'k" where
  "spec_addFinalizer upd finalizerName instance0 k =
     (if finalizerName \<in> set (so_Finalizers instance0) then (True, instance0, k)
      else let instance1 = instance0\<lparr>so_Finalizers := so_Finalizers instance0 @ [finalizerName]\<rparr>;
               (ok, k1) = upd instance1 k
           in (ok, instance1, k1))"

definition insertInstanceToDatabase ::
    "('x, 'db) spec_table \<Rightarrow> bool \<Rightarrow> int \<Rightarrow> 'x spec_object \<Rightarrow> string \<Rightarrow> 'db \<Rightarrow> 'x spec_object option \<times> 'db" where
  "insertInstanceToDatabase T locked now instance0 instanceUID db =
     (case st_Query T instanceUID db of
        None \<Rightarrow> (None, db)
      | Some (Some instanceInTheDatabase) \<Rightarrow> (Some instanceInTheDatabase, db)
      | Some None \<Rightarrow>
          (case InsertSpecObject T locked now instanceUID instance0 db of
             (Some _, db1) \<Rightarrow> (None, db1)
           | (None, db1) \<Rightarrow> (Some instance0, db1)))"

text \<open>The branch for an object that is being deleted does not return when it succeeds: what follows is run for it too.\<close>

definition spec_Reconcile ::
    "('x, 'db) spec_table \<Rightarrow> bool \<Rightarrow> int \<Rightarrow> ('x spec_object \<Rightarrow> 'k \<Rightarrow> bool \<times> 'k) \<Rightarrow> string \<Rightarrow> ('x spec_object \<Rightarrow> 'x spec_object)
       \<Rightarrow> ('x spec_object \<Rightarrow> 'x spec_object \<Rightarrow> bool) \<Rightarrow> string \<times> string \<Rightarrow> 'x spec_get \<Rightarrow> 'db \<times> 'k \<Rightarrow> spec_result \<times> 'db \<times> 'k" where
  "spec_Reconcile T locked now upd finalizerName cleanObject areEqual request got dk =
     (case got of
        SpecNotFound \<Rightarrow>
          (case DeleteSpecObject T locked now (snd request) (fst request) (fst dk) of
             (Some _, db1) \<Rightarrow> (SpecRequeue, db1, snd dk)
           | (None, db1) \<Rightarrow> (SpecDone, db1, snd dk))
      | SpecGetError \<Rightarrow> (SpecRequeue, dk)
      | SpecFound instance0 \<Rightarrow>
          let (ok, instance1, db1, k1) =
                (if so_Deleting instance0 then removeFinalizerAndDelete T locked now upd finalizerName instance0 dk
                 else (True, instance0, dk))
          in if \<not> ok then (SpecRequeue, db1, k1)
             else let (ok2, instance2, k2) = spec_addFinalizer upd finalizerName instance1 k1
                  in if \<not> ok2 then (SpecRequeue, db1, k2)
                     else let instance3 = cleanInstance cleanObject instance2
                          in case insertInstanceToDatabase T locked now instance3 (so_UID instance3) db1 of
                               (None, db2) \<Rightarrow> (SpecRequeue, db2, k2)
                             | (Some instanceInDatabase, db2) \<Rightarrow>
                                 if areEqual instance3 instanceInDatabase then (SpecDone, db2, k2)
                                 else case UpdateSpecObject T locked now (so_UID instance3) instance3 db2 of
                                        (Some _, db3) \<Rightarrow> (SpecError, db3, k2)
                                      | (None, db3) \<Rightarrow> (SpecDone, db3, k2))"

section \<open>Bundles\<close>

record 'x objects_bundle =
  ob_Objects :: "'x spec_object list"
  ob_DeletedObjects :: "'x spec_object list"

definition setMetaDataAnnotation :: "string \<Rightarrow> string \<Rightarrow> 'x spec_object \<Rightarrow> 'x spec_object" where
  "setMetaDataAnnotation key value object = object\<lparr>so_Annotations := AList.update key value (so_Annotations object)\<rparr>"

definition AddObject :: "'x spec_object \<Rightarrow> string \<Rightarrow> 'x objects_bundle \<Rightarrow> 'x objects_bundle" where
  "AddObject object objectUID b =
     b\<lparr>ob_Objects := ob_Objects b @ [setMetaDataAnnotation ''global-hub.open-cluster-management.io/origin-ownerreference-uid'' objectUID object]\<rparr>"

definition AddDeletedObject :: "'x spec_object \<Rightarrow> 'x objects_bundle \<Rightarrow> 'x objects_bundle" where
  "AddDeletedObject object b = b\<lparr>ob_DeletedObjects := ob_DeletedObjects b @ [object]\<rparr>"

definition global_label :: string where
  "global_label = ''global-hub.open-cluster-management.io/global-resource''"

definition is_global :: "'x spec_row \<Rightarrow> bool" where
  "is_global r = (map_of (so_Labels (sr_Payload r)) global_label \<noteq> None)"

definition spec_GetLastUpdateTimestamp :: "('x, 'db) spec_table \<Rightarrow> bool \<Rightarrow> 'db \<Rightarrow> int" where
  "spec_GetLastUpdateTimestamp T filterLocalResources db =
     (case st_Select T (\<lambda>r. filterLocalResources \<longrightarrow> is_global r) db of
        None \<Rightarrow> 0 | Some rs \<Rightarrow> foldr max (map sr_UpdatedAt rs) 0)"

fun add_rows :: "'x spec_row list \<Rightarrow> 'x objects_bundle \<Rightarrow> 'x objects_bundle" where
  "add_rows [] b = b"
| "add_rows (r # rows) b =
     (if sr_Deleted r then add_rows rows (AddDeletedObject (sr_Payload r) b)
      else add_rows rows (AddObject ((sr_Payload r)\<lparr>so_UID := []\<rparr>) (sr_ID r) b))"

definition GetObjectsBundle :: "('x, 'db) spec_table \<Rightarrow> 'db \<Rightarrow> (int \<times> 'x objects_bundle) option" where
  "GetObjectsBundle T db =
     (let timestamp = spec_GetLastUpdateTimestamp T True db
      in map_option (\<lambda>rows. (timestamp, add_rows rows \<lparr>ob_Objects = [], ob_DeletedObjects = []\<rparr>)) (st_Select T is_global db))"

datatype bundle_error = BundleReadFailed | BundleSendFailed

text \<open>The result has the new time of the last synchronisation and the bundle that was sent.\<close>

definition syncObjectsBundle ::
    "('x, 'db) spec_table \<Rightarrow> ('x objects_bundle \<Rightarrow> bool) \<Rightarrow> int \<Rightarrow> 'db \<Rightarrow> (bundle_error + bool) \<times> int \<times> 'x objects_bundle option" where
  "syncObjectsBundle T SendEvent lastSync db =
     (if \<not> spec_GetLastUpdateTimestamp T True db > lastSync then (Inr False, lastSync, None)
      else case GetObjectsBundle T db of
             None \<Rightarrow> (Inl BundleReadFailed, lastSync, None)
           | Some (lastUpdateTimestamp, bundleResult) \<Rightarrow>
               if \<not> SendEvent bundleResult then (Inl BundleSendFailed, lastSync, None)
               else (Inr True, lastUpdateTimestamp, Some bundleResult))"

section \<open>The interval between synchronisations\<close>

text \<open>
  \<^verbatim>\<open>interval/exponential_backoff_policy.go\<close>. The back-off of the library is a state \<open>'b\<close> with its operations: \<open>reset\<close>, and \<open>next\<close>
  for the interval to wait and the state after it.
\<close>

record ('b) backoff_ops =
  bo_Reset :: "'b \<Rightarrow> 'b"
  bo_NextBackOff :: "'b \<Rightarrow> int \<times> 'b"

record 'b exponentialBackoffPolicy =
  ep_exponentialBackoff :: 'b
  ep_interval :: int
  ep_consecutiveEvaluationsCount :: nat

definition consecutiveEvaluationsBeforeNextBackoff :: nat where
  "consecutiveEvaluationsBeforeNextBackoff = 3"

definition maxInterval :: int where
  "maxInterval = 60"

definition policy_Reset :: "'b backoff_ops \<Rightarrow> 'b exponentialBackoffPolicy \<Rightarrow> 'b exponentialBackoffPolicy" where
  "policy_Reset B p =
     (let (i, b) = bo_NextBackOff B (bo_Reset B (ep_exponentialBackoff p))
      in p\<lparr>ep_exponentialBackoff := b, ep_interval := i, ep_consecutiveEvaluationsCount := 0\<rparr>)"

definition NewExponentialBackoffPolicy :: "'b backoff_ops \<Rightarrow> 'b \<Rightarrow> 'b exponentialBackoffPolicy" where
  "NewExponentialBackoffPolicy B b0 =
     (let (i, b) = bo_NextBackOff B (bo_Reset B b0)
      in \<lparr>ep_exponentialBackoff = b, ep_interval = i, ep_consecutiveEvaluationsCount = 0\<rparr>)"

definition Evaluate :: "'b backoff_ops \<Rightarrow> 'b exponentialBackoffPolicy \<Rightarrow> 'b exponentialBackoffPolicy" where
  "Evaluate B p =
     (let p1 = p\<lparr>ep_consecutiveEvaluationsCount := ep_consecutiveEvaluationsCount p + 1\<rparr>
      in if ep_consecutiveEvaluationsCount p1 = consecutiveEvaluationsBeforeNextBackoff
         then let (i, b) = bo_NextBackOff B (ep_exponentialBackoff p1)
              in p1\<lparr>ep_exponentialBackoff := b, ep_interval := i, ep_consecutiveEvaluationsCount := 0\<rparr>
         else p1)"

text \<open>One tick of \<^verbatim>\<open>periodicSync\<close>: the policy and whether the ticker is reset, from the result of the synchronisation.\<close>

definition tick_policy :: "'b backoff_ops \<Rightarrow> ('e + bool) \<Rightarrow> 'b exponentialBackoffPolicy \<Rightarrow> 'b exponentialBackoffPolicy \<times> int option" where
  "tick_policy B result p =
     (let synced = (case result of Inr s \<Rightarrow> s | Inl _ \<Rightarrow> False);
          p1 = (if synced then Evaluate B p else policy_Reset B p)
      in (p1, if ep_interval p \<noteq> ep_interval p1 then Some (ep_interval p1) else None))"

section \<open>What the table promises\<close>

definition spec_table_laws :: "('x, 'db) spec_table \<Rightarrow> ('db \<Rightarrow> 'x spec_row set) \<Rightarrow> bool" where
  "spec_table_laws T rows \<longleftrightarrow>
     (\<forall>i db. st_Query T i db = Some None \<longrightarrow> (\<forall>r \<in> rows db. sr_ID r \<noteq> i)) \<and>
     (\<forall>i db x. st_Query T i db = Some (Some x) \<longrightarrow> (\<exists>r \<in> rows db. sr_ID r = i \<and> sr_Payload r = x)) \<and>
     (\<forall>i x now db db'. st_Insert T i x now db = Some db' \<longrightarrow>
        rows db' = insert \<lparr>sr_ID = i, sr_Payload = x, sr_UpdatedAt = now, sr_Deleted = False\<rparr> {r \<in> rows db. row_name r \<noteq> object_name x}) \<and>
     (\<forall>i x now db db'. st_Update T i x now db = Some db' \<longrightarrow>
        rows db' = {r \<in> rows db. sr_ID r \<noteq> i} \<union> (\<lambda>r. r\<lparr>sr_Payload := x, sr_UpdatedAt := now\<rparr>) ` {r \<in> rows db. sr_ID r = i}) \<and>
     (\<forall>ns n now db db'. st_MarkDeleted T ns n now db = Some db' \<longrightarrow>
        rows db' = {r \<in> rows db. \<not> (row_name r = (ns, n) \<and> \<not> sr_Deleted r)} \<union>
          (\<lambda>r. r\<lparr>sr_Deleted := True, sr_UpdatedAt := now\<rparr>) ` {r \<in> rows db. row_name r = (ns, n) \<and> \<not> sr_Deleted r}) \<and>
     (\<forall>P db rs. st_Select T P db = Some rs \<longrightarrow> set rs = {r \<in> rows db. P r} \<and> distinct rs)"

text \<open>At most one row for an identifier, and for a name.\<close>

definition spec_rows_ok :: "'x spec_row set \<Rightarrow> bool" where
  "spec_rows_ok R \<longleftrightarrow> inj_on sr_ID R \<and> inj_on row_name R"

lemma spec_law:
  assumes "spec_table_laws T rows"
  shows "st_Query T i db = Some None \<Longrightarrow> r \<in> rows db \<Longrightarrow> sr_ID r \<noteq> i"
    and "st_Query T i db = Some (Some x) \<Longrightarrow> \<exists>r \<in> rows db. sr_ID r = i \<and> sr_Payload r = x"
    and "st_Insert T i x now db = Some db' \<Longrightarrow>
      rows db' = insert \<lparr>sr_ID = i, sr_Payload = x, sr_UpdatedAt = now, sr_Deleted = False\<rparr> {r \<in> rows db. row_name r \<noteq> object_name x}"
    and "st_Update T i x now db = Some db' \<Longrightarrow>
      rows db' = {r \<in> rows db. sr_ID r \<noteq> i} \<union> (\<lambda>r. r\<lparr>sr_Payload := x, sr_UpdatedAt := now\<rparr>) ` {r \<in> rows db. sr_ID r = i}"
    and "st_MarkDeleted T ns n now db = Some db' \<Longrightarrow>
      rows db' = {r \<in> rows db. \<not> (row_name r = (ns, n) \<and> \<not> sr_Deleted r)} \<union>
          (\<lambda>r. r\<lparr>sr_Deleted := True, sr_UpdatedAt := now\<rparr>) ` {r \<in> rows db. row_name r = (ns, n) \<and> \<not> sr_Deleted r}"
    and "st_Select T P db = Some rs \<Longrightarrow> set rs = {r \<in> rows db. P r} \<and> distinct rs"
proof -
  note L = assms [unfolded spec_table_laws_def]
  note l1 = L [THEN conjunct1] and r1 = L [THEN conjunct2]
  note l2 = r1 [THEN conjunct1] and r2 = r1 [THEN conjunct2]
  note l3 = r2 [THEN conjunct1] and r3 = r2 [THEN conjunct2]
  note l4 = r3 [THEN conjunct1] and r4 = r3 [THEN conjunct2]
  note l5 = r4 [THEN conjunct1] and l6 = r4 [THEN conjunct2]
  show "st_Query T i db = Some None \<Longrightarrow> r \<in> rows db \<Longrightarrow> sr_ID r \<noteq> i" by (rule l1 [rule_format])
  show "st_Query T i db = Some (Some x) \<Longrightarrow> \<exists>r \<in> rows db. sr_ID r = i \<and> sr_Payload r = x" by (rule l2 [rule_format])
  show "st_Insert T i x now db = Some db' \<Longrightarrow>
      rows db' = insert \<lparr>sr_ID = i, sr_Payload = x, sr_UpdatedAt = now, sr_Deleted = False\<rparr> {r \<in> rows db. row_name r \<noteq> object_name x}"
    by (rule l3 [rule_format])
  show "st_Update T i x now db = Some db' \<Longrightarrow>
      rows db' = {r \<in> rows db. sr_ID r \<noteq> i} \<union> (\<lambda>r. r\<lparr>sr_Payload := x, sr_UpdatedAt := now\<rparr>) ` {r \<in> rows db. sr_ID r = i}"
    by (rule l4 [rule_format])
  show "st_MarkDeleted T ns n now db = Some db' \<Longrightarrow>
      rows db' = {r \<in> rows db. \<not> (row_name r = (ns, n) \<and> \<not> sr_Deleted r)} \<union>
          (\<lambda>r. r\<lparr>sr_Deleted := True, sr_UpdatedAt := now\<rparr>) ` {r \<in> rows db. row_name r = (ns, n) \<and> \<not> sr_Deleted r}"
    by (rule l5 [rule_format])
  show "st_Select T P db = Some rs \<Longrightarrow> set rs = {r \<in> rows db. P r} \<and> distinct rs" by (rule l6 [rule_format])
qed

text \<open>What the functions of a kind of object have to do for the controller.\<close>

definition kind_laws :: "('x spec_object \<Rightarrow> 'x spec_object) \<Rightarrow> ('x spec_object \<Rightarrow> 'x spec_object \<Rightarrow> bool) \<Rightarrow> bool" where
  "kind_laws cleanObject areEqual \<longleftrightarrow> (\<forall>x. object_name (cleanObject x) = object_name x \<and> so_UID (cleanObject x) = so_UID x \<and> areEqual x x)"

definition live_rows :: "'x spec_row set \<Rightarrow> string \<times> string \<Rightarrow> 'x spec_row set" where
  "live_rows R name = {r \<in> R. row_name r = name \<and> \<not> sr_Deleted r}"

lemma cleanInstance_kept:
  assumes "kind_laws cleanObject areEqual"
  shows "object_name (cleanInstance cleanObject x) = object_name x" "so_UID (cleanInstance cleanObject x) = so_UID x"
    "cleanInstance cleanObject (x\<lparr>so_Finalizers := fs\<rparr>) = cleanInstance cleanObject x"
  using assms by (simp_all add: kind_laws_def cleanInstance_def object_name_def)

lemma inj_on_image_kept:
  assumes "inj_on f A" "\<And>a. f (m a) = f a"
  shows "inj_on f (m ` A)"
  by (rule inj_on_imageI) (use assms in \<open>simp add: inj_on_def\<close>)

lemma inj_on_insert_filter:
  assumes "inj_on f A" "\<forall>a \<in> A. P a \<longrightarrow> f a \<noteq> f r"
  shows "inj_on f (insert r {a \<in> A. P a})"
proof -
  have "inj_on f {a \<in> A. P a}" by (rule inj_on_subset [OF assms(1)]) blast
  moreover have "f r \<notin> f ` ({a \<in> A. P a} - {r})"
  proof
    assume "f r \<in> f ` ({a \<in> A. P a} - {r})"
    then obtain a where "a \<in> A" "P a" "f r = f a" by blast
    with assms(2) show False by metis
  qed
  ultimately show ?thesis by (simp only: inj_on_insert) blast
qed

lemma mark_deleted_rows:
  assumes "spec_table_laws T rows" "st_MarkDeleted T ns n now db = Some db'" "spec_rows_ok (rows db)"
  shows "live_rows (rows db') (ns, n) = {}" "spec_rows_ok (rows db')"
    "{r \<in> rows db'. row_name r \<noteq> (ns, n)} = {r \<in> rows db. row_name r \<noteq> (ns, n)}"
proof -
  let ?m = "\<lambda>r. if row_name r = (ns, n) \<and> \<not> sr_Deleted r then r\<lparr>sr_Deleted := True, sr_UpdatedAt := now\<rparr> else r"
  have R: "rows db' = ?m ` rows db" using spec_law(5) [OF assms(1,2)] by auto
  have same: "sr_ID (?m r) = sr_ID r" "row_name (?m r) = row_name r" for r by (simp_all add: row_name_def)
  have "sr_Deleted (?m r)" if "row_name (?m r) = (ns, n)" for r using that same(2) [of r] by auto
  then show "live_rows (rows db') (ns, n) = {}" unfolding R live_rows_def by blast
  from assms(3) have inj: "inj_on sr_ID (rows db)" "inj_on row_name (rows db)" by (simp_all add: spec_rows_ok_def)
  show "spec_rows_ok (rows db')" unfolding R spec_rows_ok_def
    by (intro conjI inj_on_image_kept [OF inj(1)] inj_on_image_kept [OF inj(2)] same)
  show "{r \<in> rows db'. row_name r \<noteq> (ns, n)} = {r \<in> rows db. row_name r \<noteq> (ns, n)}"
    unfolding R by (auto simp: row_name_def image_iff split: if_splits)
qed


text \<open>A table in memory, a list of rows, keeps the promises. The insertion drops an earlier row of the name, as the trigger does.\<close>

definition mem_spec_table :: "('x, 'x spec_row list) spec_table" where
  "mem_spec_table = \<lparr>
     st_Query = (\<lambda>i db. Some (map_option sr_Payload (find (\<lambda>r. sr_ID r = i) db))),
     st_Insert = (\<lambda>i x now db. Some (\<lparr>sr_ID = i, sr_Payload = x, sr_UpdatedAt = now, sr_Deleted = False\<rparr> # filter (\<lambda>r. row_name r \<noteq> object_name x) db)),
     st_Update = (\<lambda>i x now db. Some (map (\<lambda>r. if sr_ID r = i then r\<lparr>sr_Payload := x, sr_UpdatedAt := now\<rparr> else r) db)),
     st_MarkDeleted = (\<lambda>ns n now db. Some (map (\<lambda>r. if row_name r = (ns, n) \<and> \<not> sr_Deleted r then r\<lparr>sr_Deleted := True, sr_UpdatedAt := now\<rparr> else r) db)),
     st_Select = (\<lambda>P db. Some (remdups (filter P db)))\<rparr>"

lemma set_map_if: "set (map (\<lambda>r. if P r then f r else r) db) = {r \<in> set db. \<not> P r} \<union> f ` {r \<in> set db. P r}"
  by auto

lemma mem_spec_table_laws: "spec_table_laws mem_spec_table set"
proof -
  have "find (\<lambda>r. sr_ID r = i) db = None \<Longrightarrow> \<forall>r \<in> set db. sr_ID r \<noteq> i" for i and db :: "'x spec_row list"
    by (simp add: find_None_iff)
  moreover have "find (\<lambda>r. sr_ID r = i) db = Some s \<Longrightarrow> s \<in> set db \<and> sr_ID s = i" for i s and db :: "'x spec_row list"
    by (auto simp: find_Some_iff)
  ultimately show ?thesis
    unfolding spec_table_laws_def mem_spec_table_def spec_table.simps
    by (intro conjI allI impI) (auto simp only: map_option_eq_Some option.inject set_map_if option.map_disc_iff, auto, blast)
qed

definition sample_object :: "string \<Rightarrow> string \<Rightarrow> 'x \<Rightarrow> 'x spec_object" where
  "sample_object name uid body = \<lparr>so_Namespace = ''ns'', so_Name = name, so_UID = uid, so_Labels = [(global_label, [])], so_Annotations = [],
     so_Finalizers = [], so_Deleting = False, so_ResourceVersion = ''7'', so_Generation = 2, so_OwnerReferences = [], so_ManagedFields = [],
     so_Body = body\<rparr>"

definition sample_rows :: "int spec_row list" where
  "sample_rows = [\<lparr>sr_ID = ''u1'', sr_Payload = sample_object ''a'' ''u1'' 1, sr_UpdatedAt = 5, sr_Deleted = False\<rparr>,
     \<lparr>sr_ID = ''u2'', sr_Payload = sample_object ''b'' ''u2'' 1, sr_UpdatedAt = 6, sr_Deleted = True\<rparr>]"

definition sample_reconcile :: "int spec_get \<Rightarrow> spec_result \<times> int spec_row list \<times> int spec_object list" where
  "sample_reconcile got = spec_Reconcile mem_spec_table True 9 (\<lambda>x k. (True, x # k)) ''f'' (\<lambda>x. x) (\<lambda>x y. so_Body x = so_Body y)
     (''ns'', ''a'') got (sample_rows, [])"


end
