(* ===== verification/AgentSpec.thy ===== *)
theory AgentSpec
  imports SpecPath HubManagement "HOL-Library.Multiset"
begin

text \<open>
  Global resources on a hub: the dispatcher of the agent (\<^verbatim>\<open>agent/pkg/spec/dispatcher.go\<close>), its worker pool
  (\<^verbatim>\<open>agent/pkg/spec/workers\<close>) with impersonation (\<^verbatim>\<open>agent/pkg/spec/rbac\<close>), and the generic syncer
  (\<^verbatim>\<open>agent/pkg/spec/syncers/generic_syncer.go\<close>).

  An object has its kind and its top-level fields besides the metadata; a field is a map or something
  else. The decoding of base64, the creation of a client for a user and the calls to the API server
  are parameters. The syncer, the queues and the workers are one transition system: the syncer
  submits jobs while workers take and finish them, in every order; the calls that a job makes to the
  API server are one step.
\<close>

section \<open>Dispatching events\<close>

definition RegisterSyncer :: "string \<Rightarrow> 'y \<Rightarrow> (string, 'y) gomap \<Rightarrow> (string, 'y) gomap" where
  "RegisterSyncer messageID syncer syncers = AList.update messageID syncer syncers"

text \<open>The syncer for an event, \<^const>\<open>None\<close> when the event is dropped.\<close>

definition select_syncer :: "string \<Rightarrow> (string, 'y) gomap \<Rightarrow> 'd Event \<Rightarrow> 'y option" where
  "select_syncer leafHubName syncers evt =
     (case evt_Extensions evt ''clustername'' of
        Some (ExtString clusterName) \<Rightarrow>
          if clusterName \<noteq> ''broadcast'' \<and> clusterName \<noteq> leafHubName then None
          else (case map_of syncers (evt_Type evt) of Some syncer \<Rightarrow> Some syncer | None \<Rightarrow> map_of syncers ''Generic'')
      | _ \<Rightarrow> None)"

datatype sync_result = SyncOk | SyncConflict | SyncFailed

text \<open>\<^verbatim>\<open>retry.RetryOnConflict\<close>: at most so many calls, the next one only after a conflict.\<close>

fun RetryOnConflict :: "nat \<Rightarrow> ('s \<Rightarrow> sync_result \<times> 's) \<Rightarrow> 's \<Rightarrow> sync_result \<times> 's" where
  "RetryOnConflict 0 f s = (SyncConflict, s)"
| "RetryOnConflict (Suc n) f s =
     (case f s of (SyncConflict, s1) \<Rightarrow> if n = 0 then (SyncConflict, s1) else RetryOnConflict n f s1 | (r, s1) \<Rightarrow> (r, s1))"

definition DefaultBackoffSteps :: nat where
  "DefaultBackoffSteps = 4"

definition dispatch :: "string \<Rightarrow> (string, 'd \<Rightarrow> 's \<Rightarrow> sync_result \<times> 's) gomap \<Rightarrow> 'd Event \<Rightarrow> 's \<Rightarrow> 's" where
  "dispatch leafHubName syncers evt s =
     (case select_syncer leafHubName syncers evt of
        None \<Rightarrow> s
      | Some syncer \<Rightarrow> snd (RetryOnConflict DefaultBackoffSteps (syncer (evt_Data evt)) s))"

section \<open>Objects and identities\<close>

datatype 'v field = FieldMap "(string, 'v) gomap" | FieldOther 'v

record 'v body =
  bd_Kind :: string
  bd_Fields :: "(string, 'v field) gomap"

type_synonym 'v unstructured = "'v body spec_object"

definition object_key :: "'v unstructured \<Rightarrow> string \<times> string \<times> string" where
  "object_key x = (bd_Kind (so_Body x), so_Namespace x, so_Name x)"

definition NoIdentity :: string where
  "NoIdentity = []"

definition UserIdentityAnnotation :: string where
  "UserIdentityAnnotation = ''open-cluster-management.io/user-identity''"

definition UserGroupsAnnotation :: string where
  "UserGroupsAnnotation = ''open-cluster-management.io/user-group''"

definition decodeBase64IdentityAnnotation :: "(string \<Rightarrow> string option) \<Rightarrow> (string, string) gomap \<Rightarrow> string \<Rightarrow> string option" where
  "decodeBase64IdentityAnnotation decode annotations annotationToDecode =
     (case map_of annotations annotationToDecode of Some base64Value \<Rightarrow> decode base64Value | None \<Rightarrow> Some NoIdentity)"

definition GetUserIdentity :: "(string \<Rightarrow> string option) \<Rightarrow> 'v unstructured \<Rightarrow> string option" where
  "GetUserIdentity decode obj = decodeBase64IdentityAnnotation decode (so_Annotations obj) UserIdentityAnnotation"

definition GetUserGroups :: "(string \<Rightarrow> string option) \<Rightarrow> 'v unstructured \<Rightarrow> (string \<times> string list) option" where
  "GetUserGroups decode obj =
     map_option (\<lambda>userGroups. ((case map_of (so_Annotations obj) UserGroupsAnnotation of Some g \<Rightarrow> g | None \<Rightarrow> []),
         split_on CHR '','' userGroups))
       (decodeBase64IdentityAnnotation decode (so_Annotations obj) UserGroupsAnnotation)"

definition anonymize :: "'v unstructured \<Rightarrow> 'v unstructured" where
  "anonymize obj = obj\<lparr>so_Annotations := AList.delete UserGroupsAnnotation (AList.delete UserIdentityAnnotation (so_Annotations obj))\<rparr>"

section \<open>Jobs\<close>

datatype delete_result = Deleted | DeleteNotFound | DeleteError

text \<open>A client acts for the controller (\<^const>\<open>None\<close>) or for a user with groups.\<close>

type_synonym client_id = "(string \<times> string list) option"

record ('v, 'k) hub_api =
  ha_CreateNamespace :: "client_id \<Rightarrow> string \<Rightarrow> 'k \<Rightarrow> bool \<times> 'k"
  ha_Patch :: "client_id \<Rightarrow> 'v unstructured \<Rightarrow> 'k \<Rightarrow> bool \<times> 'k"
  ha_Delete :: "client_id \<Rightarrow> 'v unstructured \<Rightarrow> 'k \<Rightarrow> delete_result \<times> 'k"

text \<open>The result of the call that creates the namespace is true also when it exists already.\<close>

definition CreateNamespaceIfNotExist :: "('v, 'k) hub_api \<Rightarrow> client_id \<Rightarrow> string \<Rightarrow> 'k \<Rightarrow> bool \<times> 'k" where
  "CreateNamespaceIfNotExist api c namespace k = (if namespace = [] then (True, k) else ha_CreateNamespace api c namespace k)"

text \<open>Fields that are not sent on; \<^const>\<open>None\<close> stands for the panic of the type assertion on the field \<open>spec\<close>.\<close>

definition strip_fields :: "'v unstructured \<Rightarrow> 'v unstructured option" where
  "strip_fields obj =
     (let fields = AList.delete ''bindingOverrides'' (bd_Fields (so_Body obj));
          fields1 = (case map_of fields ''spec'' of
             None \<Rightarrow> Some fields
           | Some (FieldMap specMap) \<Rightarrow>
               Some (AList.update ''spec'' (FieldMap (AList.delete ''spreadPolicy'' (AList.delete ''decisionStrategy'' specMap))) fields)
           | Some (FieldOther _) \<Rightarrow> None)
      in map_option (\<lambda>fs. obj\<lparr>so_Body := (so_Body obj)\<lparr>bd_Fields := AList.delete ''status'' fs\<rparr>\<rparr>) fields1)"

datatype 'v job = UpdateJob "'v unstructured" | DeleteJob "'v unstructured"

fun job_obj :: "'v job \<Rightarrow> 'v unstructured" where
  "job_obj (UpdateJob x) = x"
| "job_obj (DeleteJob x) = x"

definition update_job :: "('v, 'k) hub_api \<Rightarrow> bool \<Rightarrow> client_id \<Rightarrow> 'v unstructured \<Rightarrow> 'k \<Rightarrow> 'k option" where
  "update_job api enforceHohRbac c obj k =
     (let (ok, k1) = (if \<not> enforceHohRbac then CreateNamespaceIfNotExist api c (so_Namespace obj) k else (True, k))
      in if \<not> ok then Some k1 else map_option (\<lambda>x. snd (ha_Patch api c x k1)) (strip_fields obj))"

fun run_job :: "('v, 'k) hub_api \<Rightarrow> bool \<Rightarrow> client_id \<Rightarrow> 'v job \<Rightarrow> 'k \<Rightarrow> 'k option" where
  "run_job api enforceHohRbac c (UpdateJob obj) k = update_job api enforceHohRbac c obj k"
| "run_job api enforceHohRbac c (DeleteJob obj) k = Some (snd (ha_Delete api c obj k))"

section \<open>The worker pool\<close>

text \<open>
  The queue of a job: the shared one or that of a user's worker, which is named by the identity and
  the encoded groups. The client of a worker is fixed when the worker is made.
\<close>

datatype queue_id = Shared | UserQueue string

record ('v, 'k) sync_state =
  sy_todo :: "'v job list"
  sy_workers :: "(string, string \<times> string list) gomap"
  sy_lock :: bool
  sy_queue :: "queue_id \<Rightarrow> 'v job list"
  sy_running :: "(queue_id \<times> 'v job) list"
  sy_waiting :: int
  sy_api :: 'k

record ('v, 'k) sync_config =
  sc_decode :: "string \<Rightarrow> string option"
  sc_Impersonate :: "string \<Rightarrow> string list \<Rightarrow> bool"
  sc_poolSize :: nat
  sc_enforceHohRbac :: bool
  sc_api :: "('v, 'k) hub_api"

definition push :: "nat \<Rightarrow> queue_id \<Rightarrow> 'v job \<Rightarrow> ('v, 'k) sync_state \<Rightarrow> ('v, 'k) sync_state option" where
  "push capacity q j s = (if length (sy_queue s q) < capacity then Some (s\<lparr>sy_queue := (sy_queue s)(q := sy_queue s q @ [j])\<rparr>) else None)"

text \<open>
  \<^verbatim>\<open>Submit\<close>: \<^const>\<open>None\<close> when the call has to wait, for a place in the queue or for the lock. A job whose identity
  is not known is dropped. When the client for a user cannot be made, the call returns with the lock
  held.
\<close>

definition Submit :: "('v, 'k) sync_config \<Rightarrow> 'v job \<Rightarrow> ('v, 'k) sync_state \<Rightarrow> ('v, 'k) sync_state option" where
  "Submit C j s =
     (case GetUserIdentity (sc_decode C) (job_obj j) of
        None \<Rightarrow> Some s
      | Some userIdentity \<Rightarrow>
          if userIdentity = NoIdentity then push (sc_poolSize C) Shared j s
          else case GetUserGroups (sc_decode C) (job_obj j) of
                 None \<Rightarrow> Some s
               | Some (base64UserGroups, userGroups) \<Rightarrow>
                   if sy_lock s then None
                   else let workerIdentifier = userIdentity @ ''.'' @ base64UserGroups
                        in if map_of (sy_workers s) workerIdentifier \<noteq> None then push (sc_poolSize C) (UserQueue workerIdentifier) j s
                           else if \<not> sc_Impersonate C userIdentity userGroups then Some (s\<lparr>sy_lock := True\<rparr>)
                           else push (sc_poolSize C) (UserQueue workerIdentifier) j
                                  (s\<lparr>sy_workers := AList.update workerIdentifier (userIdentity, userGroups) (sy_workers s)\<rparr>))"

definition worker_count :: "('v, 'k) sync_config \<Rightarrow> queue_id \<Rightarrow> nat" where
  "worker_count C q = (case q of Shared \<Rightarrow> sc_poolSize C | UserQueue _ \<Rightarrow> 1)"

definition client_of :: "('v, 'k) sync_state \<Rightarrow> queue_id \<Rightarrow> client_id" where
  "client_of s q = (case q of Shared \<Rightarrow> None | UserQueue w \<Rightarrow> map_of (sy_workers s) w)"

text \<open>
  The steps: the syncer submits its next job, a free worker takes the first job of its queue, a worker
  finishes the job at a position. \<^const>\<open>None\<close>: the step is not possible.
\<close>

datatype sync_choice = ChooseSubmit | ChooseTake queue_id | ChooseFinish nat

fun sync_step :: "('v, 'k) sync_config \<Rightarrow> sync_choice \<Rightarrow> ('v, 'k) sync_state \<Rightarrow> ('v, 'k) sync_state option" where
  "sync_step C ChooseSubmit s =
     (case sy_todo s of [] \<Rightarrow> None | j # js \<Rightarrow> map_option (\<lambda>s1. s1\<lparr>sy_todo := js\<rparr>) (Submit C j s))"
| "sync_step C (ChooseTake q) s =
     (case sy_queue s q of
        [] \<Rightarrow> None
      | j # js \<Rightarrow>
          if length (filter (\<lambda>r. fst r = q) (sy_running s)) < worker_count C q
          then Some (s\<lparr>sy_queue := (sy_queue s)(q := js), sy_running := sy_running s @ [(q, j)]\<rparr>) else None)"
| "sync_step C (ChooseFinish i) s =
     (if i < length (sy_running s)
      then let (q, j) = sy_running s ! i
           in map_option (\<lambda>k. s\<lparr>sy_api := k, sy_running := take i (sy_running s) @ drop (Suc i) (sy_running s), sy_waiting := sy_waiting s - 1\<rparr>)
                (run_job (sc_api C) (sc_enforceHohRbac C) (client_of s q) j (sy_api s))
      else None)"

section \<open>The generic syncer\<close>

definition prepare :: "bool \<Rightarrow> 'v unstructured \<Rightarrow> 'v unstructured" where
  "prepare enforceHohRbac obj = (if \<not> enforceHohRbac then anonymize obj else obj)"

definition bundle_jobs :: "bool \<Rightarrow> 'v body objects_bundle \<Rightarrow> 'v job list" where
  "bundle_jobs enforceHohRbac b =
     map (UpdateJob \<circ> prepare enforceHohRbac) (ob_Objects b) @ map (DeleteJob \<circ> prepare enforceHohRbac) (ob_DeletedObjects b)"

text \<open>\<^verbatim>\<open>Sync\<close> after decoding: the state in which it starts to submit, with the queues empty and the workers that exist.\<close>

definition bundle_size :: "'v body objects_bundle \<Rightarrow> nat" where
  "bundle_size b = length (ob_Objects b) + length (ob_DeletedObjects b)"

definition sync_start :: "('v, 'k) sync_config \<Rightarrow> (string, string \<times> string list) gomap \<Rightarrow> 'v body objects_bundle \<Rightarrow> 'k \<Rightarrow> ('v, 'k) sync_state" where
  "sync_start C ws b k =
     \<lparr>sy_todo = bundle_jobs (sc_enforceHohRbac C) b, sy_workers = ws, sy_lock = False, sy_queue = (\<lambda>_. []), sy_running = [],
      sy_waiting = int (bundle_size b), sy_api = k\<rparr>"

text \<open>\<^verbatim>\<open>Sync\<close> returns when everything is submitted and the waiting group is at zero.\<close>

definition sync_returns :: "('v, 'k) sync_state \<Rightarrow> bool" where
  "sync_returns s \<longleftrightarrow> sy_todo s = [] \<and> sy_waiting s = 0"

fun sync_run :: "('v, 'k) sync_config \<Rightarrow> sync_choice list \<Rightarrow> ('v, 'k) sync_state \<Rightarrow> ('v, 'k) sync_state option" where
  "sync_run C [] s = Some s"
| "sync_run C (c # cs) s = Option.bind (sync_step C c s) (sync_run C cs)"

section \<open>Every schedule ends\<close>

text \<open>
  Without RBAC every job goes to the shared queue. The jobs that are not finished yet are those to be
  submitted, queued or running; each job needs three steps.
\<close>

definition unfinished :: "('v, 'k) sync_state \<Rightarrow> 'v job list" where
  "unfinished s = sy_todo s @ sy_queue s Shared @ map snd (sy_running s)"

definition steps_left :: "('v, 'k) sync_state \<Rightarrow> nat" where
  "steps_left s = 3 * length (sy_todo s) + 2 * length (sy_queue s Shared) + length (sy_running s)"

definition job_runs :: "('v, 'k) sync_config \<Rightarrow> 'v job \<Rightarrow> bool" where
  "job_runs C j \<longleftrightarrow> (\<forall>k. run_job (sc_api C) (sc_enforceHohRbac C) None j k \<noteq> None)"

definition job_effect :: "('v, 'k) sync_config \<Rightarrow> 'v job \<Rightarrow> 'k \<Rightarrow> 'k" where
  "job_effect C j k = the (run_job (sc_api C) (sc_enforceHohRbac C) None j k)"

definition shared_inv :: "('v, 'k) sync_config \<Rightarrow> 'v job list \<Rightarrow> 'k \<Rightarrow> ('v, 'k) sync_state \<Rightarrow> bool" where
  "shared_inv C jobs k0 s \<longleftrightarrow>
     (\<exists>finished. mset jobs = mset finished + mset (unfinished s) \<and> sy_api s = fold (job_effect C) finished k0) \<and>
     sy_waiting s = int (length (unfinished s)) \<and> (\<forall>q. q \<noteq> Shared \<longrightarrow> sy_queue s q = []) \<and> fst ` set (sy_running s) \<subseteq> {Shared}"

definition no_identity :: "('v, 'k) sync_config \<Rightarrow> 'v job \<Rightarrow> bool" where
  "no_identity C j \<longleftrightarrow> GetUserIdentity (sc_decode C) (job_obj j) = Some NoIdentity"

lemma Submit_shared:
  "no_identity C j \<Longrightarrow> Submit C j s = push (sc_poolSize C) Shared j s"
  by (simp add: Submit_def no_identity_def)

lemma shared_inv_start:
  "shared_inv C (bundle_jobs (sc_enforceHohRbac C) b) k (sync_start C ws b k)"
  by (auto simp: shared_inv_def sync_start_def unfinished_def bundle_jobs_def bundle_size_def intro: exI [of _ "[]"])

lemma sync_step_shared:
  assumes "sync_step C c s = Some s'" "shared_inv C jobs k0 s" "\<forall>j \<in> set jobs. no_identity C j"
  shows "shared_inv C jobs k0 s' \<and> steps_left s = Suc (steps_left s')"
proof -
  from assms(2) obtain finished where F: "mset jobs = mset finished + mset (unfinished s)" "sy_api s = fold (job_effect C) finished k0"
    and W: "sy_waiting s = int (length (unfinished s))" and Q: "\<And>q. q \<noteq> Shared \<Longrightarrow> sy_queue s q = []"
    and R: "fst ` set (sy_running s) \<subseteq> {Shared}" by (auto simp: shared_inv_def)
  show ?thesis
  proof (cases c)
    case ChooseSubmit
    with assms(1) obtain j js s1 where j: "sy_todo s = j # js" "Submit C j s = Some s1" "s' = s1\<lparr>sy_todo := js\<rparr>"
      by (auto split: list.splits)
    have "j \<in># mset jobs" using F(1) j(1) by (simp add: unfinished_def)
    with assms(3) have "no_identity C j" by simp
    with j(2,3) have s': "s' = s\<lparr>sy_queue := (sy_queue s)(Shared := sy_queue s Shared @ [j]), sy_todo := js\<rparr>"
      by (auto simp: Submit_shared push_def split: if_splits)
    show ?thesis unfolding shared_inv_def
      using F W Q R j(1) by (auto simp: s' unfinished_def steps_left_def intro!: exI [of _ finished])
  next
    case (ChooseTake q)
    with assms(1) obtain j js where j: "sy_queue s q = j # js" "s' = s\<lparr>sy_queue := (sy_queue s)(q := js), sy_running := sy_running s @ [(q, j)]\<rparr>"
      by (auto split: list.splits if_splits)
    then have "q = Shared" using Q by fastforce
    with j show ?thesis unfolding shared_inv_def
      using F W Q R by (auto simp: unfinished_def steps_left_def intro!: exI [of _ finished])
  next
    case (ChooseFinish i)
    obtain q j where qj: "sy_running s ! i = (q, j)" by fastforce
    with ChooseFinish assms(1) have i: "i < length (sy_running s)" by (auto split: if_splits)
    then have "(q, j) \<in> set (sy_running s)" using qj nth_mem by fastforce
    with R have "q = Shared" by auto
    with ChooseFinish assms(1) qj i obtain k where k: "run_job (sc_api C) (sc_enforceHohRbac C) None j (sy_api s) = Some k"
      and s': "s' = s\<lparr>sy_api := k, sy_running := take i (sy_running s) @ drop (Suc i) (sy_running s), sy_waiting := sy_waiting s - 1\<rparr>"
      by (auto simp: client_of_def)
    have split: "sy_running s = take i (sy_running s) @ (q, j) # drop (Suc i) (sy_running s)"
      using id_take_nth_drop [OF i] qj by simp
    have m: "mset (unfinished s) = add_mset j (mset (unfinished s'))"
      using arg_cong [OF split, of "\<lambda>xs. mset (map snd xs)"] by (simp add: unfinished_def s')
    have len: "length (unfinished s) = Suc (length (unfinished s'))" using m by (metis size_add_mset size_mset)
    have "fst ` set (sy_running s') \<subseteq> {Shared}" using R by (auto simp: s' dest!: in_set_takeD in_set_dropD)
    moreover have "mset jobs = mset (finished @ [j]) + mset (unfinished s')" "sy_api s' = fold (job_effect C) (finished @ [j]) k0"
      using F m k by (simp_all add: s' job_effect_def)
    moreover have "sy_waiting s' = int (length (unfinished s'))" "\<forall>q. q \<noteq> Shared \<longrightarrow> sy_queue s' q = []" using W Q len by (simp_all add: s')
    ultimately have "shared_inv C jobs k0 s'" unfolding shared_inv_def by blast
    moreover have "steps_left s = Suc (steps_left s')" using i by (simp add: steps_left_def s')
    ultimately show ?thesis by simp
  qed
qed

lemma sync_run_shared:
  assumes "sync_run C cs s = Some s'" "shared_inv C jobs k0 s" "\<forall>j \<in> set jobs. no_identity C j"
  shows "shared_inv C jobs k0 s' \<and> steps_left s = length cs + steps_left s'"
  using assms
proof (induction cs arbitrary: s)
  case Nil
  then show ?case by simp
next
  case (Cons c cs)
  then obtain s1 where s1: "sync_step C c s = Some s1" "sync_run C cs s1 = Some s'" by (auto simp: bind_eq_Some_conv)
  from sync_step_shared [OF s1(1) Cons.prems(2,3)] Cons.IH [OF s1(2)] Cons.prems(3) show ?case by auto
qed

lemma sync_step_possible:
  assumes "shared_inv C jobs k0 s" "\<forall>j \<in> set jobs. no_identity C j \<and> job_runs C j" "0 < sc_poolSize C" "0 < steps_left s"
  shows "\<exists>c. sync_step C c s \<noteq> None"
proof -
  from assms(1) have sub: "set (unfinished s) \<subseteq> set jobs"
    by (auto simp: shared_inv_def) (metis UnI2 set_mset_mset set_mset_union)
  from assms(1) have R: "fst ` set (sy_running s) \<subseteq> {Shared}" by (simp add: shared_inv_def)
  show ?thesis
  proof (cases "sy_running s")
    case (Cons r rs)
    with R obtain j where r: "r = (Shared, j)" by (cases r) auto
    then have "j \<in> set jobs" using sub Cons by (auto simp: unfinished_def)
    with assms(2) have "run_job (sc_api C) (sc_enforceHohRbac C) None j (sy_api s) \<noteq> None" by (simp add: job_runs_def)
    then have "sync_step C (ChooseFinish 0) s \<noteq> None" using Cons r by (simp add: client_of_def)
    then show ?thesis by blast
  next
    case Nil
    show ?thesis
    proof (cases "sy_queue s Shared")
      case (Cons j js)
      then have "sync_step C (ChooseTake Shared) s \<noteq> None" using \<open>sy_running s = []\<close> assms(3) by (simp add: worker_count_def)
      then show ?thesis by blast
    next
      case Nil
      with \<open>sy_running s = []\<close> assms(4) obtain j js where j: "sy_todo s = j # js" by (cases "sy_todo s") (auto simp: steps_left_def)
      then have "no_identity C j" using sub assms(2) by (auto simp: unfinished_def)
      then have "sync_step C ChooseSubmit s \<noteq> None" using j Nil assms(3) by (simp add: Submit_shared push_def)
      then show ?thesis by blast
    qed
  qed
qed

lemma anonymize_no_identity: "GetUserIdentity decode (anonymize x) = Some NoIdentity"
proof -
  have "map_of (AList.delete UserGroupsAnnotation (AList.delete UserIdentityAnnotation (so_Annotations x))) UserIdentityAnnotation = None"
    by (simp add: UserIdentityAnnotation_def UserGroupsAnnotation_def)
  then show ?thesis by (simp add: GetUserIdentity_def decodeBase64IdentityAnnotation_def anonymize_def)
qed

lemma bundle_no_identity: "\<forall>j \<in> set (bundle_jobs False b). GetUserIdentity decode (job_obj j) = Some NoIdentity"
  by (auto simp: bundle_jobs_def prepare_def anonymize_no_identity)

lemma strip_anonymize: "strip_fields (anonymize x) = None \<longleftrightarrow> strip_fields x = None"
  by (simp add: strip_fields_def anonymize_def Let_def)

lemma bundle_jobs_run:
  assumes "\<not> sc_enforceHohRbac C" "\<forall>x \<in> set (ob_Objects b). strip_fields x \<noteq> None"
  shows "\<forall>j \<in> set (bundle_jobs False b). job_runs C j"
proof -
  have "strip_fields (anonymize x) \<noteq> None" if "x \<in> set (ob_Objects b)" for x using that assms(2) strip_anonymize [of x] by simp
  with assms(1) show ?thesis by (auto simp: bundle_jobs_def prepare_def job_runs_def update_job_def split: prod.splits)
qed

text \<open>
  C11: Without RBAC, applying a bundle always ends. Whatever the order in which jobs are submitted,
  taken and finished and whatever the API server answers, a schedule has at most three steps for
  each object; while the call has not returned, some step is possible, so it is never stuck; and it has
  returned exactly when all the steps are done. The field \<open>spec\<close> of the objects has to be a map, on
  which the code insists.
\<close>

theorem bundle_sync_returns:
  assumes "\<not> sc_enforceHohRbac C" "0 < sc_poolSize C" "\<forall>x \<in> set (ob_Objects b). strip_fields x \<noteq> None"
    and "sync_run C cs (sync_start C ws b k) = Some s"
  shows "length cs \<le> 3 * bundle_size b \<and> (sync_returns s \<longleftrightarrow> length cs = 3 * bundle_size b) \<and> (\<not> sync_returns s \<longrightarrow> (\<exists>c. sync_step C c s \<noteq> None))"
proof -
  let ?jobs = "bundle_jobs False b"
  have ids: "\<forall>j \<in> set ?jobs. no_identity C j" using bundle_no_identity by (simp add: no_identity_def)
  have inv0: "shared_inv C ?jobs k (sync_start C ws b k)" using shared_inv_start [of C b k ws] assms(1) by simp
  have run: "shared_inv C ?jobs k s" "steps_left (sync_start C ws b k) = length cs + steps_left s"
    using sync_run_shared [OF assms(4) inv0 ids] by auto
  have total: "length cs + steps_left s = 3 * bundle_size b"
    using run(2) by (simp add: steps_left_def sync_start_def bundle_jobs_def bundle_size_def)
  have ret: "sync_returns s \<longleftrightarrow> steps_left s = 0"
  proof -
    have "sy_waiting s = int (length (sy_todo s) + length (sy_queue s Shared) + length (sy_running s))"
      using run(1) by (simp add: shared_inv_def unfinished_def)
    then show ?thesis by (auto simp: sync_returns_def steps_left_def simp flip: length_0_conv)
  qed
  have "0 < steps_left s \<Longrightarrow> \<exists>c. sync_step C c s \<noteq> None"
    using sync_step_possible [OF run(1)] ids bundle_jobs_run [OF assms(1,3)] assms(2) by blast
  with total ret show ?thesis by auto
qed

section \<open>From the table to the hub\<close>

text \<open>
  What the API server has for the controller, when its calls succeed: a view of the objects by key, in
  which a patch puts what server-side apply (\<open>apply\<close>) makes of the sent object and the one that is there.
\<close>

definition hub_api_laws :: "('v, 'k) hub_api \<Rightarrow> ('k \<Rightarrow> string \<times> string \<times> string \<rightharpoonup> 'o) \<Rightarrow> ('v unstructured \<Rightarrow> 'o option \<Rightarrow> 'o) \<Rightarrow> bool" where
  "hub_api_laws api view apply \<longleftrightarrow>
     (\<forall>ns k. fst (ha_CreateNamespace api None ns k) \<and> view (snd (ha_CreateNamespace api None ns k)) = view k) \<and>
     (\<forall>x k. view (snd (ha_Patch api None x k)) = (view k)(object_key x \<mapsto> apply x (view k (object_key x)))) \<and>
     (\<forall>x k. view (snd (ha_Delete api None x k)) = (view k)(object_key x := None))"

fun job_target :: "('v unstructured \<Rightarrow> 'o option \<Rightarrow> 'o) \<Rightarrow> 'v job \<Rightarrow> 'o option \<Rightarrow> 'o option" where
  "job_target apply (UpdateJob x) old = Some (apply (the (strip_fields x)) old)"
| "job_target apply (DeleteJob x) old = None"

lemma strip_fields_key: "strip_fields x = Some y \<Longrightarrow> object_key y = object_key x"
  by (auto simp: strip_fields_def object_key_def Let_def)

lemma job_effect_view:
  assumes "hub_api_laws (sc_api C) view apply" "\<not> sc_enforceHohRbac C" "job_runs C j"
  shows "view (job_effect C j k) = (view k)(object_key (job_obj j) := job_target apply j (view k (object_key (job_obj j))))"
proof (cases j)
  case (UpdateJob x)
  obtain ok k1 where ns: "CreateNamespaceIfNotExist (sc_api C) None (so_Namespace x) k = (ok, k1)" by fastforce
  have v: "ok" "view k1 = view k"
    using assms(1) ns by (auto simp: hub_api_laws_def CreateNamespaceIfNotExist_def split: if_splits) (metis fst_conv snd_conv)+
  from assms(2,3) UpdateJob ns v(1) obtain y where y: "strip_fields x = Some y" 
    by (auto simp: job_runs_def update_job_def dest!: spec [of _ k])
  have "job_effect C j k = snd (ha_Patch (sc_api C) None y k1)" using UpdateJob assms(2) ns v(1) y by (simp add: job_effect_def update_job_def)
  then show ?thesis using assms(1) v(2) y strip_fields_key [OF y] UpdateJob by (simp add: hub_api_laws_def)
next
  case (DeleteJob x)
  then show ?thesis using assms(1) by (simp add: job_effect_def hub_api_laws_def)
qed

lemma jobs_effect_view:
  assumes "hub_api_laws (sc_api C) view apply" "\<not> sc_enforceHohRbac C" "\<forall>j \<in> set js. job_runs C j" "distinct (map (object_key \<circ> job_obj) js)"
  shows "view (fold (job_effect C) js k) key =
    (case find (\<lambda>j. object_key (job_obj j) = key) js of Some j \<Rightarrow> job_target apply j (view k key) | None \<Rightarrow> view k key)"
  using assms(3,4)
proof (induction js arbitrary: k)
  case Nil
  then show ?case by simp
next
  case (Cons j js)
  have "find (\<lambda>i. object_key (job_obj i) = object_key (job_obj j)) js = None"
    using Cons.prems(2) by (auto simp: find_None_iff image_iff)
  moreover have "view (fold (job_effect C) js (job_effect C j k)) key =
      (case find (\<lambda>i. object_key (job_obj i) = key) js of Some i \<Rightarrow> job_target apply i (view (job_effect C j k) key) | None \<Rightarrow> view (job_effect C j k) key)"
    by (rule Cons.IH) (use Cons.prems in simp_all)
  moreover have "view (job_effect C j k) key = (if object_key (job_obj j) = key then job_target apply j (view k key) else view k key)"
    using job_effect_view [OF assms(1,2), of j k] Cons.prems(1) by auto
  ultimately show ?case by (cases "object_key (job_obj j) = key") (auto split: option.splits)
qed

lemma find_unique:
  assumes "distinct (map f js)" "j \<in> set js"
  shows "find (\<lambda>i. f i = f j) js = Some j"
  using assms by (induction js) (auto simp: image_iff)

text \<open>The outcome of a run that has returned: some order of the jobs, one after the other.\<close>

lemma returned_view:
  assumes "\<not> sc_enforceHohRbac C" "\<forall>x \<in> set (ob_Objects b). strip_fields x \<noteq> None" "hub_api_laws (sc_api C) view apply"
    and "sync_run C cs (sync_start C ws b k) = Some s" "sync_returns s" "distinct (map (object_key \<circ> job_obj) (bundle_jobs False b))"
  shows "j \<in> set (bundle_jobs False b) \<Longrightarrow> view (sy_api s) (object_key (job_obj j)) = job_target apply j (view k (object_key (job_obj j)))"
    and "key \<notin> (object_key \<circ> job_obj) ` set (bundle_jobs False b) \<Longrightarrow> view (sy_api s) key = view k key"
proof -
  let ?jobs = "bundle_jobs False b"
  have ids: "\<forall>j \<in> set ?jobs. no_identity C j" using bundle_no_identity by (simp add: no_identity_def)
  have inv0: "shared_inv C ?jobs k (sync_start C ws b k)" using shared_inv_start [of C b k ws] assms(1) by simp
  have "shared_inv C ?jobs k s" using sync_run_shared [OF assms(4) inv0 ids] by simp
  moreover from this have "length (unfinished s) = 0" using assms(5) unfolding shared_inv_def sync_returns_def by linarith
  ultimately obtain finished where F: "mset ?jobs = mset finished" "sy_api s = fold (job_effect C) finished k" by (auto simp: shared_inv_def)
  have set: "set finished = set ?jobs" using mset_eq_setD [OF F(1)] by (rule sym)
  have "mset (map (object_key \<circ> job_obj) finished) = mset (map (object_key \<circ> job_obj) ?jobs)" using F(1) by simp
  then have dist: "distinct (map (object_key \<circ> job_obj) finished)" using assms(6) mset_eq_imp_distinct_iff by blast
  have eff: "view (sy_api s) key = (case find (\<lambda>j. object_key (job_obj j) = key) finished of Some j \<Rightarrow> job_target apply j (view k key) | None \<Rightarrow> view k key)" for key
    unfolding F(2) using jobs_effect_view [OF assms(3,1) _ dist] bundle_jobs_run [OF assms(1,2)] set by simp
  show "view (sy_api s) (object_key (job_obj j)) = job_target apply j (view k (object_key (job_obj j)))" if "j \<in> set ?jobs"
    using eff [of "object_key (job_obj j)"] find_unique [OF dist, of j] that set by simp
  show "view (sy_api s) key = view k key" if "key \<notin> (object_key \<circ> job_obj) ` set ?jobs"
  proof -
    have "find (\<lambda>j. object_key (job_obj j) = key) finished = None" using that set by (auto simp: find_None_iff)
    then show ?thesis using eff [of key] by simp
  qed
qed

definition origin_annotated :: "'x spec_row \<Rightarrow> 'x spec_object" where
  "origin_annotated r = setMetaDataAnnotation ''global-hub.open-cluster-management.io/origin-ownerreference-uid'' (sr_ID r) ((sr_Payload r)\<lparr>so_UID := []\<rparr>)"

definition sent_object :: "'v body spec_row \<Rightarrow> 'v unstructured" where
  "sent_object r = the (strip_fields (anonymize (origin_annotated r)))"

lemma add_rows_objects:
  "ob_Objects (add_rows rs b) = ob_Objects b @ map origin_annotated (filter (Not \<circ> sr_Deleted) rs)"
  "ob_DeletedObjects (add_rows rs b) = ob_DeletedObjects b @ map sr_Payload (filter sr_Deleted rs)"
  by (induction rs b rule: add_rows.induct) (simp_all add: AddObject_def AddDeletedObject_def origin_annotated_def)

lemma sent_keys [simp]:
  "object_key (anonymize x) = object_key x" "object_key (origin_annotated r) = object_key (sr_Payload r)"
  by (simp_all add: object_key_def anonymize_def origin_annotated_def setMetaDataAnnotation_def)

lemma strip_annotated: "strip_fields (origin_annotated r) = None \<longleftrightarrow> strip_fields (sr_Payload r) = None"
  by (simp add: strip_fields_def origin_annotated_def setMetaDataAnnotation_def Let_def)


section \<open>Jobs that are dropped\<close>

text \<open>
  With RBAC the jobs are spread over several queues. \<open>Q\<close> has every queued job with its queue. A job is
  identified if the pool finds out for whom to run it.
\<close>

definition identified :: "('v, 'k) sync_config \<Rightarrow> 'v job \<Rightarrow> bool" where
  "identified C j \<longleftrightarrow> GetUserIdentity (sc_decode C) (job_obj j) \<noteq> None"

definition rbac_inv :: "('v, 'k) sync_config \<Rightarrow> 'v job list \<Rightarrow> ('v, 'k) sync_state \<Rightarrow> bool" where
  "rbac_inv C jobs s \<longleftrightarrow>
     (\<exists>Q lost finished. mset jobs = mset (sy_todo s) + lost + image_mset snd (Q + mset (sy_running s)) + finished \<and>
        (\<forall>q. mset (sy_queue s q) = image_mset snd {#x \<in># Q. fst x = q#}) \<and>
        sy_waiting s = int (length jobs) - int (size finished) \<and>
        (\<forall>j \<in># image_mset snd (Q + mset (sy_running s)) + finished. identified C j))"

lemma rbac_inv_start: "rbac_inv C (bundle_jobs (sc_enforceHohRbac C) b) (sync_start C ws b k)"
  unfolding rbac_inv_def
  by (rule exI [of _ "{#}"], rule exI [of _ "{#}"], rule exI [of _ "{#}"]) (simp add: sync_start_def bundle_jobs_def bundle_size_def)

lemma Submit_outcome:
  assumes "Submit C j s = Some s'"
  shows "(s' = s\<lparr>sy_lock := sy_lock s'\<rparr>) \<or>
    (\<exists>q. identified C j \<and> s' = s\<lparr>sy_workers := sy_workers s', sy_queue := (sy_queue s)(q := sy_queue s q @ [j])\<rparr>)"
proof (cases "GetUserIdentity (sc_decode C) (job_obj j)")
  case None
  with assms show ?thesis by (simp add: Submit_def)
next
  case (Some u)
  then have "identified C j" by (simp add: identified_def)
  with assms Some show ?thesis
    by (auto simp: Submit_def push_def Let_def split: if_splits option.splits prod.splits)
qed

lemma rbac_invI:
  assumes "mset jobs = mset (sy_todo s) + lost + image_mset snd (Q + mset (sy_running s)) + finished"
    and "\<And>q. mset (sy_queue s q) = image_mset snd {#x \<in># Q. fst x = q#}"
    and "sy_waiting s = int (length jobs) - int (size finished)"
    and "\<And>j. j \<in># image_mset snd (Q + mset (sy_running s)) + finished \<Longrightarrow> identified C j"
  shows "rbac_inv C jobs s"
  unfolding rbac_inv_def using assms by blast

lemma sync_step_rbac:
  assumes "sync_step C c s = Some s'" "rbac_inv C jobs s"
  shows "rbac_inv C jobs s'"
proof -
  from assms(2) obtain Q lost finished where M: "mset jobs = mset (sy_todo s) + lost + image_mset snd (Q + mset (sy_running s)) + finished"
    and Q: "\<And>q. mset (sy_queue s q) = image_mset snd {#x \<in># Q. fst x = q#}"
    and W: "sy_waiting s = int (length jobs) - int (size finished)"
    and I: "\<And>j. j \<in># image_mset snd (Q + mset (sy_running s)) + finished \<Longrightarrow> identified C j" unfolding rbac_inv_def by blast
  show ?thesis
  proof (cases c)
    case ChooseSubmit
    with assms(1) obtain j js s1 where j: "sy_todo s = j # js" "Submit C j s = Some s1" "s' = s1\<lparr>sy_todo := js\<rparr>"
      by (auto split: list.splits)
    from Submit_outcome [OF j(2)] show ?thesis
    proof (elim disjE exE conjE)
      assume "s1 = s\<lparr>sy_lock := sy_lock s1\<rparr>"
      then obtain l where s1: "s1 = s\<lparr>sy_lock := l\<rparr>" by blast
      show ?thesis by (rule rbac_invI [of _ _ "add_mset j lost" Q finished]) (use M Q W I j in \<open>simp_all add: s1\<close>)
    next
      fix q
      assume id: "identified C j" and "s1 = s\<lparr>sy_workers := sy_workers s1, sy_queue := (sy_queue s)(q := sy_queue s q @ [j])\<rparr>"
      then obtain w where s1: "s1 = s\<lparr>sy_workers := w, sy_queue := (sy_queue s)(q := sy_queue s q @ [j])\<rparr>" by blast
      show ?thesis by (rule rbac_invI [of _ _ lost "add_mset (q, j) Q" finished]) (use M Q W I j id in \<open>auto simp: s1\<close>)
    qed
  next
    case (ChooseTake q)
    with assms(1) obtain j js where j: "sy_queue s q = j # js" "s' = s\<lparr>sy_queue := (sy_queue s)(q := js), sy_running := sy_running s @ [(q, j)]\<rparr>"
      by (auto split: list.splits if_splits)
    have "j \<in># image_mset snd {#x \<in># Q. fst x = q#}" using Q [of q] j(1) by (simp flip: Q)
    then obtain Q' where Q': "Q = add_mset (q, j) Q'" by (auto dest!: multi_member_split)
    have "mset (sy_queue s' p) = image_mset snd {#x \<in># Q'. fst x = p#}" for p using Q [of p] j by (auto simp: Q' split: if_splits)
    then show ?thesis by (rule rbac_invI [of _ _ lost Q' finished, rotated]) (use M W I j in \<open>auto simp: Q'\<close>)
  next
    case (ChooseFinish i)
    obtain q j where qj: "sy_running s ! i = (q, j)" by fastforce
    with ChooseFinish assms(1) obtain k where i: "i < length (sy_running s)"
      and s': "s' = s\<lparr>sy_api := k, sy_running := take i (sy_running s) @ drop (Suc i) (sy_running s), sy_waiting := sy_waiting s - 1\<rparr>"
      by (auto split: if_splits)
    have R: "mset (sy_running s) = add_mset (q, j) (mset (sy_running s'))"
      using arg_cong [OF id_take_nth_drop [OF i], of mset] qj by (simp add: s')
    show ?thesis by (rule rbac_invI [of _ _ lost Q "add_mset j finished"]) (use M Q W I in \<open>auto simp: R\<close>, simp_all add: s' W Q)
  qed
qed

lemma sync_run_rbac: "sync_run C cs s = Some s' \<Longrightarrow> rbac_inv C jobs s \<Longrightarrow> rbac_inv C jobs s'"
  by (induction cs arbitrary: s) (auto simp: bind_eq_Some_conv dest: sync_step_rbac)

text \<open>
  C29: With RBAC, one object whose identity annotation is not valid base64 stops the agent: the pool drops
  its job without telling the waiting group, so in no schedule does the call that applies the bundle
  return, and the dispatcher handles no further event.
\<close>

theorem dropped_job_blocks_sync:
  assumes "sc_enforceHohRbac C" "x \<in> set (ob_Objects b) \<union> set (ob_DeletedObjects b)" "GetUserIdentity (sc_decode C) x = None"
    and "sync_run C cs (sync_start C ws b k) = Some s"
  shows "\<not> sync_returns s"
proof
  assume ret: "sync_returns s"
  let ?jobs = "bundle_jobs True b"
  have "rbac_inv C ?jobs s" using sync_run_rbac [OF assms(4) rbac_inv_start] assms(1) by simp
  then obtain Q lost finished where M: "mset ?jobs = mset (sy_todo s) + lost + image_mset snd (Q + mset (sy_running s)) + finished"
    and W: "sy_waiting s = int (length ?jobs) - int (size finished)"
    and I: "\<forall>j \<in># image_mset snd (Q + mset (sy_running s)) + finished. identified C j" unfolding rbac_inv_def by blast
  obtain j where j: "j \<in> set ?jobs" "\<not> identified C j"
    using assms(2,3) by (force simp: bundle_jobs_def prepare_def identified_def)
  have "size finished = size (mset ?jobs)" using W ret by (simp add: sync_returns_def)
  moreover have "finished \<subseteq># mset ?jobs" unfolding M by simp
  ultimately have "finished = mset ?jobs" by (metis subset_mset.less_le mset_subset_size less_irrefl)
  with I j show False by auto
qed

section \<open>A run\<close>

text \<open>An API server in memory: a map from keys to objects, in which apply replaces the object.\<close>

type_synonym hub_store = "(string \<times> string \<times> string, int unstructured) gomap"

definition mem_hub :: "(int, hub_store) hub_api" where
  "mem_hub = \<lparr>ha_CreateNamespace = (\<lambda>_ _ k. (True, k)), ha_Patch = (\<lambda>_ x k. (True, AList.update (object_key x) x k)),
     ha_Delete = (\<lambda>_ x k. (Deleted, AList.delete (object_key x) k))\<rparr>"

lemma mem_hub_store_laws: "hub_api_laws mem_hub map_of (\<lambda>x _. x)"
  by (simp add: hub_api_laws_def mem_hub_def)

definition ex_spec_config :: "bool \<Rightarrow> (int, hub_store) sync_config" where
  "ex_spec_config rbac = \<lparr>sc_decode = (\<lambda>s. if s = ''#'' then None else Some s), sc_Impersonate = (\<lambda>_ _. True), sc_poolSize = 1,
     sc_enforceHohRbac = rbac, sc_api = mem_hub\<rparr>"

definition ex_body :: "int body" where
  "ex_body = \<lparr>bd_Kind = ''Placement'', bd_Fields = [(''spec'', FieldMap [(''spreadPolicy'', 1), (''clusterSets'', 2)]), (''status'', FieldOther 3)]\<rparr>"

definition ex_spec_rows :: "int body spec_row list" where
  "ex_spec_rows = [\<lparr>sr_ID = ''u1'', sr_Payload = sample_object ''a'' ''u1'' ex_body, sr_UpdatedAt = 5, sr_Deleted = False\<rparr>,
     \<lparr>sr_ID = ''u2'', sr_Payload = sample_object ''b'' ''u2'' ex_body, sr_UpdatedAt = 6, sr_Deleted = True\<rparr>]"

definition ex_sent :: "(bundle_error + bool) \<times> int \<times> int body objects_bundle option" where
  "ex_sent = syncObjectsBundle mem_spec_table (\<lambda>_. True) 0 ex_spec_rows"

definition ex_bundle :: "int body objects_bundle" where
  "ex_bundle = the (snd (snd ex_sent))"

lemma ex_sent_eq: "ex_sent = (Inr True, 6, Some ex_bundle)"
  by code_simp

definition ex_hub :: hub_store where
  "ex_hub = [((''Placement'', ''ns'', ''b''), sample_object ''b'' [] ex_body), ((''Placement'', ''ns'', ''c''), sample_object ''c'' [] ex_body)]"

definition ex_schedule :: "sync_choice list" where
  "ex_schedule = [ChooseSubmit, ChooseTake Shared, ChooseSubmit, ChooseFinish 0, ChooseTake Shared, ChooseFinish 0]"

lemma ex_schedule_runs: "map_option sync_returns (sync_run (ex_spec_config False) ex_schedule (sync_start (ex_spec_config False) [] ex_bundle ex_hub)) = Some True"
  by code_simp

lemma ex_rows_ok: "spec_rows_ok (set ex_spec_rows)"
  by (simp add: spec_rows_ok_def ex_spec_rows_def sample_object_def row_name_def)

lemma ex_rows_shape: "list_all (\<lambda>r. bd_Kind (so_Body (sr_Payload r)) = ''Placement'' \<and> strip_fields (sr_Payload r) \<noteq> None) ex_spec_rows"
  by code_simp

lemma ex_objects_shape: "list_all (\<lambda>x. strip_fields x \<noteq> None) (ob_Objects ex_bundle) \<and> bundle_size ex_bundle = 2"
  by code_simp

theorem bundle_sync_returns_witness:
  "\<exists>s. sync_run (ex_spec_config False) ex_schedule (sync_start (ex_spec_config False) [] ex_bundle ex_hub) = Some s \<and> sync_returns s"
proof -
  obtain s where run: "sync_run (ex_spec_config False) ex_schedule (sync_start (ex_spec_config False) [] ex_bundle ex_hub) = Some s"
    using ex_schedule_runs by auto
  have "\<not> sc_enforceHohRbac (ex_spec_config False)" "0 < sc_poolSize (ex_spec_config False)" by (simp_all add: ex_spec_config_def)
  moreover have "\<forall>x \<in> set (ob_Objects ex_bundle). strip_fields x \<noteq> None" using ex_objects_shape by (simp add: list_all_iff)
  ultimately have "sync_returns s \<longleftrightarrow> length ex_schedule = 3 * bundle_size ex_bundle"
    using bundle_sync_returns [OF _ _ _ run] by simp
  then show ?thesis using run ex_objects_shape by (simp add: ex_schedule_def)
qed


definition ex_bad_bundle :: "int body objects_bundle" where
  "ex_bad_bundle = \<lparr>ob_Objects = [(sample_object ''a'' ''u1'' ex_body)\<lparr>so_Annotations := [(UserIdentityAnnotation, ''#'')]\<rparr>], ob_DeletedObjects = []\<rparr>"

theorem dropped_job_blocks_sync_witness:
  "\<exists>s. sync_run (ex_spec_config True) [ChooseSubmit] (sync_start (ex_spec_config True) [] ex_bad_bundle []) = Some s \<and> \<not> sync_returns s"
proof -
  have "sync_run (ex_spec_config True) [ChooseSubmit] (sync_start (ex_spec_config True) [] ex_bad_bundle []) \<noteq> None" by code_simp
  then obtain s where run: "sync_run (ex_spec_config True) [ChooseSubmit] (sync_start (ex_spec_config True) [] ex_bad_bundle []) = Some s" by blast
  have "\<exists>x \<in> set (ob_Objects ex_bad_bundle). GetUserIdentity (sc_decode (ex_spec_config True)) x = None" by code_simp
  then obtain x where x: "x \<in> set (ob_Objects ex_bad_bundle)" "GetUserIdentity (sc_decode (ex_spec_config True)) x = None" by blast
  from dropped_job_blocks_sync [OF _ _ x(2) run] x(1) run show ?thesis by (auto simp: ex_spec_config_def)
qed

end
