(* ===== verification/AgentMigration.thy ===== *)
theory AgentMigration
  imports AgentSpec
begin

text \<open>
  Moving managed clusters between hubs, on the hubs: \<^verbatim>\<open>agent/pkg/spec/syncers/migration_from_syncer.go\<close> on
  the hub that gives clusters away and \<^verbatim>\<open>agent/pkg/spec/syncers/migration_to_syncer.go\<close> on the hub that takes them.

  The API server is a parameter: every call may fail, and a call that fails may have had its effect or
  not. A cluster has the fields that the code reads and writes. A deletion only begins when the call
  returns: the object is gone or marked.
\<close>

section \<open>Steps that may fail\<close>

type_synonym 's step = "'s \<Rightarrow> sync_result \<times> 's"

definition then_ok :: "'s step \<Rightarrow> 's step \<Rightarrow> 's step" where
  "then_ok f g s = (case f s of (SyncOk, s1) \<Rightarrow> g s1 | r \<Rightarrow> r)"

fun each_ok :: "('a \<Rightarrow> 's step) \<Rightarrow> 'a list \<Rightarrow> 's step" where
  "each_ok f [] s = (SyncOk, s)"
| "each_ok f (x # xs) s = then_ok (f x) (each_ok f xs) s"

datatype 'a get_result = GetNotFound | GetFailed | GetFound 'a

section \<open>The hub that gives clusters away\<close>

record migrating_cluster =
  mi_Annotations :: "(string, string) gomap"
  mi_HubAcceptsClient :: bool
  mi_Deleting :: bool

record bootstrap_secret =
  bs_Name :: string
  bs_Namespace :: string
  bs_kubeconfig :: string

record klusterlet_config =
  kc_Name :: string
  kc_KubeConfigSecrets :: "string list"

text \<open>\<open>'a\<close> is what an addon configuration has besides the metadata that is cleared before it is sent.\<close>

record 'a addon_config =
  ac_Name :: string
  ac_Namespace :: string
  ac_Cleared :: "string list"
  ac_Content :: 'a

record ManagedClusterMigrationFromEvent =
  fe_ManagedClusters :: "string list"
  fe_BootstrapSecret :: bootstrap_secret
  fe_KlusterletConfig :: klusterlet_config

record ('a, 'k) from_api =
  fa_GetSecret :: "string \<times> string \<Rightarrow> 'k \<Rightarrow> bootstrap_secret get_result"
  fa_CreateSecret :: "bootstrap_secret \<Rightarrow> 'k step"
  fa_UpdateSecret :: "bootstrap_secret \<Rightarrow> 'k step"
  fa_GetKlusterletConfig :: "string \<Rightarrow> 'k \<Rightarrow> klusterlet_config get_result"
  fa_CreateKlusterletConfig :: "klusterlet_config \<Rightarrow> 'k step"
  fa_GetCluster :: "string \<Rightarrow> 'k \<Rightarrow> migrating_cluster get_result"
  fa_UpdateCluster :: "string \<Rightarrow> migrating_cluster \<Rightarrow> 'k step"
  fa_DeleteCluster :: "string \<Rightarrow> 'k step"
  fa_GetAddonConfig :: "string \<Rightarrow> 'k \<Rightarrow> 'a addon_config get_result"
  fa_SendEvent :: "'a addon_config Event \<Rightarrow> 'k step"
  fa_Sleep :: "'k \<Rightarrow> 'k"

definition klusterlet_annotation :: string where
  "klusterlet_annotation = ''agent.open-cluster-management.io/klusterlet-config''"

definition ManagedClusterMigrating :: string where
  "ManagedClusterMigrating = ''global-hub.open-cluster-management.io/migrating''"

definition ensure_bootstrap_secret :: "('a, 'k) from_api \<Rightarrow> bootstrap_secret \<Rightarrow> 'k step" where
  "ensure_bootstrap_secret api secret k =
     (case fa_GetSecret api (bs_Name secret, bs_Namespace secret) k of
        GetNotFound \<Rightarrow> fa_CreateSecret api secret k
      | GetFailed \<Rightarrow> (SyncFailed, k)
      | GetFound _ \<Rightarrow> fa_UpdateSecret api secret k)"

definition ensure_klusterlet_config :: "('a, 'k) from_api \<Rightarrow> string \<Rightarrow> klusterlet_config \<Rightarrow> 'k step" where
  "ensure_klusterlet_config api secret_name config k =
     (case fa_GetKlusterletConfig api (kc_Name config) k of
        GetNotFound \<Rightarrow> fa_CreateKlusterletConfig api (config\<lparr>kc_KubeConfigSecrets := [secret_name]\<rparr>) k
      | GetFailed \<Rightarrow> (SyncFailed, k)
      | GetFound _ \<Rightarrow> (SyncOk, k))"

definition is_migrating :: "string \<Rightarrow> migrating_cluster \<Rightarrow> bool" where
  "is_migrating config_name mc \<longleftrightarrow>
     map_of (mi_Annotations mc) ManagedClusterMigrating \<noteq> None \<and> map_of (mi_Annotations mc) klusterlet_annotation = Some config_name"

definition set_migrating :: "string \<Rightarrow> migrating_cluster \<Rightarrow> migrating_cluster" where
  "set_migrating config_name mc =
     mc\<lparr>mi_Annotations := AList.update ManagedClusterMigrating [] (AList.update klusterlet_annotation config_name (mi_Annotations mc))\<rparr>"

definition annotate_cluster :: "('a, 'k) from_api \<Rightarrow> string \<Rightarrow> string \<Rightarrow> 'k step" where
  "annotate_cluster api config_name managedCluster k =
     (case fa_GetCluster api managedCluster k of
        GetNotFound \<Rightarrow> (SyncFailed, k)
      | GetFailed \<Rightarrow> (SyncFailed, k)
      | GetFound mc \<Rightarrow> if is_migrating config_name mc then (SyncOk, k) else fa_UpdateCluster api managedCluster (set_migrating config_name mc) k)"

text \<open>The event has the version 0.1, as every first event has, and names the global hub as its source.\<close>

definition addon_config_event :: "'a addon_config \<Rightarrow> 'a addon_config Event" where
  "addon_config_event config =
     \<lparr>evt_Type = event_type KlusterletAddonConfigType, evt_Source = ''global-hub'', evt_ID = [],
      evt_Extensions = [ExtVersion \<mapsto> ExtString (version_String (Incr NewVersion))], evt_Data = config\<lparr>ac_Cleared := []\<rparr>\<rparr>"

definition sendKlusterletAddonConfig :: "('a, 'k) from_api \<Rightarrow> string \<Rightarrow> 'k step" where
  "sendKlusterletAddonConfig api managedCluster k =
     (case fa_GetAddonConfig api managedCluster k of
        GetNotFound \<Rightarrow> (SyncOk, k)
      | GetFailed \<Rightarrow> (SyncFailed, k)
      | GetFound config \<Rightarrow>
          (case fa_SendEvent api (addon_config_event config) k of (SyncOk, k1) \<Rightarrow> (SyncOk, k1) | (_, k1) \<Rightarrow> (SyncFailed, k1)))"

definition reject_cluster :: "('a, 'k) from_api \<Rightarrow> string \<Rightarrow> 'k step" where
  "reject_cluster api managedCluster k =
     (case fa_GetCluster api managedCluster k of
        GetNotFound \<Rightarrow> (SyncFailed, k)
      | GetFailed \<Rightarrow> (SyncFailed, k)
      | GetFound mc \<Rightarrow> fa_UpdateCluster api managedCluster (mc\<lparr>mi_HubAcceptsClient := False\<rparr>) k)"

definition detach_cluster :: "('a, 'k) from_api \<Rightarrow> string \<Rightarrow> 'k step" where
  "detach_cluster api managedCluster k =
     (case fa_GetCluster api managedCluster k of
        GetNotFound \<Rightarrow> (SyncOk, k)
      | GetFailed \<Rightarrow> (SyncFailed, k)
      | GetFound mc \<Rightarrow> if \<not> mi_HubAcceptsClient mc then fa_DeleteCluster api managedCluster k else (SyncOk, k))"

definition detachManagedClusters :: "('a, 'k) from_api \<Rightarrow> string list \<Rightarrow> 'k step" where
  "detachManagedClusters api managedClusters = each_ok (detach_cluster api) managedClusters"

definition sleeping :: "('a, 'k) from_api \<Rightarrow> 'k step" where
  "sleeping api k = (SyncOk, fa_Sleep api k)"

definition from_Sync :: "('a, 'k) from_api \<Rightarrow> ManagedClusterMigrationFromEvent option \<Rightarrow> 'k step" where
  "from_Sync api payload k =
     (case payload of
        None \<Rightarrow> (SyncFailed, k)
      | Some ev \<Rightarrow>
          let secret = fe_BootstrapSecret ev; config = fe_KlusterletConfig ev; managedClusters = fe_ManagedClusters ev
          in then_ok (ensure_bootstrap_secret api secret)
            (then_ok (ensure_klusterlet_config api (bs_Name secret) config)
            (then_ok (each_ok (annotate_cluster api (kc_Name config)) managedClusters)
            (then_ok (each_ok (sendKlusterletAddonConfig api) managedClusters)
            (then_ok (sleeping api)
            (then_ok (each_ok (reject_cluster api) managedClusters)
            (then_ok (sleeping api)
               (detachManagedClusters api managedClusters))))))) k)"

section \<open>The hub that takes clusters\<close>

datatype gate_mode = GateEnable | GateDisable

record registration_configuration =
  rc_FeatureGates :: "(string \<times> gate_mode) list"
  rc_AutoApproveUsers :: "string list"

text \<open>A cluster manager has a resource version, with which the API server finds out that an update is based on an old state.\<close>

record cluster_manager =
  cm_ResourceVersion :: nat
  cm_RegistrationConfiguration :: "registration_configuration option"

datatype rbac_object =
  ClusterRole string "(string list \<times> string list \<times> string list) list"
| ClusterRoleBinding string "(string \<times> string \<times> string) list" "string \<times> string \<times> string"

fun rbac_name :: "rbac_object \<Rightarrow> bool \<times> string" where
  "rbac_name (ClusterRole name _) = (False, name)"
| "rbac_name (ClusterRoleBinding name _ _) = (True, name)"

record 'a ManagedClusterMigrationToEvent =
  te_ManagedServiceAccountName :: string
  te_ManagedServiceAccountInstallNamespace :: string
  te_KlusterletAddonConfig :: "'a addon_config option"

record ('a, 'k) to_api =
  ta_GetClusterManager :: "'k \<Rightarrow> cluster_manager get_result"
  ta_UpdateClusterManager :: "cluster_manager \<Rightarrow> 'k step"
  ta_GetRbac :: "bool \<times> string \<Rightarrow> 'k \<Rightarrow> rbac_object get_result"
  ta_CreateRbac :: "rbac_object \<Rightarrow> 'k step"
  ta_UpdateRbac :: "rbac_object \<Rightarrow> 'k step"
  ta_CreateAddonConfig :: "'a addon_config \<Rightarrow> 'k step"

text \<open>The first gate of the name is switched on, or the gate is appended; the flag says whether something changed.\<close>

fun enable_gate :: "string \<Rightarrow> (string \<times> gate_mode) list \<Rightarrow> bool \<times> (string \<times> gate_mode) list" where
  "enable_gate feature [] = (True, [(feature, GateEnable)])"
| "enable_gate feature ((f, mode) # gates) =
     (if f = feature then (mode \<noteq> GateEnable, (f, GateEnable) # gates)
      else let (changed, gates1) = enable_gate feature gates in (changed, (f, mode) # gates1))"

definition auto_approve :: "string \<Rightarrow> cluster_manager \<Rightarrow> bool \<times> cluster_manager" where
  "auto_approve autoApproveUser m =
     (case cm_RegistrationConfiguration m of
        None \<Rightarrow> (True, m\<lparr>cm_RegistrationConfiguration := Some \<lparr>rc_FeatureGates = [(''ManagedClusterAutoApproval'', GateEnable)], rc_AutoApproveUsers = [autoApproveUser]\<rparr>\<rparr>)
      | Some rc \<Rightarrow>
          let (changed, gates) = enable_gate ''ManagedClusterAutoApproval'' (rc_FeatureGates rc);
              added = (autoApproveUser \<in> set (rc_AutoApproveUsers rc));
              users = (if added then rc_AutoApproveUsers rc else rc_AutoApproveUsers rc @ [autoApproveUser])
          in (changed \<or> \<not> added, m\<lparr>cm_RegistrationConfiguration := Some \<lparr>rc_FeatureGates = gates, rc_AutoApproveUsers = users\<rparr>\<rparr>))"

text \<open>The error of an update is logged and not returned.\<close>

definition ensureClusterManager :: "('a, 'k) to_api \<Rightarrow> string \<Rightarrow> string \<Rightarrow> 'k step" where
  "ensureClusterManager api msaName msaNamespace k =
     (case ta_GetClusterManager api k of
        GetNotFound \<Rightarrow> (SyncFailed, k)
      | GetFailed \<Rightarrow> (SyncFailed, k)
      | GetFound found \<Rightarrow>
          let (clusterManagerChanged, clusterManager) = auto_approve (''system:serviceaccount:'' @ msaNamespace @ '':'' @ msaName) found
          in (SyncOk, if clusterManagerChanged then snd (RetryOnConflict DefaultBackoffSteps (ta_UpdateClusterManager api clusterManager) k) else k))"

text \<open>\<open>derives\<close> is the library's comparison of the wanted object with the one that is there.\<close>

definition ensure_rbac :: "('a, 'k) to_api \<Rightarrow> (rbac_object \<Rightarrow> rbac_object \<Rightarrow> bool) \<Rightarrow> rbac_object \<Rightarrow> 'k step" where
  "ensure_rbac api derives wanted k =
     (case ta_GetRbac api (rbac_name wanted) k of
        GetNotFound \<Rightarrow> ta_CreateRbac api wanted k
      | GetFailed \<Rightarrow> (SyncFailed, k)
      | GetFound found \<Rightarrow> (SyncOk, if \<not> derives wanted found then snd (RetryOnConflict DefaultBackoffSteps (ta_UpdateRbac api wanted) k) else k))"

definition migration_role_name :: "string \<Rightarrow> string" where
  "migration_role_name msaName = ''multicluster-global-hub-migration:'' @ msaName"

definition ensureMigrationClusterRole :: "('a, 'k) to_api \<Rightarrow> (rbac_object \<Rightarrow> rbac_object \<Rightarrow> bool) \<Rightarrow> string \<Rightarrow> 'k step" where
  "ensureMigrationClusterRole api derives msaName =
     ensure_rbac api derives (ClusterRole (migration_role_name msaName) [([''authorization.k8s.io''], [''subjectaccessreviews''], [''create''])])"

definition ensureRegistrationClusterRoleBinding :: "('a, 'k) to_api \<Rightarrow> (rbac_object \<Rightarrow> rbac_object \<Rightarrow> bool) \<Rightarrow> string \<Rightarrow> string \<Rightarrow> 'k step" where
  "ensureRegistrationClusterRoleBinding api derives msaName msaNamespace =
     ensure_rbac api derives (ClusterRoleBinding (''agent-registration-clusterrolebinding:'' @ msaName) [(''ServiceAccount'', msaName, msaNamespace)]
       (''ClusterRole'', ''open-cluster-management:managedcluster:bootstrap:agent-registration'', ''rbac.authorization.k8s.io''))"

definition ensureSARClusterRoleBinding :: "('a, 'k) to_api \<Rightarrow> (rbac_object \<Rightarrow> rbac_object \<Rightarrow> bool) \<Rightarrow> string \<Rightarrow> string \<Rightarrow> 'k step" where
  "ensureSARClusterRoleBinding api derives msaName msaNamespace =
     ensure_rbac api derives (ClusterRoleBinding (msaName @ ''-subjectaccessreviews-clusterrolebinding'') [(''ServiceAccount'', msaName, msaNamespace)]
       (''ClusterRole'', migration_role_name msaName, ''rbac.authorization.k8s.io''))"

text \<open>
  The creation of the addon configuration is tried every second for three minutes; \<open>attempts\<close> is the
  number of tries that fit in.
\<close>

fun create_poll :: "nat \<Rightarrow> ('a, 'k) to_api \<Rightarrow> 'a addon_config \<Rightarrow> 'k step" where
  "create_poll 0 api config k = (SyncFailed, k)"
| "create_poll (Suc attempts) api config k =
     (case ta_CreateAddonConfig api config k of (SyncOk, k1) \<Rightarrow> (SyncOk, k1) | (_, k1) \<Rightarrow> create_poll attempts api config k1)"

definition to_Sync ::
    "('a, 'k) to_api \<Rightarrow> (rbac_object \<Rightarrow> rbac_object \<Rightarrow> bool) \<Rightarrow> nat \<Rightarrow> 'a ManagedClusterMigrationToEvent option \<Rightarrow> 'k step" where
  "to_Sync api derives attempts payload k =
     (case payload of
        None \<Rightarrow> (SyncFailed, k)
      | Some ev \<Rightarrow>
          let msaName = te_ManagedServiceAccountName ev; msaNamespace = te_ManagedServiceAccountInstallNamespace ev
          in then_ok (ensureClusterManager api msaName msaNamespace)
            (then_ok (ensureMigrationClusterRole api derives msaName)
            (then_ok (ensureRegistrationClusterRoleBinding api derives msaName msaNamespace)
            (then_ok (ensureSARClusterRoleBinding api derives msaName msaNamespace)
               (case te_KlusterletAddonConfig ev of None \<Rightarrow> (\<lambda>s. (SyncOk, s)) | Some config \<Rightarrow> create_poll attempts api config)))) k)"

section \<open>Clusters leave in stages\<close>

text \<open>
  What the API server promises about clusters (\<open>view\<close>): a read tells the truth, a write that succeeds has its
  effect and one that fails has it or not, and the other calls, and the time that is slept, leave
  clusters alone.
\<close>

definition from_laws :: "('a, 'k) from_api \<Rightarrow> ('k \<Rightarrow> string \<rightharpoonup> migrating_cluster) \<Rightarrow> bool" where
  "from_laws api view \<longleftrightarrow>
     (\<forall>n k x. fa_GetCluster api n k = GetFound x \<longrightarrow> view k n = Some x) \<and>
     (\<forall>n k. fa_GetCluster api n k = GetNotFound \<longrightarrow> view k n = None) \<and>
     (\<forall>n x k r k'. fa_UpdateCluster api n x k = (r, k') \<longrightarrow> view k' = view k \<and> r \<noteq> SyncOk \<or> view k' = (view k)(n \<mapsto> x)) \<and>
     (\<forall>n k r k'. fa_DeleteCluster api n k = (r, k') \<longrightarrow> view k' = view k \<and> r \<noteq> SyncOk \<or>
        (\<exists>w. view k' = (view k)(n := w) \<and> (w = None \<or> w = map_option (\<lambda>x. x\<lparr>mi_Deleting := True\<rparr>) (view k n)))) \<and>
     (\<forall>s k. view (snd (fa_CreateSecret api s k)) = view k \<and> view (snd (fa_UpdateSecret api s k)) = view k) \<and>
     (\<forall>c k. view (snd (fa_CreateKlusterletConfig api c k)) = view k) \<and>
     (\<forall>e k. view (snd (fa_SendEvent api e k)) = view k) \<and>
     (\<forall>k. view (fa_Sleep api k) = view k)"

lemma then_ok_cases:
  assumes "then_ok f g s = (r, s')"
  shows "(\<exists>s1. f s = (SyncOk, s1) \<and> g s1 = (r, s')) \<or> f s = (r, s') \<and> r \<noteq> SyncOk"
  using assms by (auto simp: then_ok_def split: prod.splits sync_result.splits)

text \<open>
  A stage goes over the clusters one by one. \<open>ok a b\<close> says that a cluster \<open>a\<close> is \<open>b\<close> after the stage. A step
  changes its cluster accordingly, or leaves it, which is a success only if it is fine as it is.
\<close>

lemma stage:
  assumes "each_ok f xs k = (r, k')"
    and step: "\<And>n k r k'. f n k = (r, k') \<Longrightarrow>
      view k' = view k \<and> (r = SyncOk \<longrightarrow> ok (view k n) (view k n)) \<or> (\<exists>w. view k' = (view k)(n := w) \<and> ok (view k n) w)"
    and trans: "\<And>a b c. ok a b \<Longrightarrow> ok b c \<Longrightarrow> ok a c"
  shows "(\<forall>n. n \<notin> set xs \<longrightarrow> view k' n = view k n) \<and> (\<forall>n \<in> set xs. view k' n = view k n \<or> ok (view k n) (view k' n)) \<and>
    (r = SyncOk \<longrightarrow> (\<forall>n \<in> set xs. ok (view k n) (view k' n)))"
  using assms(1)
proof (induction xs arbitrary: k)
  case Nil
  then show ?case by simp
next
  case (Cons x xs)
  from then_ok_cases [OF Cons.prems [unfolded each_ok.simps]] show ?case
  proof (elim disjE exE conjE)
    fix k1
    assume k1: "f x k = (SyncOk, k1)" "each_ok f xs k1 = (r, k')"
    note IH = Cons.IH [OF k1(2)]
    have others: "view k1 n = view k n" if "n \<noteq> x" for n using step [OF k1(1)] that by auto
    have x: "ok (view k x) (view k1 x)" using step [OF k1(1)] by auto
    have x': "ok (view k x) (view k' x)"
    proof (cases "view k' x = view k1 x")
      case False
      with IH have "ok (view k1 x) (view k' x)" by blast
      with x show ?thesis by (rule trans)
    qed (use x in simp)
    have "n = x \<or> n \<noteq> x \<and> n \<in> set xs" if "n \<in> set (x # xs)" for n using that by auto
    with IH others x' show ?thesis by (simp add: others) (metis others)
  next
    assume "f x k = (r, k')" "r \<noteq> SyncOk"
    with step [OF this(1)] show ?thesis by auto
  qed
qed

lemma each_ok_quiet:
  assumes "\<And>x k. view (snd (f x k)) = view k" "each_ok f xs k = (r, k')"
  shows "view k' = view k"
  using assms(2)
proof (induction xs arbitrary: k)
  case Nil
  then show ?case by simp
next
  case (Cons x xs)
  from then_ok_cases [OF Cons.prems [unfolded each_ok.simps]] Cons.IH assms(1) [of x k] show ?case by auto
qed

definition mark_migrating :: "string \<Rightarrow> migrating_cluster \<Rightarrow> migrating_cluster" where
  "mark_migrating config_name mc = (if is_migrating config_name mc then mc else set_migrating config_name mc)"

definition prepared :: "string \<Rightarrow> migrating_cluster option \<Rightarrow> migrating_cluster option \<Rightarrow> bool" where
  "prepared config_name a b \<longleftrightarrow> (\<exists>x. a = Some x \<and> b = Some (mark_migrating config_name x))"

definition rejected :: "string \<Rightarrow> migrating_cluster option \<Rightarrow> migrating_cluster option \<Rightarrow> bool" where
  "rejected config_name a b \<longleftrightarrow> (\<exists>x. a = Some x \<and> b = Some ((mark_migrating config_name x)\<lparr>mi_HubAcceptsClient := False\<rparr>))"

definition detached :: "string \<Rightarrow> migrating_cluster option \<Rightarrow> migrating_cluster option \<Rightarrow> bool" where
  "detached config_name a b \<longleftrightarrow>
     (\<exists>x. a = Some x \<and> (b = None \<or> b = Some ((mark_migrating config_name x)\<lparr>mi_HubAcceptsClient := False, mi_Deleting := True\<rparr>)))"

lemma is_migrating_mark [simp]: "is_migrating c (mark_migrating c x)"
  by (auto simp: mark_migrating_def is_migrating_def set_migrating_def klusterlet_annotation_def ManagedClusterMigrating_def)

lemma mark_migrating_idem [simp]: "mark_migrating c (mark_migrating c x) = mark_migrating c x"
  using is_migrating_mark [of c x] by (simp add: mark_migrating_def)

lemma annotate_stage:
  assumes "from_laws api view" "each_ok (annotate_cluster api c) xs k = (r, k')"
  shows "(\<forall>n. n \<notin> set xs \<longrightarrow> view k' n = view k n) \<and> (\<forall>n \<in> set xs. view k' n = view k n \<or> prepared c (view k n) (view k' n)) \<and>
    (r = SyncOk \<longrightarrow> (\<forall>n \<in> set xs. prepared c (view k n) (view k' n)))"
proof (rule stage [OF assms(2)])
  note get = assms(1) [unfolded from_laws_def, THEN conjunct1, rule_format]
    and upd = assms(1) [unfolded from_laws_def, THEN conjunct2, THEN conjunct2, THEN conjunct1, rule_format]
  fix n k r k'
  assume a: "annotate_cluster api c n k = (r, k')"
  show "view k' = view k \<and> (r = SyncOk \<longrightarrow> prepared c (view k n) (view k n)) \<or> (\<exists>w. view k' = (view k)(n := w) \<and> prepared c (view k n) w)"
  proof (cases "fa_GetCluster api n k")
    case (GetFound x)
    have x: "view k n = Some x" using get [OF GetFound] .
    show ?thesis
    proof (cases "is_migrating c x")
      case True
      with a GetFound x show ?thesis by (auto simp: annotate_cluster_def prepared_def mark_migrating_def)
    next
      case False
      with a GetFound have "fa_UpdateCluster api n (set_migrating c x) k = (r, k')" by (simp add: annotate_cluster_def)
      from upd [OF this] x False show ?thesis by (auto simp: prepared_def mark_migrating_def)
    qed
  qed (use a in \<open>auto simp: annotate_cluster_def\<close>)
qed (auto simp: prepared_def)

text \<open>The same for the stage that rejects clients, and for the one that deletes.\<close>

definition reject_ok :: "migrating_cluster option \<Rightarrow> migrating_cluster option \<Rightarrow> bool" where
  "reject_ok a b \<longleftrightarrow> (\<exists>x. a = Some x \<and> b = Some (x\<lparr>mi_HubAcceptsClient := False\<rparr>))"

definition detach_ok :: "migrating_cluster option \<Rightarrow> migrating_cluster option \<Rightarrow> bool" where
  "detach_ok a b \<longleftrightarrow> b = None \<or> (\<exists>x. a = Some x \<and> (if mi_HubAcceptsClient x then b = a else b = Some (x\<lparr>mi_Deleting := True\<rparr>)))"

lemma reject_stage:
  assumes "from_laws api view" "each_ok (reject_cluster api) xs k = (r, k')"
  shows "(\<forall>n. n \<notin> set xs \<longrightarrow> view k' n = view k n) \<and> (\<forall>n \<in> set xs. view k' n = view k n \<or> reject_ok (view k n) (view k' n)) \<and>
    (r = SyncOk \<longrightarrow> (\<forall>n \<in> set xs. reject_ok (view k n) (view k' n)))"
proof (rule stage [OF assms(2)])
  note get = assms(1) [unfolded from_laws_def, THEN conjunct1, rule_format]
    and upd = assms(1) [unfolded from_laws_def, THEN conjunct2, THEN conjunct2, THEN conjunct1, rule_format]
  fix n k r k'
  assume a: "reject_cluster api n k = (r, k')"
  show "view k' = view k \<and> (r = SyncOk \<longrightarrow> reject_ok (view k n) (view k n)) \<or> (\<exists>w. view k' = (view k)(n := w) \<and> reject_ok (view k n) w)"
  proof (cases "fa_GetCluster api n k")
    case (GetFound x)
    with a have "fa_UpdateCluster api n (x\<lparr>mi_HubAcceptsClient := False\<rparr>) k = (r, k')" by (simp add: reject_cluster_def)
    from upd [OF this] get [OF GetFound] show ?thesis by (auto simp: reject_ok_def)
  qed (use a in \<open>auto simp: reject_cluster_def\<close>)
qed (auto simp: reject_ok_def)

lemma detach_ok_trans: "detach_ok a b \<Longrightarrow> detach_ok b c \<Longrightarrow> detach_ok a c"
  by (cases a; cases b) (auto simp: detach_ok_def split: if_splits)

lemma detach_stage:
  assumes "from_laws api view" "each_ok (detach_cluster api) xs k = (r, k')"
  shows "(\<forall>n. n \<notin> set xs \<longrightarrow> view k' n = view k n) \<and> (\<forall>n \<in> set xs. view k' n = view k n \<or> detach_ok (view k n) (view k' n)) \<and>
    (r = SyncOk \<longrightarrow> (\<forall>n \<in> set xs. detach_ok (view k n) (view k' n)))"
proof (rule stage [OF assms(2)])
  note get = assms(1) [unfolded from_laws_def, THEN conjunct1, rule_format]
    and missing = assms(1) [unfolded from_laws_def, THEN conjunct2, THEN conjunct1, rule_format]
    and del = assms(1) [unfolded from_laws_def, THEN conjunct2, THEN conjunct2, THEN conjunct2, THEN conjunct1, rule_format]
  fix n k r k'
  assume a: "detach_cluster api n k = (r, k')"
  show "view k' = view k \<and> (r = SyncOk \<longrightarrow> detach_ok (view k n) (view k n)) \<or> (\<exists>w. view k' = (view k)(n := w) \<and> detach_ok (view k n) w)"
  proof (cases "fa_GetCluster api n k")
    case GetNotFound
    with a missing [OF GetNotFound] show ?thesis by (simp add: detach_cluster_def detach_ok_def)
  next
    case (GetFound x)
    have x: "view k n = Some x" using get [OF GetFound] .
    show ?thesis
    proof (cases "mi_HubAcceptsClient x")
      case True
      with a GetFound x show ?thesis by (simp add: detach_cluster_def detach_ok_def)
    next
      case False
      with a GetFound have "fa_DeleteCluster api n k = (r, k')" by (simp add: detach_cluster_def)
      from del [OF this] x False show ?thesis by (auto simp: detach_ok_def)
    qed
  qed (use a in \<open>simp add: detach_cluster_def\<close>)
qed (rule detach_ok_trans)

lemma quiet_calls:
  assumes "from_laws api view"
  shows "view (snd (ensure_bootstrap_secret api s k)) = view k" "view (snd (ensure_klusterlet_config api n c k)) = view k"
    "view (snd (sendKlusterletAddonConfig api n k)) = view k" "view (snd (sleeping api k)) = view k"
proof -
  note L = assms [unfolded from_laws_def, THEN conjunct2, THEN conjunct2, THEN conjunct2, THEN conjunct2]
  note secret = L [THEN conjunct1, rule_format] and M = L [THEN conjunct2]
  note config = M [THEN conjunct1, rule_format] and N = M [THEN conjunct2]
  note send = N [THEN conjunct1, rule_format] and sleep = N [THEN conjunct2, rule_format]
  show "view (snd (ensure_bootstrap_secret api s k)) = view k" using secret [of s k] by (simp add: ensure_bootstrap_secret_def split: get_result.splits)
  show "view (snd (ensure_klusterlet_config api n c k)) = view k" using config by (simp add: ensure_klusterlet_config_def split: get_result.splits)
  show "view (snd (sendKlusterletAddonConfig api n k)) = view k"
  proof (cases "fa_GetAddonConfig api n k")
    case (GetFound c)
    then show ?thesis using send [of "addon_config_event c" k]
      by (auto simp: sendKlusterletAddonConfig_def split: prod.splits sync_result.splits)
  qed (simp_all add: sendKlusterletAddonConfig_def)
  show "view (snd (sleeping api k)) = view k" using sleep by (simp add: sleeping_def)
qed

text \<open>How far a run has come: the stages are separated by barriers.\<close>

definition in_preparation :: "string \<Rightarrow> string set \<Rightarrow> (string \<rightharpoonup> migrating_cluster) \<Rightarrow> (string \<rightharpoonup> migrating_cluster) \<Rightarrow> bool" where
  "in_preparation c L v v' \<longleftrightarrow> (\<forall>n \<in> L. v' n = v n \<or> prepared c (v n) (v' n))"

definition in_rejection :: "string \<Rightarrow> string set \<Rightarrow> (string \<rightharpoonup> migrating_cluster) \<Rightarrow> (string \<rightharpoonup> migrating_cluster) \<Rightarrow> bool" where
  "in_rejection c L v v' \<longleftrightarrow> (\<forall>n \<in> L. prepared c (v n) (v' n) \<or> rejected c (v n) (v' n))"

definition in_detachment :: "string \<Rightarrow> string set \<Rightarrow> (string \<rightharpoonup> migrating_cluster) \<Rightarrow> (string \<rightharpoonup> migrating_cluster) \<Rightarrow> bool" where
  "in_detachment c L v v' \<longleftrightarrow> (\<forall>n \<in> L. rejected c (v n) (v' n) \<or> detached c (v n) (v' n))"

lemma prepared_reject: "prepared c a b \<Longrightarrow> reject_ok b d \<Longrightarrow> rejected c a d"
  by (auto simp: prepared_def reject_ok_def rejected_def)

lemma rejected_detach: "rejected c a b \<Longrightarrow> detach_ok b d \<Longrightarrow> detached c a d"
  by (auto simp: rejected_def detach_ok_def detached_def split: if_splits)

lemma stages_after_annotation:
  assumes "from_laws api view" "\<forall>n \<in> set xs. prepared c (v n) (view k n)"
    and "then_ok (each_ok (reject_cluster api) xs) (then_ok (sleeping api) (detachManagedClusters api xs)) k = (r, k')"
  shows "(\<forall>n. n \<notin> set xs \<longrightarrow> view k' n = view k n) \<and> (in_rejection c (set xs) v (view k') \<or> in_detachment c (set xs) v (view k')) \<and>
    (r = SyncOk \<longrightarrow> (\<forall>n \<in> set xs. detached c (v n) (view k' n)))"
proof -
  from then_ok_cases [OF assms(3)] show ?thesis
  proof (elim disjE exE conjE)
    fix k1
    assume k1: "each_ok (reject_cluster api) xs k = (SyncOk, k1)" "then_ok (sleeping api) (detachManagedClusters api xs) k1 = (r, k')"
    have rej: "\<forall>n. n \<notin> set xs \<longrightarrow> view k1 n = view k n" "\<forall>n \<in> set xs. rejected c (v n) (view k1 n)"
      using reject_stage [OF assms(1) k1(1)] assms(2) prepared_reject by blast+
    from then_ok_cases [OF k1(2)] obtain k2 where k2: "sleeping api k1 = (SyncOk, k2)" "detachManagedClusters api xs k2 = (r, k')"
      by (auto simp: sleeping_def)
    have v2: "view k2 = view k1" using quiet_calls(4) [OF assms(1), of k1] k2(1) by simp
    note det = detach_stage [OF assms(1) k2(2) [unfolded detachManagedClusters_def], unfolded v2]
    have "in_detachment c (set xs) v (view k')" unfolding in_detachment_def
    proof
      fix n
      assume n: "n \<in> set xs"
      with det have "view k' n = view k1 n \<or> detach_ok (view k1 n) (view k' n)" by blast
      with rej(2) n rejected_detach show "rejected c (v n) (view k' n) \<or> detached c (v n) (view k' n)" by metis
    qed
    moreover have "\<forall>n \<in> set xs. detached c (v n) (view k' n)" if "r = SyncOk"
      using det that rej(2) rejected_detach by blast
    ultimately show ?thesis using det rej(1) by simp
  next
    assume k': "each_ok (reject_cluster api) xs k = (r, k')" "r \<noteq> SyncOk"
    note rej = reject_stage [OF assms(1) k'(1)]
    have "in_rejection c (set xs) v (view k')" unfolding in_rejection_def
    proof
      fix n
      assume n: "n \<in> set xs"
      with rej have "view k' n = view k n \<or> reject_ok (view k n) (view k' n)" by blast
      with assms(2) n prepared_reject show "prepared c (v n) (view k' n) \<or> rejected c (v n) (view k' n)" by metis
    qed
    with rej k'(2) show ?thesis by simp
  qed
qed

text \<open>The run up to the end of the annotations, and the rest.\<close>

lemma from_Sync_split:
  assumes "from_laws api view" "from_Sync api (Some ev) k = (r, k')"
  defines "xs \<equiv> fe_ManagedClusters ev" and "c \<equiv> kc_Name (fe_KlusterletConfig ev)"
  shows "(r \<noteq> SyncOk \<and> view k' = view k) \<or>
    (\<exists>k1 r1 k2. view k1 = view k \<and> each_ok (annotate_cluster api c) xs k1 = (r1, k2) \<and>
       (r1 \<noteq> SyncOk \<and> r = r1 \<and> k' = k2 \<or>
        r1 = SyncOk \<and> (r \<noteq> SyncOk \<and> view k' = view k2 \<or>
          (\<exists>k3. view k3 = view k2 \<and>
             then_ok (each_ok (reject_cluster api) xs) (then_ok (sleeping api) (detachManagedClusters api xs)) k3 = (r, k')))))"
proof -
  let ?s = "fe_BootstrapSecret ev" and ?c = "fe_KlusterletConfig ev"
  let ?rest = "then_ok (each_ok (reject_cluster api) xs) (then_ok (sleeping api) (detachManagedClusters api xs))"
  from assms(2) have run: "then_ok (ensure_bootstrap_secret api ?s) (then_ok (ensure_klusterlet_config api (bs_Name ?s) ?c)
      (then_ok (each_ok (annotate_cluster api c) xs) (then_ok (each_ok (sendKlusterletAddonConfig api) xs) (then_ok (sleeping api) ?rest)))) k = (r, k')"
    by (simp add: from_Sync_def Let_def xs_def c_def)
  note q = quiet_calls [OF assms(1)]
  from then_ok_cases [OF run] show ?thesis
  proof (elim disjE exE conjE)
    fix a
    assume a: "ensure_bootstrap_secret api ?s k = (SyncOk, a)" "then_ok (ensure_klusterlet_config api (bs_Name ?s) ?c)
      (then_ok (each_ok (annotate_cluster api c) xs) (then_ok (each_ok (sendKlusterletAddonConfig api) xs) (then_ok (sleeping api) ?rest))) a = (r, k')"
    have va: "view a = view k" using q(1) [of ?s k] a(1) by simp
    from then_ok_cases [OF a(2)] show ?thesis
    proof (elim disjE exE conjE)
      fix b
      assume b: "ensure_klusterlet_config api (bs_Name ?s) ?c a = (SyncOk, b)"
        "then_ok (each_ok (annotate_cluster api c) xs) (then_ok (each_ok (sendKlusterletAddonConfig api) xs) (then_ok (sleeping api) ?rest)) b = (r, k')"
      have vb: "view b = view k" using q(2) [of "bs_Name ?s" ?c a] b(1) va by simp
      from then_ok_cases [OF b(2)] show ?thesis
      proof (elim disjE exE conjE)
        fix d
        assume d: "each_ok (annotate_cluster api c) xs b = (SyncOk, d)"
          "then_ok (each_ok (sendKlusterletAddonConfig api) xs) (then_ok (sleeping api) ?rest) d = (r, k')"
        from then_ok_cases [OF d(2)] show ?thesis
        proof (elim disjE exE conjE)
          fix e
          assume e: "each_ok (sendKlusterletAddonConfig api) xs d = (SyncOk, e)" "then_ok (sleeping api) ?rest e = (r, k')"
          from then_ok_cases [OF e(2)] obtain f where f: "sleeping api e = (SyncOk, f)" "?rest f = (r, k')" by (auto simp: sleeping_def)
          have "view f = view d" using each_ok_quiet [OF q(3) e(1)] q(4) [of e] f(1) by simp
          with vb d(1) f(2) show ?thesis by blast
        next
          assume "each_ok (sendKlusterletAddonConfig api) xs d = (r, k')" "r \<noteq> SyncOk"
          with each_ok_quiet [OF q(3) this(1)] vb d(1) show ?thesis by blast
        qed
      qed (use vb in blast)
    qed (use q(2) va in \<open>metis snd_conv\<close>)
  qed (use q(1) in \<open>metis snd_conv\<close>)
qed

lemma from_Sync_stages:
  assumes "from_laws api view" "from_Sync api (Some ev) k = (r, k')"
  shows "(\<forall>n. n \<notin> set (fe_ManagedClusters ev) \<longrightarrow> view k' n = view k n) \<and>
    (let c = kc_Name (fe_KlusterletConfig ev); L = set (fe_ManagedClusters ev)
     in (in_preparation c L (view k) (view k') \<or> in_rejection c L (view k) (view k') \<or> in_detachment c L (view k) (view k')) \<and>
        (r = SyncOk \<longrightarrow> (\<forall>n \<in> L. detached c (view k n) (view k' n))))"
proof -
  let ?c = "kc_Name (fe_KlusterletConfig ev)" and ?xs = "fe_ManagedClusters ev"
  from from_Sync_split [OF assms] show ?thesis
  proof (elim disjE exE conjE)
    assume "r \<noteq> SyncOk" "view k' = view k"
    then show ?thesis by (simp add: in_preparation_def Let_def)
  next
    fix k1 r1 k2
    assume "view k1 = view k" and ann: "each_ok (annotate_cluster api ?c) ?xs k1 = (r1, k2)" and "r1 \<noteq> SyncOk" "r = r1" "k' = k2"
    with annotate_stage [OF assms(1) ann] show ?thesis by (simp add: in_preparation_def Let_def)
  next
    fix k1 r1 k2
    assume v: "view k1 = view k" and ann: "each_ok (annotate_cluster api ?c) ?xs k1 = (r1, k2)" and "r1 = SyncOk" "r \<noteq> SyncOk" "view k' = view k2"
    with annotate_stage [OF assms(1) ann] show ?thesis by (simp add: in_preparation_def Let_def)
  next
    fix k1 r1 k2 k3
    assume v: "view k1 = view k" "view k3 = view k2" and ann: "each_ok (annotate_cluster api ?c) ?xs k1 = (r1, k2)" and ok: "r1 = SyncOk"
      and rest: "then_ok (each_ok (reject_cluster api) ?xs) (then_ok (sleeping api) (detachManagedClusters api ?xs)) k3 = (r, k')"
    have "\<forall>n \<in> set ?xs. prepared ?c (view k n) (view k3 n)" "\<forall>n. n \<notin> set ?xs \<longrightarrow> view k3 n = view k n"
      using annotate_stage [OF assms(1) ann] v ok by simp_all
    with stages_after_annotation [OF assms(1) _ rest, of ?c "view k"] show ?thesis by (simp add: Let_def)
  qed
qed

text \<open>
  C9: Clusters leave a hub in stages, whatever calls fail and wherever the run ends. Clusters that are not
  listed are not touched. The listed ones are all at the same stage or the next: either some are
  annotated with the new configuration and the others are as they were; or all are annotated and some
  are no longer accepted; or none is accepted any more and some are being deleted. So no cluster is
  deleted before every cluster knows where to go. When the run succeeds, all are.
\<close>

theorem migration_from_stages:
  assumes "from_laws api view" "from_Sync api (Some ev) k = (r, k')"
  shows "(\<forall>n. n \<notin> set (fe_ManagedClusters ev) \<longrightarrow> view k' n = view k n) \<and>
    (let c = kc_Name (fe_KlusterletConfig ev); L = set (fe_ManagedClusters ev)
     in (in_preparation c L (view k) (view k') \<or> in_rejection c L (view k) (view k') \<or> in_detachment c L (view k) (view k')) \<and>
        (r = SyncOk \<longrightarrow> (\<forall>n \<in> L. detached c (view k n) (view k' n))))"
  by (rule from_Sync_stages [OF assms])

text \<open>
  A run cannot be repeated after the first deletion. If a listed cluster is not there, because
  an earlier run for the same event has deleted it and then failed, the run fails, and no cluster is
  rejected or deleted by it: those that the earlier run did not reach stay behind.
\<close>

theorem migration_from_cannot_resume:
  assumes "from_laws api view" "from_Sync api (Some ev) k = (r, k')" "n \<in> set (fe_ManagedClusters ev)" "view k n = None"
  shows "r \<noteq> SyncOk \<and> in_preparation (kc_Name (fe_KlusterletConfig ev)) UNIV (view k) (view k')"
proof -
  let ?c = "kc_Name (fe_KlusterletConfig ev)" and ?xs = "fe_ManagedClusters ev"
  have "r1 \<noteq> SyncOk" if "view k1 = view k" "each_ok (annotate_cluster api ?c) ?xs k1 = (r1, k2)" for k1 r1 k2
    using annotate_stage [OF assms(1) that(2)] that(1) assms(3,4) by (auto simp: prepared_def)
  with from_Sync_split [OF assms(1,2)] obtain k1 r1 k2 where "r \<noteq> SyncOk \<and> view k' = view k \<or>
      view k1 = view k \<and> each_ok (annotate_cluster api ?c) ?xs k1 = (r1, k2) \<and> r1 \<noteq> SyncOk \<and> r = r1 \<and> k' = k2" by blast
  then show ?thesis
  proof (elim disjE conjE)
    assume "view k1 = view k" and ann: "each_ok (annotate_cluster api ?c) ?xs k1 = (r1, k2)" and "r1 \<noteq> SyncOk" "r = r1" "k' = k2"
    with annotate_stage [OF assms(1) ann] show ?thesis by (auto simp: in_preparation_def)
  qed (simp add: in_preparation_def)
qed

text \<open>A hub in memory, on which the deletion of some clusters fails.\<close>

definition mem_from :: "string set \<Rightarrow> (unit, (string, migrating_cluster) gomap) from_api" where
  "mem_from failing = \<lparr>fa_GetSecret = (\<lambda>_ _. GetNotFound), fa_CreateSecret = (\<lambda>_ k. (SyncOk, k)), fa_UpdateSecret = (\<lambda>_ k. (SyncOk, k)),
     fa_GetKlusterletConfig = (\<lambda>_ _. GetNotFound), fa_CreateKlusterletConfig = (\<lambda>_ k. (SyncOk, k)),
     fa_GetCluster = (\<lambda>n k. case map_of k n of None \<Rightarrow> GetNotFound | Some x \<Rightarrow> GetFound x),
     fa_UpdateCluster = (\<lambda>n x k. (SyncOk, AList.update n x k)),
     fa_DeleteCluster = (\<lambda>n k. if n \<in> failing then (SyncFailed, k) else (SyncOk, AList.delete n k)),
     fa_GetAddonConfig = (\<lambda>_ _. GetNotFound), fa_SendEvent = (\<lambda>_ k. (SyncOk, k)), fa_Sleep = (\<lambda>k. k)\<rparr>"

lemma mem_from_laws: "from_laws (mem_from failing) map_of"
  unfolding from_laws_def mem_from_def from_api.simps by (intro conjI allI impI) (auto split: option.splits if_splits)

definition ex_migration :: ManagedClusterMigrationFromEvent where
  "ex_migration = \<lparr>fe_ManagedClusters = [''c1'', ''c2''],
     fe_BootstrapSecret = \<lparr>bs_Name = ''bootstrap-hub2'', bs_Namespace = ''multicluster-engine'', bs_kubeconfig = ''k''\<rparr>,
     fe_KlusterletConfig = \<lparr>kc_Name = ''migration-hub2'', kc_KubeConfigSecrets = []\<rparr>\<rparr>"

definition ex_mclusters :: "(string, migrating_cluster) gomap" where
  "ex_mclusters = map (\<lambda>n. (n, \<lparr>mi_Annotations = [], mi_HubAcceptsClient = True, mi_Deleting = False\<rparr>)) [''c1'', ''c2'', ''c3'']"

theorem migration_from_stages_witness:
  "case from_Sync (mem_from {}) (Some ex_migration) ex_mclusters of (r, k) \<Rightarrow>
     r = SyncOk \<and> map_of k ''c1'' = None \<and> map_of k ''c2'' = None \<and> map_of k ''c3'' = map_of ex_mclusters ''c3''"
proof -
  obtain k where run: "from_Sync (mem_from {}) (Some ex_migration) ex_mclusters = (SyncOk, k)" and nodel: "list_all (\<lambda>(n, x). \<not> mi_Deleting x) k"
  proof -
    have "case from_Sync (mem_from {}) (Some ex_migration) ex_mclusters of (r, k) \<Rightarrow> r = SyncOk \<and> list_all (\<lambda>(n, x). \<not> mi_Deleting x) k" by code_simp
    then show ?thesis using that by (auto split: prod.splits)
  qed
  note T = migration_from_stages [OF mem_from_laws run]
  have xs: "fe_ManagedClusters ex_migration = [''c1'', ''c2'']" by (simp add: ex_migration_def)
  have gone: "map_of k n = None" if "detached c a (map_of k n)" for c a n
    using that nodel by (auto simp: detached_def list_all_iff dest!: map_of_SomeD)
  have "map_of k ''c3'' = map_of ex_mclusters ''c3''" using T [THEN conjunct1] xs by simp
  moreover have "map_of k ''c1'' = None" "map_of k ''c2'' = None" using T [THEN conjunct2] xs gone by (auto simp: Let_def)
  ultimately show ?thesis using run by simp
qed

text \<open>The deletion of the second cluster fails; the run is repeated on a hub where it would succeed.\<close>

theorem migration_from_cannot_resume_witness:
  "case from_Sync (mem_from {''c2''}) (Some ex_migration) ex_mclusters of (r, k) \<Rightarrow>
     r = SyncFailed \<and> map_of k ''c1'' = None \<and> map_of k ''c2'' \<noteq> None \<and> fst (from_Sync (mem_from {}) (Some ex_migration) k) \<noteq> SyncOk"
proof -
  obtain k where run: "from_Sync (mem_from {''c2''}) (Some ex_migration) ex_mclusters = (SyncFailed, k)" and k: "map_of k ''c1'' = None" "map_of k ''c2'' \<noteq> None"
  proof -
    have "case from_Sync (mem_from {''c2''}) (Some ex_migration) ex_mclusters of (r, k) \<Rightarrow> r = SyncFailed \<and> map_of k ''c1'' = None \<and> map_of k ''c2'' \<noteq> None"
      by code_simp
    then show ?thesis using that by (auto split: prod.splits)
  qed
  obtain r' k' where again: "from_Sync (mem_from {}) (Some ex_migration) k = (r', k')" by fastforce
  have "''c1'' \<in> set (fe_ManagedClusters ex_migration)" by (simp add: ex_migration_def)
  from migration_from_cannot_resume [OF mem_from_laws again this k(1)] run k again show ?thesis by simp
qed

section \<open>Taking clusters\<close>

text \<open>What the cluster manager has to be for a service account, and that nothing of it gets lost.\<close>

definition approves :: "string \<Rightarrow> cluster_manager \<Rightarrow> bool" where
  "approves user m \<longleftrightarrow> (\<exists>rc. cm_RegistrationConfiguration m = Some rc \<and> user \<in> set (rc_AutoApproveUsers rc) \<and>
     find (\<lambda>g. fst g = ''ManagedClusterAutoApproval'') (rc_FeatureGates rc) = Some (''ManagedClusterAutoApproval'', GateEnable))"

lemma enable_gate_spec:
  assumes "enable_gate f gates = (changed, gates')"
  shows "find (\<lambda>g. fst g = f) gates' = Some (f, GateEnable) \<and> (\<not> changed \<longrightarrow> gates' = gates) \<and>
    filter (\<lambda>g. fst g \<noteq> f) gates' = filter (\<lambda>g. fst g \<noteq> f) gates \<and> (changed \<longleftrightarrow> find (\<lambda>g. fst g = f) gates \<noteq> Some (f, GateEnable))"
  using assms by (induction gates arbitrary: changed gates' rule: list.induct) (auto split: if_splits prod.splits gate_mode.splits)

lemma auto_approve_spec:
  assumes "auto_approve user m = (changed, m')"
  shows "approves user m' \<and> (changed \<longleftrightarrow> \<not> approves user m) \<and> (\<not> changed \<longrightarrow> m' = m)"
proof (cases "cm_RegistrationConfiguration m")
  case None
  with assms show ?thesis by (auto simp: auto_approve_def approves_def)
next
  case (Some rc)
  obtain c g where g: "enable_gate ''ManagedClusterAutoApproval'' (rc_FeatureGates rc) = (c, g)" by fastforce
  from enable_gate_spec [OF g] assms Some g show ?thesis by (auto simp: auto_approve_def approves_def Let_def)
qed

text \<open>
  What the API server of the hub that takes clusters promises: the cluster manager and the names of the
  addon configurations that exist. Updates of the cluster manager succeed; an existing configuration
  cannot be created again and stays.
\<close>

definition to_laws :: "('a, 'k) to_api \<Rightarrow> ('k \<Rightarrow> registration_configuration option) \<Rightarrow> ('k \<Rightarrow> (string \<times> string) set) \<Rightarrow> bool" where
  "to_laws api manager addons \<longleftrightarrow>
     (\<forall>k m. ta_GetClusterManager api k = GetFound m \<longrightarrow> manager k = cm_RegistrationConfiguration m) \<and>
     (\<forall>m k. fst (ta_UpdateClusterManager api m k) = SyncOk \<and> manager (snd (ta_UpdateClusterManager api m k)) = cm_RegistrationConfiguration m \<and>
        addons k \<subseteq> addons (snd (ta_UpdateClusterManager api m k))) \<and>
     (\<forall>x k. manager (snd (ta_CreateRbac api x k)) = manager k \<and> addons k \<subseteq> addons (snd (ta_CreateRbac api x k)) \<and>
        manager (snd (ta_UpdateRbac api x k)) = manager k \<and> addons k \<subseteq> addons (snd (ta_UpdateRbac api x k))) \<and>
     (\<forall>c k. manager (snd (ta_CreateAddonConfig api c k)) = manager k \<and> addons k \<subseteq> addons (snd (ta_CreateAddonConfig api c k)) \<and>
        (fst (ta_CreateAddonConfig api c k) = SyncOk \<longrightarrow> (ac_Namespace c, ac_Name c) \<in> addons (snd (ta_CreateAddonConfig api c k)) - addons k))"

lemma to_law:
  assumes "to_laws api manager addons"
  shows "ta_GetClusterManager api k = GetFound m \<Longrightarrow> manager k = cm_RegistrationConfiguration m"
    and "ta_UpdateClusterManager api m k = (r, k') \<Longrightarrow> r = SyncOk \<and> manager k' = cm_RegistrationConfiguration m \<and> addons k \<subseteq> addons k'"
    and "ta_CreateRbac api x k = (r, k') \<Longrightarrow> manager k' = manager k \<and> addons k \<subseteq> addons k'"
    and "ta_UpdateRbac api x k = (r, k') \<Longrightarrow> manager k' = manager k \<and> addons k \<subseteq> addons k'"
    and "ta_CreateAddonConfig api c k = (r, k') \<Longrightarrow> manager k' = manager k \<and> addons k \<subseteq> addons k' \<and>
      (r = SyncOk \<longrightarrow> (ac_Namespace c, ac_Name c) \<in> addons k' - addons k)"
  using assms unfolding to_laws_def by (blast, metis fst_conv snd_conv, metis snd_conv, metis snd_conv, metis fst_conv snd_conv)

lemma RetryOnConflict_keeps:
  assumes "RetryOnConflict n f s = (r, s')" "P s" "\<And>s r s'. f s = (r, s') \<Longrightarrow> P s \<Longrightarrow> P s'"
  shows "P s'"
  using assms(1,2)
proof (induction n arbitrary: s)
  case 0
  then show ?case by simp
next
  case (Suc n)
  obtain r1 s1 where f: "f s = (r1, s1)" by fastforce
  have "P s1" by (rule assms(3) [OF f Suc.prems(2)])
  with Suc f show ?case by (auto split: sync_result.splits if_splits)
qed

lemma ensure_rbac_keeps:
  assumes "to_laws api manager addons" "ensure_rbac api derives x k = (r, k')"
  shows "manager k' = manager k \<and> addons k \<subseteq> addons k'"
proof (cases "ta_GetRbac api (rbac_name x) k")
  case GetNotFound
  with assms(2) to_law(3) [OF assms(1)] show ?thesis by (simp add: ensure_rbac_def)
next
  case (GetFound y)
  obtain r1 k1 where u: "RetryOnConflict DefaultBackoffSteps (ta_UpdateRbac api x) k = (r1, k1)" by fastforce
  have "manager k1 = manager k \<and> addons k \<subseteq> addons k1"
  proof (rule RetryOnConflict_keeps [OF u])
    fix s r s'
    assume "ta_UpdateRbac api x s = (r, s')" "manager s = manager k \<and> addons k \<subseteq> addons s"
    then show "manager s' = manager k \<and> addons k \<subseteq> addons s'" using to_law(4) [OF assms(1)] by fastforce
  qed simp
  with GetFound assms(2) u show ?thesis by (auto simp: ensure_rbac_def split: if_splits)
qed (use assms(2) in \<open>simp add: ensure_rbac_def\<close>)

lemma ensureClusterManager_approves:
  assumes "to_laws api manager addons" "ensureClusterManager api n ns k = (SyncOk, k')"
  shows "(\<exists>m. cm_RegistrationConfiguration m = manager k' \<and> approves (''system:serviceaccount:'' @ ns @ '':'' @ n) m) \<and> addons k \<subseteq> addons k'"
proof (cases "ta_GetClusterManager api k")
  case (GetFound m)
  obtain ch m' where a: "auto_approve (''system:serviceaccount:'' @ ns @ '':'' @ n) m = (ch, m')" by fastforce
  obtain r1 k1 where u: "ta_UpdateClusterManager api m' k = (r1, k1)" by fastforce
  note law = to_law(2) [OF assms(1) u]
  have "snd (RetryOnConflict DefaultBackoffSteps (ta_UpdateClusterManager api m') k) = k1"
    using u law by (simp add: DefaultBackoffSteps_def eval_nat_numeral)
  with GetFound assms(2) a have "k' = (if ch then k1 else k)" by (auto simp: ensureClusterManager_def)
  with auto_approve_spec [OF a] law to_law(1) [OF assms(1) GetFound] show ?thesis by (cases ch) (auto intro!: exI [of _ m'])
qed (use assms(2) in \<open>simp_all add: ensureClusterManager_def\<close>)

lemma create_poll_keeps:
  assumes "to_laws api manager addons" "create_poll n api c k = (r, k')"
  shows "manager k' = manager k \<and> addons k \<subseteq> addons k' \<and> (r = SyncOk \<longrightarrow> (ac_Namespace c, ac_Name c) \<in> addons k' - addons k)"
  using assms(2)
proof (induction n arbitrary: k)
  case 0
  then show ?case by simp
next
  case (Suc n)
  obtain r1 k1 where c: "ta_CreateAddonConfig api c k = (r1, k1)" by fastforce
  note law = to_law(5) [OF assms(1) c]
  show ?case
  proof (cases "r1 = SyncOk")
    case True
    with Suc.prems c law show ?thesis by auto
  next
    case False
    with Suc.prems c have "create_poll n api c k1 = (r, k')" by (auto split: sync_result.splits)
    from Suc.IH [OF this] law show ?thesis by auto
  qed
qed

lemma to_Sync_outcome:
  assumes "to_laws api manager addons" "to_Sync api derives n (Some ev) k = (SyncOk, k')"
  shows "(\<exists>m. cm_RegistrationConfiguration m = manager k' \<and>
      approves (''system:serviceaccount:'' @ te_ManagedServiceAccountInstallNamespace ev @ '':'' @ te_ManagedServiceAccountName ev) m) \<and>
    (\<forall>c. te_KlusterletAddonConfig ev = Some c \<longrightarrow> (ac_Namespace c, ac_Name c) \<in> addons k' - addons k)"
proof -
  let ?n = "te_ManagedServiceAccountName ev" and ?ns = "te_ManagedServiceAccountInstallNamespace ev"
  have ok: "\<exists>s1. f s = (SyncOk, s1) \<and> g s1 = (SyncOk, s')" if "then_ok f g s = (SyncOk, s')" for f g and s s' :: 'b
    using then_ok_cases [OF that] by simp
  from assms(2) obtain k1 k2 k3 k4 where k: "ensureClusterManager api ?n ?ns k = (SyncOk, k1)"
      "ensureMigrationClusterRole api derives ?n k1 = (SyncOk, k2)" "ensureRegistrationClusterRoleBinding api derives ?n ?ns k2 = (SyncOk, k3)"
      "ensureSARClusterRoleBinding api derives ?n ?ns k3 = (SyncOk, k4)"
      "(case te_KlusterletAddonConfig ev of None \<Rightarrow> (\<lambda>s. (SyncOk, s)) | Some c \<Rightarrow> create_poll n api c) k4 = (SyncOk, k')"
    by (simp add: to_Sync_def Let_def) (elim ok [elim_format] exE conjE, blast)
  note r = ensure_rbac_keeps [OF assms(1)]
  have keep: "manager k4 = manager k1 \<and> addons k1 \<subseteq> addons k4"
    using r [OF k(2) [unfolded ensureMigrationClusterRole_def]] r [OF k(3) [unfolded ensureRegistrationClusterRoleBinding_def]]
      r [OF k(4) [unfolded ensureSARClusterRoleBinding_def]] by (metis order_trans)
  have last: "manager k' = manager k4 \<and> (\<forall>c. te_KlusterletAddonConfig ev = Some c \<longrightarrow> (ac_Namespace c, ac_Name c) \<in> addons k' - addons k4)"
    using k(5) create_poll_keeps [OF assms(1)] by (cases "te_KlusterletAddonConfig ev") auto
  from ensureClusterManager_approves [OF assms(1) k(1)] keep last show ?thesis by auto
qed

text \<open>
  A hub that has handled the event for the taking side approves the service account of the migration:
  the feature gate is on and the account is in the list, whatever gates and users there were. But the
  event can be handled only once. When it brings an addon configuration, the configuration exists
  afterwards, so that every later event with it, also one for another service account, fails after
  trying for the whole polling time.
\<close>

theorem migration_to_succeeds_once:
  assumes "to_laws api manager addons" "to_Sync api derives n (Some ev) k = (SyncOk, k')"
    and "te_KlusterletAddonConfig ev = Some c" "te_KlusterletAddonConfig ev' = Some c"
  shows "(\<exists>m. cm_RegistrationConfiguration m = manager k' \<and>
      approves (''system:serviceaccount:'' @ te_ManagedServiceAccountInstallNamespace ev @ '':'' @ te_ManagedServiceAccountName ev) m) \<and>
    fst (to_Sync api derives n' (Some ev') k') \<noteq> SyncOk"
proof -
  note first = to_Sync_outcome [OF assms(1,2)]
  have "fst (to_Sync api derives n' (Some ev') k') \<noteq> SyncOk"
  proof
    assume "fst (to_Sync api derives n' (Some ev') k') = SyncOk"
    then obtain k'' where "to_Sync api derives n' (Some ev') k' = (SyncOk, k'')" by (metis prod.collapse)
    from to_Sync_outcome [OF assms(1) this] first assms(3,4) show False by auto
  qed
  with first show ?thesis by blast
qed

definition mem_to :: "(unit, registration_configuration option \<times> (string \<times> string) set) to_api" where
  "mem_to = \<lparr>ta_GetClusterManager = (\<lambda>k. GetFound \<lparr>cm_ResourceVersion = 0, cm_RegistrationConfiguration = fst k\<rparr>),
     ta_UpdateClusterManager = (\<lambda>m k. (SyncOk, cm_RegistrationConfiguration m, snd k)),
     ta_GetRbac = (\<lambda>_ _. GetNotFound), ta_CreateRbac = (\<lambda>_ k. (SyncOk, k)), ta_UpdateRbac = (\<lambda>_ k. (SyncOk, k)),
     ta_CreateAddonConfig = (\<lambda>c k. if (ac_Namespace c, ac_Name c) \<in> snd k then (SyncFailed, k) else (SyncOk, fst k, insert (ac_Namespace c, ac_Name c) (snd k)))\<rparr>"

lemma mem_to_laws: "to_laws mem_to fst snd"
  by (auto simp: to_laws_def mem_to_def)

definition ex_to_event :: "unit ManagedClusterMigrationToEvent" where
  "ex_to_event = \<lparr>te_ManagedServiceAccountName = ''m'', te_ManagedServiceAccountInstallNamespace = ''ns'',
     te_KlusterletAddonConfig = Some \<lparr>ac_Name = ''c1'', ac_Namespace = ''c1'', ac_Cleared = [], ac_Content = ()\<rparr>\<rparr>"

theorem migration_to_succeeds_once_witness:
  "\<exists>k'. to_Sync mem_to (\<lambda>_ _. True) 180 (Some ex_to_event) (None, {}) = (SyncOk, k') \<and> fst (to_Sync mem_to (\<lambda>_ _. True) 180 (Some ex_to_event) k') \<noteq> SyncOk"
proof -
  have "fst (to_Sync mem_to (\<lambda>_ _. True) 180 (Some ex_to_event) (None, {})) = SyncOk"
    by (simp add: ex_to_event_def to_Sync_def mem_to_def then_ok_def ensureClusterManager_def auto_approve_def ensureMigrationClusterRole_def
      ensureRegistrationClusterRoleBinding_def ensureSARClusterRoleBinding_def ensure_rbac_def DefaultBackoffSteps_def eval_nat_numeral)
  then obtain k' where run: "to_Sync mem_to (\<lambda>_ _. True) 180 (Some ex_to_event) (None, {}) = (SyncOk, k')" by (metis prod.collapse)
  obtain c where c: "te_KlusterletAddonConfig ex_to_event = Some c" by (simp add: ex_to_event_def)
  from migration_to_succeeds_once [OF mem_to_laws run c c, of 180] run show ?thesis by blast
qed

end
