(* ===== verification/Migration.thy ===== *)
theory Migration
  imports AgentMigration
begin

text \<open>
  The migration controller of the manager, \<^verbatim>\<open>manager/pkg/controllers/migration_controller.go\<close>, and the handler that keeps an addon
  configuration for it, \<^verbatim>\<open>manager/pkg/status/handlers/managedcluster/klusterlet_addon_config_handler.go\<close>.

  A reconciliation gets the name and namespace of an object. In the namespace of the global hub it is a
  migration; in any other namespace, the name of a hub, it is the managed service account of a
  migration and its secret. The API server, the query for the hubs of clusters and the producer are
  parameters; the events that were sent are part of the state.
\<close>

section \<open>Data\<close>

record ManagedClusterMigration =
  mg_Name :: string
  mg_Annotations :: "(string, string) gomap"
  mg_Finalizers :: "string list"
  mg_Deleting :: bool
  mg_From :: string
  mg_To :: string
  mg_IncludedManagedClusters :: "string list"

datatype 'a migration_payload =
  FromPayload ManagedClusterMigrationFromEvent
| ToPayload "'a ManagedClusterMigrationToEvent"

record msa_secret =
  ms_ca :: string
  ms_token :: string

record kubeconfig =
  ku_Cluster :: string
  ku_Server :: string
  ku_ca :: string
  ku_Token :: string

text \<open>The managed service account is known by its namespace, name and labels. \<open>rows\<close> is the result of the query for hub and name of clusters.\<close>

record ('a, 'k) migration_api =
  ma_GetMigration :: "string \<Rightarrow> 'k \<Rightarrow> ManagedClusterMigration get_result"
  ma_UpdateMigration :: "ManagedClusterMigration \<Rightarrow> 'k step"
  ma_ListMigrations :: "'k \<Rightarrow> ManagedClusterMigration list option"
  ma_GetMSA :: "string \<Rightarrow> string \<Rightarrow> 'k \<Rightarrow> (string, string) gomap get_result"
  ma_CreateMSA :: "string \<Rightarrow> string \<Rightarrow> (string, string) gomap \<Rightarrow> 'k step"
  ma_DeleteMSA :: "string \<Rightarrow> string \<Rightarrow> 'k step"
  ma_GetSecret :: "string \<Rightarrow> string \<Rightarrow> 'k \<Rightarrow> msa_secret get_result"
  ma_GetClientURLs :: "string \<Rightarrow> 'k \<Rightarrow> string list get_result"
  ma_rows :: "string list \<Rightarrow> 'k \<Rightarrow> (string \<times> string) list option"
  ma_SendEvent :: "'a migration_payload Event \<Rightarrow> 'k \<Rightarrow> bool"
  ma_Write :: "kubeconfig \<Rightarrow> string option"
  ma_Unmarshal :: "string \<Rightarrow> 'a addon_config option"
  ma_Marshal :: "'a addon_config \<Rightarrow> string"

record ('a, 'k) migration_state =
  ms_api :: 'k
  ms_BootstrapSecret :: "bootstrap_secret option"
  ms_sent :: "'a migration_payload Event list"

datatype migration_result = MigrationDone | MigrationRequeue | MigrationError | MigrationPanic

definition ManagedClusterMigrationFinalizer :: string where
  "ManagedClusterMigrationFinalizer = ''global-hub.open-cluster-management.io/migration-cleanup''"

definition KlusterletAddonConfigAnnotation :: string where
  "KlusterletAddonConfigAnnotation = ''global-hub.open-cluster-management.io/klusterlet-addon-config''"

definition CloudEventTypeMigrationFrom :: string where
  "CloudEventTypeMigrationFrom = ''io.open-cluster-management.operator.multiclusterglobalhubs.spec.migration.from''"

definition CloudEventTypeMigrationTo :: string where
  "CloudEventTypeMigrationTo = ''io.open-cluster-management.operator.multiclusterglobalhubs.spec.migration.to''"

text \<open>The kind of a migration in lower case, by which a managed service account tells its owner.\<close>

definition migration_owner :: string where
  "migration_owner = ''managedclustermigration''"

section \<open>Sending events\<close>

definition send :: "('a, 'k) migration_api \<Rightarrow> 'a migration_payload Event \<Rightarrow> ('a, 'k) migration_state \<Rightarrow> bool \<times> ('a, 'k) migration_state" where
  "send api e s = (if ma_SendEvent api e (ms_api s) then (True, s\<lparr>ms_sent := ms_sent s @ [e]\<rparr>) else (False, s))"

definition from_event :: "string \<Rightarrow> string list \<Rightarrow> bootstrap_secret \<Rightarrow> klusterlet_config \<Rightarrow> 'a migration_payload Event" where
  "from_event fromHub managedClusters secret config =
     utils_ToCloudEvent CloudEventTypeMigrationFrom ''global-hub'' fromHub
       (FromPayload \<lparr>fe_ManagedClusters = managedClusters, fe_BootstrapSecret = secret, fe_KlusterletConfig = config\<rparr>)"

text \<open>The secret is the one in the controller's state, which the caller has just set.\<close>

definition syncMigrationFrom ::
    "('a, 'k) migration_api \<Rightarrow> string \<Rightarrow> string list \<Rightarrow> bootstrap_secret \<Rightarrow> klusterlet_config \<Rightarrow> ('a, 'k) migration_state \<Rightarrow> bool \<times> ('a, 'k) migration_state" where
  "syncMigrationFrom api fromHub managedClusters secret config s = send api (from_event fromHub managedClusters secret config) s"

definition msa_namespace :: "bool \<Rightarrow> ManagedClusterMigration \<Rightarrow> string" where
  "msa_namespace importClusterInHosted migration =
     (case map_of (mg_Annotations migration) ''global-hub.open-cluster-management.io/managed-serviceaccount-install-namespace'' of
        Some val \<Rightarrow> val
      | None \<Rightarrow> if importClusterInHosted then ''open-cluster-management-global-hub-agent-addon'' else ''open-cluster-management-agent-addon'')"

definition to_event :: "string \<Rightarrow> ManagedClusterMigration \<Rightarrow> 'a addon_config option \<Rightarrow> 'a migration_payload Event" where
  "to_event msaNamespace migration config =
     utils_ToCloudEvent CloudEventTypeMigrationTo ''global-hub'' (mg_To migration)
       (ToPayload \<lparr>te_ManagedServiceAccountName = mg_Name migration, te_ManagedServiceAccountInstallNamespace = msaNamespace,
          te_KlusterletAddonConfig = config\<rparr>)"

definition syncMigrationTo :: "('a, 'k) migration_api \<Rightarrow> bool \<Rightarrow> ManagedClusterMigration \<Rightarrow> ('a, 'k) migration_state \<Rightarrow> bool \<times> ('a, 'k) migration_state" where
  "syncMigrationTo api importClusterInHosted migration s =
     (let ns = msa_namespace importClusterInHosted migration
      in case map_of (mg_Annotations migration) KlusterletAddonConfigAnnotation of
           None \<Rightarrow> send api (to_event ns migration None) s
         | Some str \<Rightarrow>
             (case ma_Unmarshal api str of None \<Rightarrow> (False, s) | Some config \<Rightarrow> send api (to_event ns migration (Some config)) s))"

fun group_clusters :: "(string \<times> string) list \<Rightarrow> (string, string list) gomap \<Rightarrow> (string, string list) gomap" where
  "group_clusters [] m = m"
| "group_clusters ((leafHubName, managedClusterName) # rows) m =
     group_clusters rows (AList.update leafHubName ((case map_of m leafHubName of Some cs \<Rightarrow> cs | None \<Rightarrow> []) @ [managedClusterName]) m)"

fun send_groups ::
    "('a, 'k) migration_api \<Rightarrow> bootstrap_secret \<Rightarrow> klusterlet_config \<Rightarrow> (string, string list) gomap \<Rightarrow> ('a, 'k) migration_state \<Rightarrow> bool \<times> ('a, 'k) migration_state" where
  "send_groups api secret config [] s = (True, s)"
| "send_groups api secret config ((leafHubName, managedClusters) # m) s =
     (case syncMigrationFrom api leafHubName managedClusters secret config s of
        (False, s1) \<Rightarrow> (False, s1)
      | (True, s1) \<Rightarrow> send_groups api secret config m s1)"

definition syncMigration ::
    "('a, 'k) migration_api \<Rightarrow> bool \<Rightarrow> ManagedClusterMigration \<Rightarrow> bootstrap_secret \<Rightarrow> klusterlet_config \<Rightarrow> ('a, 'k) migration_state
       \<Rightarrow> bool \<times> ('a, 'k) migration_state" where
  "syncMigration api hosted migration secret config s =
     (let (ok, s1) =
        (if mg_From migration \<noteq> [] then syncMigrationFrom api (mg_From migration) (mg_IncludedManagedClusters migration) secret config s
         else case ma_rows api (mg_IncludedManagedClusters migration) (ms_api s) of
                None \<Rightarrow> (False, s)
              | Some rows \<Rightarrow> send_groups api secret config (group_clusters rows []) s)
      in if ok then syncMigrationTo api hosted migration s1 else (False, s1))"

section \<open>The controller\<close>

definition lift_step :: "'k step \<Rightarrow> ('a, 'k) migration_state \<Rightarrow> bool \<times> ('a, 'k) migration_state" where
  "lift_step f s = (let (r, k) = f (ms_api s) in (r = SyncOk, s\<lparr>ms_api := k\<rparr>))"

definition ensureManagedServiceAccount :: "('a, 'k) migration_api \<Rightarrow> ManagedClusterMigration \<Rightarrow> ('a, 'k) migration_state \<Rightarrow> bool \<times> ('a, 'k) migration_state" where
  "ensureManagedServiceAccount api migration s =
     (case ma_GetMSA api (mg_To migration) (mg_Name migration) (ms_api s) of
        GetNotFound \<Rightarrow> lift_step (ma_CreateMSA api (mg_To migration) (mg_Name migration) [(''owner'', migration_owner)]) s
      | GetFailed \<Rightarrow> (False, s)
      | GetFound _ \<Rightarrow> (True, s))"

definition deleteManagedServiceAccount :: "('a, 'k) migration_api \<Rightarrow> ManagedClusterMigration \<Rightarrow> ('a, 'k) migration_state \<Rightarrow> bool \<times> ('a, 'k) migration_state" where
  "deleteManagedServiceAccount api migration s =
     (case ma_GetMSA api (mg_To migration) (mg_Name migration) (ms_api s) of
        GetNotFound \<Rightarrow> (True, s)
      | GetFailed \<Rightarrow> (False, s)
      | GetFound _ \<Rightarrow> lift_step (ma_DeleteMSA api (mg_To migration) (mg_Name migration)) s)"

text \<open>\<^const>\<open>None\<close> is the panic on a cluster without client configurations.\<close>

definition generateKubeconfig :: "('a, 'k) migration_api \<Rightarrow> string \<Rightarrow> string \<Rightarrow> 'k \<Rightarrow> kubeconfig get_result option" where
  "generateKubeconfig api ns name k =
     (case ma_GetSecret api ns name k of
        GetFound secret \<Rightarrow>
          (case ma_GetClientURLs api ns k of
             GetFound (url # _) \<Rightarrow> Some (GetFound \<lparr>ku_Cluster = ns, ku_Server = url, ku_ca = ms_ca secret, ku_Token = ms_token secret\<rparr>)
           | GetFound [] \<Rightarrow> None
           | _ \<Rightarrow> Some GetFailed)
      | _ \<Rightarrow> Some GetFailed)"

definition generateBootstrapSecret :: "('a, 'k) migration_api \<Rightarrow> kubeconfig \<Rightarrow> string \<Rightarrow> bootstrap_secret option" where
  "generateBootstrapSecret api config ns =
     map_option (\<lambda>bytes. \<lparr>bs_Name = ''bootstrap-'' @ ns, bs_Namespace = ''multicluster-engine'', bs_kubeconfig = bytes\<rparr>) (ma_Write api config)"

definition generateKlusterletConfig :: "string \<Rightarrow> klusterlet_config" where
  "generateKlusterletConfig ns = \<lparr>kc_Name = ''migration-'' @ ns, kc_KubeConfigSecrets = [''bootstrap-'' @ ns]\<rparr>"

definition as_result :: "bool \<times> 's \<Rightarrow> migration_result \<times> 's" where
  "as_result r = ((if fst r then MigrationDone else MigrationError), snd r)"

definition reconcile_migration :: "('a, 'k) migration_api \<Rightarrow> bool \<Rightarrow> string \<Rightarrow> ('a, 'k) migration_state \<Rightarrow> migration_result \<times> ('a, 'k) migration_state" where
  "reconcile_migration api hosted name s =
     (case ma_GetMigration api name (ms_api s) of
        GetNotFound \<Rightarrow> (MigrationDone, s)
      | GetFailed \<Rightarrow> (MigrationError, s)
      | GetFound migration \<Rightarrow>
          if \<not> mg_Deleting migration then
            (if ManagedClusterMigrationFinalizer \<notin> set (mg_Finalizers migration) then
               as_result (lift_step (ma_UpdateMigration api (migration\<lparr>mg_Finalizers := mg_Finalizers migration @ [ManagedClusterMigrationFinalizer]\<rparr>)) s)
             else case ensureManagedServiceAccount api migration s of
                    (False, s1) \<Rightarrow> (MigrationError, s1)
                  | (True, s1) \<Rightarrow> as_result (syncMigrationTo api hosted migration s1))
          else if ManagedClusterMigrationFinalizer \<in> set (mg_Finalizers migration) then
            (case deleteManagedServiceAccount api migration s of
               (False, s1) \<Rightarrow> (MigrationError, s1)
             | (True, s1) \<Rightarrow>
                 as_result (lift_step (ma_UpdateMigration api (migration\<lparr>mg_Finalizers := removeAll ManagedClusterMigrationFinalizer (mg_Finalizers migration)\<rparr>)) s1))
          else (MigrationDone, s))"

definition reconcile_account :: "('a, 'k) migration_api \<Rightarrow> bool \<Rightarrow> string \<Rightarrow> string \<Rightarrow> ('a, 'k) migration_state \<Rightarrow> migration_result \<times> ('a, 'k) migration_state" where
  "reconcile_account api hosted ns name s =
     (case ma_GetMSA api ns name (ms_api s) of
        GetNotFound \<Rightarrow> (MigrationDone, s)
      | GetFailed \<Rightarrow> (MigrationError, s)
      | GetFound labels \<Rightarrow>
          if map_of labels ''owner'' \<noteq> Some migration_owner then (MigrationDone, s)
          else case ma_GetSecret api ns name (ms_api s) of
                 GetNotFound \<Rightarrow> (MigrationRequeue, s)
               | GetFailed \<Rightarrow> (MigrationError, s)
               | GetFound _ \<Rightarrow>
                   (case generateKubeconfig api ns name (ms_api s) of
                      None \<Rightarrow> (MigrationPanic, s)
                    | Some (GetFound config) \<Rightarrow>
                        (case generateBootstrapSecret api config ns of
                           None \<Rightarrow> (MigrationError, s\<lparr>ms_BootstrapSecret := None\<rparr>)
                         | Some secret \<Rightarrow>
                             let s1 = s\<lparr>ms_BootstrapSecret := Some secret\<rparr>
                             in case ma_GetMigration api name (ms_api s1) of
                                  GetFound migration \<Rightarrow> as_result (syncMigration api hosted migration secret (generateKlusterletConfig ns) s1)
                                | _ \<Rightarrow> (MigrationError, s1))
                    | Some _ \<Rightarrow> (MigrationError, s)))"

definition migration_Reconcile ::
    "('a, 'k) migration_api \<Rightarrow> string \<Rightarrow> bool \<Rightarrow> string \<times> string \<Rightarrow> ('a, 'k) migration_state \<Rightarrow> migration_result \<times> ('a, 'k) migration_state" where
  "migration_Reconcile api defaultNamespace hosted req s =
     (if fst req = defaultNamespace then reconcile_migration api hosted (snd req) s else reconcile_account api hosted (fst req) (snd req) s)"

section \<open>The handler for addon configurations\<close>

text \<open>The configuration goes to the first migration of the list; without a migration it is dropped.\<close>

definition handleKlusterletAddonConfigEvent :: "('a, 'k) migration_api \<Rightarrow> 'a addon_config option \<Rightarrow> ('a, 'k) migration_state \<Rightarrow> bool \<times> ('a, 'k) migration_state" where
  "handleKlusterletAddonConfigEvent api data s =
     (case data of
        None \<Rightarrow> (False, s)
      | Some config \<Rightarrow>
          (case ma_ListMigrations api (ms_api s) of
             None \<Rightarrow> (False, s)
           | Some [] \<Rightarrow> (True, s)
           | Some (migration # _) \<Rightarrow>
               lift_step (ma_UpdateMigration api (migration\<lparr>mg_Annotations :=
                 AList.update KlusterletAddonConfigAnnotation (ma_Marshal api config) (mg_Annotations migration)\<rparr>)) s))"

section \<open>What the hubs are told\<close>

abbreviation clusters_of :: "string \<Rightarrow> (string \<times> string) list \<Rightarrow> string list" where
  "clusters_of h rows \<equiv> map snd (filter (\<lambda>r. fst r = h) rows)"

lemma group_clusters_lookup:
  "map_of (group_clusters rows m) h =
     (if h \<in> fst ` set rows then Some ((case map_of m h of Some cs \<Rightarrow> cs | None \<Rightarrow> []) @ clusters_of h rows) else map_of m h)"
  by (induction rows m rule: group_clusters.induct) (auto split: option.splits simp: filter_empty_conv)

lemma group_clusters_distinct: "distinct (map fst m) \<Longrightarrow> distinct (map fst (group_clusters rows m))"
  by (induction rows m rule: group_clusters.induct) (simp_all add: distinct_update)

definition group_event :: "bootstrap_secret \<Rightarrow> klusterlet_config \<Rightarrow> string \<times> string list \<Rightarrow> 'a migration_payload Event" where
  "group_event secret config g = from_event (fst g) (snd g) secret config"

lemma send_groups_sent:
  "send_groups api secret config m s = (True, s') \<Longrightarrow> ms_sent s' = ms_sent s @ map (group_event secret config) m"
  by (induction m arbitrary: s) (auto simp: syncMigrationFrom_def send_def group_event_def split: if_splits)

text \<open>The events of the giving side for a hub.\<close>

definition from_for :: "string \<Rightarrow> 'a migration_payload Event \<Rightarrow> bool" where
  "from_for h e \<longleftrightarrow> evt_Type e = CloudEventTypeMigrationFrom \<and> evt_Extensions e ''clustername'' = Some (ExtString h)"

lemma from_for_simps [simp]:
  "from_for h (group_event secret config g) \<longleftrightarrow> fst g = h" "\<not> from_for h (to_event ns migration c)"
  by (auto simp: from_for_def group_event_def from_event_def to_event_def utils_ToCloudEvent_def CloudEventTypeMigrationFrom_def CloudEventTypeMigrationTo_def)

lemma filter_key:
  "distinct (map fst m) \<Longrightarrow> filter (\<lambda>g. fst g = h) m = (case map_of m h of Some cs \<Rightarrow> [(h, cs)] | None \<Rightarrow> [])"
proof (induction m)
  case (Cons g m)
  then have "fst g = h \<Longrightarrow> map_of m h = None" by (metis distinct.simps(2) list.simps(9) map_of_eq_None_iff set_map)
  with Cons show ?case by (cases g) (auto split: option.splits)
qed simp

lemma syncMigrationTo_sent:
  assumes "syncMigrationTo api hosted migration s = (True, s')"
  shows "\<exists>c. ms_sent s' = ms_sent s @ [to_event (msa_namespace hosted migration) migration c]"
  using assms by (auto simp: syncMigrationTo_def send_def Let_def split: option.splits if_splits)

lemma syncMigration_sent:
  assumes "syncMigration api hosted migration secret config s = (True, s')" "mg_From migration = []"
    and "ma_rows api (mg_IncludedManagedClusters migration) (ms_api s) = Some rows" "ms_sent s = []"
  shows "filter (from_for h) (ms_sent s') = (if h \<in> fst ` set rows then [group_event secret config (h, clusters_of h rows)] else [])"
proof -
  from assms obtain s1 where s1: "send_groups api secret config (group_clusters rows []) s = (True, s1)" "syncMigrationTo api hosted migration s1 = (True, s')"
    by (auto simp: syncMigration_def split: prod.splits if_splits)
  from syncMigrationTo_sent [OF s1(2)] send_groups_sent [OF s1(1)] assms(4)
  obtain c where sent: "ms_sent s' = map (group_event secret config) (group_clusters rows []) @ [to_event (msa_namespace hosted migration) migration c]" by auto
  have "filter (from_for h) (ms_sent s') = map (group_event secret config) (filter (\<lambda>g. fst g = h) (group_clusters rows []))"
    by (simp add: sent filter_map comp_def)
  then show ?thesis using filter_key [OF group_clusters_distinct [of "[]" rows], of h] by (simp add: group_clusters_lookup)
qed


definition mem_migration_api :: "(string \<times> string) list \<Rightarrow> (unit, unit) migration_api" where
  "mem_migration_api rows = \<lparr>ma_GetMigration = (\<lambda>_ _. GetNotFound), ma_UpdateMigration = (\<lambda>_ k. (SyncOk, k)), ma_ListMigrations = (\<lambda>_. Some []),
     ma_GetMSA = (\<lambda>_ _ _. GetNotFound), ma_CreateMSA = (\<lambda>_ _ _ k. (SyncOk, k)), ma_DeleteMSA = (\<lambda>_ _ k. (SyncOk, k)),
     ma_GetSecret = (\<lambda>_ _ _. GetNotFound), ma_GetClientURLs = (\<lambda>_ _. GetNotFound),
     ma_rows = (\<lambda>cs _. Some (filter (\<lambda>r. snd r \<in> set cs) rows)), ma_SendEvent = (\<lambda>_ _. True), ma_Write = (\<lambda>_. Some []),
     ma_Unmarshal = (\<lambda>_. None), ma_Marshal = (\<lambda>_. [])\<rparr>"

definition ex_cr :: ManagedClusterMigration where
  "ex_cr = \<lparr>mg_Name = ''m'', mg_Annotations = [], mg_Finalizers = [ManagedClusterMigrationFinalizer], mg_Deleting = False, mg_From = [], mg_To = ''hub3'',
     mg_IncludedManagedClusters = [''c1'', ''c2'', ''c3'']\<rparr>"

definition ex_cluster_rows :: "(string \<times> string) list" where
  "ex_cluster_rows = [(''hub1'', ''c1''), (''hub2'', ''c3''), (''hub1'', ''c2''), (''hub1'', ''c4'')]"


end
