(* ===== verification/AgentEvents.thy ===== *)
theory AgentEvents
  imports AgentSyncer "HOL-Library.Sublist"
begin

text \<open>
  The remaining status syncers of the agent (\<^verbatim>\<open>agent/pkg/status/syncers\<close>): the handlers that forward Kubernetes events of policies and clusters
  (\<^verbatim>\<open>events\<close>), the information about the hub and its heartbeat (\<^verbatim>\<open>managedhub\<close>), and the instances of the generic handler for clusters, placements
  and subscriptions. The API client is a parameter: the objects that \<^verbatim>\<open>Get\<close> returns.
\<close>

section \<open>Kubernetes events\<close>

record 's kevent =
  ev_Namespace :: string
  ev_Name :: string
  ev_Message :: string
  ev_Reason :: string
  ev_Type :: string
  ev_Count :: "32 word"
  ev_Source :: 's
  ev_InvolvedKind :: string
  ev_InvolvedNamespace :: string
  ev_InvolvedName :: string
  ev_CreationTimestamp :: int
  ev_LastTimestamp :: int
  ev_Series :: "(32 word \<times> int) option"
  ev_ReportingController :: string
  ev_ReportingInstance :: string

definition getEventLastTime :: "'s kevent \<Rightarrow> int" where
  "getEventLastTime evt =
     (let t = ev_CreationTimestamp evt;
          t1 = (if ev_LastTimestamp evt \<noteq> 0 then ev_LastTimestamp evt else t)
      in case ev_Series evt of None \<Rightarrow> t1 | Some (_, last_observed) \<Rightarrow> last_observed)"

definition getEventCount :: "'s kevent \<Rightarrow> 32 word" where
  "getEventCount evt = (case ev_Series evt of None \<Rightarrow> ev_Count evt | Some (n, _) \<Rightarrow> n)"

text \<open>
  The second group of the expression \<^verbatim>\<open>Policy (.+) status was updated to (.+) in cluster namespace (.+)\<close>. The first match from the left
  counts, and each group takes as much as it can; none of them contains a line break.
\<close>

fun occurrences :: "string \<Rightarrow> string \<Rightarrow> (string \<times> string) list" where
  "occurrences sep [] = (if sep = [] then [([], [])] else [])"
| "occurrences sep (c # cs) =
     (if prefix sep (c # cs) then [([], drop (length sep) (c # cs))] else []) @ map (\<lambda>(p, q). (c # p, q)) (occurrences sep cs)"

definition group_text :: "string \<Rightarrow> bool" where
  "group_text s \<longleftrightarrow> s \<noteq> [] \<and> CHR 0x0A \<notin> set s"

definition state_group :: "string \<Rightarrow> string option" where
  "state_group rest =
     (case [g2. (g1, r1) \<leftarrow> rev (occurrences '' status was updated to '' rest), group_text g1,
                (g2, r2) \<leftarrow> rev (occurrences '' in cluster namespace '' r1), group_text g2 \<and> r2 \<noteq> [] \<and> hd r2 \<noteq> CHR 0x0A] of
        [] \<Rightarrow> None | g # _ \<Rightarrow> Some g)"

definition message_state :: "string \<Rightarrow> string option" where
  "message_state message =
     (case List.map_filter (\<lambda>(_, rest). state_group rest) (occurrences ''Policy '' message) of [] \<Rightarrow> None | g # _ \<Rightarrow> Some g)"

text \<open>A policy of the client: the object and its compliance state.\<close>

type_synonym involved_policy = "kobject \<times> string"

definition policyCompliance :: "involved_policy \<Rightarrow> 's kevent \<Rightarrow> string" where
  "policyCompliance policy evt =
     (let compliance = (if snd policy \<noteq> [] then snd policy else ''Unknown'')
      in if compliance \<noteq> ''Unknown'' then compliance
         else (case message_state (ev_Message evt) of Some state \<Rightarrow> state | None \<Rightarrow> compliance))"

definition event_predicate :: "'s kevent \<Rightarrow> bool" where
  "event_predicate evt \<longleftrightarrow> ev_InvolvedKind evt = ''Policy'' \<or> ev_InvolvedKind evt = ''ManagedCluster''"

record event_client =
  ec_policy :: "string \<Rightarrow> string \<Rightarrow> involved_policy option"
  ec_cluster :: "string \<Rightarrow> (string \<times> (string \<times> string) list) option"

definition getInvolvePolicy :: "event_client \<Rightarrow> 's kevent \<Rightarrow> involved_policy option" where
  "getInvolvePolicy c evt = ec_policy c (ev_InvolvedNamespace evt) (ev_InvolvedName evt)"

definition policyEventPredicate :: "string \<Rightarrow> event_client \<Rightarrow> time_filter \<Rightarrow> 's kevent \<Rightarrow> involved_policy option" where
  "policyEventPredicate name c tf evt =
     (if \<not> Newer name (getEventLastTime evt) tf then None
      else if ev_InvolvedKind evt \<noteq> ''Policy'' then None
      else getInvolvePolicy c evt)"

subsection \<open>Events of root policies\<close>

definition root_event_name :: string where
  "root_event_name = ''event.localrootpolicy''"

definition localRoot_shouldUpdate :: "bool \<Rightarrow> string \<Rightarrow> event_client \<Rightarrow> time_filter \<Rightarrow> 's kevent \<Rightarrow> bool" where
  "localRoot_shouldUpdate enableLocalPolicy name c tf evt =
     (if \<not> enableLocalPolicy then False
      else case policyEventPredicate name c tf evt of
             None \<Rightarrow> False
           | Some (policy, _) \<Rightarrow> \<not> HasAnnotation policy OriginOwnerReferenceAnnotation \<and> \<not> HasLabel policy PolicyEventRootPolicyNameLabelKey)"

definition root_policy_event :: "'s kevent \<Rightarrow> involved_policy \<Rightarrow> 's RootPolicyEvent" where
  "root_policy_event evt policy =
     \<lparr>be_EventName = ev_Name evt, be_EventNamespace = ev_Namespace evt, be_Message = ev_Message evt, be_Reason = ev_Reason evt,
      be_Count = getEventCount evt, be_Source = ev_Source evt, be_CreatedAt = getEventLastTime evt,
      re_PolicyID = ko_UID (fst policy), re_Compliance = policyCompliance policy evt\<rparr>"

definition localRoot_Update ::
    "bool \<Rightarrow> string \<Rightarrow> event_client \<Rightarrow> time_filter \<Rightarrow> 's kevent \<Rightarrow> 's RootPolicyEvent list \<Rightarrow> bool \<times> 's RootPolicyEvent list" where
  "localRoot_Update enableLocalPolicy name c tf evt payload =
     (if \<not> localRoot_shouldUpdate enableLocalPolicy name c tf evt then (False, payload)
      else case getInvolvePolicy c evt of
             None \<Rightarrow> (False, payload)
           | Some policy \<Rightarrow> (True, payload @ [root_policy_event evt policy]))"

definition root_postSend :: "string \<Rightarrow> 's RootPolicyEvent list \<times> time_filter \<Rightarrow> 's RootPolicyEvent list \<times> time_filter" where
  "root_postSend name = (\<lambda>(events, tf). ([], fold (\<lambda>evt. CacheTime name (be_CreatedAt evt)) events tf))"

subsection \<open>Events of replicated policies\<close>

definition localReplicated_shouldUpdate :: "bool \<Rightarrow> string \<Rightarrow> event_client \<Rightarrow> time_filter \<Rightarrow> 's kevent \<Rightarrow> bool" where
  "localReplicated_shouldUpdate enableLocalPolicy name c tf evt =
     (if \<not> enableLocalPolicy then False
      else case policyEventPredicate name c tf evt of
             None \<Rightarrow> False
           | Some (policy, _) \<Rightarrow> \<not> HasAnnotation policy OriginOwnerReferenceAnnotation \<and> HasLabel policy PolicyEventRootPolicyNameLabelKey)"

text \<open>The root policy is looked up by the label of the replicated one; its own state is the compliance of the event.\<close>

definition root_policy_of :: "event_client \<Rightarrow> kobject \<Rightarrow> involved_policy option" where
  "root_policy_of c replicated =
     (let parts = split_on CHR ''.'' (case map_of (ko_Labels replicated) PolicyEventRootPolicyNameLabelKey of None \<Rightarrow> [] | Some n \<Rightarrow> n)
      in if length parts < 2 then None else ec_policy c (parts ! 0) (parts ! 1))"

definition localReplicated_Update ::
    "bool \<Rightarrow> string \<Rightarrow> event_client \<Rightarrow> time_filter \<Rightarrow> 's kevent \<Rightarrow> 's ReplicatedPolicyEvent list \<Rightarrow> bool \<times> 's ReplicatedPolicyEvent list" where
  "localReplicated_Update enableLocalPolicy name c tf evt payload =
     (if \<not> localReplicated_shouldUpdate enableLocalPolicy name c tf evt then (False, payload)
      else case getInvolvePolicy c evt of
             None \<Rightarrow> (False, payload)
           | Some (policy, _) \<Rightarrow>
               (case (root_policy_of c policy, map_of (ko_Labels policy) PolicyEventClusterNameLabelKey) of
                  (Some root, Some clusterName) \<Rightarrow>
                    (case GetClusterId (ec_cluster c) clusterName of
                       None \<Rightarrow> (False, payload)
                     | Some clusterID \<Rightarrow>
                         (True, payload @
                            [\<lparr>be_EventName = ev_Name evt, be_EventNamespace = ev_Namespace evt, be_Message = ev_Message evt, be_Reason = ev_Reason evt,
                              be_Count = ev_Count evt, be_Source = ev_Source evt, be_CreatedAt = ev_CreationTimestamp evt,
                              pe_PolicyID = ko_UID (fst root), pe_ClusterID = clusterID, pe_ClusterName = clusterName,
                              pe_Compliance = policyCompliance root evt\<rparr>]))
                | _ \<Rightarrow> (False, payload)))"

definition replicated_postSend :: "string \<Rightarrow> 's ReplicatedPolicyEvent list \<times> time_filter \<Rightarrow> 's ReplicatedPolicyEvent list \<times> time_filter" where
  "replicated_postSend name = (\<lambda>(events, tf). ([], fold (\<lambda>evt. CacheTime name (be_CreatedAt evt)) events tf))"

subsection \<open>Events of managed clusters\<close>

definition managedCluster_shouldUpdate :: "string \<Rightarrow> time_filter \<Rightarrow> 's kevent \<Rightarrow> bool" where
  "managedCluster_shouldUpdate name tf evt =
     (if ev_InvolvedKind evt \<noteq> ''ManagedCluster'' then False
      else if \<not> Newer name (getEventLastTime evt) tf then False
      else True)"

definition cluster_event :: "string \<Rightarrow> 's kevent \<Rightarrow> string \<Rightarrow> ManagedClusterEvent" where
  "cluster_event leafHubName evt clusterId =
     \<lparr>ce_EventNamespace = ev_Namespace evt, ce_EventName = ev_Name evt, ce_ClusterName = ev_InvolvedName evt, ce_ClusterID = clusterId,
      ce_LeafHubName = leafHubName, ce_Message = ev_Message evt, ce_Reason = ev_Reason evt,
      ce_ReportingController = ev_ReportingController evt, ce_ReportingInstance = ev_ReportingInstance evt,
      ce_EventType = ev_Type evt, ce_CreatedAt = getEventLastTime evt\<rparr>"

definition managedCluster_Update ::
    "string \<Rightarrow> string \<Rightarrow> event_client \<Rightarrow> time_filter \<Rightarrow> 's kevent \<Rightarrow> ManagedClusterEvent list \<Rightarrow> bool \<times> ManagedClusterEvent list" where
  "managedCluster_Update leafHubName name c tf evt payload =
     (if \<not> managedCluster_shouldUpdate name tf evt then (False, payload)
      else if ec_cluster c (ev_InvolvedName evt) = None then (False, payload)
      else case GetClusterId (ec_cluster c) (ev_InvolvedName evt) of
             None \<Rightarrow> (False, payload)
           | Some clusterId \<Rightarrow> (True, payload @ [cluster_event leafHubName evt clusterId]))"

definition cluster_postSend :: "string \<Rightarrow> ManagedClusterEvent list \<times> time_filter \<Rightarrow> ManagedClusterEvent list \<times> time_filter" where
  "cluster_postSend name = (\<lambda>(events, tf). ([], fold (\<lambda>evt. CacheTime name (ce_CreatedAt evt)) events tf))"

section \<open>The hub\<close>

record hub_info =
  hi_ConsoleURL :: string
  hi_GrafanaURL :: string
  hi_ClusterId :: string

definition info_claim_predicate :: "string \<Rightarrow> bool" where
  "info_claim_predicate name \<longleftrightarrow> name = ''id.k8s.io''"

definition info_route_predicate :: "string \<Rightarrow> string \<Rightarrow> bool" where
  "info_route_predicate namespace name \<longleftrightarrow>
     namespace = ''openshift-console'' \<and> name = ''console'' \<or> namespace = ''open-cluster-management-observability'' \<and> name = ''grafana''"

definition infoClaim_Update :: "string \<Rightarrow> string \<Rightarrow> hub_info \<Rightarrow> bool \<times> hub_info" where
  "infoClaim_Update name v info =
     (let old = hi_ClusterId info;
          info1 = (if name = ''id.k8s.io'' then info\<lparr>hi_ClusterId := v\<rparr> else info)
      in (if hi_ClusterId info1 = [] then False else old \<noteq> hi_ClusterId info1, info1))"

definition route_url :: "string \<Rightarrow> string" where
  "route_url host = (if length host \<noteq> 0 then ''https://'' @ host else [])"

definition infoRoute_Update :: "string \<Rightarrow> string \<Rightarrow> hub_info \<Rightarrow> bool \<times> hub_info" where
  "infoRoute_Update name host info =
     (let newURL = route_url host;
          (u1, info1) = (if name = ''console'' \<and> hi_ConsoleURL info \<noteq> newURL then (True, info\<lparr>hi_ConsoleURL := newURL\<rparr>) else (False, info));
          (u2, info2) = (if name = ''grafana'' \<and> hi_GrafanaURL info1 \<noteq> newURL then (True, info1\<lparr>hi_GrafanaURL := newURL\<rparr>) else (u1, info1))
      in (u2, info2))"

definition infoRoute_Delete :: "string \<Rightarrow> hub_info \<Rightarrow> bool \<times> hub_info" where
  "infoRoute_Delete name info =
     (let (u1, info1) = (if name = ''console'' \<and> hi_ConsoleURL info \<noteq> [] then (True, info\<lparr>hi_ConsoleURL := []\<rparr>) else (False, info));
          (u2, info2) = (if name = ''grafana'' \<and> hi_GrafanaURL info1 \<noteq> [] then (True, info1\<lparr>hi_GrafanaURL := []\<rparr>) else (u1, info1))
      in (u2, info2))"

text \<open>The heartbeat is due at every tick, whether or not its version has grown.\<close>

record heartbeatEmitter =
  hb_currentVersion :: Version
  hb_lastSentVersion :: Version

definition NewHeartbeatEmitter :: heartbeatEmitter where
  "NewHeartbeatEmitter = \<lparr>hb_currentVersion = NewVersion, hb_lastSentVersion = NewVersion\<rparr>"

definition heartbeat_ShouldSend :: "heartbeatEmitter \<Rightarrow> bool" where
  "heartbeat_ShouldSend s = True"

definition heartbeat_PostUpdate :: "heartbeatEmitter \<Rightarrow> heartbeatEmitter" where
  "heartbeat_PostUpdate s = s\<lparr>hb_currentVersion := Incr (hb_currentVersion s)\<rparr>"

definition heartbeat_PostSend :: "heartbeatEmitter \<Rightarrow> heartbeatEmitter" where
  "heartbeat_PostSend s = (let v = Next (hb_currentVersion s) in \<lparr>hb_currentVersion = v, hb_lastSentVersion = v\<rparr>)"

section \<open>Instances of the generic handler\<close>

definition ManagedClusterManagedByAnnotation :: string where
  "ManagedClusterManagedByAnnotation = ''global-hub.open-cluster-management.io/managed-by''"

definition new_generic :: "(kobject \<Rightarrow> kobject) option \<Rightarrow> update_filter option \<Rightarrow> genericHandler" where
  "new_generic tweak shouldUpdate = \<lparr>gh_eventData = [], gh_isSpec = False, gh_tweakFunc = tweak, gh_shouldUpdate = shouldUpdate\<rparr>"

definition managed_by :: "string \<Rightarrow> kobject \<Rightarrow> kobject" where
  "managed_by leafHubName object = object\<lparr>ko_Annotations := AList.update ManagedClusterManagedByAnnotation leafHubName (ko_Annotations object)\<rparr>"

definition managedClusterHandler :: "string \<Rightarrow> genericHandler" where
  "managedClusterHandler leafHubName =
     new_generic (Some (managed_by leafHubName)) (Some (\<lambda>obj. \<not> HasAnnotation obj ''global-hub.open-cluster-management.io/migrating''))"

definition cleanupManagedFields :: "kobject \<Rightarrow> kobject" where
  "cleanupManagedFields obj = obj\<lparr>ko_ManagedFields := []\<rparr>"

definition globalResource :: "kobject \<Rightarrow> bool" where
  "globalResource obj = HasAnnotation obj OriginOwnerReferenceAnnotation"

definition placementHandler :: genericHandler where
  "placementHandler = new_generic (Some cleanupManagedFields) (Some globalResource)"

definition placementDecisionHandler :: genericHandler where
  "placementDecisionHandler = new_generic (Some cleanupManagedFields) (Some globalResource)"

text \<open>The handler for local placement rules is switched off.\<close>

definition placementRuleHandlers :: "genericHandler list" where
  "placementRuleHandlers =
     [new_generic (Some cleanupManagedFields) (Some globalResource), new_generic (Some cleanupManagedFields) (Some (\<lambda>_. False))]"

definition subscriptionReportHandler :: genericHandler where
  "subscriptionReportHandler = new_generic None None"

definition subscriptionStatusHandler :: genericHandler where
  "subscriptionStatusHandler = new_generic None None"

section \<open>What the time filter drops\<close>

text \<open>
  The events that a handler is offered, with sending in between at arbitrary moments. A step takes the handler's update and what it does after sending.
  The last component of the state collects what was sent.
\<close>

datatype 's event_step = Offer "'s kevent" | SendPayload

fun handler_step ::
    "(time_filter \<Rightarrow> 's kevent \<Rightarrow> 'e list \<Rightarrow> bool \<times> 'e list) \<Rightarrow> ('e list \<times> time_filter \<Rightarrow> 'e list \<times> time_filter) \<Rightarrow> 's event_step
       \<Rightarrow> 'e list \<times> time_filter \<times> 'e list \<Rightarrow> 'e list \<times> time_filter \<times> 'e list" where
  "handler_step upd post (Offer evt) (payload, tf, sent) = (snd (upd tf evt payload), tf, sent)"
| "handler_step upd post SendPayload (payload, tf, sent) = (let (payload', tf') = post (payload, tf) in (payload', tf', sent @ payload))"

definition event_run ::
    "string \<Rightarrow> (time_filter \<Rightarrow> 's kevent \<Rightarrow> 'e list \<Rightarrow> bool \<times> 'e list) \<Rightarrow> ('e list \<times> time_filter \<Rightarrow> 'e list \<times> time_filter) \<Rightarrow> 's event_step list \<Rightarrow> time_filter
       \<Rightarrow> 'e list \<times> time_filter \<times> 'e list" where
  "event_run name upd post steps tf = fold (handler_step upd post) steps ([], RegisterTimeFilter name tf, [])"

lemma CacheTime_lookup:
  "map_of (tf_eventTimeCache (CacheTime key new tf)) key =
     (case map_of (tf_eventTimeCache tf) key of None \<Rightarrow> Some new | Some old \<Rightarrow> Some (max old new))"
  by (auto simp: CacheTime_def update_conv max_def split: option.splits)

lemma fold_CacheTime_bound:
  assumes "map_of (tf_eventTimeCache tf) key = Some t0" "map_of (tf_eventTimeCache (fold (\<lambda>e. CacheTime key (f e)) es tf)) key = Some t"
  shows "t = t0 \<or> t \<in> f ` set es"
  using assms
proof (induction es arbitrary: tf t0)
  case (Cons e es)
  have "map_of (tf_eventTimeCache (CacheTime key (f e) tf)) key = Some (max t0 (f e))" using Cons.prems(1) by (simp add: CacheTime_lookup)
  from Cons.IH [OF this] Cons.prems(2) show ?case by (auto simp: max_def split: if_splits)
qed simp

lemma fold_CacheTime_some:
  "map_of (tf_eventTimeCache tf) key \<noteq> None \<Longrightarrow> map_of (tf_eventTimeCache (fold (\<lambda>e. CacheTime key (f e)) es tf)) key \<noteq> None"
  by (induction es arbitrary: tf) (auto simp: CacheTime_lookup split: option.splits)

text \<open>
  The contract of a handler with a time filter: an event that concerns the handler becomes an entry of the payload exactly if the filter lets its last
  time pass, and after sending, the times of the entries are cached and the payload is empty.
\<close>

locale filtered_handler =
  fixes name :: string
    and created :: "'e \<Rightarrow> int"
    and entry :: "'s kevent \<Rightarrow> 'e option"
    and upd :: "time_filter \<Rightarrow> 's kevent \<Rightarrow> 'e list \<Rightarrow> bool \<times> 'e list"
    and post :: "'e list \<times> time_filter \<Rightarrow> 'e list \<times> time_filter"
  assumes upd_law: "upd tf evt payload =
      (case entry evt of None \<Rightarrow> (False, payload) | Some e \<Rightarrow> if Newer name (getEventLastTime evt) tf then (True, payload @ [e]) else (False, payload))"
    and post_law: "post (payload, tf) = ([], fold (\<lambda>e. CacheTime name (created e)) payload tf)"
begin

definition from_sent :: "time_filter \<Rightarrow> 'e list \<Rightarrow> bool" where
  "from_sent tf sent \<longleftrightarrow> (\<exists>t. map_of (tf_eventTimeCache tf) name = Some t \<and> (t = 0 \<or> t \<in> created ` set sent))"

lemma step_from_sent:
  assumes "from_sent tf sent" "handler_step upd post s (payload, tf, sent) = (payload', tf', sent')"
  shows "from_sent tf' sent'"
proof (cases s)
  case (Offer evt)
  then show ?thesis using assms by simp
next
  case SendPayload
  obtain t where t: "map_of (tf_eventTimeCache tf) name = Some t" "t = 0 \<or> t \<in> created ` set sent"
    using assms(1) by (auto simp: from_sent_def)
  have eq: "tf' = fold (\<lambda>evt. CacheTime name (created evt)) payload tf" "sent' = sent @ payload"
    using assms(2) SendPayload by (auto simp: post_law)
  obtain u where u: "map_of (tf_eventTimeCache tf') name = Some u"
    using fold_CacheTime_some [of tf name created payload] t(1) eq(1) by auto
  then show ?thesis using fold_CacheTime_bound [OF t(1), of created payload u] t(2) eq by (auto simp: from_sent_def)
qed

lemma run_from_sent:
  assumes "event_run name upd post steps tf0 = (payload, tf, sent)"
  shows "from_sent tf sent"
proof -
  have "from_sent tf1 sent1 \<Longrightarrow> fold (handler_step upd post) steps (p1, tf1, sent1) = (payload, tf, sent) \<Longrightarrow> from_sent tf sent" for p1 tf1 sent1
  proof (induction steps arbitrary: p1 tf1 sent1)
    case (Cons s steps)
    obtain p2 tf2 sent2 where s: "handler_step upd post s (p1, tf1, sent1) = (p2, tf2, sent2)" by (metis prod_cases3)
    then show ?case using Cons.IH [OF step_from_sent [OF Cons.prems(1) s]] Cons.prems(2) by simp
  qed simp
  moreover have "from_sent (RegisterTimeFilter name tf0) []" by (simp add: from_sent_def RegisterTimeFilter_def update_conv)
  ultimately show ?thesis using assms unfolding event_run_def by blast
qed

lemma kept_unless_late:
  assumes "event_run name upd post steps tf0 = (payload, tf, sent)" "0 \<le> getEventLastTime evt" "entry evt = Some e"
  shows "upd tf evt payload = (True, payload @ [e]) \<or> (\<exists>e' \<in> set sent. getEventLastTime evt + DeltaDuration \<le> created e')"
proof (cases "Newer name (getEventLastTime evt) tf")
  case True
  then show ?thesis using assms(3) by (simp add: upd_law)
next
  case False
  obtain t where t: "map_of (tf_eventTimeCache tf) name = Some t" "t = 0 \<or> t \<in> created ` set sent"
    using run_from_sent [OF assms(1)] by (auto simp: from_sent_def)
  then have "getEventLastTime evt + DeltaDuration \<le> t" using False by (simp add: Newer_def)
  moreover have "0 < DeltaDuration" by (simp add: DeltaDuration_def)
  ultimately show ?thesis using t(2) assms(2) by auto
qed

end

text \<open>The handlers of root policies and of managed clusters keep the contract. That of replicated policies does not: it caches another time than it compares.\<close>

definition root_entry :: "bool \<Rightarrow> event_client \<Rightarrow> 's kevent \<Rightarrow> 's RootPolicyEvent option" where
  "root_entry enabled c evt =
     (if \<not> enabled \<or> ev_InvolvedKind evt \<noteq> ''Policy'' then None
      else case getInvolvePolicy c evt of
             None \<Rightarrow> None
           | Some policy \<Rightarrow>
               if HasAnnotation (fst policy) OriginOwnerReferenceAnnotation \<or> HasLabel (fst policy) PolicyEventRootPolicyNameLabelKey then None
               else Some (root_policy_event evt policy))"

definition cluster_event_name :: string where
  "cluster_event_name = ''event.managedcluster''"

definition cluster_entry :: "string \<Rightarrow> event_client \<Rightarrow> 's kevent \<Rightarrow> ManagedClusterEvent option" where
  "cluster_entry leafHubName c evt =
     (if ev_InvolvedKind evt \<noteq> ''ManagedCluster'' then None
      else map_option (cluster_event leafHubName evt) (GetClusterId (ec_cluster c) (ev_InvolvedName evt)))"

interpretation root_handler: filtered_handler root_event_name be_CreatedAt "root_entry enabled c" "localRoot_Update enabled root_event_name c" "root_postSend root_event_name"
  for enabled c
  by unfold_locales
     (auto simp: root_entry_def localRoot_Update_def localRoot_shouldUpdate_def policyEventPredicate_def root_postSend_def split: option.splits)

interpretation cluster_handler: filtered_handler cluster_event_name ce_CreatedAt "cluster_entry leafHubName c" "managedCluster_Update leafHubName cluster_event_name c" "cluster_postSend cluster_event_name"
  for leafHubName c
  by unfold_locales
     (auto simp: cluster_entry_def managedCluster_Update_def managedCluster_shouldUpdate_def cluster_postSend_def GetClusterId_def split: option.splits)


definition ex_kevent :: "int \<Rightarrow> unit kevent" where
  "ex_kevent t = \<lparr>ev_Namespace = ''default'', ev_Name = ''e'', ev_Message = ''Policy p status was updated to Compliant in cluster namespace c1'',
     ev_Reason = ''PolicyStatusSync'', ev_Type = ''Normal'', ev_Count = 1, ev_Source = (), ev_InvolvedKind = ''Policy'', ev_InvolvedNamespace = ''default'',
     ev_InvolvedName = ''p'', ev_CreationTimestamp = t, ev_LastTimestamp = 0, ev_Series = None, ev_ReportingController = [], ev_ReportingInstance = []\<rparr>"

definition ex_event_policy :: kobject where
  "ex_event_policy = \<lparr>ko_IsPolicy = True, ko_Namespace = ''default'', ko_Name = ''p'', ko_UID = ''u'', ko_Generation = 1, ko_ResourceVersion = ''1'',
     ko_Labels = [], ko_Annotations = [], ko_Deleting = False, ko_Finalizers = [], ko_OwnerReferences = [], ko_ManagedFields = [],
     ko_Status = [], ko_StatusNil = True, ko_Details = []\<rparr>"

definition ex_event_client :: event_client where
  "ex_event_client = \<lparr>ec_policy = (\<lambda>ns n. if n = ''p'' then Some (ex_event_policy, []) else None), ec_cluster = (\<lambda>_. None)\<rparr>"

definition ex_filter :: time_filter where
  "ex_filter = \<lparr>tf_topicName = ''t'', tf_eventTimeCache = [], tf_lastEventTimeCache = []\<rparr>"


section \<open>Objects that are created again\<close>

lemma index_by_name:
  assumes "old \<in> set objects" "ko_Namespace old = ko_Namespace obj" "ko_Name old = ko_Name obj"
  shows "\<exists>i. getObjectIndexByName obj (objects @ rest) = Some i \<and> i < length objects"
  using assms
proof (induction objects)
  case (Cons x objects)
  then show ?case by (cases "ko_Namespace x = ko_Namespace obj \<and> ko_Name x = ko_Name obj") auto
qed simp

text \<open>
  C40: An object that is deleted and created again under its name before the agent reconciles it stays in the bundle for ever. The new object has
  another UID and is added beside the old one; when it is deleted too, the agent knows only its name and removes the first entry with that name, which
  is the old one.
\<close>

theorem recreated_object_stays:
  assumes old: "old \<in> set (gh_eventData h)" "ko_Namespace old = ko_Namespace new" "ko_Name old = ko_Name new"
      and new: "getObjectIndexByUID (ko_UID new) (gh_eventData h) = None" "allowed (gh_shouldUpdate h) new"
      and gone: "ko_UID gone = []" "ko_Namespace gone = ko_Namespace new" "ko_Name gone = ko_Name new" "allowed (gh_shouldUpdate h) gone"
  shows "let (_, h1, _) = genericHandler_Update new h; (reported, h2) = genericHandler_Delete gone h1
         in reported \<and> new \<in> set (gh_eventData h2)"
proof -
  have up: "genericHandler_Update new h = (True, h\<lparr>gh_eventData := gh_eventData h @ [new]\<rparr>, new)"
    using new by (simp add: genericHandler_Update_def)
  obtain i where i: "getObjectIndexByName gone (gh_eventData h @ [new]) = Some i" "i < length (gh_eventData h)"
    using index_by_name [OF old(1), of gone "[new]"] old(2,3) gone(2,3) by auto
  then have "genericHandler_Delete gone (h\<lparr>gh_eventData := gh_eventData h @ [new]\<rparr>) =
      (True, h\<lparr>gh_eventData := remove_at i (gh_eventData h @ [new])\<rparr>)"
    using gone by (simp add: genericHandler_Delete_def getObjectIndexByObj_def)
  moreover have "new \<in> set (remove_at i (gh_eventData h @ [new]))" using i(2) by (simp add: remove_at_def)
  ultimately show ?thesis using up by simp
qed

theorem recreated_object_stays_witness:
  "let h = (managedClusterHandler ''hub1'')\<lparr>gh_eventData := [ex_event_policy]\<rparr>; new = ex_event_policy\<lparr>ko_UID := ''v''\<rparr>;
       (_, h1, _) = genericHandler_Update new h; (reported, h2) = genericHandler_Delete (ex_event_policy\<lparr>ko_UID := []\<rparr>) h1
   in reported \<and> new \<in> set (gh_eventData h2)"
  unfolding Let_def [of "(managedClusterHandler ''hub1'')\<lparr>gh_eventData := [ex_event_policy]\<rparr>"] Let_def [of "ex_event_policy\<lparr>ko_UID := ''v''\<rparr>"]
  by (rule recreated_object_stays [where old = ex_event_policy])
     (simp_all add: managedClusterHandler_def new_generic_def allowed_def HasAnnotation_def ex_event_policy_def)

text \<open>The handlers of the hub information ask for an event exactly when the information has changed, and an identifier is known.\<close>

lemma info_updates_exact:
  "fst (infoRoute_Update name host info) \<longleftrightarrow> snd (infoRoute_Update name host info) \<noteq> info"
  "fst (infoRoute_Delete name info) \<longleftrightarrow> snd (infoRoute_Delete name info) \<noteq> info"
  "fst (infoClaim_Update name v info) \<longleftrightarrow> snd (infoClaim_Update name v info) \<noteq> info \<and> hi_ClusterId (snd (infoClaim_Update name v info)) \<noteq> []"
  by (cases info; auto simp: infoRoute_Update_def infoRoute_Delete_def infoClaim_Update_def Let_def)+

end
