(* ===== verification/RestList.thy ===== *)
theory RestList
  imports Compliance GoStrings "HOL-Library.List_Lexorder" "HOL-Library.Char_ord" "HOL-Library.Product_Lexorder" "HOL-Library.Sublist"
begin

text \<open>
  The list requests of the REST API: label selectors (\<^verbatim>\<open>manager/pkg/restapis/util/label.go\<close>), continue tokens
  (\<^verbatim>\<open>manager/pkg/restapis/util/continue.go\<close>), and paging and watching of managed clusters, subscriptions and policies
  (\<^verbatim>\<open>manager/pkg/restapis/managedclusters/list.go\<close>, \<^verbatim>\<open>subscriptions/list.go\<close>, \<^verbatim>\<open>policies/list.go\<close>).

  A selector that the code turns into the text of an SQL condition is the condition here. Strings are
  compared byte by byte, as the collation C does. The encoding of a token as JSON and base64 is a
  parameter where it matters.
\<close>

section \<open>Strings\<close>

text \<open>\<^verbatim>\<open>strings.Split\<close> for a separator that is not empty: \<open>skip\<close> counts the characters of the separator that are still to be passed.\<close>

fun split_scan :: "string \<Rightarrow> string \<Rightarrow> nat \<Rightarrow> string \<Rightarrow> string list" where
  "split_scan sep cur n [] = [rev cur]"
| "split_scan sep cur (Suc n) (c # cs) = split_scan sep cur n cs"
| "split_scan sep cur 0 (c # cs) =
     (if prefix sep (c # cs) then rev cur # split_scan sep [] (length sep - 1) cs else split_scan sep (c # cur) 0 cs)"

definition strings_Split :: "string \<Rightarrow> string \<Rightarrow> string list" where
  "strings_Split s sep = split_scan sep [] 0 s"

definition strings_Contains :: "string \<Rightarrow> string \<Rightarrow> bool" where
  "strings_Contains s sub \<longleftrightarrow> sublist sub s"

definition is_space :: "char \<Rightarrow> bool" where
  "is_space c \<longleftrightarrow> c \<in> {CHR '' '', CHR 0x09, CHR 0x0A, CHR 0x0B, CHR 0x0C, CHR 0x0D}"

definition TrimSpace :: "string \<Rightarrow> string" where
  "TrimSpace s = rev (dropWhile is_space (rev (dropWhile is_space s)))"

section \<open>Label selectors\<close>

datatype label_condition =
  LabelIs string string
| LabelIsNot string string
| LabelExists string
| LabelMissing string

definition parse_selector :: "string \<Rightarrow> label_condition option" where
  "parse_selector selector =
     (if strings_Contains selector ''!='' then
        (case strings_Split selector ''!='' of [k, v] \<Rightarrow> Some (LabelIsNot (TrimSpace k) (TrimSpace v)) | _ \<Rightarrow> None)
      else if strings_Contains selector ''=='' \<or> strings_Contains selector ''='' then
        (case strings_Split selector ''='' of [k, v] \<Rightarrow> Some (LabelIs (TrimSpace k) (TrimSpace v)) | _ \<Rightarrow> None)
      else if prefix ''!'' selector then Some (LabelMissing (TrimSpace (drop 1 selector)))
      else Some (LabelExists (TrimSpace selector)))"

definition ParseLabelSelector :: "string \<Rightarrow> label_condition list option" where
  "ParseLabelSelector labelSelector = those (map parse_selector (strings_Split labelSelector '',''))"

text \<open>
  The condition on the labels of a row, which are \<^const>\<open>None\<close> when the object has none at all. SQL has a third truth
  value for this case, which a negation keeps, and a row is selected only if the condition is true.
\<close>

fun condition_holds :: "(string, string) gomap option \<Rightarrow> label_condition \<Rightarrow> bool" where
  "condition_holds None _ = False"
| "condition_holds (Some labels) (LabelIs k v) = (map_of labels k = Some v)"
| "condition_holds (Some labels) (LabelIsNot k v) = (map_of labels k \<noteq> Some v)"
| "condition_holds (Some labels) (LabelExists k) = (map_of labels k \<noteq> None)"
| "condition_holds (Some labels) (LabelMissing k) = (map_of labels k = None)"

section \<open>Pages\<close>

record 'p list_row =
  lr_Name :: string
  lr_ID :: string
  lr_UID :: string
  lr_Labels :: "(string, string) gomap option"
  lr_Deleted :: bool
  lr_Payload :: 'p

record continueToken =
  LastName :: string
  LastUID :: string

text \<open>
  What differs between the kinds: the identifier by which the rows of one name are ordered, the one
  that goes into the token, and the token of the first page.
\<close>

record 'p list_kind =
  lk_order_id :: "'p list_row \<Rightarrow> string"
  lk_token_id :: "'p list_row \<Rightarrow> string"
  lk_first_id :: string

definition managed_cluster_kind :: "'p list_kind" where
  "managed_cluster_kind = \<lparr>lk_order_id = lr_ID, lk_token_id = lr_UID, lk_first_id = ''00000000-0000-0000-0000-000000000000''\<rparr>"

definition subscription_kind :: "'p list_kind" where
  "subscription_kind = \<lparr>lk_order_id = lr_UID, lk_token_id = lr_UID, lk_first_id = []\<rparr>"

definition policy_kind :: "'p list_kind" where
  "policy_kind = \<lparr>lk_order_id = lr_UID, lk_token_id = lr_ID, lk_first_id = []\<rparr>"

definition row_key :: "'p list_kind \<Rightarrow> 'p list_row \<Rightarrow> string \<times> string" where
  "row_key K r = (lr_Name r, lk_order_id K r)"

definition first_token :: "'p list_kind \<Rightarrow> continueToken" where
  "first_token K = \<lparr>LastName = [], LastUID = lk_first_id K\<rparr>"

definition list_query :: "'p list_kind \<Rightarrow> label_condition list \<Rightarrow> nat option \<Rightarrow> continueToken \<Rightarrow> 'p list_row list \<Rightarrow> 'p list_row list" where
  "list_query K selector limit token rows =
     (let found = sort_key (row_key K)
            (filter (\<lambda>r. \<not> lr_Deleted r \<and> (LastName token, LastUID token) < row_key K r \<and> list_all (condition_holds (lr_Labels r)) selector) rows)
      in case limit of None \<Rightarrow> found | Some n \<Rightarrow> take n found)"

text \<open>The query for the last row does not look at the selector.\<close>

definition last_query :: "'p list_kind \<Rightarrow> 'p list_row list \<Rightarrow> 'p list_row option" where
  "last_query K rows = (case sort_key (row_key K) (filter (\<lambda>r. \<not> lr_Deleted r) rows) of [] \<Rightarrow> None | rs \<Rightarrow> Some (last rs))"

definition next_token :: "'p list_kind \<Rightarrow> 'p list_row list \<Rightarrow> 'p list_row option \<Rightarrow> continueToken option" where
  "next_token K items last_row =
     (case (items, last_row) of
        (_ # _, Some l) \<Rightarrow>
          let r = last items
          in if lr_Name r \<noteq> [] \<and> lr_Name l \<noteq> [] \<and> lr_Name r \<noteq> lr_Name l \<and>
                lk_token_id K r \<noteq> [] \<and> lk_token_id K l \<noteq> [] \<and> lk_token_id K r \<noteq> lk_token_id K l
             then Some \<lparr>LastName = lr_Name r, LastUID = lk_token_id K r\<rparr> else None
      | _ \<Rightarrow> None)"

definition list_page :: "'p list_kind \<Rightarrow> label_condition list \<Rightarrow> nat option \<Rightarrow> 'p list_row list \<Rightarrow> continueToken \<Rightarrow> 'p list_row list \<times> continueToken option" where
  "list_page K selector limit rows token =
     (let items = list_query K selector limit token rows in (items, next_token K items (last_query K rows)))"

text \<open>A client that asks for one page after the other, until there is no token; \<^const>\<open>None\<close> when the number of requests is not enough.\<close>

fun all_pages :: "nat \<Rightarrow> 'p list_kind \<Rightarrow> label_condition list \<Rightarrow> nat option \<Rightarrow> 'p list_row list \<Rightarrow> continueToken \<Rightarrow> 'p list_row list option" where
  "all_pages 0 K selector limit rows token = None"
| "all_pages (Suc requests) K selector limit rows token =
     (case list_page K selector limit rows token of
        (items, None) \<Rightarrow> Some items
      | (items, Some t) \<Rightarrow> map_option ((@) items) (all_pages requests K selector limit rows t))"

section \<open>Requests\<close>

text \<open>
  The handler: \<^const>\<open>None\<close> for an answer without a body, when the selector or the token is not valid. \<open>decode\<close>
  and \<open>encode\<close> are those of tokens, and \<open>parse\<close> reads the identifier of a token: a UUID for managed clusters,
  any text otherwise. Every payload of the table can be decoded.
\<close>

definition list_request ::
    "'p list_kind \<Rightarrow> (string \<Rightarrow> continueToken option) \<Rightarrow> (continueToken \<Rightarrow> string) \<Rightarrow> (string \<Rightarrow> string option) \<Rightarrow> string \<Rightarrow> nat option \<Rightarrow> string \<Rightarrow> 'p list_row list
       \<Rightarrow> ('p list_row list \<times> string option) option" where
  "list_request K decode encode parse labelSelector limit continue_str rows =
     (case (if labelSelector = [] then Some [] else ParseLabelSelector labelSelector) of
        None \<Rightarrow> None
      | Some selector \<Rightarrow>
          (case (if continue_str = [] then Some (first_token K)
                 else Option.bind (decode continue_str) (\<lambda>t. map_option (\<lambda>u. t\<lparr>LastUID := u\<rparr>) (parse (LastUID t)))) of
             None \<Rightarrow> None
           | Some token \<Rightarrow> let (items, t) = list_page K selector limit rows token in Some (items, map_option encode t)))"

definition ListManagedClusters ::
    "(string \<Rightarrow> continueToken option) \<Rightarrow> (continueToken \<Rightarrow> string) \<Rightarrow> (string \<Rightarrow> string option) \<Rightarrow> string \<Rightarrow> nat option \<Rightarrow> string \<Rightarrow> 'p list_row list
       \<Rightarrow> ('p list_row list \<times> string option) option" where
  "ListManagedClusters decode encode parse_uuid = list_request managed_cluster_kind decode encode parse_uuid"

definition ListSubscriptions ::
    "(string \<Rightarrow> continueToken option) \<Rightarrow> (continueToken \<Rightarrow> string) \<Rightarrow> string \<Rightarrow> nat option \<Rightarrow> string \<Rightarrow> 'p list_row list
       \<Rightarrow> ('p list_row list \<times> string option) option" where
  "ListSubscriptions decode encode = list_request subscription_kind decode encode Some"

section \<open>Watching\<close>

datatype 'p watch_event = Added "'p list_row" | DeletedName string

text \<open>
  A tick of a watch: every row is sent as added again, the names that are gone as deleted. The
  remembered names are a list without duplicates; \<open>scans\<close> says whether a row can be read.
\<close>

definition doHandleRowsForWatch :: "('p list_row \<Rightarrow> bool) \<Rightarrow> 'p list_row list \<Rightarrow> string list \<Rightarrow> 'p watch_event list \<times> string list" where
  "doHandleRowsForWatch scans rows preAdded =
     (let found = filter scans rows;
          added = remdups (map lr_Name found);
          gone = filter (\<lambda>n. n \<notin> set added) preAdded;
          kept = filter (\<lambda>n. n \<in> set added) preAdded
      in (map Added found @ map DeletedName gone, kept @ filter (\<lambda>n. n \<notin> set kept) added))"

section \<open>Policies\<close>

text \<open>The compliance of a policy over its clusters, from the rows of the compliance table.\<close>

definition getComplianceStatus :: "(string \<times> string \<times> string) list \<Rightarrow> (string \<times> string) list \<times> bool" where
  "getComplianceStatus rows =
     (let state = (\<lambda>c. if c = ''compliant'' then ''Compliant'' else if c = ''non_compliant'' then ''NonCompliant'' else [])
      in (map (\<lambda>(clusterName, leafHubName, c). (clusterName, state c)) rows, list_ex (\<lambda>(_, _, c). state c = ''NonCompliant'') rows))"

record policy_status =
  ps_Placement :: "(string \<times> string) list"
  ps_Status :: "(string \<times> string) list"
  ps_ComplianceState :: string
  ps_Compliant :: nat
  ps_NonCompliant :: nat

definition assemblePolicyStatus :: "string \<Rightarrow> (string \<times> string \<times> string) list \<Rightarrow> (string \<times> string) list \<Rightarrow> bool \<Rightarrow> policy_status" where
  "assemblePolicyStatus policyName policyMatches statuses hasNonCompliantClusters =
     \<lparr>ps_Placement = map (\<lambda>(_, rule, binding). (rule, binding)) (filter (\<lambda>(p, _, _). p = policyName) policyMatches),
      ps_Status = statuses,
      ps_ComplianceState = (if hasNonCompliantClusters then ''NonCompliant'' else if statuses \<noteq> [] then ''Compliant'' else []),
      ps_Compliant = length (filter (\<lambda>s. snd s = ''Compliant'') statuses),
      ps_NonCompliant = length (filter (\<lambda>s. snd s = ''NonCompliant'') statuses)\<rparr>"

text \<open>
  A page of policies. A policy whose compliance cannot be read is left out of the answer, but its identifier may be the one of the token, beside the
  name of the last policy that is in the answer. \<open>compliance\<close> is the answer of the compliance query for an identifier.
\<close>

definition policy_with_status ::
    "(string \<times> string \<times> string) list \<Rightarrow> (string \<Rightarrow> (string \<times> string \<times> string) list option) \<Rightarrow> 'p list_row \<Rightarrow> ('p list_row \<times> policy_status) option" where
  "policy_with_status policyMatches compliance r =
     map_option (\<lambda>rows. let (statuses, bad) = getComplianceStatus rows in (r, assemblePolicyStatus (lr_Name r) policyMatches statuses bad)) (compliance (lr_ID r))"

definition handlePolicies ::
    "(string \<times> string \<times> string) list \<Rightarrow> (string \<Rightarrow> (string \<times> string \<times> string) list option) \<Rightarrow> label_condition list \<Rightarrow> nat option \<Rightarrow> 'p list_row list \<Rightarrow> continueToken
       \<Rightarrow> ('p list_row \<times> policy_status) list \<times> continueToken option" where
  "handlePolicies policyMatches compliance selector limit rows token =
     (let found = list_query policy_kind selector limit token rows;
          items = List.map_filter (policy_with_status policyMatches compliance) found;
          policyUID = (if found = [] then [] else lr_ID (last found));
          policyName = (if items = [] then [] else lr_Name (fst (last items)))
      in (items,
          case last_query policy_kind rows of
            None \<Rightarrow> None
          | Some l \<Rightarrow>
              if policyUID \<noteq> [] \<and> lr_ID l \<noteq> [] \<and> policyUID \<noteq> lr_ID l \<and> policyName \<noteq> [] \<and> lr_Name l \<noteq> [] \<and> policyName \<noteq> lr_Name l
              then Some \<lparr>LastName = policyName, LastUID = policyUID\<rparr> else None))"

text \<open>
  A tick of a policy watch. The keys that are remembered are made of the identifier and the name, and are split again for
  the event of a policy that is gone. An event is lost if the compliance of its policy cannot be read; \<open>compliance\<close>
  is the answer of that query.
\<close>

datatype policy_event = PolicyAdded string policy_status | PolicyDeleted string policy_status

definition policy_watch_key :: "'p list_row \<Rightarrow> string" where
  "policy_watch_key r = lr_ID r @ ''/'' @ lr_Name r"

definition sendPolicyWatchEvent ::
    "(string \<Rightarrow> policy_status \<Rightarrow> policy_event) \<Rightarrow> (string \<times> string \<times> string) list \<Rightarrow> (string \<Rightarrow> (string \<times> string \<times> string) list option)
       \<Rightarrow> string \<Rightarrow> string \<Rightarrow> policy_event list" where
  "sendPolicyWatchEvent event policyMatches compliance policyName policyID =
     (case compliance policyID of
        None \<Rightarrow> []
      | Some rows \<Rightarrow> let (statuses, bad) = getComplianceStatus rows in [event policyName (assemblePolicyStatus policyName policyMatches statuses bad)])"

definition doHandlePoliciesForWatch ::
    "(string \<times> string \<times> string) list \<Rightarrow> (string \<Rightarrow> (string \<times> string \<times> string) list option) \<Rightarrow> 'p list_row list \<Rightarrow> string list \<Rightarrow> policy_event list \<times> string list" where
  "doHandlePoliciesForWatch policyMatches compliance rows preAdded =
     (let added = remdups (map policy_watch_key rows);
          gone = filter (\<lambda>k. k \<notin> set added) preAdded;
          kept = filter (\<lambda>k. k \<in> set added) preAdded
      in (concat (map (\<lambda>r. sendPolicyWatchEvent PolicyAdded policyMatches compliance (lr_Name r) (lr_ID r)) rows) @
          concat (map (\<lambda>k. sendPolicyWatchEvent PolicyDeleted policyMatches compliance (strings_Split k ''/'' ! 1) (strings_Split k ''/'' ! 0)) gone),
          kept @ filter (\<lambda>k. k \<notin> set kept) added))"

section \<open>Selectors: what is read back\<close>

lemma split_scan_char: "split_scan [c] cur 0 s = (case split_on c s of w # ws \<Rightarrow> (rev cur @ w) # ws)"
  by (induction s arbitrary: cur) (auto split: list.splits)

lemma strings_Split_char: "strings_Split s [c] = split_on c s"
  by (cases "split_on c s") (auto simp: strings_Split_def split_scan_char)

lemma length_split_on: "length (split_on c s) = Suc (count_list s c)"
  by (induction s) (auto split: list.splits)

lemma split_scan_none: "c \<notin> set s \<Longrightarrow> split_scan (c # sep) cur 0 s = [rev cur @ s]"
  by (induction s arbitrary: cur) auto

lemma split_scan_skip: "split_scan sep cur (length u) (u @ s) = split_scan sep cur 0 s"
  by (induction u) auto

lemma split_scan_pair:
  assumes "c \<notin> set k" "c \<notin> set v"
  shows "split_scan (c # sep) cur 0 (k @ (c # sep) @ v) = [rev cur @ k, v]"
  using assms
proof (induction k arbitrary: cur)
  case Nil
  then show ?case using split_scan_skip [of "c # sep" "[]" sep v] split_scan_none [of c v sep "[]"] by simp
qed auto

lemma sublist_char: "sublist (c # s) t \<Longrightarrow> c \<in> set t"
  by (auto simp: sublist_def)

text \<open>A character that a key or a value of a selector may have: none that the code splits at or trims.\<close>

definition label_char :: "char \<Rightarrow> bool" where
  "label_char c \<longleftrightarrow> c \<notin> {CHR ''='', CHR ''!'', CHR '',''} \<and> \<not> is_space c"

definition label_text :: "string \<Rightarrow> bool" where
  "label_text s \<longleftrightarrow> list_all label_char s"

fun condition_text :: "label_condition \<Rightarrow> string" where
  "condition_text (LabelIs k v) = k @ ''='' @ v"
| "condition_text (LabelIsNot k v) = k @ ''!='' @ v"
| "condition_text (LabelExists k) = k"
| "condition_text (LabelMissing k) = ''!'' @ k"

fun condition_ok :: "label_condition \<Rightarrow> bool" where
  "condition_ok (LabelIs k v) = (label_text k \<and> label_text v)"
| "condition_ok (LabelIsNot k v) = (label_text k \<and> label_text v)"
| "condition_ok (LabelExists k) = label_text k"
| "condition_ok (LabelMissing k) = label_text k"

lemma label_textD:
  assumes "label_text s"
  shows "CHR ''='' \<notin> set s" "CHR ''!'' \<notin> set s" "CHR '','' \<notin> set s" "TrimSpace s = s"
proof -
  have "\<forall>c \<in> set s. label_char c" using assms by (simp add: label_text_def list_all_iff)
  then show "CHR ''='' \<notin> set s" "CHR ''!'' \<notin> set s" "CHR '','' \<notin> set s" by (auto simp: label_char_def)
  have "\<forall>c \<in> set s. \<not> is_space c" using \<open>\<forall>c \<in> set s. label_char c\<close> by (simp add: label_char_def)
  then have "dropWhile is_space s = s" "dropWhile is_space (rev s) = rev s"
    by (auto simp: dropWhile_eq_self_iff hd_rev)
  then show "TrimSpace s = s" by (simp add: TrimSpace_def)
qed

lemma parse_selector_text: "condition_ok c \<Longrightarrow> parse_selector (condition_text c) = Some c"
proof (induction c)
  case (LabelIs k v)
  note k = label_textD [of k] and v = label_textD [of v]
  have "\<not> strings_Contains (k @ ''='' @ v) ''!=''"
    using LabelIs k(2) v(2) sublist_char [of "CHR ''!''"] by (fastforce simp: strings_Contains_def)
  moreover have "strings_Contains (k @ ''='' @ v) ''=''" unfolding strings_Contains_def by (rule sublist_appendI)
  moreover have "strings_Split (k @ ''='' @ v) ''='' = [k, v]"
    using LabelIs k v by (simp add: strings_Split_char split_on_append split_on_none)
  ultimately show ?case using LabelIs k v by (simp add: parse_selector_def)
next
  case (LabelIsNot k v)
  note k = label_textD [of k] and v = label_textD [of v]
  have "strings_Contains (k @ ''!='' @ v) ''!=''" unfolding strings_Contains_def by (rule sublist_appendI)
  moreover have "strings_Split (k @ ''!='' @ v) ''!='' = [k, v]"
    using LabelIsNot k v split_scan_pair [of "CHR ''!''" k v "''=''" "[]"] by (simp add: strings_Split_def)
  ultimately show ?case using LabelIsNot k v by (simp add: parse_selector_def)
next
  case (LabelExists k)
  note k = label_textD [of k]
  have "\<not> strings_Contains k ''!=''" "\<not> strings_Contains k ''==''" "\<not> strings_Contains k ''=''"
    using LabelExists k sublist_char by (fastforce simp: strings_Contains_def)+
  moreover have "\<not> prefix ''!'' k" using LabelExists k by (cases k) auto
  ultimately show ?case using LabelExists k by (simp add: parse_selector_def)
next
  case (LabelMissing k)
  note k = label_textD [of k]
  have "CHR ''='' \<notin> set (''!'' @ k)" using LabelMissing k by simp
  then have "\<not> strings_Contains (''!'' @ k) ''==''" "\<not> strings_Contains (''!'' @ k) ''=''"
    using sublist_char by (fastforce simp: strings_Contains_def)+
  moreover have "\<not> strings_Contains (''!'' @ k) ''!=''"
    using \<open>CHR ''='' \<notin> set (''!'' @ k)\<close> set_mono_sublist [of "''!=''" "''!'' @ k"] by (auto simp: strings_Contains_def)
  ultimately show ?case using LabelMissing k by (simp add: parse_selector_def)
qed

lemma condition_no_comma: "condition_ok c \<Longrightarrow> CHR '','' \<notin> set (condition_text c)"
  by (cases c) (auto simp: label_textD)

fun selector_text :: "label_condition list \<Rightarrow> string" where
  "selector_text [] = []"
| "selector_text [c] = condition_text c"
| "selector_text (c # cs) = condition_text c @ '','' @ selector_text cs"



text \<open>
  The operator == of selectors, which the code looks for, never works: such a selector is split at = into at least three
  parts and the request is refused, wherever it stands in the list.
\<close>

theorem double_equals_refused:
  assumes "selector \<in> set (strings_Split labelSelector '','')"
      and "strings_Contains selector ''==''" "\<not> strings_Contains selector ''!=''"
  shows "ParseLabelSelector labelSelector = None"
proof -
  obtain p q where "selector = p @ ''=='' @ q" using assms(2) by (auto simp: strings_Contains_def sublist_def)
  then have "2 < length (strings_Split selector ''='')" by (simp add: strings_Split_char length_split_on)
  then have "parse_selector selector = None"
    using assms(2,3) by (auto simp: parse_selector_def split: list.splits)
  then have "None \<in> set (map parse_selector (strings_Split labelSelector '',''))" using assms(1) by force
  moreover have "None \<in> set xs \<Longrightarrow> those xs = None" for xs :: "label_condition option list"
    by (induction xs) (auto split: option.splits)
  ultimately show ?thesis by (simp add: ParseLabelSelector_def)
qed

theorem double_equals_refused_witness: "ParseLabelSelector ''!gpu,env==prod'' = None"
  by (rule double_equals_refused [of "''env==prod''"])
     (simp_all add: strings_Split_def strings_Contains_def sublist_code)

section \<open>Paging\<close>

definition live_rows :: "'p list_row list \<Rightarrow> 'p list_row list" where
  "live_rows rows = filter (\<lambda>r. \<not> lr_Deleted r) rows"

definition selected_rows :: "'p list_kind \<Rightarrow> label_condition list \<Rightarrow> 'p list_row list \<Rightarrow> 'p list_row list" where
  "selected_rows K selector rows =
     sort_key (row_key K) (filter (\<lambda>r. \<not> lr_Deleted r \<and> list_all (condition_holds (lr_Labels r)) selector) rows)"

lemma list_query_selected:
  "list_query K selector limit token rows =
     (let found = filter (\<lambda>r. (LastName token, LastUID token) < row_key K r) (selected_rows K selector rows)
      in case limit of None \<Rightarrow> found | Some n \<Rightarrow> take n found)"
proof -
  have "filter (\<lambda>r. \<not> lr_Deleted r \<and> (LastName token, LastUID token) < row_key K r \<and> list_all (condition_holds (lr_Labels r)) selector) rows
      = filter (\<lambda>r. (LastName token, LastUID token) < row_key K r)
          (filter (\<lambda>r. \<not> lr_Deleted r \<and> list_all (condition_holds (lr_Labels r)) selector) rows)"
    by (simp add: conj_ac)
  then show ?thesis by (simp add: list_query_def selected_rows_def filter_sort)
qed

lemma filter_after:
  fixes f :: "'a \<Rightarrow> 'b::linorder"
  assumes "sorted (map f xs)" "distinct (map f xs)" "i < length xs"
  shows "filter (\<lambda>x. f (xs ! i) < f x) xs = drop (Suc i) xs"
proof -
  have "f x \<le> f (xs ! i)" if x: "x \<in> set (take (Suc i) xs)" for x
  proof -
    obtain j where "j < length (take (Suc i) xs)" "x = take (Suc i) xs ! j" using x unfolding in_set_conv_nth by blast
    then have "j < Suc i" "j < length xs" "x = xs ! j" by simp_all
    then show ?thesis using assms sorted_nth_mono [of "map f xs" j i] by simp
  qed
  then have "filter (\<lambda>x. f (xs ! i) < f x) (take (Suc i) xs) = []" by (simp add: filter_empty_conv not_less)
  moreover have "filter (\<lambda>x. f (xs ! i) < f x) (drop (Suc i) xs) = drop (Suc i) xs"
  proof (rule filter_True, rule ballI)
    fix x assume "x \<in> set (drop (Suc i) xs)"
    then obtain j where j: "i < j" "j < length xs" "x = xs ! j"
      by (auto simp: in_set_conv_nth) (metis add_Suc_right less_add_Suc1 less_diff_conv add.commute)
    then have "f (xs ! i) \<le> f x" using assms sorted_nth_mono [of "map f xs" i j] by simp
    moreover have "f (xs ! i) \<noteq> f x" using assms j nth_eq_iff_index_eq [of "map f xs" i j] by simp
    ultimately show "f (xs ! i) < f x" by simp
  qed
  ultimately show ?thesis by (metis append_Nil append_take_drop_id filter_append)
qed

lemma sorted_max_last:
  fixes f :: "'a \<Rightarrow> 'b::linorder"
  assumes "sorted (map f xs)" "distinct (map f xs)" "i < length xs" "\<And>x. x \<in> set xs \<Longrightarrow> f x \<le> f (xs ! i)"
  shows "Suc i = length xs"
proof (rule ccontr)
  assume "Suc i \<noteq> length xs"
  then have "drop (Suc i) xs \<noteq> []" using assms(3) by simp
  then show False using filter_after [OF assms(1-3)] assms(4) by (auto simp: filter_empty_conv not_less)
qed

lemma last_sorted_max:
  fixes f :: "'a \<Rightarrow> 'b::linorder"
  assumes "x \<in> set xs"
  shows "f x \<le> f (last (sort_key f xs))"
proof -
  obtain i where "i < length (sort_key f xs)" "x = sort_key f xs ! i"
    using assms by (metis in_set_conv_nth set_sort)
  then show ?thesis
    using sorted_nth_mono [OF sorted_sort_key [of f xs], of i "length (sort_key f xs) - 1"]
    by (cases "sort_key f xs = []") (simp_all add: last_conv_nth)
qed

text \<open>
  What the loop of a client needs: the identifier of the token is the one of the order, the identifiers are not empty and differ,
  and no other row has the name of the last one.
\<close>

definition pages_well :: "'p list_kind \<Rightarrow> 'p list_row list \<Rightarrow> bool" where
  "pages_well K rows \<longleftrightarrow>
     list_all (\<lambda>r. lk_token_id K r = lk_order_id K r \<and> lr_Name r \<noteq> [] \<and> lk_order_id K r \<noteq> []) (live_rows rows) \<and>
     distinct (map (lk_order_id K) (live_rows rows)) \<and>
     (case last_query K rows of None \<Rightarrow> True | Some l \<Rightarrow> list_all (\<lambda>r. lr_Name r = lr_Name l \<longrightarrow> r = l) (live_rows rows))"

lemma selected_live: "x \<in> set (selected_rows K selector rows) \<Longrightarrow> x \<in> set (live_rows rows)"
  by (simp add: selected_rows_def live_rows_def)

lemma last_query_live: "x \<in> set (live_rows rows) \<Longrightarrow> \<exists>l. last_query K rows = Some l \<and> l \<in> set (live_rows rows) \<and> row_key K x \<le> row_key K l"
proof -
  assume x: "x \<in> set (live_rows rows)"
  let ?s = "sort_key (row_key K) (live_rows rows)"
  have "?s \<noteq> []" using x by (metis empty_iff list.set(1) set_sort)
  then have "last_query K rows = Some (last ?s)" "last ?s \<in> set (live_rows rows)"
    using last_in_set [of ?s] by (auto simp: last_query_def live_rows_def split: list.splits)
  then show ?thesis using last_sorted_max [OF x, of "row_key K"] by blast
qed

lemma distinct_filter_map: "distinct (map f xs) \<Longrightarrow> distinct (map f (filter P xs))"
  by (induction xs) auto

lemma selected_keys:
  assumes "pages_well K rows"
  shows "sorted (map (row_key K) (selected_rows K selector rows))" "distinct (map (row_key K) (selected_rows K selector rows))"
proof -
  show "sorted (map (row_key K) (selected_rows K selector rows))" by (simp add: selected_rows_def)
  have "distinct (map (row_key K) (live_rows rows))"
    using assms by (auto simp: pages_well_def distinct_map inj_on_def row_key_def)
  then have "distinct (map (row_key K) (filter (\<lambda>r. list_all (condition_holds (lr_Labels r)) selector) (live_rows rows)))"
    by (rule distinct_filter_map)
  then have "distinct (map (row_key K) (filter (\<lambda>r. \<not> lr_Deleted r \<and> list_all (condition_holds (lr_Labels r)) selector) rows))"
    by (simp add: live_rows_def conj_ac)
  then show "distinct (map (row_key K) (selected_rows K selector rows))"
    by (simp add: selected_rows_def distinct_map)
qed

text \<open>The token of a page: none only if the page ends with the last row, and otherwise that of the last item.\<close>

lemma next_token_well:
  assumes well: "pages_well K rows" and items: "items \<noteq> []" "set items \<subseteq> set (live_rows rows)"
  shows "next_token K items (last_query K rows) =
           (if last_query K rows = Some (last items) then None
            else Some \<lparr>LastName = lr_Name (last items), LastUID = lk_order_id K (last items)\<rparr>)"
proof -
  let ?r = "last items"
  have r: "?r \<in> set (live_rows rows)" using items by auto
  obtain l where l: "last_query K rows = Some l" "l \<in> set (live_rows rows)" using last_query_live [OF r] by blast
  have f: "\<And>x. x \<in> set (live_rows rows) \<Longrightarrow> lk_token_id K x = lk_order_id K x \<and> lr_Name x \<noteq> [] \<and> lk_order_id K x \<noteq> []"
    using well by (simp add: pages_well_def list_all_iff)
  have n: "lr_Name ?r = lr_Name l \<Longrightarrow> ?r = l" using well l r by (simp add: pages_well_def list_all_iff)
  have d: "lk_order_id K ?r = lk_order_id K l \<Longrightarrow> ?r = l"
    using well l r by (auto simp: pages_well_def distinct_map inj_on_def)
  show ?thesis
  proof (cases "?r = l")
    case True
    then show ?thesis using l items by (auto simp: next_token_def Let_def split: list.splits)
  next
    case False
    then have "lr_Name ?r \<noteq> lr_Name l" "lk_order_id K ?r \<noteq> lk_order_id K l" using n d by blast+
    then show ?thesis using False l f [OF r] f [OF l(2)] items
      by (cases items) (auto simp: next_token_def Let_def)
  qed
qed

lemma pages_from:
  assumes well: "pages_well K rows" and limit: "limit \<noteq> Some 0"
  shows "filter (\<lambda>r. (LastName token, LastUID token) < row_key K r) (selected_rows K selector rows) = drop m (selected_rows K selector rows) \<Longrightarrow>
         length (selected_rows K selector rows) - m < requests \<Longrightarrow>
         all_pages requests K selector limit rows token = Some (drop m (selected_rows K selector rows))"
proof (induction requests arbitrary: token m)
  case (Suc requests)
  let ?S = "selected_rows K selector rows"
  define items where "items = (case limit of None \<Rightarrow> drop m ?S | Some n \<Rightarrow> take n (drop m ?S))"
  have page: "list_page K selector limit rows token = (items, next_token K items (last_query K rows))"
    using Suc.prems(1) by (simp add: list_page_def list_query_selected items_def Let_def)
  obtain k where k: "items = take k (drop m ?S)" "k \<le> length (drop m ?S)" "drop m ?S \<noteq> [] \<Longrightarrow> 0 < k"
  proof -
    define k where "k = (case limit of None \<Rightarrow> length (drop m ?S) | Some n \<Rightarrow> min n (length (drop m ?S)))"
    have "items = take k (drop m ?S)" by (cases limit) (simp_all add: items_def k_def min_def del: length_drop)
    moreover have "k \<le> length (drop m ?S)" by (simp add: k_def split: option.splits)
    moreover have "drop m ?S \<noteq> [] \<Longrightarrow> 0 < k"
      using limit by (auto simp: k_def split: option.splits)
    ultimately show ?thesis using that by blast
  qed
  show ?case
  proof (cases "drop m ?S = []")
    case True
    then show ?thesis using page k by (simp add: next_token_def)
  next
    case False
    define i where "i = m + k - 1"
    have i: "i < length ?S" "Suc i = m + k" using False k by (auto simp: i_def)
    have ne: "items \<noteq> []" using False k by simp
    have lastx: "last items = ?S ! i" using False k ne by (simp add: last_conv_nth i_def)
    have sub: "set items \<subseteq> set (live_rows rows)"
      using k(1) selected_live by (metis in_set_dropD in_set_takeD subsetI)
    have rest: "drop m ?S = items @ drop (Suc i) ?S"
      using k(1) i(2) append_take_drop_id [of k "drop m ?S"] by (simp add: add.commute)
    show ?thesis
    proof (cases "last_query K rows = Some (last items)")
      case True
      have "row_key K x \<le> row_key K (?S ! i)" if "x \<in> set ?S" for x
        using last_query_live [OF selected_live [OF that], of K] True lastx by simp
      then have "Suc i = length ?S" using sorted_max_last [OF selected_keys [OF well] i(1)] by blast
      then show ?thesis using page rest True next_token_well [OF well ne sub] by simp
    next
      case False
      define t where "t = \<lparr>LastName = lr_Name (last items), LastUID = lk_order_id K (last items)\<rparr>"
      have "filter (\<lambda>r. (LastName t, LastUID t) < row_key K r) ?S = drop (Suc i) ?S"
        using filter_after [OF selected_keys [OF well] i(1)] lastx by (simp add: t_def row_key_def)
      moreover have "length ?S - Suc i < requests" using Suc.prems(2) i k(3) \<open>drop m ?S \<noteq> []\<close> by simp
      ultimately have "all_pages requests K selector limit rows t = Some (drop (Suc i) ?S)" by (rule Suc.IH)
      then show ?thesis using page rest False next_token_well [OF well ne sub] by (simp add: t_def)
    qed
  qed
qed simp

text \<open>The pages of policies are those of the common definition as long as every compliance can be read.\<close>

lemma handlePolicies_page:
  assumes "\<And>i. compliance i \<noteq> None"
  shows "map fst (fst (handlePolicies matches compliance selector limit rows token)) = fst (list_page policy_kind selector limit rows token) \<and>
         snd (handlePolicies matches compliance selector limit rows token) = snd (list_page policy_kind selector limit rows token)"
proof -
  define f where "f r = the (policy_with_status matches compliance r)" for r :: "'a list_row"
  have f: "policy_with_status matches compliance r = Some (f r)" "fst (f r) = r" for r :: "'a list_row"
    using assms [of "lr_ID r"] by (auto simp: f_def policy_with_status_def split: prod.splits)
  have all: "List.map_filter (policy_with_status matches compliance) rs = map f rs" for rs :: "'a list_row list"
    by (induction rs) (simp_all add: List.map_filter_simps f(1))
  show ?thesis
    by (cases "list_query policy_kind selector limit token rows = []")
       (auto simp: handlePolicies_def list_page_def next_token_def all Let_def f(2) last_map policy_kind_def comp_def split: option.splits list.splits)
qed


definition ex_row :: "string \<Rightarrow> string \<Rightarrow> string \<Rightarrow> unit list_row" where
  "ex_row name rid uid = \<lparr>lr_Name = name, lr_ID = rid, lr_UID = uid, lr_Labels = Some [(''env'', ''prod'')], lr_Deleted = False, lr_Payload = ()\<rparr>"


lemma take_one_sorted:
  fixes f :: "'a \<Rightarrow> 'b::linorder"
  assumes "x \<in> set xs" "\<And>y. y \<in> set xs \<Longrightarrow> y \<noteq> x \<Longrightarrow> f x < f y"
  shows "take 1 (sort_key f xs) = [x]"
proof (cases "sort_key f xs")
  case Nil
  then show ?thesis using assms(1) by (metis empty_iff list.set(1) set_sort)
next
  case (Cons y ys)
  have "x \<in> set (y # ys)" "y \<in> set xs" using Cons assms(1) by (metis set_sort, metis list.set_intros(1) set_sort)
  moreover have "sorted (map f (y # ys))" using Cons sorted_sort_key [of f xs] by simp
  ultimately have "f y \<le> f x" by auto
  then show ?thesis using assms(2) [OF \<open>y \<in> set xs\<close>] Cons by fastforce
qed

text \<open>
  C39: The pages of managed clusters can repeat for ever. They are ordered by the name and the identifier of the
  cluster, but the token has the UID of the object. With one cluster in a page, a cluster whose UID is less than its
  identifier is the answer again when its own token is sent, so that following the tokens never ends, although
  further clusters are stored.
\<close>

theorem managed_cluster_page_repeats:
  assumes distinct: "distinct (map lr_Name (live_rows rows))"
      and page: "list_page managed_cluster_kind selector (Some 1) rows token = ([x], Some t)"
      and less: "lr_UID x < lr_ID x"
  shows "list_page managed_cluster_kind selector (Some 1) rows t = ([x], Some t) \<and>
         all_pages requests managed_cluster_kind selector (Some 1) rows t = None"
proof -
  let ?K = "managed_cluster_kind :: 'a list_kind"
  let ?P = "\<lambda>t r. \<not> lr_Deleted r \<and> (LastName t, LastUID t) < row_key ?K r \<and> list_all (condition_holds (lr_Labels r)) selector"
  have q: "take 1 (sort_key (row_key ?K) (filter (?P token) rows)) = [x]"
    and tok: "next_token ?K [x] (last_query ?K rows) = Some t"
    using page by (auto simp: list_page_def list_query_def Let_def)
  have x: "x \<in> set (filter (?P token) rows)"
  proof -
    have "x \<in> set (take 1 (sort_key (row_key ?K) (filter (?P token) rows)))" unfolding q by simp
    then have "x \<in> set (sort_key (row_key ?K) (filter (?P token) rows))" by (rule in_set_takeD)
    then show ?thesis unfolding set_sort .
  qed
  have t: "t = \<lparr>LastName = lr_Name x, LastUID = lr_UID x\<rparr>"
    using tok by (auto simp: next_token_def managed_cluster_kind_def Let_def split: option.splits if_splits)
  have "take 1 (sort_key (row_key ?K) (filter (?P t) rows)) = [x]"
  proof (rule take_one_sorted)
    show "x \<in> set (filter (?P t) rows)"
      using x less by (simp add: t row_key_def managed_cluster_kind_def)
  next
    fix y assume y: "y \<in> set (filter (?P t) rows)" "y \<noteq> x"
    have "lr_Name y \<noteq> lr_Name x"
    proof
      assume "lr_Name y = lr_Name x"
      moreover have "inj_on lr_Name (set (live_rows rows))" using distinct by (simp add: distinct_map)
      moreover have "x \<in> set (live_rows rows)" "y \<in> set (live_rows rows)" using x y(1) by (simp_all add: live_rows_def)
      ultimately show False using y(2) by (blast dest: inj_onD)
    qed
    then show "row_key ?K x < row_key ?K y"
      using y by (auto simp: t row_key_def)
  qed
  then have same: "list_page ?K selector (Some 1) rows t = ([x], Some t)"
    using tok by (simp add: list_page_def list_query_def Let_def)
  moreover have "all_pages requests ?K selector (Some 1) rows t = None"
    using same by (induction requests) simp_all
  ultimately show ?thesis ..
qed

theorem managed_cluster_page_repeats_witness:
  "list_page managed_cluster_kind [] (Some 1) [ex_row ''c1'' ''9'' ''5'', ex_row ''c2'' ''7'' ''8''] \<lparr>LastName = ''c1'', LastUID = ''5''\<rparr>
     = ([ex_row ''c1'' ''9'' ''5''], Some \<lparr>LastName = ''c1'', LastUID = ''5''\<rparr>) \<and>
   all_pages 100 managed_cluster_kind [] (Some 1) [ex_row ''c1'' ''9'' ''5'', ex_row ''c2'' ''7'' ''8''] \<lparr>LastName = ''c1'', LastUID = ''5''\<rparr> = None"
proof -
  let ?rows = "[ex_row ''c1'' ''9'' ''5'', ex_row ''c2'' ''7'' ''8'']"
  have page: "list_page managed_cluster_kind [] (Some 1) ?rows (first_token (managed_cluster_kind :: unit list_kind))
     = ([ex_row ''c1'' ''9'' ''5''], Some \<lparr>LastName = ''c1'', LastUID = ''5''\<rparr>)" by code_simp
  show ?thesis
    by (rule managed_cluster_page_repeats [OF _ page]) (simp_all add: live_rows_def ex_row_def)
qed

section \<open>The watch of policies\<close>

text \<open>The names of the policies that a client of the watch has after it has applied the events.\<close>

fun apply_event :: "policy_event \<Rightarrow> string set \<Rightarrow> string set" where
  "apply_event (PolicyAdded n _) seen = insert n seen"
| "apply_event (PolicyDeleted n _) seen = seen - {n}"

text \<open>A watch over a sequence of ticks, with what the query returns at each of them.\<close>

fun watch_policies ::
    "(string \<times> string \<times> string) list \<Rightarrow> (string \<Rightarrow> (string \<times> string \<times> string) list option) \<Rightarrow> 'p list_row list list \<Rightarrow> string list \<times> string set \<Rightarrow> string list \<times> string set" where
  "watch_policies matches compliance [] s = s"
| "watch_policies matches compliance (rows # ticks) (preAdded, seen) =
     (case doHandlePoliciesForWatch matches compliance rows preAdded of
        (events, preAdded') \<Rightarrow> watch_policies matches compliance ticks (preAdded', fold apply_event events seen))"

lemma sendPolicyWatchEvent_total:
  "compliance i \<noteq> None \<Longrightarrow> \<exists>s. sendPolicyWatchEvent event matches compliance n i = [event n s]"
  by (auto simp: sendPolicyWatchEvent_def split: prod.splits)

lemma fold_added:
  assumes "\<And>i. compliance i \<noteq> None"
  shows "fold apply_event (concat (map (\<lambda>r. sendPolicyWatchEvent PolicyAdded matches compliance (f r) (g r)) rs)) seen = seen \<union> f ` set rs"
proof (induction rs arbitrary: seen)
  case (Cons r rs)
  then show ?case using sendPolicyWatchEvent_total [of compliance "g r" PolicyAdded matches "f r"] assms by auto
qed simp

lemma fold_gone:
  assumes "\<And>i. compliance i \<noteq> None"
  shows "fold apply_event (concat (map (\<lambda>r. sendPolicyWatchEvent PolicyDeleted matches compliance (f r) (g r)) rs)) seen = seen - f ` set rs"
proof (induction rs arbitrary: seen)
  case (Cons r rs)
  then show ?case using sendPolicyWatchEvent_total [of compliance "g r" PolicyDeleted matches "f r"] assms by auto
qed simp

lemma split_watch_key:
  assumes "CHR ''/'' \<notin> set i" "CHR ''/'' \<notin> set n"
  shows "strings_Split (i @ ''/'' @ n) ''/'' ! 1 = n"
  using assms by (simp add: strings_Split_char split_on_append split_on_none)

lemma watch_tick:
  assumes total: "\<And>i. compliance i \<noteq> None"
      and rows: "\<And>r. r \<in> set rows \<Longrightarrow> lr_ID r = the_id (lr_Name r) \<and> CHR ''/'' \<notin> set (lr_Name r)"
      and ids: "\<And>n. CHR ''/'' \<notin> set (the_id n)"
      and pre: "set preAdded = (\<lambda>n. the_id n @ ''/'' @ n) ` seen" "\<And>n. n \<in> seen \<Longrightarrow> CHR ''/'' \<notin> set n"
      and tick: "doHandlePoliciesForWatch matches compliance rows preAdded = (events, preAdded')"
  shows "fold apply_event events seen = lr_Name ` set rows" "set preAdded' = (\<lambda>n. the_id n @ ''/'' @ n) ` lr_Name ` set rows"
proof -
  let ?key = "\<lambda>n. the_id n @ ''/'' @ n"
  let ?name = "\<lambda>k. strings_Split k ''/'' ! 1"
  have keys: "set (map policy_watch_key rows) = ?key ` lr_Name ` set rows"
    using rows by (force simp: policy_watch_key_def image_iff)
  have name: "?name (?key n) = n" if "CHR ''/'' \<notin> set n" for n using split_watch_key [OF ids that] by simp
  have plain: "CHR ''/'' \<notin> set n" if "n \<in> lr_Name ` set rows" for n using rows that by auto
  show "set preAdded' = ?key ` lr_Name ` set rows"
    using tick keys by (auto simp: doHandlePoliciesForWatch_def Let_def)
  have "?name ` {k \<in> set preAdded. k \<notin> ?key ` lr_Name ` set rows} = seen - lr_Name ` set rows"
  proof (rule set_eqI, rule iffI)
    fix m assume "m \<in> ?name ` {k \<in> set preAdded. k \<notin> ?key ` lr_Name ` set rows}"
    then obtain n where "n \<in> seen" "m = ?name (?key n)" "?key n \<notin> ?key ` lr_Name ` set rows" using pre(1) by auto
    then show "m \<in> seen - lr_Name ` set rows" using name [OF pre(2)] by auto
  next
    fix m assume m: "m \<in> seen - lr_Name ` set rows"
    have "?key m \<notin> ?key ` lr_Name ` set rows"
    proof
      assume "?key m \<in> ?key ` lr_Name ` set rows"
      then obtain n where n: "n \<in> lr_Name ` set rows" "?key m = ?key n" by blast
      have "?name (?key m) = m" using name pre(2) m by blast
      moreover have "?name (?key n) = n" using name plain n(1) by blast
      ultimately have "m = n" unfolding n(2) by simp
      then show False using n m by blast
    qed
    then have "?key m \<in> {k \<in> set preAdded. k \<notin> ?key ` lr_Name ` set rows}" using m pre(1) by blast
    then show "m \<in> ?name ` {k \<in> set preAdded. k \<notin> ?key ` lr_Name ` set rows}"
      using name [of m] pre(2) [of m] m by (intro rev_image_eqI [where x = "?key m"]) auto
  qed
  moreover have "fold apply_event events seen = (seen \<union> lr_Name ` set rows) - ?name ` {k \<in> set preAdded. k \<notin> ?key ` lr_Name ` set rows}"
    using tick keys by (auto simp: doHandlePoliciesForWatch_def Let_def fold_added [OF total] fold_gone [OF total])
  ultimately show "fold apply_event events seen = lr_Name ` set rows" by blast
qed

text \<open>
  A client of a policy watch ends with exactly the policies of the last tick, whatever was added and deleted before: if the
  compliance of every policy can be read, no name changes its identifier during the watch and neither of them contains the
  separator of the keys.
\<close>

theorem policy_watch_follows_table:
  assumes "\<And>i. compliance i \<noteq> None" "\<And>n. CHR ''/'' \<notin> set (the_id n)"
      and "\<And>rows r. rows \<in> set (ticks @ [current]) \<Longrightarrow> r \<in> set rows \<Longrightarrow> lr_ID r = the_id (lr_Name r) \<and> CHR ''/'' \<notin> set (lr_Name r)"
  shows "snd (watch_policies matches compliance (ticks @ [current]) ([], {})) = lr_Name ` set current"
proof -
  have run: "set preAdded = (\<lambda>n. the_id n @ ''/'' @ n) ` seen \<Longrightarrow> (\<And>n. n \<in> seen \<Longrightarrow> CHR ''/'' \<notin> set n) \<Longrightarrow>
       snd (watch_policies matches compliance (ticks @ [current]) (preAdded, seen)) = lr_Name ` set current" for preAdded seen
    using assms(3)
  proof (induction ticks arbitrary: preAdded seen)
    case Nil
    obtain events preAdded' where t: "doHandlePoliciesForWatch matches compliance current preAdded = (events, preAdded')" by force
    then show ?case using watch_tick(1) [OF assms(1) _ assms(2) Nil.prems(1,2) t] Nil.prems(3) by simp
  next
    case (Cons rows ticks)
    obtain events preAdded' where t: "doHandlePoliciesForWatch matches compliance rows preAdded = (events, preAdded')" by force
    have rows: "r \<in> set rows \<Longrightarrow> lr_ID r = the_id (lr_Name r) \<and> CHR ''/'' \<notin> set (lr_Name r)" for r
      using Cons.prems(3) [of rows r] by simp
    have "snd (watch_policies matches compliance (ticks @ [current]) (preAdded', lr_Name ` set rows)) = lr_Name ` set current"
      by (rule Cons.IH [OF watch_tick(2) [OF assms(1) rows assms(2) Cons.prems(1,2) t]]) (use rows Cons.prems(3) in auto)
    then show ?case using t watch_tick(1) [OF assms(1) rows assms(2) Cons.prems(1,2) t] by simp
  qed
  show ?thesis by (rule run) auto
qed

theorem policy_watch_follows_table_witness:
  "snd (watch_policies [] (\<lambda>_. Some []) ([[ex_row ''a'' ''i'' ''u''], [ex_row ''a'' ''i'' ''u'', ex_row ''b'' ''i'' ''u'']] @ [[ex_row ''b'' ''i'' ''u'']]) ([], {}))
     = {''b''}"
  by (subst policy_watch_follows_table [of _ "\<lambda>_. ''i''"]) (auto simp: ex_row_def)

end
