(* ===== verification/OperatorStatus.thy ===== *)
theory OperatorStatus
  imports AgentMigration
begin

text \<open>
  The status of the global hub that the operator keeps (\<^verbatim>\<open>operator/pkg/config/status.go\<close>, \<^verbatim>\<open>operator/pkg/controllers/meta.go\<close>): conditions,
  the components with their readiness, and the phase. Times are numbers, \<open>now\<close> is the time of a call. The API server is
  a record of operations on a state \<open>'k\<close>; a conflict is repeated as in \<^const>\<open>RetryOnConflict\<close>.
\<close>

section \<open>The resource\<close>

record Condition =
  cd_Type :: string
  cd_Status :: string
  cd_Reason :: string
  cd_Message :: string
  cd_LastTransitionTime :: nat

record StatusCondition =
  sc_Name :: string
  sc_Kind :: string
  sc_Type :: string
  sc_Status :: string
  sc_LastTransitionTime :: nat
  sc_Reason :: string
  sc_Message :: string

datatype GlobalHubPhase = GlobalHubNone | GlobalHubRunning | GlobalHubProgressing | GlobalHubUninstalling | GlobalHubError

record MulticlusterGlobalHub =
  mg_Annotations :: "(string, string) gomap"
  mg_Finalizers :: "string list"
  mg_Deleting :: bool
  mg_EnableMetrics :: bool
  mg_Phase :: GlobalHubPhase
  mg_Conditions :: "Condition list"
  mg_Components :: "(string, StatusCondition) gomap option"

definition CONDITION_STATUS_TRUE :: string where "CONDITION_STATUS_TRUE = ''True''"
definition CONDITION_STATUS_FALSE :: string where "CONDITION_STATUS_FALSE = ''False''"
definition COMPONENTS_AVAILABLE :: string where "COMPONENTS_AVAILABLE = ''Available''"
definition COMPONENTS_NOT_READY :: string where "COMPONENTS_NOT_READY = ''ComponentsNotReady''"
definition RECONCILE_ERROR :: string where "RECONCILE_ERROR = ''ReconcileError''"
definition MINIMUM_REPLICAS_AVAILABLE :: string where "MINIMUM_REPLICAS_AVAILABLE = ''MinimumReplicasAvailable''"
definition MINIMUM_REPLICAS_UNAVAILABLE :: string where "MINIMUM_REPLICAS_UNAVAILABLE = ''MinimumReplicasUnavailable''"
definition COMPONENTS_KAFKA_NAME :: string where "COMPONENTS_KAFKA_NAME = ''kafka''"
definition COMPONENTS_POSTGRES_NAME :: string where "COMPONENTS_POSTGRES_NAME = ''multicluster-global-hub-postgresql''"
definition COMPONENTS_MANAGER_NAME :: string where "COMPONENTS_MANAGER_NAME = ''multicluster-global-hub-manager''"
definition COMPONENTS_GRAFANA_NAME :: string where "COMPONENTS_GRAFANA_NAME = ''multicluster-global-hub-grafana''"
definition COMPONENTS_INVENTORY_API_NAME :: string where "COMPONENTS_INVENTORY_API_NAME = ''inventory-api''"
definition CONDITION_TYPE_GLOBALHUB_READY :: string where "CONDITION_TYPE_GLOBALHUB_READY = ''Ready''"

definition WithInventory :: "MulticlusterGlobalHub \<Rightarrow> bool" where
  "WithInventory mgh \<longleftrightarrow> map_of (mg_Annotations mgh) ''global-hub.open-cluster-management.io/with-inventory'' \<noteq> None"

section \<open>Conditions\<close>

definition ContainsCondition :: "MulticlusterGlobalHub \<Rightarrow> string \<Rightarrow> bool" where
  "ContainsCondition mgh typeName = fold (\<lambda>c output. if cd_Type c = typeName then True else output) (mg_Conditions mgh) False"

definition ContainConditionStatus :: "MulticlusterGlobalHub \<Rightarrow> string \<Rightarrow> string \<Rightarrow> bool" where
  "ContainConditionStatus mgh typeName status =
     fold (\<lambda>c output. if cd_Type c = typeName \<and> cd_Status c = status then True else output) (mg_Conditions mgh) False"

definition same_condition :: "Condition \<Rightarrow> Condition \<Rightarrow> bool" where
  "same_condition a b \<longleftrightarrow> cd_Status a = cd_Status b \<and> cd_Reason a = cd_Reason b \<and> cd_Message a = cd_Message b"

text \<open>
  The loop over the conditions stops at the first one of the type. The result also says whether that one was found: the code then writes
  into the array of its argument, and otherwise appends to it.
\<close>

fun replace_condition :: "Condition \<Rightarrow> Condition list \<Rightarrow> (bool \<times> Condition list) option" where
  "replace_condition cond [] = None"
| "replace_condition cond (c # cs) =
     (if cd_Type c = cd_Type cond then Some (if same_condition c cond then (False, c # cs) else (True, cond # cs))
      else map_option (\<lambda>(b, ds). (b, c # ds)) (replace_condition cond cs))"

definition NeedUpdateConditions :: "nat \<Rightarrow> Condition list \<Rightarrow> Condition \<Rightarrow> bool \<times> Condition list" where
  "NeedUpdateConditions now conditions cond0 =
     (let cond = cond0\<lparr>cd_LastTransitionTime := now\<rparr>
      in case replace_condition cond conditions of None \<Rightarrow> (True, conditions @ [cond]) | Some r \<Rightarrow> r)"

text \<open>What the array of the argument holds after the call.\<close>

definition conditions_after :: "nat \<Rightarrow> Condition list \<Rightarrow> Condition \<Rightarrow> Condition list" where
  "conditions_after now conditions cond0 =
     (case replace_condition (cond0\<lparr>cd_LastTransitionTime := now\<rparr>) conditions of None \<Rightarrow> conditions | Some (_, cs) \<Rightarrow> cs)"

record 'k status_api =
  sa_Get :: "'k \<Rightarrow> MulticlusterGlobalHub get_result"
  sa_UpdateStatus :: "MulticlusterGlobalHub \<Rightarrow> 'k step"

definition update_condition_once :: "'k status_api \<Rightarrow> nat \<Rightarrow> Condition \<Rightarrow> GlobalHubPhase \<Rightarrow> 'k step" where
  "update_condition_once api now cond phase k =
     (case sa_Get api k of
        GetFound curmgh \<Rightarrow>
          let (conditionUpdated, desiredConditions) = NeedUpdateConditions now (mg_Conditions curmgh) cond;
              phaseUpdated = (phase \<noteq> GlobalHubNone \<and> phase \<noteq> mg_Phase curmgh);
              mgh1 = (if conditionUpdated then curmgh\<lparr>mg_Conditions := desiredConditions\<rparr> else curmgh);
              mgh2 = (if phaseUpdated then mgh1\<lparr>mg_Phase := phase\<rparr> else mgh1)
          in if \<not> phaseUpdated \<and> \<not> conditionUpdated then (SyncOk, k) else sa_UpdateStatus api mgh2 k
      | _ \<Rightarrow> (SyncFailed, k))"

definition UpdateCondition :: "'k status_api \<Rightarrow> nat \<Rightarrow> Condition \<Rightarrow> GlobalHubPhase \<Rightarrow> 'k step" where
  "UpdateCondition api now cond phase = RetryOnConflict DefaultBackoffSteps (update_condition_once api now cond phase)"

text \<open>An error here is only logged.\<close>

definition UpdateConditionWithErr :: "'k status_api \<Rightarrow> nat \<Rightarrow> string option \<Rightarrow> string \<Rightarrow> string \<Rightarrow> string \<Rightarrow> 'k \<Rightarrow> 'k" where
  "UpdateConditionWithErr api now err conditionType conditionReason conditionMessage k =
     (case err of
        Some e \<Rightarrow> snd (UpdateCondition api now
          \<lparr>cd_Type = conditionType, cd_Status = CONDITION_STATUS_FALSE, cd_Reason = conditionReason, cd_Message = e, cd_LastTransitionTime = 0\<rparr> GlobalHubError k)
      | None \<Rightarrow> snd (UpdateCondition api now
          \<lparr>cd_Type = conditionType, cd_Status = CONDITION_STATUS_TRUE, cd_Reason = conditionReason, cd_Message = conditionMessage, cd_LastTransitionTime = 0\<rparr> GlobalHubNone k))"

section \<open>Components\<close>

definition zero_component :: StatusCondition where
  "zero_component = \<lparr>sc_Name = [], sc_Kind = [], sc_Type = [], sc_Status = [], sc_LastTransitionTime = 0, sc_Reason = [], sc_Message = []\<rparr>"

definition update_component_once :: "'k status_api \<Rightarrow> nat \<Rightarrow> StatusCondition \<Rightarrow> bool \<Rightarrow> 'k step" where
  "update_component_once api now desired0 forceUpdate k =
     (let desired = desired0\<lparr>sc_LastTransitionTime := now\<rparr>
      in case sa_Get api k of
           GetFound curmgh \<Rightarrow>
             (case mg_Components curmgh of
                None \<Rightarrow> sa_UpdateStatus api (curmgh\<lparr>mg_Components := Some [(sc_Name desired, desired)]\<rparr>) k
              | Some m \<Rightarrow>
                  let origin = (case map_of m (sc_Name desired) of None \<Rightarrow> zero_component | Some c \<Rightarrow> c)\<lparr>sc_LastTransitionTime := now\<rparr>
                  in if \<not> forceUpdate \<and> desired = origin then (SyncOk, k)
                     else sa_UpdateStatus api (curmgh\<lparr>mg_Components := Some (AList.update (sc_Name desired) desired m)\<rparr>) k)
         | _ \<Rightarrow> (SyncFailed, k))"

definition UpdateMGHComponent :: "'k status_api \<Rightarrow> nat \<Rightarrow> StatusCondition \<Rightarrow> bool \<Rightarrow> 'k step" where
  "UpdateMGHComponent api now desired forceUpdate = RetryOnConflict DefaultBackoffSteps (update_component_once api now desired forceUpdate)"

text \<open>A deployment or stateful set: the replicas that are available and those that are asked for.\<close>

type_synonym workload = "nat \<times> nat"

definition workload_status :: "string \<Rightarrow> string \<Rightarrow> string \<Rightarrow> string \<Rightarrow> workload get_result \<Rightarrow> StatusCondition" where
  "workload_status kind lower err name w =
     (let c = zero_component\<lparr>sc_Kind := kind, sc_Name := name, sc_Type := COMPONENTS_AVAILABLE\<rparr>
      in case w of
           GetNotFound \<Rightarrow> c\<lparr>sc_Reason := COMPONENTS_NOT_READY, sc_Status := CONDITION_STATUS_FALSE, sc_Message := ''waiting '' @ lower @ '' '' @ name @ '' created''\<rparr>
         | GetFailed \<Rightarrow> c\<lparr>sc_Reason := COMPONENTS_NOT_READY, sc_Status := CONDITION_STATUS_FALSE, sc_Message := ''failed to get '' @ lower @ '', err: '' @ err\<rparr>
         | GetFound (available, replicas) \<Rightarrow>
             if available = replicas
             then c\<lparr>sc_Reason := MINIMUM_REPLICAS_AVAILABLE, sc_Status := CONDITION_STATUS_TRUE, sc_Message := ''Component '' @ name @ '' has been deployed''\<rparr>
             else c\<lparr>sc_Reason := MINIMUM_REPLICAS_UNAVAILABLE, sc_Status := CONDITION_STATUS_FALSE, sc_Message := ''Component '' @ name @ '' has been deployed but is not ready''\<rparr>)"

definition GetStatefulSetComponentStatus :: "string \<Rightarrow> string \<Rightarrow> workload get_result \<Rightarrow> StatusCondition" where
  "GetStatefulSetComponentStatus = workload_status ''StatefulSet'' ''statefulset''"

definition GetDeploymentComponentStatus :: "string \<Rightarrow> string \<Rightarrow> workload get_result \<Rightarrow> StatusCondition" where
  "GetDeploymentComponentStatus = workload_status ''Deployment'' ''deployment''"

definition GetComponentStatusWithReconcileError :: "string \<Rightarrow> string \<Rightarrow> workload get_result \<Rightarrow> string option \<Rightarrow> StatusCondition" where
  "GetComponentStatusWithReconcileError err name w reconcileErr =
     (case reconcileErr of
        Some e \<Rightarrow> zero_component\<lparr>sc_Kind := ''Deployment'', sc_Name := name, sc_Type := COMPONENTS_AVAILABLE,
                    sc_Status := CONDITION_STATUS_FALSE, sc_Reason := RECONCILE_ERROR, sc_Message := e\<rparr>
      | None \<Rightarrow> GetDeploymentComponentStatus err name w)"

section \<open>Phase and readiness\<close>

definition CheckDesiredComponent :: "bool \<Rightarrow> MulticlusterGlobalHub \<Rightarrow> string list" where
  "CheckDesiredComponent acmReady mgh =
     [COMPONENTS_MANAGER_NAME, COMPONENTS_POSTGRES_NAME, COMPONENTS_KAFKA_NAME] @
     (if acmReady then [COMPONENTS_GRAFANA_NAME] else []) @ (if WithInventory mgh then [COMPONENTS_INVENTORY_API_NAME] else [])"

definition components_of :: "MulticlusterGlobalHub \<Rightarrow> (string, StatusCondition) gomap" where
  "components_of mgh = (case mg_Components mgh of None \<Rightarrow> [] | Some m \<Rightarrow> m)"

definition phase_step :: "StatusCondition \<Rightarrow> GlobalHubPhase \<times> bool \<Rightarrow> GlobalHubPhase \<times> bool" where
  "phase_step dcs = (\<lambda>(phase, newPgInstance).
     if sc_Name dcs = ''multicluster-global-hub-postgres'' then (phase, newPgInstance)
     else
       let newPg = (newPgInstance \<or> sc_Name dcs = ''multicluster-global-hub-postgresql'');
           phase1 = (if sc_Type dcs = COMPONENTS_AVAILABLE \<and> sc_Status dcs = RECONCILE_ERROR then GlobalHubError else phase);
           phase2 = (if sc_Type dcs = COMPONENTS_AVAILABLE \<and> sc_Status dcs \<noteq> CONDITION_STATUS_TRUE then GlobalHubProgressing else phase1)
       in (phase2, newPg))"

definition needUpdatePhase :: "bool \<Rightarrow> MulticlusterGlobalHub \<Rightarrow> bool \<times> GlobalHubPhase" where
  "needUpdatePhase acmReady mgh =
     (if length (components_of mgh) < length (CheckDesiredComponent acmReady mgh) then (GlobalHubProgressing \<noteq> mg_Phase mgh, GlobalHubProgressing)
      else
        let (phase, newPgInstance) = fold phase_step (map snd (components_of mgh)) (GlobalHubRunning, False);
            phase' = (if \<not> newPgInstance \<and> phase \<noteq> GlobalHubError then GlobalHubProgressing else phase)
        in (phase' \<noteq> mg_Phase mgh, phase'))"

definition ready_condition :: "GlobalHubPhase \<Rightarrow> Condition" where
  "ready_condition phase =
     (if phase = GlobalHubRunning
      then \<lparr>cd_Type = CONDITION_TYPE_GLOBALHUB_READY, cd_Status = CONDITION_STATUS_TRUE, cd_Reason = ''MulticlusterGlobalHubReady'',
            cd_Message = ''The multicluster global hub is ready, and all the components are available'', cd_LastTransitionTime = 0\<rparr>
      else \<lparr>cd_Type = CONDITION_TYPE_GLOBALHUB_READY, cd_Status = CONDITION_STATUS_FALSE, cd_Reason = ''MulticlusterGlobalHubNotReady'',
            cd_Message = ''The multicluster global hub is not ready, waiting for all the components to be available'', cd_LastTransitionTime = 0\<rparr>)"

definition updateReadyConditions :: "nat \<Rightarrow> Condition list \<Rightarrow> GlobalHubPhase \<Rightarrow> bool \<times> Condition list" where
  "updateReadyConditions now conds phase = NeedUpdateConditions now conds (ready_condition phase)"

text \<open>
  One attempt to write phase and readiness. The conditions are those of the object that the reconciliation has read at its start, and
  the array of that object is shared by the attempts.
\<close>

definition update_ready_once :: "'k status_api \<Rightarrow> bool \<Rightarrow> nat \<Rightarrow> ('k \<times> Condition list) step" where
  "update_ready_once api acmReady now = (\<lambda>(k, conds).
     case sa_Get api k of
       GetFound curmgh \<Rightarrow>
         let (updatedPhase, desiredPhase) = needUpdatePhase acmReady curmgh;
             (updatedReadyCond, desiredConds) = updateReadyConditions now conds desiredPhase;
             conds' = conditions_after now conds (ready_condition desiredPhase)
         in if \<not> updatedPhase \<and> \<not> updatedReadyCond then (SyncOk, (k, conds'))
            else let (r, k') = sa_UpdateStatus api (curmgh\<lparr>mg_Phase := desiredPhase, mg_Conditions := desiredConds\<rparr>) k in (r, (k', conds'))
     | _ \<Rightarrow> (SyncFailed, (k, conds)))"

definition updateMGHReadyStatus :: "'k status_api \<Rightarrow> bool \<Rightarrow> nat \<Rightarrow> MulticlusterGlobalHub \<Rightarrow> string option \<Rightarrow> 'k step" where
  "updateMGHReadyStatus api acmReady now mgh reconcileErr k =
     (case reconcileErr of
        Some e \<Rightarrow> UpdateCondition api now
          \<lparr>cd_Type = CONDITION_TYPE_GLOBALHUB_READY, cd_Status = CONDITION_STATUS_FALSE, cd_Reason = ''MulticlusterGlobalHubNotReady'', cd_Message = e, cd_LastTransitionTime = 0\<rparr>
          GlobalHubError k
      | None \<Rightarrow> let (r, (k', _)) = RetryOnConflict DefaultBackoffSteps (update_ready_once api acmReady now) (k, mg_Conditions mgh) in (r, k'))"

section \<open>The phase\<close>

definition component_ready :: "StatusCondition \<Rightarrow> bool" where
  "component_ready c \<longleftrightarrow>
     sc_Name c = ''multicluster-global-hub-postgres'' \<or> sc_Type c \<noteq> COMPONENTS_AVAILABLE \<or> sc_Status c = CONDITION_STATUS_TRUE"

lemma fold_phase_step:
  "fold phase_step cs (p, pg) =
     (if list_all component_ready cs then p else GlobalHubProgressing, pg \<or> COMPONENTS_POSTGRES_NAME \<in> sc_Name ` set cs)"
proof (induction cs arbitrary: p pg)
  case (Cons c cs)
  have "phase_step c (p, pg) = (if component_ready c then p else GlobalHubProgressing, pg \<or> sc_Name c = COMPONENTS_POSTGRES_NAME)"
    by (auto simp: phase_step_def component_ready_def COMPONENTS_POSTGRES_NAME_def CONDITION_STATUS_TRUE_def RECONCILE_ERROR_def)
  then show ?case using Cons by auto
qed simp

text \<open>
  C25: The phase that the operator computes does not depend on the order in which it meets the components. It is running exactly if there are
  at least as many components as are desired, the new database is among them and each of them that reports availability
  is available, the old database left aside; otherwise it is progressing. It is never the error phase, and the count does not say
  that the components are the desired ones.
\<close>

theorem phase_running_iff:
  "needUpdatePhase acmReady mgh =
     (let p = if length (CheckDesiredComponent acmReady mgh) \<le> length (components_of mgh) \<and>
                 COMPONENTS_POSTGRES_NAME \<in> sc_Name ` snd ` set (components_of mgh) \<and>
                 list_all (\<lambda>(_, c). component_ready c) (components_of mgh)
              then GlobalHubRunning else GlobalHubProgressing
      in (p \<noteq> mg_Phase mgh, p))"
  by (auto simp: needUpdatePhase_def fold_phase_step Let_def list_all_iff split: prod.splits)

section \<open>Writing conditions\<close>

definition condition_of :: "string \<Rightarrow> Condition list \<Rightarrow> Condition option" where
  "condition_of t cs = find (\<lambda>c. cd_Type c = t) cs"

lemma replace_condition_None: "replace_condition cond cs = None \<longleftrightarrow> condition_of (cd_Type cond) cs = None"
  by (induction cs) (auto simp: condition_of_def)

lemma replace_condition_Some:
  "replace_condition cond cs = Some (b, ds) \<Longrightarrow>
     (\<exists>c. condition_of (cd_Type cond) ds = Some c \<and> same_condition c cond) \<and>
     (\<forall>t. t \<noteq> cd_Type cond \<longrightarrow> condition_of t ds = condition_of t cs) \<and> (\<not> b \<longrightarrow> ds = cs)"
proof (induction cs arbitrary: b ds)
  case (Cons c cs)
  show ?case
  proof (cases "cd_Type c = cd_Type cond")
    case True
    then show ?thesis using Cons.prems by (auto simp: condition_of_def same_condition_def split: if_splits)
  next
    case False
    then obtain es where "replace_condition cond cs = Some (b, es)" "ds = c # es" using Cons.prems by auto
    then show ?thesis using Cons.IH False by (auto simp: condition_of_def)
  qed
qed simp

lemma same_condition_time [simp]: "same_condition c (d\<lparr>cd_LastTransitionTime := n\<rparr>) = same_condition c d"
  by (simp add: same_condition_def)

lemma find_append: "find P (xs @ ys) = (case find P xs of None \<Rightarrow> find P ys | Some x \<Rightarrow> Some x)"
  by (induction xs) auto

lemma NeedUpdateConditions_spec:
  assumes "NeedUpdateConditions now cs cond = (b, ds)"
  shows "\<exists>c. condition_of (cd_Type cond) ds = Some c \<and> same_condition c cond"
        "t \<noteq> cd_Type cond \<Longrightarrow> condition_of t ds = condition_of t cs" "\<not> b \<Longrightarrow> ds = cs"
proof -
  let ?cond = "cond\<lparr>cd_LastTransitionTime := now\<rparr>"
  have "(\<exists>c. condition_of (cd_Type cond) ds = Some c \<and> same_condition c cond) \<and>
     (\<forall>t. t \<noteq> cd_Type cond \<longrightarrow> condition_of t ds = condition_of t cs) \<and> (\<not> b \<longrightarrow> ds = cs)"
  proof (cases "replace_condition ?cond cs")
    case None
    then have "b" "ds = cs @ [?cond]" "condition_of (cd_Type cond) cs = None"
      using assms replace_condition_None [of ?cond cs] by (auto simp: NeedUpdateConditions_def)
    then show ?thesis by (auto simp: condition_of_def find_append same_condition_def split: option.splits)
  next
    case (Some r)
    then have "replace_condition ?cond cs = Some (b, ds)" using assms by (simp add: NeedUpdateConditions_def)
    from replace_condition_Some [OF this] show ?thesis by simp
  qed
  then show "\<exists>c. condition_of (cd_Type cond) ds = Some c \<and> same_condition c cond"
    "t \<noteq> cd_Type cond \<Longrightarrow> condition_of t ds = condition_of t cs" "\<not> b \<Longrightarrow> ds = cs" by blast+
qed

lemma RetryOnConflict_ok: "RetryOnConflict n f s = (SyncOk, s') \<Longrightarrow> \<exists>s0. f s0 = (SyncOk, s')"
  by (induction n f s rule: RetryOnConflict.induct) (auto split: prod.splits sync_result.splits if_splits)

text \<open>What the API server promises: a write that it accepts is what is read next.\<close>

definition status_laws :: "'k status_api \<Rightarrow> bool" where
  "status_laws api \<longleftrightarrow> (\<forall>m k k'. sa_UpdateStatus api m k = (SyncOk, k') \<longrightarrow> sa_Get api k' = GetFound m)"

text \<open>
  When an update of a condition reports success, the stored object has that condition with the status, reason and message asked for, and the
  phase if one was given; every other condition and everything else is as in the object that the successful attempt has read.
\<close>

theorem condition_update_written:
  assumes "status_laws api" "UpdateCondition api now cond phase k = (SyncOk, k')"
  shows "\<exists>k0 m0 m. sa_Get api k0 = GetFound m0 \<and> sa_Get api k' = GetFound m \<and>
     (\<exists>c. condition_of (cd_Type cond) (mg_Conditions m) = Some c \<and> same_condition c cond) \<and>
     (\<forall>t. t \<noteq> cd_Type cond \<longrightarrow> condition_of t (mg_Conditions m) = condition_of t (mg_Conditions m0)) \<and>
     mg_Phase m = (if phase = GlobalHubNone then mg_Phase m0 else phase) \<and>
     m\<lparr>mg_Conditions := [], mg_Phase := GlobalHubNone\<rparr> = m0\<lparr>mg_Conditions := [], mg_Phase := GlobalHubNone\<rparr>"
proof -
  obtain k0 where once: "update_condition_once api now cond phase k0 = (SyncOk, k')"
    using RetryOnConflict_ok assms(2) by (fastforce simp: UpdateCondition_def)
  then obtain m0 where m0: "sa_Get api k0 = GetFound m0" by (auto simp: update_condition_once_def split: get_result.splits)
  obtain b ds where n: "NeedUpdateConditions now (mg_Conditions m0) cond = (b, ds)" by force
  define m where "m = m0\<lparr>mg_Conditions := ds, mg_Phase := if phase = GlobalHubNone then mg_Phase m0 else phase\<rparr>"
  have "sa_Get api k' = GetFound m"
  proof (cases "b \<or> phase \<noteq> GlobalHubNone \<and> phase \<noteq> mg_Phase m0")
    case True
    then have "sa_UpdateStatus api m k0 = (SyncOk, k')"
      using once m0 n NeedUpdateConditions_spec(3) [OF n]
      by (cases m0) (auto simp: update_condition_once_def m_def Let_def split: if_splits)
    then show ?thesis using assms(1) by (simp add: status_laws_def)
  next
    case False
    then have "k' = k0" "m = m0"
      using once m0 n NeedUpdateConditions_spec(3) [OF n] by (auto simp: update_condition_once_def m_def)
    then show ?thesis using m0 by simp
  qed
  moreover note NeedUpdateConditions_spec(1,2) [OF n]
  ultimately show ?thesis using m0 by (intro exI [of _ k0] exI [of _ m0] exI [of _ m]) (simp add: m_def)
qed

text \<open>An API server that keeps one object and refuses the number of writes that is given.\<close>

definition mem_status :: "(MulticlusterGlobalHub \<times> nat) status_api" where
  "mem_status = \<lparr>sa_Get = (\<lambda>(m, _). GetFound m),
     sa_UpdateStatus = (\<lambda>m' (m, n). case n of 0 \<Rightarrow> (SyncOk, (m', 0)) | Suc n' \<Rightarrow> (SyncConflict, (m, n')))\<rparr>"

lemma mem_status_laws: "status_laws mem_status"
  by (auto simp: status_laws_def mem_status_def split: nat.splits)

definition ex_component :: "string \<Rightarrow> string \<Rightarrow> string \<times> StatusCondition" where
  "ex_component name status = (name, zero_component\<lparr>sc_Name := name, sc_Type := COMPONENTS_AVAILABLE, sc_Status := status\<rparr>)"

definition ex_mgh :: MulticlusterGlobalHub where
  "ex_mgh = \<lparr>mg_Annotations = [], mg_Finalizers = [], mg_Deleting = False, mg_EnableMetrics = True, mg_Phase = GlobalHubRunning,
     mg_Conditions = [ready_condition GlobalHubProgressing],
     mg_Components = Some [ex_component COMPONENTS_MANAGER_NAME ''True'', ex_component COMPONENTS_POSTGRES_NAME ''True'', ex_component COMPONENTS_KAFKA_NAME ''True'']\<rparr>"

theorem condition_update_written_witness:
  "\<exists>k0 m0 m k'. UpdateCondition mem_status 7 (ready_condition GlobalHubRunning) GlobalHubError (ex_mgh, 2) = (SyncOk, k') \<and>
     sa_Get mem_status k0 = GetFound m0 \<and> sa_Get mem_status k' = GetFound m \<and>
     (\<exists>c. condition_of ''Ready'' (mg_Conditions m) = Some c \<and> same_condition c (ready_condition GlobalHubRunning)) \<and> mg_Phase m = GlobalHubError"
proof -
  obtain k' where run: "UpdateCondition mem_status 7 (ready_condition GlobalHubRunning) GlobalHubError (ex_mgh, 2) = (SyncOk, k')"
  proof -
    have "fst (UpdateCondition mem_status 7 (ready_condition GlobalHubRunning) GlobalHubError (ex_mgh, 2)) = SyncOk" by code_simp
    then show ?thesis using that by (metis prod.collapse)
  qed
  have "cd_Type (ready_condition GlobalHubRunning) = ''Ready''" by code_simp
  then show ?thesis using condition_update_written [OF mem_status_laws run] run by (metis GlobalHubPhase.distinct(7))
qed



end
