(* ===== verification/OperatorMeta.thy ===== *)
theory OperatorMeta
  imports OperatorStatus
begin

text \<open>
  The meta controller of the operator (\<^verbatim>\<open>operator/pkg/controllers/meta.go\<close>): it starts the other controllers, keeps the readiness of the
  global hub, and on deletion prunes what was created and removes the finalizers that the manager has set
  (\<^verbatim>\<open>pkg/jobs/prune_finalizer.go\<close>). The start functions of the controllers, which are many and independent, are arguments.
\<close>

section \<open>Pruning finalizers\<close>

definition CleanupFinalizer :: string where
  "CleanupFinalizer = ''global-hub.open-cluster-management.io/resource-cleanup''"

definition FinalizerRemovingDeadline :: string where
  "FinalizerRemovingDeadline = ''global-hub.open-cluster-management.io/finalizer-removing-deadline''"

record pruned_object =
  po_Kind :: string
  po_Namespace :: string
  po_Name :: string
  po_Finalizers :: "string list"
  po_Labels :: "(string, string) gomap"

record 'k prune_api =
  pr_List :: "string \<Rightarrow> 'k \<Rightarrow> pruned_object list option"
  pr_Update :: "pruned_object \<Rightarrow> 'k step"
  pr_ListOwned :: "string \<Rightarrow> 'k \<Rightarrow> string list option"
  pr_DeleteOwned :: "string \<Rightarrow> string \<Rightarrow> 'k \<Rightarrow> delete_result \<times> 'k"

definition DefaultRetrySteps :: nat where
  "DefaultRetrySteps = 5"

definition pruned :: "nat \<Rightarrow> pruned_object \<Rightarrow> pruned_object" where
  "pruned now x = x\<lparr>po_Finalizers := removeAll CleanupFinalizer (po_Finalizers x),
     po_Labels := AList.update FinalizerRemovingDeadline (dec (now + 60)) (po_Labels x)\<rparr>"

definition pruneFinalizer :: "'k prune_api \<Rightarrow> nat \<Rightarrow> pruned_object \<Rightarrow> 'k step" where
  "pruneFinalizer api now x k =
     (if CleanupFinalizer \<in> set (po_Finalizers x) then RetryOnConflict DefaultRetrySteps (pr_Update api (pruned now x)) k else (SyncOk, k))"

text \<open>An error of the list call is logged, and its empty result is used.\<close>

definition prune_kind :: "'k prune_api \<Rightarrow> nat \<Rightarrow> string \<Rightarrow> 'k step" where
  "prune_kind api now kind k =
     each_ok (pruneFinalizer api now) (case pr_List api kind k of None \<Rightarrow> [] | Some xs \<Rightarrow> xs) k"

definition placement_kinds :: "string list" where
  "placement_kinds = [''Placement'', ''ManagedClusterSet'', ''ManagedClusterSetBinding'', ''PlacementRule'', ''PlacementBinding'']"

definition application_kinds :: "string list" where
  "application_kinds = [''Application'', ''Subscription'', ''Channel'']"

definition prunePlacementResources :: "'k prune_api \<Rightarrow> nat \<Rightarrow> 'k step" where
  "prunePlacementResources api now = each_ok (prune_kind api now) placement_kinds"

definition pruneApplication :: "'k prune_api \<Rightarrow> nat \<Rightarrow> 'k step" where
  "pruneApplication api now = each_ok (prune_kind api now) application_kinds"

definition prunePolicy :: "'k prune_api \<Rightarrow> nat \<Rightarrow> 'k step" where
  "prunePolicy api now = prune_kind api now ''Policy''"

definition prune_Run :: "'k prune_api \<Rightarrow> nat \<Rightarrow> 'k step" where
  "prune_Run api now = then_ok (prunePlacementResources api now) (then_ok (pruneApplication api now) (prunePolicy api now))"

section \<open>Pruning cluster resources\<close>

definition delete_owned :: "'k prune_api \<Rightarrow> string \<Rightarrow> string \<Rightarrow> 'k step" where
  "delete_owned api kind name k = (case pr_DeleteOwned api kind name k of (DeleteError, k') \<Rightarrow> (SyncFailed, k') | (_, k') \<Rightarrow> (SyncOk, k'))"

definition delete_kind :: "'k prune_api \<Rightarrow> string \<Rightarrow> 'k step" where
  "delete_kind api kind k = (case pr_ListOwned api kind k of None \<Rightarrow> (SyncFailed, k) | Some names \<Rightarrow> each_ok (delete_owned api kind) names k)"

definition pruneGlobalResources :: "'k prune_api \<Rightarrow> 'k step" where
  "pruneGlobalResources api = then_ok (delete_kind api ''ClusterRole'') (delete_kind api ''ClusterRoleBinding'')"

definition pruneGlobalHubResources :: "'k prune_api \<Rightarrow> bool \<Rightarrow> nat \<Rightarrow> 'k step" where
  "pruneGlobalHubResources api acmReady now =
     then_ok (pruneGlobalResources api) (if acmReady then prune_Run api now else (\<lambda>k. (SyncOk, k)))"

section \<open>Reconciling\<close>

text \<open>ASCII folding, which is enough for a comparison with an ASCII word without the letters k and s.\<close>

definition to_lower :: "char \<Rightarrow> char" where
  "to_lower c = (let n = (of_char c :: nat) in if 65 \<le> n \<and> n \<le> 90 then char_of (n + 32) else c)"

definition EqualFold_true :: "string \<Rightarrow> bool" where
  "EqualFold_true s \<longleftrightarrow> map to_lower s = ''true''"

definition getAnnotation :: "MulticlusterGlobalHub \<Rightarrow> string \<Rightarrow> string" where
  "getAnnotation mgh annotationKey = (case map_of (mg_Annotations mgh) annotationKey of None \<Rightarrow> [] | Some v \<Rightarrow> v)"

definition IsPaused :: "MulticlusterGlobalHub \<Rightarrow> bool" where
  "IsPaused mgh = (let v = getAnnotation mgh ''mgh-pause'' in v \<noteq> [] \<and> EqualFold_true v)"

text \<open>
  What the controller uses: the lists of both resources, the status and the object of the global hub, the settings, and for every controller of
  the map, in the order in which the map is passed through, its start function (an error, or whether a controller was started) and the question
  whether its resources are removed.
\<close>

record 'k meta_api =
  me_ListMGH :: "'k \<Rightarrow> MulticlusterGlobalHub list option"
  me_ListAgents :: "'k \<Rightarrow> string list option"
  me_StartStandaloneAgent :: "'k step"
  me_Status :: "'k status_api"
  me_Update :: "MulticlusterGlobalHub \<Rightarrow> 'k step"
  me_Prune :: "'k prune_api"
  me_ACMReady :: "'k \<Rightarrow> bool"
  me_SetConfig :: "MulticlusterGlobalHub \<Rightarrow> 'k \<Rightarrow> string option \<times> 'k"
  me_Controllers :: "string list"
  me_Start :: "string \<Rightarrow> MulticlusterGlobalHub \<Rightarrow> 'k \<Rightarrow> (string + bool) \<times> 'k"
  me_Removed :: "string \<Rightarrow> 'k \<Rightarrow> bool"
  me_HasAddonManager :: "'k \<Rightarrow> bool"
  me_TriggerAddons :: "'k \<Rightarrow> string option \<times> 'k"
  me_BYO :: "'k \<Rightarrow> bool"

datatype meta_result = MetaDone | MetaRequeue | MetaRequeueAfter | MetaError

text \<open>Exactly one instance, or none is taken.\<close>

definition single :: "'a list option \<Rightarrow> 'a option option" where
  "single xs = map_option (\<lambda>l. case l of [x] \<Rightarrow> Some x | _ \<Rightarrow> None) xs"

definition UpdateObject :: "'k meta_api \<Rightarrow> MulticlusterGlobalHub \<Rightarrow> 'k step" where
  "UpdateObject api mgh = RetryOnConflict DefaultRetrySteps (me_Update api mgh)"

definition uninstall_condition :: Condition where
  "uninstall_condition = \<lparr>cd_Type = CONDITION_TYPE_GLOBALHUB_READY, cd_Status = CONDITION_STATUS_FALSE,
     cd_Reason = ''MulticlusterGlobalUninstalling'', cd_Message = ''The multicluster global hub is uninstalling'', cd_LastTransitionTime = 0\<rparr>"

definition reconcile_deletion :: "'k meta_api \<Rightarrow> nat \<Rightarrow> string list \<Rightarrow> MulticlusterGlobalHub \<Rightarrow> 'k \<Rightarrow> meta_result \<times> 'k" where
  "reconcile_deletion api now started mgh k =
     (case UpdateCondition (me_Status api) now uninstall_condition GlobalHubUninstalling k of
        (SyncOk, k1) \<Rightarrow>
          (case pruneGlobalHubResources (me_Prune api) (me_ACMReady api k1) now k1 of
             (SyncOk, k2) \<Rightarrow>
               if list_ex (\<lambda>c. \<not> me_Removed api c k2) started then (MetaRequeueAfter, k2)
               else (case UpdateObject api (mgh\<lparr>mg_Finalizers := removeAll CleanupFinalizer (mg_Finalizers mgh)\<rparr>) k2 of
                       (SyncOk, k3) \<Rightarrow> (MetaDone, k3)
                     | (_, k3) \<Rightarrow> (MetaError, k3))
           | (_, k2) \<Rightarrow> (MetaError, k2))
      | (_, k1) \<Rightarrow> (MetaError, k1))"

text \<open>The loop over the start functions: one variable holds the error, so that a later controller overwrites it.\<close>

fun start_controllers ::
    "'k meta_api \<Rightarrow> MulticlusterGlobalHub \<Rightarrow> string list \<Rightarrow> string option \<times> string list \<times> 'k \<Rightarrow> string option \<times> string list \<times> 'k" where
  "start_controllers api mgh [] s = s"
| "start_controllers api mgh (c # cs) (reconcileErr, started, k) =
     (case me_Start api c mgh k of
        (Inl e, k') \<Rightarrow> start_controllers api mgh cs (Some e, started, k')
      | (Inr running, k') \<Rightarrow> start_controllers api mgh cs (None, if running then List.insert c started else started, k'))"

definition AddFinalizer :: "MulticlusterGlobalHub \<Rightarrow> bool \<times> MulticlusterGlobalHub" where
  "AddFinalizer mgh =
     (if CleanupFinalizer \<in> set (mg_Finalizers mgh) then (False, mgh)
      else (True, mgh\<lparr>mg_Finalizers := mg_Finalizers mgh @ [CleanupFinalizer]\<rparr>))"

text \<open>
  What is done for a global hub that is not being deleted: the result, the error that the deferred call sees, the started controllers and the
  state. The errors of both writes of the object are variables of their own, which the deferred call does not see, and an error of
  a start function is replaced by the variable \<^verbatim>\<open>err\<close>, which is nil.
\<close>

definition reconcile_body ::
    "'k meta_api \<Rightarrow> string list \<Rightarrow> MulticlusterGlobalHub \<Rightarrow> 'k \<Rightarrow> meta_result \<times> string option \<times> string list \<times> 'k" where
  "reconcile_body api started mgh0 k0 =
     (case me_SetConfig api mgh0 k0 of
        (Some e, k1) \<Rightarrow> (MetaError, Some e, started, k1)
      | (None, k1) \<Rightarrow>
          let (added, mgh) = AddFinalizer mgh0;
              (written, k2) = (if added then me_Update api mgh k1 else (SyncOk, k1))
          in if written = SyncConflict then (MetaRequeue, None, started, k2)
             else
               (case start_controllers api mgh (me_Controllers api) (None, started, k2) of
                  (Some e, started', k3) \<Rightarrow> (MetaDone, Some e, started', k3)
                | (None, started', k3) \<Rightarrow>
                    (case (if me_ACMReady api k3 \<and> me_HasAddonManager api k3 then me_TriggerAddons api k3 else (None, k3)) of
                       (Some e, k4) \<Rightarrow> (MetaError, Some e, started', k4)
                     | (None, k4) \<Rightarrow>
                         if me_BYO api k4 \<and> mg_EnableMetrics mgh
                         then (case me_Update api (mgh\<lparr>mg_EnableMetrics := False\<rparr>) k4 of
                                 (SyncConflict, k5) \<Rightarrow> (MetaRequeue, None, started', k5)
                               | (_, k5) \<Rightarrow> (MetaDone, None, started', k5))
                         else (MetaDone, None, started', k4))))"

definition meta_Reconcile :: "'k meta_api \<Rightarrow> nat \<Rightarrow> string list \<times> 'k \<Rightarrow> meta_result \<times> string list \<times> 'k" where
  "meta_Reconcile api now = (\<lambda>(started, k).
     case single (me_ListMGH api k) of
       None \<Rightarrow> (MetaError, started, k)
     | Some mgh \<Rightarrow>
         (case single (me_ListAgents api k) of
            None \<Rightarrow> (MetaError, started, k)
          | Some (Some _) \<Rightarrow>
              (case me_StartStandaloneAgent api k of (SyncOk, k') \<Rightarrow> (MetaDone, started, k') | (_, k') \<Rightarrow> (MetaError, started, k'))
          | Some None \<Rightarrow>
              (case mgh of
                 None \<Rightarrow> (MetaDone, started, k)
               | Some m \<Rightarrow>
                   if IsPaused m then (MetaDone, started, k)
                   else if mg_Deleting m then (let (r, k') = reconcile_deletion api now started m k in (r, started, k'))
                   else
                     let (r, e, started', k') = reconcile_body api started m k
                     in (r, started', snd (updateMGHReadyStatus (me_Status api) (me_ACMReady api k') now m e k')))))"

section \<open>What pruning leaves\<close>

definition prune_key :: "pruned_object \<Rightarrow> string \<times> string \<times> string" where
  "prune_key x = (po_Kind x, po_Namespace x, po_Name x)"

text \<open>
  The objects of the API server: a list call that succeeds gives exactly the objects of the kind, an accepted update stores the object, and
  an update that is not accepted changes nothing.
\<close>

definition prune_laws :: "'k prune_api \<Rightarrow> ('k \<Rightarrow> string \<times> string \<times> string \<rightharpoonup> pruned_object) \<Rightarrow> bool" where
  "prune_laws api view \<longleftrightarrow>
     (\<forall>kind k xs. pr_List api kind k = Some xs \<longrightarrow> (\<forall>x. x \<in> set xs \<longleftrightarrow> po_Kind x = kind \<and> view k (prune_key x) = Some x) \<and> distinct (map prune_key xs)) \<and>
     (\<forall>x k r k'. pr_Update api x k = (r, k') \<longrightarrow> view k' = (if r = SyncOk then (view k)(prune_key x \<mapsto> x) else view k)) \<and>
     (\<forall>k key x. view k key = Some x \<longrightarrow> prune_key x = key)"

definition prune_entry :: "nat \<Rightarrow> pruned_object \<Rightarrow> pruned_object" where
  "prune_entry now x = (if CleanupFinalizer \<in> set (po_Finalizers x) then pruned now x else x)"

lemma prune_key_entry [simp]: "prune_key (prune_entry now x) = prune_key x"
  by (simp add: prune_entry_def pruned_def prune_key_def)

lemma pruneFinalizer_view:
  assumes "prune_laws api view" "pruneFinalizer api now x k = (SyncOk, k')" "view k (prune_key x) = Some x"
  shows "view k' = (view k)(prune_key x \<mapsto> prune_entry now x)"
proof -
  note upd = assms(1) [unfolded prune_laws_def, THEN conjunct2, THEN conjunct1, rule_format]
  have retry: "RetryOnConflict n (pr_Update api y) s = (SyncOk, s') \<Longrightarrow> view s' = (view s)(prune_key y \<mapsto> y)" for n y s s'
  proof (induction n arbitrary: s)
    case (Suc n)
    obtain r s1 where u: "pr_Update api y s = (r, s1)" by force
    show ?case
    proof (cases r)
      case SyncOk
      then show ?thesis using Suc.prems u upd [OF u] by simp
    next
      case SyncConflict
      then have "RetryOnConflict n (pr_Update api y) s1 = (SyncOk, s')" using Suc.prems u by (simp split: if_splits)
      from Suc.IH [OF this] have "view s' = (view s1)(prune_key y \<mapsto> y)" .
      moreover have "view s1 = view s" using upd [OF u] SyncConflict by simp
      ultimately show ?thesis unfolding \<open>view s1 = view s\<close> by blast
    qed (use Suc.prems u in simp)
  qed simp
  show ?thesis
  proof (cases "CleanupFinalizer \<in> set (po_Finalizers x)")
    case True
    then have "RetryOnConflict DefaultRetrySteps (pr_Update api (pruned now x)) k = (SyncOk, k')" using assms(2) by (simp add: pruneFinalizer_def)
    from retry [OF this] show ?thesis using True prune_key_entry [of now x] by (simp add: prune_entry_def)
  next
    case False
    then show ?thesis using assms(2,3) by (simp add: pruneFinalizer_def prune_entry_def fun_upd_idem)
  qed
qed

lemma prune_list_view:
  assumes laws: "prune_laws api view"
  shows "each_ok (pruneFinalizer api now) xs k = (SyncOk, k') \<Longrightarrow> distinct (map prune_key xs) \<Longrightarrow> \<forall>x \<in> set xs. view k (prune_key x) = Some x \<Longrightarrow>
    view k' key = (if key \<in> prune_key ` set xs then map_option (prune_entry now) (view k key) else view k key)"
proof (induction xs arbitrary: k)
  case (Cons x xs)
  obtain k1 where one: "pruneFinalizer api now x k = (SyncOk, k1)" and rest: "each_ok (pruneFinalizer api now) xs k1 = (SyncOk, k')"
    using Cons.prems(1) by (auto simp: then_ok_def split: prod.splits sync_result.splits)
  have k1: "view k1 = (view k)(prune_key x \<mapsto> prune_entry now x)" using pruneFinalizer_view [OF laws one] Cons.prems(3) by simp
  have "\<forall>y \<in> set xs. view k1 (prune_key y) = Some y" using Cons.prems(2,3) k1 by (auto simp: image_iff)
  then have "view k' key = (if key \<in> prune_key ` set xs then map_option (prune_entry now) (view k1 key) else view k1 key)"
    using Cons.IH [OF rest] Cons.prems(2) by simp
  then show ?case using k1 Cons.prems(2,3) by (auto simp: image_iff)
qed simp

lemma prune_kind_view:
  assumes laws: "prune_laws api view" and run: "prune_kind api now kind k = (SyncOk, k')" and listed: "pr_List api kind k \<noteq> None"
  shows "view k' key = (if fst key = kind then map_option (prune_entry now) (view k key) else view k key)"
proof -
  obtain xs where xs: "pr_List api kind k = Some xs" using listed by auto
  note found = laws [unfolded prune_laws_def, THEN conjunct1, rule_format, OF xs]
  have "view k' key = (if key \<in> prune_key ` set xs then map_option (prune_entry now) (view k key) else view k key)"
    by (rule prune_list_view [OF laws]) (use run xs found in \<open>auto simp: prune_kind_def\<close>)
  moreover have "key \<in> prune_key ` set xs \<longleftrightarrow> fst key = kind \<and> view k key \<noteq> None"
  proof
    assume "key \<in> prune_key ` set xs"
    then show "fst key = kind \<and> view k key \<noteq> None" using found by (auto simp: prune_key_def)
  next
    assume a: "fst key = kind \<and> view k key \<noteq> None"
    then obtain x where x: "view k key = Some x" by auto
    then have "prune_key x = key" by (rule laws [unfolded prune_laws_def, THEN conjunct2, THEN conjunct2, rule_format])
    moreover have "po_Kind x = kind" using \<open>prune_key x = key\<close> a by (auto simp: prune_key_def)
    ultimately have "x \<in> set xs" using found x by blast
    then show "key \<in> prune_key ` set xs" using \<open>prune_key x = key\<close> by (rule rev_image_eqI [OF _ sym])
  qed
  ultimately show ?thesis by auto
qed

lemma prune_kinds_view:
  assumes laws: "prune_laws api view" and listed: "\<And>kind k. pr_List api kind k \<noteq> None"
  shows "each_ok (prune_kind api now) kinds k = (SyncOk, k') \<Longrightarrow> distinct kinds \<Longrightarrow>
    view k' key = (if fst key \<in> set kinds then map_option (prune_entry now) (view k key) else view k key)"
proof (induction kinds arbitrary: k)
  case (Cons kind kinds)
  obtain k1 where one: "prune_kind api now kind k = (SyncOk, k1)" and rest: "each_ok (prune_kind api now) kinds k1 = (SyncOk, k')"
    using Cons.prems(1) by (auto simp: then_ok_def split: prod.splits sync_result.splits)
  show ?case using Cons.IH [OF rest] Cons.prems(2) prune_kind_view [OF laws one listed] by auto
qed simp

lemma each_ok_append: "each_ok f (xs @ ys) = then_ok (each_ok f xs) (each_ok f ys)"
proof (induction xs)
  case (Cons x xs)
  show ?case
  proof
    fix s
    obtain r s1 where "f x s = (r, s1)" by force
    then show "each_ok f ((x # xs) @ ys) s = then_ok (each_ok f (x # xs)) (each_ok f ys) s"
      using Cons by (cases r) (simp_all add: then_ok_def)
  qed
qed (simp add: then_ok_def fun_eq_iff)


text \<open>An API server whose objects are a function of their keys, of which a list of keys is in use.\<close>

type_synonym prune_store = "(string \<times> string \<times> string) list \<times> (string \<times> string \<times> string \<rightharpoonup> pruned_object)"

definition store_view :: "prune_store \<Rightarrow> string \<times> string \<times> string \<rightharpoonup> pruned_object" where
  "store_view k = (\<lambda>key. if key \<in> set (fst k) then (case snd k key of Some x \<Rightarrow> if prune_key x = key then Some x else None | None \<Rightarrow> None) else None)"

definition mem_prune :: "prune_store prune_api" where
  "mem_prune = \<lparr>pr_List = (\<lambda>kind k. Some (filter (\<lambda>x. po_Kind x = kind) (List.map_filter (store_view k) (remdups (fst k))))),
     pr_Update = (\<lambda>x k. (SyncOk, (List.insert (prune_key x) (fst k), (snd k)(prune_key x \<mapsto> x)))),
     pr_ListOwned = (\<lambda>_ _. Some []), pr_DeleteOwned = (\<lambda>_ _ k. (Deleted, k))\<rparr>"

lemma store_view_key: "store_view k key = Some x \<Longrightarrow> prune_key x = key \<and> key \<in> set (fst k)"
  by (auto simp: store_view_def split: if_splits option.splits)

lemma distinct_store_list: "distinct keys \<Longrightarrow> distinct (map prune_key (filter P (List.map_filter (store_view k) keys)))"
proof (induction keys)
  case (Cons key keys)
  have "prune_key x \<in> set ks" if "x \<in> set (List.map_filter (store_view k) ks)" for x ks
    using that store_view_key by (fastforce simp: List.map_filter_def)
  then show ?case using Cons store_view_key [of k key] by (cases "store_view k key") (auto simp: List.map_filter_simps)
qed (simp add: List.map_filter_simps)

lemma mem_prune_laws: "prune_laws mem_prune store_view"
proof -
  have "x \<in> set (filter (\<lambda>x. po_Kind x = kind) (List.map_filter (store_view k) (remdups (fst k)))) \<longleftrightarrow> po_Kind x = kind \<and> store_view k (prune_key x) = Some x" for x kind k
  proof -
    have "x \<in> set (List.map_filter (store_view k) (remdups (fst k))) \<longleftrightarrow> (\<exists>key \<in> set (fst k). store_view k key = Some x)"
      by (force simp: List.map_filter_def)
    also have "\<dots> \<longleftrightarrow> store_view k (prune_key x) = Some x" using store_view_key by blast
    finally show ?thesis by auto
  qed
  moreover have "store_view (List.insert (prune_key x) (fst k), (snd k)(prune_key x \<mapsto> x)) = (store_view k)(prune_key x \<mapsto> x)" for x k
    by (auto simp: store_view_def fun_eq_iff)
  ultimately show ?thesis
    using store_view_key by (auto simp: prune_laws_def mem_prune_def distinct_store_list)
qed

definition ex_pruned :: pruned_object where
  "ex_pruned = \<lparr>po_Kind = ''Policy'', po_Namespace = ''default'', po_Name = ''p'', po_Finalizers = [''other'', CleanupFinalizer], po_Labels = []\<rparr>"

definition ex_store :: prune_store where
  "ex_store = ([prune_key ex_pruned], [prune_key ex_pruned \<mapsto> ex_pruned])"


section \<open>Deleting the global hub\<close>

text \<open>Of the finalizers of the stored global hub: neither a write of the status nor pruning changes them.\<close>

definition finalizer_laws :: "'k meta_api \<Rightarrow> ('k \<Rightarrow> string list) \<Rightarrow> bool" where
  "finalizer_laws api finalizers \<longleftrightarrow>
     (\<forall>m k. finalizers (snd (sa_UpdateStatus (me_Status api) m k)) = finalizers k) \<and>
     (\<forall>x k. finalizers (snd (pr_Update (me_Prune api) x k)) = finalizers k) \<and>
     (\<forall>kind n k. finalizers (snd (pr_DeleteOwned (me_Prune api) kind n k)) = finalizers k)"

lemma RetryOnConflict_view:
  assumes "\<And>s. view (snd (f s)) = view s"
  shows "view (snd (RetryOnConflict n f s)) = view s"
proof -
  have "view (snd (RetryOnConflict n f s)) = view s"
    by (rule RetryOnConflict_keeps [where P = "\<lambda>s'. view s' = view s", OF surjective_pairing]) (use assms in \<open>auto, metis snd_conv\<close>)
  then show ?thesis .
qed

lemma then_ok_view:
  assumes "\<And>s. view (snd (f s)) = view s" "\<And>s. view (snd (g s)) = view s"
  shows "view (snd (then_ok f g s)) = view s"
proof -
  obtain r s1 where f: "f s = (r, s1)" by force
  then have "view s1 = view s" using assms(1) [of s] by simp
  then show ?thesis using f assms(2) [of s1] by (cases r) (simp_all add: then_ok_def)
qed

lemma each_ok_view:
  assumes "\<And>x s. view (snd (f x s)) = view s"
  shows "view (snd (each_ok f xs s)) = view s"
  using each_ok_quiet [of view f xs s "fst (each_ok f xs s)" "snd (each_ok f xs s)"] assms by simp

lemma pruneGlobalHubResources_view:
  assumes "finalizer_laws api finalizers"
  shows "finalizers (snd (pruneGlobalHubResources (me_Prune api) acmReady now k)) = finalizers k"
proof -
  let ?p = "me_Prune api"
  have up: "finalizers (snd (pr_Update ?p x k)) = finalizers k" and del: "finalizers (snd (pr_DeleteOwned ?p kind n k)) = finalizers k" for x k kind n
    using assms by (simp_all add: finalizer_laws_def)
  have fin: "finalizers (snd (pruneFinalizer ?p now x k)) = finalizers k" for x k
    using RetryOnConflict_view [where view = finalizers and f = "pr_Update ?p (pruned now x)", OF up] by (simp add: pruneFinalizer_def)
  have kind: "finalizers (snd (prune_kind ?p now c k)) = finalizers k" for c k
    unfolding prune_kind_def by (rule each_ok_view) (rule fin)
  have owned: "finalizers (snd (delete_owned ?p c n k)) = finalizers k" for c n k
    using del [of c n k] by (auto simp: delete_owned_def split: prod.splits delete_result.splits)
  have dkind: "finalizers (snd (delete_kind ?p c k)) = finalizers k" for c k
    using each_ok_view [where view = finalizers and f = "delete_owned ?p c", OF owned] by (simp add: delete_kind_def split: option.splits)
  have kinds: "finalizers (snd (each_ok (prune_kind ?p now) cs k)) = finalizers k" for cs k
    by (rule each_ok_view) (rule kind)
  have run: "finalizers (snd (prune_Run ?p now k)) = finalizers k" for k
    unfolding prune_Run_def prunePlacementResources_def pruneApplication_def prunePolicy_def
    by (intro then_ok_view kinds kind)
  have glob: "finalizers (snd (pruneGlobalResources ?p k)) = finalizers k" for k
    unfolding pruneGlobalResources_def by (intro then_ok_view dkind)
  show ?thesis
    unfolding pruneGlobalHubResources_def by (rule then_ok_view, rule glob) (use run in simp)
qed

lemma UpdateCondition_view:
  assumes "\<And>m k. view (snd (sa_UpdateStatus api m k)) = view k"
  shows "view (snd (UpdateCondition api now cond phase k)) = view k"
  unfolding UpdateCondition_def
  by (rule RetryOnConflict_view) (use assms in \<open>auto simp: update_condition_once_def Let_def split: get_result.splits prod.splits\<close>)

text \<open>
  C22: The finalizer of a global hub that is being deleted goes only after everything was pruned without an error and every controller that was started has
  reported its resources as removed; in every other outcome the finalizers are as before and the reconciliation is repeated.
\<close>

theorem finalizer_kept_until_removed:
  assumes "finalizer_laws api finalizers" "reconcile_deletion api now started mgh k = (r, k')"
  shows "finalizers k' = finalizers k \<and> r \<in> {MetaRequeueAfter, MetaError} \<or>
     (\<exists>k1 k2. UpdateCondition (me_Status api) now uninstall_condition GlobalHubUninstalling k = (SyncOk, k1) \<and>
        pruneGlobalHubResources (me_Prune api) (me_ACMReady api k1) now k1 = (SyncOk, k2) \<and> finalizers k2 = finalizers k \<and>
        (\<forall>c \<in> set started. me_Removed api c k2) \<and>
        snd (UpdateObject api (mgh\<lparr>mg_Finalizers := removeAll CleanupFinalizer (mg_Finalizers mgh)\<rparr>) k2) = k')"
proof -
  obtain r1 k1 where u: "UpdateCondition (me_Status api) now uninstall_condition GlobalHubUninstalling k = (r1, k1)" by force
  have f1: "finalizers k1 = finalizers k"
    using UpdateCondition_view [where view = finalizers and api = "me_Status api"] assms(1) u by (metis finalizer_laws_def snd_conv)
  obtain r2 k2 where q: "pruneGlobalHubResources (me_Prune api) (me_ACMReady api k1) now k1 = (r2, k2)" by force
  have f2: "finalizers k2 = finalizers k" using pruneGlobalHubResources_view [OF assms(1)] f1 q by (metis snd_conv)
  obtain r3 k3 where w: "UpdateObject api (mgh\<lparr>mg_Finalizers := removeAll CleanupFinalizer (mg_Finalizers mgh)\<rparr>) k2 = (r3, k3)" by force
  consider "r1 \<noteq> SyncOk" | "r1 = SyncOk" "r2 \<noteq> SyncOk" | "r1 = SyncOk" "r2 = SyncOk" "list_ex (\<lambda>c. \<not> me_Removed api c k2) started"
    | "r1 = SyncOk" "r2 = SyncOk" "\<not> list_ex (\<lambda>c. \<not> me_Removed api c k2) started" by blast
  then show ?thesis
  proof cases
    case 1
    then have "(r, k') = (MetaError, k1)" using assms(2) u by (cases r1) (simp_all add: reconcile_deletion_def)
    then show ?thesis using f1 by simp
  next
    case 2
    then have "(r, k') = (MetaError, k2)" using assms(2) u q by (cases r2) (simp_all add: reconcile_deletion_def)
    then show ?thesis using f2 by simp
  next
    case 3
    then have "(r, k') = (MetaRequeueAfter, k2)" using assms(2) u q by (simp add: reconcile_deletion_def)
    then show ?thesis using f2 by simp
  next
    case 4
    then have "k' = k3" using assms(2) u q w by (cases r3) (simp_all add: reconcile_deletion_def)
    moreover have "\<forall>c \<in> set started. me_Removed api c k2" using 4(3) by (simp add: list_ex_iff)
    ultimately show ?thesis using 4(1,2) u q f2 w by (intro disjI2 exI [of _ k1] exI [of _ k2]) simp
  qed
qed

text \<open>An operator for examples: its state is the global hub, one of its two controllers fails, and no resource is ever removed.\<close>

definition ex_meta :: "MulticlusterGlobalHub meta_api" where
  "ex_meta = \<lparr>me_ListMGH = (\<lambda>m. Some [m]), me_ListAgents = (\<lambda>_. Some []), me_StartStandaloneAgent = (\<lambda>k. (SyncOk, k)),
     me_Status = \<lparr>sa_Get = GetFound, sa_UpdateStatus = (\<lambda>m' m. (SyncOk, m'\<lparr>mg_Finalizers := mg_Finalizers m\<rparr>))\<rparr>,
     me_Update = (\<lambda>m' _. (SyncOk, m')),
     me_Prune = \<lparr>pr_List = (\<lambda>_ _. Some []), pr_Update = (\<lambda>_ k. (SyncOk, k)), pr_ListOwned = (\<lambda>_ _. Some []), pr_DeleteOwned = (\<lambda>_ _ k. (Deleted, k))\<rparr>,
     me_ACMReady = (\<lambda>_. False), me_SetConfig = (\<lambda>_ k. (None, k)), me_Controllers = [''storage'', ''grafana''],
     me_Start = (\<lambda>c _ k. (if c = ''storage'' then Inl ''no storage'' else Inr True, k)),
     me_Removed = (\<lambda>_ _. False), me_HasAddonManager = (\<lambda>_. False), me_TriggerAddons = (\<lambda>k. (None, k)), me_BYO = (\<lambda>_. False)\<rparr>"

definition ex_deleted :: MulticlusterGlobalHub where
  "ex_deleted = ex_mgh\<lparr>mg_Finalizers := [CleanupFinalizer], mg_Deleting := True\<rparr>"

theorem finalizer_kept_until_removed_witness:
  "\<exists>r k'. reconcile_deletion ex_meta 7 [''grafana''] ex_deleted ex_deleted = (r, k') \<and>
     mg_Finalizers k' = [CleanupFinalizer] \<and> r \<in> {MetaRequeueAfter, MetaError}"
proof -
  obtain r k' where run: "reconcile_deletion ex_meta 7 [''grafana''] ex_deleted ex_deleted = (r, k')" by force
  have "finalizer_laws ex_meta mg_Finalizers" by (simp add: finalizer_laws_def ex_meta_def)
  from finalizer_kept_until_removed [OF this run] have "mg_Finalizers k' = mg_Finalizers ex_deleted \<and> r \<in> {MetaRequeueAfter, MetaError}"
    by (simp add: ex_meta_def)
  then show ?thesis using run by (simp add: ex_deleted_def)
qed

text \<open>
  Of the controllers that the operator starts, only the last one in the order of the map counts: an error of an earlier one is overwritten, so that the
  readiness is computed as if there were none. The error of the last one is reported in the condition, but the reconciliation itself
  returns without an error and is not repeated.
\<close>

theorem controller_errors_overwritten:
  assumes "me_SetConfig api mgh k = (None, ka)" "AddFinalizer mgh = (False, mgh)"
      and "me_Controllers api = cs @ [c]" "start_controllers api mgh cs (None, started, ka) = (e, started', kb)" "me_Start api c mgh kb = (res, kc)"
      and "\<And>k. \<not> me_HasAddonManager api k" "\<And>k. \<not> me_BYO api k"
  shows "\<exists>started''. reconcile_body api started mgh k = (MetaDone, case res of Inl err \<Rightarrow> Some err | Inr _ \<Rightarrow> None, started'', kc)"
proof -
  have "start_controllers api mgh (cs @ ds) s = start_controllers api mgh ds (start_controllers api mgh cs s)" for ds s
    by (induction cs arbitrary: s) (auto split: prod.splits sum.splits)
  then have "start_controllers api mgh (me_Controllers api) (None, started, ka) = start_controllers api mgh [c] (e, started', kb)"
    using assms(3,4) by simp
  then show ?thesis using assms(1,2,5-7) by (auto simp: reconcile_body_def split: sum.splits)
qed

theorem controller_errors_overwritten_witness:
  "\<exists>started. reconcile_body ex_meta [] (ex_deleted\<lparr>mg_Deleting := False\<rparr>) ex_mgh = (MetaDone, None, started, ex_mgh) \<and>
     me_Start ex_meta ''storage'' ex_mgh ex_mgh = (Inl ''no storage'', ex_mgh)"
proof -
  have "\<exists>started. reconcile_body ex_meta [] (ex_deleted\<lparr>mg_Deleting := False\<rparr>) ex_mgh =
      (MetaDone, case Inr True :: string + bool of Inl err \<Rightarrow> Some err | Inr _ \<Rightarrow> None, started, ex_mgh)"
    by (rule controller_errors_overwritten [where cs = "[''storage'']" and c = "''grafana''" and ka = "ex_mgh" and kb = "ex_mgh"])
       (simp_all add: ex_meta_def AddFinalizer_def ex_deleted_def)
  then show ?thesis by (simp add: ex_meta_def)
qed

end
