(* ===== verification/History.thy ===== *)
theory History
  imports HubManagement "HOL-Library.List_Lexorder" "HOL-Library.Char_ord" "HOL-Library.Product_Lexorder" "HOL-Library.Multiset"
begin

text \<open>
  The daily snapshot of the compliance of local policies (\<^verbatim>\<open>manager/pkg/processes/cronjob/task/local_compliance_history.go\<close>). The
  table is copied in batches of so many rows in the order of policy and cluster; each batch is a query of its own and is
  repeated until it succeeds or the time is up. An attempt says whether the query fails and, as the order does not determine the position of rows
  with the same policy and cluster, in which order the database delivers the rows.
\<close>

record history_row =
  hr_Policy :: string
  hr_Cluster :: string
  hr_Hub :: string
  hr_Compliance :: string

type_synonym history_id = "string \<times> string \<times> string \<times> nat"

record job_log =
  jl_Total :: nat
  jl_Offsets :: nat
  jl_Inserted :: nat
  jl_Failed :: bool

record history_db =
  hd_Compliance :: "history_row list"
  hd_History :: "(history_id, string) gomap"
  hd_Log :: "job_log list"

type_synonym attempt = "bool \<times> history_row list"

definition batch_order :: "history_row \<Rightarrow> string \<times> string" where
  "batch_order r = (hr_Policy r, hr_Cluster r)"

definition history_key :: "nat \<Rightarrow> history_row \<Rightarrow> history_id" where
  "history_key today r = (hr_Hub r, hr_Policy r, hr_Cluster r, today)"

text \<open>An insertion that does nothing if the key is there, with the number of rows that were inserted.\<close>

definition insert_history :: "nat \<Rightarrow> history_row \<Rightarrow> (history_id, string) gomap \<times> nat \<Rightarrow> (history_id, string) gomap \<times> nat" where
  "insert_history today r = (\<lambda>(h, n).
     if map_of h (history_key today r) = None then (h @ [(history_key today r, hr_Compliance r)], n + 1) else (h, n))"

definition batch_attempt :: "nat \<Rightarrow> nat \<Rightarrow> nat \<Rightarrow> attempt \<Rightarrow> history_db \<times> nat \<Rightarrow> bool \<times> history_db \<times> nat" where
  "batch_attempt batchSize today offset = (\<lambda>(fails, rows) (db, batchInsert).
     if fails then (False, (db, batchInsert))
     else let (h, n) = fold (insert_history today) (take batchSize (drop offset rows)) (hd_History db, 0)
          in (True, (db\<lparr>hd_History := h\<rparr>, n)))"

text \<open>The log entry is written at the end in any case; \<open>logs\<close> says whether this works, which does not matter for the job.\<close>

definition batchSync :: "nat \<Rightarrow> nat \<Rightarrow> (nat \<Rightarrow> attempt list) \<Rightarrow> (nat \<Rightarrow> bool) \<Rightarrow> nat \<Rightarrow> nat \<Rightarrow> history_db \<Rightarrow> bool \<times> nat \<times> history_db" where
  "batchSync batchSize today attempts logs totalCount offset db =
     (let (ok, db1, batchInsert) = poll (batch_attempt batchSize today offset) (attempts offset) (db, 0);
          entry = \<lparr>jl_Total = totalCount, jl_Offsets = offset, jl_Inserted = offset + batchInsert, jl_Failed = \<not> ok\<rparr>
      in (ok, batchInsert, if logs offset then db1\<lparr>hd_Log := hd_Log db1 @ [entry]\<rparr> else db1))"

text \<open>The loop over the offsets; a batch of no rows would make it endless, so that the loop of the code is this one only for positive sizes.\<close>

function snapshot_loop :: "nat \<Rightarrow> nat \<Rightarrow> (nat \<Rightarrow> attempt list) \<Rightarrow> (nat \<Rightarrow> bool) \<Rightarrow> nat \<Rightarrow> nat \<Rightarrow> nat \<Rightarrow> history_db \<Rightarrow> (nat \<times> history_db, history_db) sum" where
  "snapshot_loop batchSize today attempts logs totalCount offset insertedCount db =
     (if totalCount \<le> offset \<or> batchSize = 0 then Inl (insertedCount, db)
      else case batchSync batchSize today attempts logs totalCount offset db of
             (True, n, db') \<Rightarrow> snapshot_loop batchSize today attempts logs totalCount (offset + batchSize) (insertedCount + n) db'
           | (False, _, db') \<Rightarrow> Inr db')"
  by pat_completeness auto
termination
  by (relation "measure (\<lambda>(b, _, _, _, total, offset, _, _). total - offset)") auto

declare snapshot_loop.simps [simp del]

definition batchSize :: nat where
  "batchSize = 1000"

definition snapshotLocalComplianceToHistory ::
    "nat \<Rightarrow> bool \<Rightarrow> nat \<Rightarrow> (nat \<Rightarrow> attempt list) \<Rightarrow> (nat \<Rightarrow> bool) \<Rightarrow> history_db \<Rightarrow> (nat \<times> history_db, history_db) sum" where
  "snapshotLocalComplianceToHistory b counts today attempts logs db =
     (if counts then snapshot_loop b today attempts logs (length (hd_Compliance db)) 0 0 db else Inr db)"

text \<open>The job: the gauge is 1 after an error and 0 otherwise.\<close>

definition LocalComplianceHistory :: "bool \<Rightarrow> nat \<Rightarrow> (nat \<Rightarrow> attempt list) \<Rightarrow> (nat \<Rightarrow> bool) \<Rightarrow> history_db \<Rightarrow> nat \<times> history_db" where
  "LocalComplianceHistory counts today attempts logs db =
     (case snapshotLocalComplianceToHistory batchSize counts today attempts logs db of Inl (_, db') \<Rightarrow> (0, db') | Inr db' \<Rightarrow> (1, db'))"

section \<open>What a snapshot leaves\<close>

definition order_ok :: "history_row list \<Rightarrow> attempt \<Rightarrow> bool" where
  "order_ok rows a \<longleftrightarrow> mset (snd a) = mset rows \<and> sorted (map batch_order (snd a))"

lemma insert_history_new: "map_of h (history_key today r) = None \<Longrightarrow> insert_history today r (h, n) = (h @ [(history_key today r, hr_Compliance r)], Suc n)"
  and insert_history_old: "map_of h (history_key today r) = Some v \<Longrightarrow> insert_history today r (h, n) = (h, n)"
  by (simp_all add: insert_history_def)

lemma insert_history_lookup:
  "map_of (fst (fold (insert_history today) rs (h, n))) key =
     (case map_of h key of Some v \<Rightarrow> Some v | None \<Rightarrow> map_of (map (\<lambda>r. (history_key today r, hr_Compliance r)) rs) key)"
proof (induction rs arbitrary: h n)
  case Nil
  then show ?case by (simp split: option.splits)
next
  case (Cons r rs)
  show ?case
  proof (cases "map_of h (history_key today r)")
    case None
    then show ?thesis by (auto simp: insert_history_new Cons.IH map_add_def split: option.splits)
  next
    case (Some v)
    then show ?thesis by (auto simp: insert_history_old Cons.IH split: option.splits)
  qed
qed

lemma poll_batch:
  assumes "\<forall>a \<in> set ts. snd a = rows" "poll (batch_attempt b today offset) ts (db, 0) = (True, db', n)"
  shows "hd_Compliance db' = hd_Compliance db \<and> (hd_History db', n) = fold (insert_history today) (take b (drop offset rows)) (hd_History db, 0)"
  using assms
proof (induction ts)
  case (Cons a ts)
  show ?case
  proof (cases "fst a")
    case True
    then show ?thesis using Cons by (cases a) (auto simp: batch_attempt_def)
  next
    case False
    then show ?thesis using Cons.prems by (cases a) (auto simp: batch_attempt_def split: prod.splits)
  qed
qed simp

lemma insert_count: "fold (insert_history today) rs (h, n) = (fst (fold (insert_history today) rs (h, 0)), n + snd (fold (insert_history today) rs (h, 0)))"
proof (induction rs arbitrary: h n)
  case (Cons r rs)
  show ?case
  proof (cases "map_of h (history_key today r)")
    case None
    then show ?thesis using Cons [of "h @ [(history_key today r, hr_Compliance r)]" "Suc n"] Cons [of "h @ [(history_key today r, hr_Compliance r)]" "Suc 0"]
      by (simp add: insert_history_new)
  next
    case (Some v)
    then show ?thesis using Cons [of h n] by (simp add: insert_history_old)
  qed
qed simp

lemma snapshot_loop_rows:
  assumes orders: "\<And>offset. \<forall>a \<in> set (attempts offset). snd a = rows" and b: "0 < b"
  shows "snapshot_loop b today attempts logs (length rows) offset c db = Inl (c', db') \<Longrightarrow>
    (hd_History db', c') = fold (insert_history today) (drop offset rows) (hd_History db, c)"
proof (induction "length rows - offset" arbitrary: offset c db rule: less_induct)
  case less
  show ?case
  proof (cases "length rows \<le> offset")
    case True
    then show ?thesis using less.prems by (simp add: snapshot_loop.simps [of b today attempts logs "length rows" offset])
  next
    case False
    obtain ok db1 n where p: "poll (batch_attempt b today offset) (attempts offset) (db, 0) = (ok, db1, n)" by (metis prod_cases3)
    have "ok" using less.prems False b p
      by (cases "ok") (simp_all add: snapshot_loop.simps [of b today attempts logs "length rows" offset] batchSync_def Let_def)
    define db2 where "db2 = snd (snd (batchSync b today attempts logs (length rows) offset db))"
    have db2: "hd_History db2 = hd_History db1" using p by (simp add: db2_def batchSync_def)
    have loop: "snapshot_loop b today attempts logs (length rows) (offset + b) (c + n) db2 = Inl (c', db')"
      using less.prems False b p \<open>ok\<close>
      by (simp add: snapshot_loop.simps [of b today attempts logs "length rows" offset] batchSync_def db2_def)
    have "(hd_History db', c') = fold (insert_history today) (drop (offset + b) rows) (hd_History db2, c + n)"
      using less.hyps [OF _ loop] False b by simp
    moreover have "(hd_History db1, n) = fold (insert_history today) (take b (drop offset rows)) (hd_History db, 0)"
      using poll_batch [OF orders, of b today offset offset db db1 n] p \<open>ok\<close> by simp
    then have "(hd_History db2, c + n) = fold (insert_history today) (take b (drop offset rows)) (hd_History db, c)"
      using db2 insert_count [of today "take b (drop offset rows)" "hd_History db" c] by (metis fst_conv snd_conv)
    moreover have "drop offset rows = take b (drop offset rows) @ drop (offset + b) rows"
      by (metis append_take_drop_id drop_drop add.commute)
    ultimately show ?thesis by (metis fold_append comp_apply)
  qed
qed


definition ex_compliance :: "string \<Rightarrow> string \<Rightarrow> history_row" where
  "ex_compliance p c = \<lparr>hr_Policy = p, hr_Cluster = c, hr_Hub = ''hub1'', hr_Compliance = ''compliant''\<rparr>"

definition ex_history :: history_db where
  "ex_history = \<lparr>hd_Compliance = [ex_compliance ''p2'' ''c1'', ex_compliance ''p1'' ''c2'', ex_compliance ''p1'' ''c1''],
     hd_History = [((''hub1'', ''p1'', ''c1'', 8), ''non_compliant'')], hd_Log = []\<rparr>"

definition ex_order :: "history_row list" where
  "ex_order = [ex_compliance ''p1'' ''c1'', ex_compliance ''p1'' ''c2'', ex_compliance ''p2'' ''c1'']"


end
