(* ===== verification/TimeParse.thy ===== *)
theory TimeParse
  imports GoStrings
begin

text \<open>
  The parsers for times of retention (\<^verbatim>\<open>pkg/utils/time.go\<close>): a number of months, and a duration in months and years with overflow checks on 64-bit
  words. The product of a fraction with its unit is computed in floating point; it is the argument \<open>frac\<close> of the digits after the point, how many of
  them count, and the unit.
\<close>

section \<open>Months\<close>

definition is_digit :: "char \<Rightarrow> bool" where
  "is_digit c \<longleftrightarrow> digit_val c \<noteq> None"

text \<open>The regular expression \<^verbatim>\<open>^[0-9][0-9my]*[m|y]$\<close>; in the last class, the bar is a character like the others.\<close>

definition retention_format :: "string \<Rightarrow> bool" where
  "retention_format s \<longleftrightarrow>
     2 \<le> length s \<and> is_digit (hd s) \<and> list_all (\<lambda>c. is_digit c \<or> c \<in> {CHR ''m'', CHR ''y''}) (butlast s) \<and>
     last s \<in> {CHR ''m'', CHR ''|'', CHR ''y''}"

text \<open>The leftmost match of \<^verbatim>\<open>(\d*)c\<close>: the digits right before the first \<^verbatim>\<open>c\<close>.\<close>

definition digits_before :: "char \<Rightarrow> string \<Rightarrow> string option" where
  "digits_before c s = (if c \<in> set s then Some (rev (takeWhile is_digit (rev (takeWhile (\<lambda>x. x \<noteq> c) s)))) else None)"

definition Atoi :: "string \<Rightarrow> int option" where
  "Atoi s = (case ParseInt s of (None, n) \<Rightarrow> Some n | (Some _, _) \<Rightarrow> None)"

definition retention_part :: "char \<Rightarrow> string \<Rightarrow> int option" where
  "retention_part c s = (case digits_before c s of None \<Rightarrow> Some 0 | Some ds \<Rightarrow> if ds = [] then None else Atoi ds)"

definition ParseRetentionMonth :: "string \<Rightarrow> int option" where
  "ParseRetentionMonth s =
     (if \<not> retention_format s then None
      else case retention_part (CHR ''y'') s of
             None \<Rightarrow> None
           | Some years \<Rightarrow> map_option (\<lambda>months. int64 (int64 (years * 12) + months)) (retention_part (CHR ''m'') s))"

section \<open>Durations\<close>

fun leadingInt :: "u64 \<Rightarrow> string \<Rightarrow> (u64 \<times> string) option" where
  "leadingInt x [] = Some (x, [])"
| "leadingInt x (c # cs) =
     (case digit_val c of
        None \<Rightarrow> Some (x, c # cs)
      | Some d \<Rightarrow>
          if 2 ^ 63 div 10 < x then None
          else let y = x * 10 + of_nat d in if 2 ^ 63 < y then None else leadingInt y cs)"

fun leadingFraction :: "bool \<Rightarrow> u64 \<Rightarrow> nat \<Rightarrow> string \<Rightarrow> u64 \<times> nat \<times> string" where
  "leadingFraction overflow x scale [] = (x, scale, [])"
| "leadingFraction overflow x scale (c # cs) =
     (case digit_val c of
        None \<Rightarrow> (x, scale, c # cs)
      | Some d \<Rightarrow>
          if overflow then leadingFraction True x scale cs
          else if (2 ^ 63 - 1) div 10 < x then leadingFraction True x scale cs
          else let y = x * 10 + of_nat d
               in if 2 ^ 63 < y then leadingFraction True x scale cs else leadingFraction False y (Suc scale) cs)"

definition unitMap :: "(string, u64) gomap" where
  "unitMap = [(''m'', 2592000000000000), (''y'', 31536000000000000)]"

datatype duration_error = InvalidDuration | MissingUnit | UnknownUnit string

definition is_unit_char :: "char \<Rightarrow> bool" where
  "is_unit_char c \<longleftrightarrow> c \<noteq> CHR ''.'' \<and> \<not> is_digit c"

text \<open>One turn of the loop: the value of the next number with its unit, and the rest of the text.\<close>

definition duration_segment :: "(u64 \<Rightarrow> nat \<Rightarrow> u64 \<Rightarrow> u64) \<Rightarrow> string \<Rightarrow> duration_error + u64 \<times> string" where
  "duration_segment frac s =
     (if \<not> (hd s = CHR ''.'' \<or> is_digit (hd s)) then Inl InvalidDuration
      else case leadingInt 0 s of
             None \<Rightarrow> Inl InvalidDuration
           | Some (v, s1) \<Rightarrow>
               let pre = (length s \<noteq> length s1);
                   dot = (s1 \<noteq> [] \<and> hd s1 = CHR ''.'');
                   (f, scale, s2) = (if dot then leadingFraction False 0 0 (tl s1) else (0, 0, s1));
                   post = (dot \<and> length (tl s1) \<noteq> length s2);
                   u = takeWhile is_unit_char s2;
                   rest = dropWhile is_unit_char s2
               in if \<not> pre \<and> \<not> post then Inl InvalidDuration
                  else if u = [] then Inl MissingUnit
                  else (case map_of unitMap u of
                          None \<Rightarrow> Inl (UnknownUnit u)
                        | Some unit \<Rightarrow>
                            if 2 ^ 63 div unit < v then Inl InvalidDuration
                            else let w = v * unit in
                              if 0 < f then (let w' = w + frac f scale unit in if 2 ^ 63 < w' then Inl InvalidDuration else Inr (w', rest))
                              else Inr (w, rest)))"

lemma leadingInt_length: "leadingInt x s = Some (v, s1) \<Longrightarrow> length s1 \<le> length s"
proof (induction x s rule: leadingInt.induct)
  case (2 x c cs)
  show ?case
  proof (cases "digit_val c")
    case (Some d)
    then show ?thesis using 2 by (fastforce simp: Let_def split: if_splits)
  qed (use 2 in simp)
qed simp

lemma leadingFraction_length: "leadingFraction b x n s = (f, m, s2) \<Longrightarrow> length s2 \<le> length s"
proof (induction b x n s rule: leadingFraction.induct)
  case (2 overflow x scale c cs)
  show ?case
  proof (cases "digit_val c")
    case (Some d)
    then show ?thesis using 2 by (fastforce simp: Let_def split: if_splits)
  qed (use 2 in simp)
qed simp

lemma duration_segment_shorter:
  assumes "duration_segment frac s = Inr (v, rest)"
  shows "length rest < length s"
proof -
  obtain w s1 where l: "leadingInt 0 s = Some (w, s1)"
    using assms by (auto simp: duration_segment_def split: if_splits option.splits)
  define dot where "dot = (s1 \<noteq> [] \<and> hd s1 = CHR ''.'')"
  obtain f n s2 where fr: "(if dot then leadingFraction False 0 0 (tl s1) else (0, 0, s1)) = (f, n, s2)" by (metis prod_cases3)
  have "length s2 \<le> length s1"
  proof (cases "dot")
    case True
    then show ?thesis using leadingFraction_length [of False 0 0 "tl s1" f n s2] fr by simp
  qed (use fr in simp)
  moreover have "length s1 \<le> length s" using leadingInt_length [OF l] .
  moreover have "rest = dropWhile is_unit_char s2" "takeWhile is_unit_char s2 \<noteq> []"
    using assms l fr unfolding dot_def by (auto simp: duration_segment_def Let_def split: if_splits option.splits)
  then have "length rest < length s2" by (metis append_self_conv2 le_neq_implies_less length_append length_dropWhile_le takeWhile_dropWhile_id append_eq_append_conv)
  ultimately show ?thesis by simp
qed

function duration_loop :: "(u64 \<Rightarrow> nat \<Rightarrow> u64 \<Rightarrow> u64) \<Rightarrow> u64 \<Rightarrow> string \<Rightarrow> duration_error + u64" where
  "duration_loop frac d s =
     (if s = [] then Inr d
      else case duration_segment frac s of
             Inl e \<Rightarrow> Inl e
           | Inr (v, rest) \<Rightarrow> let d' = d + v in if 2 ^ 63 < d' then Inl InvalidDuration else duration_loop frac d' rest)"
  by pat_completeness auto
termination
  by (relation "measure (\<lambda>(_, _, s). length s)") (auto dest: duration_segment_shorter)

declare duration_loop.simps [simp del]

definition ParseDuration :: "(u64 \<Rightarrow> nat \<Rightarrow> u64 \<Rightarrow> u64) \<Rightarrow> string \<Rightarrow> duration_error + int" where
  "ParseDuration frac orig =
     (let neg = (orig \<noteq> [] \<and> hd orig = CHR ''-'');
          s = (if orig \<noteq> [] \<and> (hd orig = CHR ''-'' \<or> hd orig = CHR ''+'') then tl orig else orig)
      in if s = ''0'' then Inr 0
         else if s = [] then Inl InvalidDuration
         else case duration_loop frac 0 s of
                Inl e \<Rightarrow> Inl e
              | Inr d \<Rightarrow>
                  if neg then Inr (int64 (- int64 (uint d)))
                  else if 2 ^ 63 - 1 < d then Inl InvalidDuration
                  else Inr (int64 (uint d)))"

section \<open>Months: reading back\<close>

lemma is_digit_dec: "c \<in> set (dec n) \<Longrightarrow> is_digit c"
  using dec_digits [of c n] by (auto simp: is_digit_def)

lemma not_digit [simp]: "\<not> is_digit CHR ''m''" "\<not> is_digit CHR ''y''" "\<not> is_digit CHR ''|''" "\<not> is_digit CHR ''.''"
  by (simp_all add: is_digit_def digit_val_def)

lemma takeWhile_digits: "takeWhile is_digit (rev (dec n) @ s) = rev (dec n) @ takeWhile is_digit s"
  by (rule takeWhile_append2) (simp add: is_digit_dec)

lemma takeWhile_until: "c \<notin> set s \<Longrightarrow> takeWhile (\<lambda>x. x \<noteq> c) (s @ c # t) = s"
  by (induction s) auto

lemma Atoi_dec: "n < 2 ^ 63 \<Longrightarrow> Atoi (dec n) = Some (int n)"
proof -
  assume n: "n < 2 ^ 63"
  obtain d where d: "d < 10" "hd (dec n) = digit_char d" using dec_digits [of "hd (dec n)" n] by auto
  have "hd (dec n) \<noteq> CHR ''-''" "hd (dec n) \<noteq> CHR ''+''"
    using d digit_val_char [of d] by (auto simp: digit_val_def)
  then show ?thesis using n ParseUint_dec [of n] by (simp add: Atoi_def ParseInt_def)
qed

lemma digits_before_dec:
  assumes "c \<notin> set p" "\<not> is_digit c" "p = [] \<or> \<not> is_digit (last p)"
  shows "digits_before c (p @ dec n @ c # q) = Some (dec n)"
proof -
  have "c \<notin> set (p @ dec n)" using assms(1,2) is_digit_dec [of c n] by auto
  then have "takeWhile (\<lambda>x. x \<noteq> c) (p @ dec n @ c # q) = p @ dec n" using takeWhile_until [of c "p @ dec n" q] by simp
  moreover have "takeWhile is_digit (rev p) = []" using assms(3) by (cases p rule: rev_cases) auto
  ultimately show ?thesis by (simp add: digits_before_def takeWhile_digits)
qed

lemma dec_format:
  assumes "\<And>c. c \<in> set s \<Longrightarrow> is_digit c \<or> c \<in> {CHR ''m'', CHR ''y''}" "u \<in> {CHR ''m'', CHR ''|'', CHR ''y''}"
  shows "retention_format (dec n @ s @ [u])"
proof -
  have "hd (dec n @ s @ [u]) = hd (dec n)" by (cases "dec n") (use dec_nonempty [of n] in auto)
  then have "is_digit (hd (dec n @ s @ [u]))" using is_digit_dec [of "hd (dec n)" n] by simp
  moreover have "butlast (dec n @ s @ [u]) = dec n @ s" by (metis append_assoc butlast_snoc)
  moreover have "last (dec n @ s @ [u]) = u" by simp
  moreover have "2 \<le> length (dec n @ s @ [u])" by (cases "dec n") (use dec_nonempty [of n] in auto)
  ultimately show ?thesis using assms is_digit_dec by (auto simp: retention_format_def list_all_iff)
qed

text \<open>
  A retention written as years and months, as years or as months is read as that number of months, as long as it fits into 64 bits.
\<close>

theorem retention_months_roundtrip:
  assumes "12 * y + m < 2 ^ 63"
  shows "ParseRetentionMonth (dec y @ ''y'' @ dec m @ ''m'') = Some (int (12 * y + m)) \<and>
         ParseRetentionMonth (dec y @ ''y'') = Some (int (12 * y)) \<and>
         ParseRetentionMonth (dec m @ ''m'') = Some (int m)"
proof -
  have bounds: "y < 2 ^ 63" "m < 2 ^ 63" "in_int64 (int y * 12)" "in_int64 (int y * 12 + int m)"
    using assms by (simp_all add: in_int64_def)
  have no: "CHR ''m'' \<notin> set (dec n)" "CHR ''y'' \<notin> set (dec n)" for n using is_digit_dec not_digit by blast+
  have ym: "retention_format (dec y @ ''y'' @ dec m @ ''m'')"
    using dec_format [of "CHR ''y'' # dec m" "CHR ''m''" y] is_digit_dec by auto
  have f: "retention_format (dec n @ [u])" if "u \<in> {CHR ''m'', CHR ''y''}" for n u using dec_format [of "[]" u n] that by auto
  have y1: "digits_before CHR ''y'' (dec y @ ''y'' @ s) = Some (dec y)" for s
    using digits_before_dec [of "CHR ''y''" "[]" y s] by simp
  have m1: "digits_before CHR ''m'' (dec y @ ''y'' @ dec m @ ''m'') = Some (dec m)"
    using digits_before_dec [of "CHR ''m''" "dec y @ ''y''" m "[]"] no by simp
  have m2: "digits_before CHR ''m'' (dec m @ ''m'') = Some (dec m)"
    using digits_before_dec [of "CHR ''m''" "[]" m "[]"] by simp
  have none: "digits_before CHR ''m'' (dec y @ ''y'') = None" "digits_before CHR ''y'' (dec m @ ''m'') = None"
    using no by (simp_all add: digits_before_def)
  have "ParseRetentionMonth (dec y @ ''y'' @ dec m @ ''m'') = Some (int (12 * y + m))"
    unfolding ParseRetentionMonth_def retention_part_def m1 y1 [of "dec m @ ''m''"]
    using ym bounds by (simp add: Atoi_dec mult.commute)
  moreover have "ParseRetentionMonth (dec y @ ''y'') = Some (int (12 * y))"
    unfolding ParseRetentionMonth_def retention_part_def none y1 [of "[]", simplified]
    using f [of "CHR ''y''" y] bounds by (simp add: Atoi_dec mult.commute)
  moreover have "ParseRetentionMonth (dec m @ ''m'') = Some (int m)"
    unfolding ParseRetentionMonth_def retention_part_def none m2
    using f [of "CHR ''m''" m] bounds by (simp add: Atoi_dec in_int64_def)
  ultimately show ?thesis by blast
qed

theorem retention_months_roundtrip_witness: "ParseRetentionMonth ''1y6m'' = Some 18"
proof -
  have "dec 1 = ''1''" "dec 6 = ''6''" by code_simp+
  then show ?thesis using retention_months_roundtrip [of 1 6] by simp
qed

text \<open>A number that ends with a bar is accepted and means no retention at all.\<close>

lemma retention_bar: "ParseRetentionMonth (dec n @ ''|'') = Some 0"
proof -
  have "CHR ''m'' \<notin> set (dec n)" "CHR ''y'' \<notin> set (dec n)" using is_digit_dec not_digit by blast+
  moreover have "retention_format (dec n @ ''|'')" using dec_format [of "[]" "CHR ''|''" n] by simp
  ultimately show ?thesis by (simp add: ParseRetentionMonth_def retention_part_def digits_before_def int64_id in_int64_def)
qed

section \<open>Durations: exact up to the bound\<close>

lemma parse_digits_mono: "parse_digits mx a s = Inr y \<Longrightarrow> mx \<le> mx' \<Longrightarrow> parse_digits mx' a s = Inr y"
  by (induction s arbitrary: a) (auto split: option.splits if_splits)

lemma parse_digits_dec_iff: "parse_digits mx 0 (dec n) = Inr y \<longleftrightarrow> n \<le> mx \<and> y = n"
proof
  assume a: "parse_digits mx 0 (dec n) = Inr y"
  have "parse_digits (max mx n) 0 (dec n) = Inr y" using parse_digits_mono [OF a] by simp
  then have "y = n" using parse_digits_dec [of n "max mx n"] by simp
  then show "n \<le> mx \<and> y = n" using parse_digits_bound [OF a] by simp
qed (simp add: parse_digits_dec)

lemma less_of_nat: "m < 2 ^ 64 \<Longrightarrow> n < 2 ^ 64 \<Longrightarrow> (of_nat m :: u64) < of_nat n \<longleftrightarrow> m < n"
  by (simp add: word_less_nat_alt unsigned_of_nat take_bit_nat_eq_self)

lemma leadingInt_digits:
  assumes "list_all is_digit ds" "rest = [] \<or> \<not> is_digit (hd rest)" "x \<le> 2 ^ 63"
  shows "leadingInt (of_nat x) (ds @ rest) = (case parse_digits (2 ^ 63) x ds of Inr y \<Rightarrow> Some (of_nat y, rest) | Inl _ \<Rightarrow> None)"
  using assms
proof (induction ds arbitrary: x)
  case Nil
  then show ?case by (cases rest) (auto simp: is_digit_def)
next
  case (Cons c ds)
  then obtain d where d: "digit_val c = Some d" "d < 10" using digit_val_lt by (auto simp: is_digit_def)
  have first: "2 ^ 63 div 10 < (of_nat x :: u64) \<longleftrightarrow> 2 ^ 63 div 10 < x"
    using less_of_nat [of "2 ^ 63 div 10" x] Cons.prems(3) by simp
  show ?case
  proof (cases "2 ^ 63 div 10 < x")
    case True
    then have "2 ^ 63 < x * 10 + d" by simp
    then show ?thesis using d first True by simp
  next
    case False
    then have small: "x * 10 + d < 2 ^ 64" using d(2) by simp
    have "(of_nat x * 10 + of_nat d :: u64) = of_nat (x * 10 + d)" by simp
    moreover have "2 ^ 63 < (of_nat (x * 10 + d) :: u64) \<longleftrightarrow> 2 ^ 63 < x * 10 + d"
      using less_of_nat [of "2 ^ 63" "x * 10 + d"] small by simp
    moreover have "list_all is_digit ds" using Cons.prems(1) by simp
    note Cons.IH [OF this Cons.prems(2), of "x * 10 + d"]
    ultimately show ?thesis using d(1) first False by (simp add: Let_def del: of_nat_add of_nat_mult)
  qed
qed

definition unit_value :: "bool \<Rightarrow> nat" where
  "unit_value years = (if years then 31536000000000000 else 2592000000000000)"

definition unit_name :: "bool \<Rightarrow> string" where
  "unit_name years = (if years then ''y'' else ''m'')"

fun duration_text :: "(nat \<times> bool) list \<Rightarrow> string" where
  "duration_text [] = []"
| "duration_text ((n, years) # segs) = dec n @ unit_name years @ duration_text segs"

definition duration_total :: "(nat \<times> bool) list \<Rightarrow> nat" where
  "duration_total segs = (\<Sum>(n, years) \<leftarrow> segs. n * unit_value years)"

lemma duration_text_start: "duration_text segs = [] \<or> is_digit (hd (duration_text segs))"
proof (cases segs)
  case (Cons a segs')
  then show ?thesis using is_digit_dec [of "hd (dec (fst a))" "fst a"] by (cases a) simp
qed simp

lemma unit_division: "n \<le> 2 ^ 63 div unit_value y \<longleftrightarrow> n * unit_value y < 2 ^ 63"
  by (cases y; simp add: unit_value_def; linarith)

lemma unit_above: "\<not> n * unit_value y < 2 ^ 63 \<Longrightarrow> 2 ^ 63 < n * unit_value y"
  unfolding unit_division [symmetric] by (cases y; simp add: unit_value_def)

lemma duration_segment_dec:
  assumes "s = [] \<or> is_digit (hd s)"
  shows "duration_segment frac (dec n @ unit_name y @ s) =
    (if n * unit_value y < 2 ^ 63 then Inr (of_nat (n * unit_value y), s) else Inl InvalidDuration)"
proof -
  let ?t = "dec n @ unit_name y @ s"
  have u: "\<not> is_digit (hd (unit_name y @ s))" "hd (unit_name y @ s) \<noteq> CHR ''.''" "unit_name y @ s \<noteq> []"
    by (simp_all add: unit_name_def)
  have "is_digit (hd ?t)" using is_digit_dec [of "hd (dec n)" n] by simp
  moreover have "list_all is_digit (dec n)" by (simp add: list_all_iff is_digit_dec)
  then have "leadingInt 0 ?t = (case parse_digits (2 ^ 63) 0 (dec n) of Inr z \<Rightarrow> Some (of_nat z, unit_name y @ s) | Inl _ \<Rightarrow> None)"
    using leadingInt_digits [of "dec n" "unit_name y @ s" 0] u by simp
  then have int: "leadingInt 0 ?t = (if n \<le> 2 ^ 63 then Some (of_nat n, unit_name y @ s) else None)"
  proof (cases "n \<le> 2 ^ 63")
    case True
    then show ?thesis using \<open>leadingInt 0 ?t = _\<close> parse_digits_dec [OF True] by (simp only: sum.case if_True)
  next
    case False
    then obtain e where "parse_digits (2 ^ 63) 0 (dec n) = Inl e"
      using parse_digits_dec_iff [of "2 ^ 63" n] by (cases "parse_digits (2 ^ 63) 0 (dec n)") auto
    then show ?thesis using \<open>leadingInt 0 ?t = _\<close> False by (simp only: sum.case if_False)
  qed
  have unit: "takeWhile is_unit_char (unit_name y @ s) = unit_name y" "dropWhile is_unit_char (unit_name y @ s) = s"
    using assms by (cases s; auto simp: unit_name_def is_unit_char_def)+
  have map: "map_of unitMap (unit_name y) = Some (of_nat (unit_value y))"
    by (simp add: unitMap_def unit_name_def unit_value_def)
  have div: "2 ^ 63 div (of_nat (unit_value y) :: u64) = of_nat (2 ^ 63 div unit_value y)"
    by (simp add: unit_value_def)
  show ?thesis
  proof (cases "n \<le> 2 ^ 63")
    case True
    have "2 ^ 63 div (of_nat (unit_value y) :: u64) < of_nat n \<longleftrightarrow> 2 ^ 63 div unit_value y < n"
      unfolding div using less_of_nat [of "2 ^ 63 div unit_value y" n] True by (simp add: unit_value_def)
    then have "2 ^ 63 div (of_nat (unit_value y) :: u64) < of_nat n \<longleftrightarrow> \<not> n * unit_value y < 2 ^ 63"
      using unit_division [of n y] by linarith
    then show ?thesis using \<open>is_digit (hd ?t)\<close> int True u unit map
      by (simp add: duration_segment_def Let_def unit_name_def split: if_splits)
  next
    case False
    then have "\<not> n * unit_value y < 2 ^ 63" by (simp add: unit_value_def)
    then show ?thesis using \<open>is_digit (hd ?t)\<close> int False by (simp add: duration_segment_def)
  qed
qed

lemma duration_loop_text:
  "d \<le> 2 ^ 63 \<Longrightarrow> duration_loop frac (of_nat d) (duration_text segs) =
     (if d + duration_total segs \<le> 2 ^ 63 then Inr (of_nat (d + duration_total segs)) else Inl InvalidDuration)"
proof (induction segs arbitrary: d)
  case Nil
  then show ?case by (simp add: duration_loop.simps duration_total_def)
next
  case (Cons a segs)
  obtain n y where a: "a = (n, y)" by force
  let ?v = "n * unit_value y"
  have total: "duration_total (a # segs) = ?v + duration_total segs" by (simp add: duration_total_def a)
  have seg: "duration_segment frac (duration_text (a # segs)) = (if ?v < 2 ^ 63 then Inr (of_nat ?v, duration_text segs) else Inl InvalidDuration)"
    using duration_segment_dec [OF duration_text_start] by (simp add: a)
  have ne: "duration_text (a # segs) \<noteq> []" by (simp add: a)
  show ?case
  proof (cases "?v < 2 ^ 63")
    case True
    then have sum: "d + ?v < 2 ^ 64" using Cons.prems by simp
    have word: "(of_nat d + of_nat ?v :: u64) = of_nat (d + ?v)" by (simp only: of_nat_add)
    have over: "2 ^ 63 < (of_nat (d + ?v) :: u64) \<longleftrightarrow> 2 ^ 63 < d + ?v" using less_of_nat [of "2 ^ 63" "d + ?v"] sum by simp
    have loop: "duration_loop frac (of_nat d) (duration_text (a # segs)) =
        (if 2 ^ 63 < d + ?v then Inl InvalidDuration else duration_loop frac (of_nat (d + ?v)) (duration_text segs))"
      unfolding duration_loop.simps [of frac "of_nat d" "duration_text (a # segs)"] seg
      using ne True by (simp only: if_False if_True sum.case prod.case Let_def word over)
    show ?thesis
    proof (cases "2 ^ 63 < d + ?v")
      case True
      then show ?thesis unfolding loop total by simp
    next
      case False
      then have "d + ?v \<le> 2 ^ 63" by simp
      from Cons.IH [OF this] show ?thesis unfolding loop total using False by (simp add: add.assoc del: of_nat_add of_nat_mult)
    qed
  next
    case False
    then have "\<not> d + duration_total (a # segs) \<le> 2 ^ 63"
      using unit_above [of n y] total by linarith
    then show ?thesis using seg False ne by (simp add: duration_loop.simps [of frac "of_nat d"])
  qed
qed

text \<open>
  C26: A duration of whole months and years, in any number and order, is read exactly, with a sign or without, as long as it fits into 64 bits, and is
  refused otherwise: none of the intermediate words wraps around.
\<close>

theorem duration_exact_or_refused:
  assumes "segs \<noteq> []"
  shows "ParseDuration frac (duration_text segs) =
           (if duration_total segs < 2 ^ 63 then Inr (int (duration_total segs)) else Inl InvalidDuration) \<and>
         ParseDuration frac (''-'' @ duration_text segs) =
           (if duration_total segs \<le> 2 ^ 63 then Inr (- int (duration_total segs)) else Inl InvalidDuration)"
proof -
  let ?s = "duration_text segs" and ?n = "duration_total segs"
  have loop: "duration_loop frac 0 ?s = (if ?n \<le> 2 ^ 63 then Inr (of_nat ?n) else Inl InvalidDuration)"
    using duration_loop_text [of 0 frac segs] by simp
  obtain n y segs' where segs: "segs = (n, y) # segs'" using assms by (cases segs) auto
  have ne: "?s \<noteq> []" "is_digit (hd ?s)" using duration_text_start [of segs] by (auto simp: segs)
  have sign: "hd ?s \<noteq> CHR ''-''" "hd ?s \<noteq> CHR ''+''" using ne(2) by (auto simp: is_digit_def digit_val_def)
  have zero: "?s \<noteq> ''0''"
  proof
    assume "?s = ''0''"
    then have "\<forall>c \<in> set (unit_name y). is_digit c" by (auto simp: segs is_digit_def digit_val_def append_eq_Cons_conv)
    then show False by (cases y) (simp_all add: unit_name_def)
  qed
  have word: "uint (of_nat ?n :: u64) = int ?n" "2 ^ 63 - 1 < (of_nat ?n :: u64) \<longleftrightarrow> ?n = 2 ^ 63" if "?n \<le> 2 ^ 63"
    using that less_of_nat [of "2 ^ 63 - 1" ?n] by (auto simp: unsigned_of_nat take_bit_nat_eq_self)
  have "ParseDuration frac ?s = (if ?n < 2 ^ 63 then Inr (int ?n) else Inl InvalidDuration)"
  proof (cases "?n \<le> 2 ^ 63")
    case True
    then show ?thesis using ne zero sign loop word by (auto simp: ParseDuration_def Let_def in_int64_def)
  next
    case False
    then show ?thesis using ne zero sign loop by (simp add: ParseDuration_def Let_def)
  qed
  moreover have "int64 (- int64 (int ?n)) = - int ?n" if "?n \<le> 2 ^ 63"
  proof (cases "?n = 2 ^ 63")
    case True
    then show ?thesis by (simp add: int64_def)
  next
    case False
    then show ?thesis using that by (simp add: in_int64_def)
  qed
  then have "ParseDuration frac (''-'' @ ?s) = (if ?n \<le> 2 ^ 63 then Inr (- int ?n) else Inl InvalidDuration)"
    using ne zero loop word by (simp add: ParseDuration_def Let_def)
  ultimately show ?thesis by blast
qed

theorem duration_exact_or_refused_witness:
  "ParseDuration (\<lambda>_ _ _. 0) ''4m5y'' = Inr 168048000000000000 \<and> ParseDuration (\<lambda>_ _ _. 0) ''200y100y'' = Inl InvalidDuration"
proof -
  have "duration_text [(4, False), (5, True)] = ''4m5y''" "duration_text [(200, True), (100, True)] = ''200y100y''" by code_simp+
  moreover have "duration_total [(4, False), (5, True)] = 168048000000000000" "\<not> duration_total [(200, True), (100, True)] < 2 ^ 63"
    by (simp_all add: duration_total_def unit_value_def)
  ultimately show ?thesis
    using duration_exact_or_refused [of "[(4, False), (5, True)]" "\<lambda>_ _ _. 0"] duration_exact_or_refused [of "[(200, True), (100, True)]" "\<lambda>_ _ _. 0"] by simp
qed

end
