(* ===== verification/Spec2Isabelle.thy ===== *)
theory Spec2Isabelle
  imports Restart PipelineProps Transport ComplianceSync StatusSync AgentProps AgentBundle AgentPolicy
    AgentLabels Retention Migration AgentEvents RestList OperatorMeta History TimeParse
begin

text \<open>
  A verification development of the multicluster global hub: a manager that keeps the state of many hubs in one database, an agent on every hub
  that reports the hub's objects and applies what the manager sends, and an operator that installs both. All of it is Go code under
  \<^verbatim>\<open>src/\<close>; file names below are relative to that directory.

  \<^bold>\<open>How the parts interact.\<close> An agent watches the objects of its hub, keeps bundles of them and sends the bundles with versions as cloud events over
  Kafka. The manager assembles the events, keeps for every hub and type only the newest one, hands them by priority and dependency to workers
  that write them to the database, and records the offsets that are safe to commit. In the other direction the manager reads rows of
  specifications and label requests from the database, sends them as bundles, and the agents apply them with a pool of workers. Migrations of
  clusters between hubs use both directions. Scheduled jobs expire hubs and data, a REST interface lists and patches what is stored, and the operator keeps
  the readiness of the installation and removes it.

  \<^bold>\<open>Conventions\<close> (\<^verbatim>\<open>Prelude\<close>, \<^verbatim>\<open>GoStrings\<close>). Structs are records, enums datatypes, Go maps association lists with distinct keys
  (\<open>gomap\<close>, lookups by the collection \<open>go_map\<close>), \<^verbatim>\<open>uint64\<close> is \<open>64 word\<close>, and signed arithmetic that may wrap is written out by \<open>int64\<close>. A
  panic is \<^const>\<open>None\<close>, an error a value of a datatype or a sum. A loop is a recursion with a proof of its end; a polling loop takes its attempts as
  a list. Concurrency is a step relation or a fold over a list of choices, so that theorems about all schedules quantify over all lists.

  \<^bold>\<open>The manager's status path.\<close>
  \<^item> \<^verbatim>\<open>Version\<close>, \<^verbatim>\<open>Metadata\<close>: \<^verbatim>\<open>pkg/bundle/version\<close> and \<^verbatim>\<open>manager/pkg/status/conflator/metadata\<close>; versions are a linear order, and their text is read back.
  \<^item> \<^verbatim>\<open>ConflationUnit\<close>, \<^verbatim>\<open>ConflationUnitInv\<close>, \<^verbatim>\<open>ConflationManager\<close>, \<^verbatim>\<open>Statistics\<close>, \<^verbatim>\<open>Registration\<close>: \<^verbatim>\<open>manager/pkg/status/conflator\<close> and the registrations of
    \<^verbatim>\<open>manager/pkg/status/handlers\<close>. The invariant \<open>wf_cu\<close> says that a unit has its elements in the order of the priorities; \<open>evolves\<close> is what every operation keeps.
  \<^item> \<^verbatim>\<open>Pipeline\<close>, \<^verbatim>\<open>PipelineInv\<close>, \<^verbatim>\<open>PipelineProps\<close>: dispatchers and workers as the step relation \<open>step\<close>; the invariant is proved by rule induction over \<open>reachable\<close>
    and gives that no interleaving panics, runs two jobs for one element or overfills the ready queue, that inserting refines \<open>newest version
    wins\<close>, and the two ways in which a unit gets stuck.
  \<^item> \<^verbatim>\<open>Committer\<close>, \<^verbatim>\<open>Restart\<close>: the committer of offsets and the positions that a restarted consumer reads.
  \<^item> \<^verbatim>\<open>Transport\<close>: chunking, reassembly and failure counting of \<^verbatim>\<open>pkg/transport\<close>.
  \<^item> \<^verbatim>\<open>Database\<close>, \<^verbatim>\<open>HubSync\<close>, \<^verbatim>\<open>Compliance\<close>, \<^verbatim>\<open>ComplianceProps\<close>, \<^verbatim>\<open>ComplianceSync\<close>, \<^verbatim>\<open>StatusHandlers\<close>, \<^verbatim>\<open>StatusSync\<close>: the handlers that write to the database. A table is
    a record of queries with the laws \<open>table_laws\<close> over the set of its rows. The locale \<open>hub_sync\<close> is the contract of a handler that makes the rows of a hub
    those of its bundle; failed attempts keep it, so that retries converge. It is interpreted on the global, local and minimal compliance handlers and
    on managed clusters.

  \<^bold>\<open>The agent's status path.\<close>
  \<^item> \<^verbatim>\<open>AgentEmitter\<close>, \<^verbatim>\<open>AgentHandlers\<close>, \<^verbatim>\<open>AgentSyncer\<close>: \<^verbatim>\<open>agent/pkg/status/generic\<close>, \<^verbatim>\<open>filter\<close> and the policy handlers. Versions live in a store, as two emitters share one.
  \<^item> \<^verbatim>\<open>AgentProps\<close>: what an emitter sends is accepted by the manager's conflation; \<^verbatim>\<open>AgentBundle\<close>: the compliance of a hub arrives in the database, from
    any history of policies; \<^verbatim>\<open>AgentPolicy\<close>: the launch of the six policy emitters, and that a complete bundle names the compliance bundle that was sent
    (positions 1 and 4 of the list of emitters).
  \<^item> \<^verbatim>\<open>AgentEvents\<close>: the other syncers of \<^verbatim>\<open>agent/pkg/status/syncers\<close>. The locale \<open>filtered_handler\<close> is the contract of a handler with a time filter, interpreted
    on the handlers for root policies and managed clusters.

  \<^bold>\<open>From the manager to the hubs.\<close>
  \<^item> \<^verbatim>\<open>LabelPatch\<close>, \<^verbatim>\<open>LabelSync\<close>, \<^verbatim>\<open>AgentLabels\<close>: labels of clusters, from the PATCH request (\<^verbatim>\<open>manager/pkg/restapis/managedclusters/patch.go\<close>) to the cluster on its hub.
  \<^item> \<^verbatim>\<open>SpecPath\<close>, \<^verbatim>\<open>AgentSpec\<close>: specifications, from \<^verbatim>\<open>manager/pkg/spec\<close> to \<^verbatim>\<open>agent/pkg/spec\<close>, with the worker pool as a transition system.
  \<^item> \<^verbatim>\<open>AgentMigration\<close>, \<^verbatim>\<open>Migration\<close>: both agent syncers of a migration and the controller.

  \<^bold>\<open>Jobs, REST interface and operator.\<close>
  \<^item> \<^verbatim>\<open>HubManagement\<close>, \<^verbatim>\<open>Retention\<close>, \<^verbatim>\<open>History\<close>: \<^verbatim>\<open>manager/pkg/processes\<close>; \<^verbatim>\<open>TimeParse\<close>: the parsers of \<^verbatim>\<open>pkg/utils/time.go\<close>.
  \<^item> \<^verbatim>\<open>RestList\<close>: selectors, paging and watching of \<^verbatim>\<open>manager/pkg/restapis\<close>; the text of an SQL condition is the condition it stands for.
  \<^item> \<^verbatim>\<open>OperatorStatus\<close>, \<^verbatim>\<open>OperatorMeta\<close>: \<^verbatim>\<open>operator/pkg/config/status.go\<close>, \<^verbatim>\<open>operator/pkg/controllers/meta.go\<close> and \<^verbatim>\<open>pkg/jobs\<close>.

  \<^bold>\<open>Parameters and hypotheses.\<close> The API server, PostgreSQL, Kafka, JSON and base64 are arguments, as records of operations on a state. What the code relies on
  is a named predicate: \<open>table_laws\<close>, \<open>hub_laws\<close>, \<open>retention_laws\<close>, \<open>spec_table_laws\<close>, \<open>from_laws\<close>, \<open>to_laws\<close>, \<open>status_laws\<close>, \<open>prune_laws\<close> and others; each says what an operation
  that reports success leaves, and that one which fails changes nothing where this is documented. A witness instantiates each of them with a store in
  memory. Tables are compared by the set of their rows, strings byte by byte.

  \<^bold>\<open>Bounds.\<close> Theorems about versions and counters that must not wrap assume fewer than 2 to the 64 updates. Months of partitions are below 120000, as the name of a partition
  has four digits of the year. A conflict is retried 4 times (\<^verbatim>\<open>retry.DefaultBackoff\<close>) or 5 times (\<^verbatim>\<open>retry.DefaultRetry\<close>). The client of \<open>all_pages\<close> has a number of
  requests; one more than there are rows is proved to be enough. The batch size of the history and the pool size are arguments that have to be positive.

  \<^bold>\<open>Not modelled.\<close> The controllers of the operator besides the meta controller, which render manifests (next in the plan: agent, transport and storage controllers, certificates), the security
  syncer of the agent, which polls another product, start-up, flags, logging and webhooks, database connections and migrations, the transport controller that recreates
  clients, and the rendering of lists as tables. They are mostly calls of libraries; their state is that of the API server.
\<close>

end
